(* ===== verification/Prelude.thy ===== *)
theory Prelude
  imports Main "HOL-Library.Monad_Syntax" "HOL-Library.Char_ord" "HOL-Library.List_Lexorder"
begin

text \<open>
  Shared base of the development: the pieces of the Rust standard library that the code
  generator uses (decimal formatting, string joining and searching, line splitting, ordered
  maps), the two width casts on counters, and lemmas about the \<open>option\<close> monad in which
  the operations are written (\<open>None\<close> is a Rust panic).

  Rust strings are modelled as \<open>string\<close>, lists of characters with code points below
  256; everything the generator itself writes is ASCII.
\<close>

section \<open>Collections of rewrite and introduction rules\<close>

named_theorems opt_simps \<open>unfolding rules for do-blocks over option\<close>
named_theorems cx_simps \<open>rewrite rules for the fields of the codegen context\<close>
named_theorems op_defs \<open>definitions of the builder operations\<close>
named_theorems grows_intros \<open>introduction rules: an operation only extends the context\<close>

lemma bind_Some_iff [opt_simps]:
  "(Option.bind m f = Some y) = (\<exists>x. m = Some x \<and> f x = Some y)"
  by (cases m) auto

lemma bind_None_iff:
  "(Option.bind m f = None) = (m = None \<or> (\<exists>x. m = Some x \<and> f x = None))"
  by (cases m) auto

section \<open>Width casts of counters\<close>

text \<open>\<open>x as u32\<close> and \<open>x as u64\<close> on a non-negative value: the low bits.\<close>

definition as_u32 :: "nat \<Rightarrow> nat" where
  "as_u32 n = n mod 2 ^ 32"

definition as_u64 :: "nat \<Rightarrow> nat" where
  "as_u64 n = n mod 2 ^ 64"

definition u32_MAX :: nat where
  "u32_MAX = 2 ^ 32 - 1"

definition u64_MAX :: nat where
  "u64_MAX = 2 ^ 64 - 1"

lemma as_u32_small [simp]: "n < 2 ^ 32 \<Longrightarrow> as_u32 n = n"
  by (simp add: as_u32_def)

lemma as_u32_less: "as_u32 n < 2 ^ 32"
  by (simp add: as_u32_def)

section \<open>Decimal formatting\<close>

text \<open>\<open>format!("{n}")\<close> of an unsigned and of a signed integer.\<close>

definition digit :: "nat \<Rightarrow> char" where
  "digit d = ''0123456789'' ! d"

fun nat_str :: "nat \<Rightarrow> string" where
  "nat_str n = (if n < 10 then [digit n] else nat_str (n div 10) @ [digit (n mod 10)])"

declare nat_str.simps [simp del]

definition int_str :: "int \<Rightarrow> string" where
  "int_str i = (if i < 0 then ''-'' @ nat_str (nat (- i)) else nat_str (nat i))"

text \<open>The reader that inverts the formatting.\<close>

definition digit_val :: "char \<Rightarrow> nat option" where
  "digit_val c = (let d = of_char c in if 48 \<le> d \<and> d \<le> 57 then Some (d - 48) else None)"

abbreviation is_digit :: "char \<Rightarrow> bool" where
  "is_digit c \<equiv> digit_val c \<noteq> None"

fun read_nat_acc :: "nat \<Rightarrow> string \<Rightarrow> nat option" where
  "read_nat_acc a [] = Some a"
| "read_nat_acc a (c # cs) =
     (case digit_val c of None \<Rightarrow> None | Some d \<Rightarrow> read_nat_acc (10 * a + d) cs)"

definition read_nat :: "string \<Rightarrow> nat option" where
  "read_nat s = (if s = [] then None else read_nat_acc 0 s)"

lemma less_10_cases: "(d::nat) < 10 \<Longrightarrow>
    d = 0 \<or> d = 1 \<or> d = 2 \<or> d = 3 \<or> d = 4 \<or> d = 5 \<or> d = 6 \<or> d = 7 \<or> d = 8 \<or> d = 9"
  by arith

lemma digit_val_digit [simp]: "d < 10 \<Longrightarrow> digit_val (digit d) = Some d"
  by (drule less_10_cases) (elim disjE; simp add: digit_def digit_val_def)

lemma nat_str_nonempty [simp]: "nat_str n \<noteq> []"
  by (subst nat_str.simps) simp

lemma read_nat_acc_append:
  "read_nat_acc a (xs @ ys) = Option.bind (read_nat_acc a xs) (\<lambda>b. read_nat_acc b ys)"
  by (induction xs arbitrary: a) (auto split: option.splits)

lemma read_nat_acc_nat_str: "read_nat_acc 0 (nat_str n) = Some n"
proof (induction n rule: nat_str.induct)
  case (1 n)
  then show ?case
    by (subst nat_str.simps) (auto simp: read_nat_acc_append)
qed

lemma read_nat_nat_str [simp]: "read_nat (nat_str n) = Some n"
  by (simp add: read_nat_def read_nat_acc_nat_str)

lemma nat_str_inject [simp]: "nat_str m = nat_str n \<longleftrightarrow> m = n"
  by (metis option.inject read_nat_nat_str)

lemma nat_str_digits: "c \<in> set (nat_str n) \<Longrightarrow> is_digit c"
proof (induction n rule: nat_str.induct)
  case (1 n)
  show ?case
  proof (cases "n < 10")
    case True
    with "1.prems" show ?thesis by (subst (asm) nat_str.simps) auto
  next
    case False
    with "1.prems" have "c \<in> set (nat_str (n div 10)) \<or> c = digit (n mod 10)"
      by (subst (asm) nat_str.simps) auto
    with "1.IH" False show ?thesis by auto
  qed
qed

section \<open>Strings\<close>

abbreviation nl :: char where
  "nl \<equiv> CHR 0x0A"

abbreviation dquote :: char where
  "dquote \<equiv> CHR 0x22"

text \<open>\<open>xs.join(sep)\<close> on a vector of strings.\<close>

fun join :: "string \<Rightarrow> string list \<Rightarrow> string" where
  "join sep [] = []"
| "join sep [x] = x"
| "join sep (x # y # zs) = x @ sep @ join sep (y # zs)"

text \<open>\<open>s.contains(pat)\<close> with a string pattern.\<close>

fun str_contains :: "string \<Rightarrow> string \<Rightarrow> bool" where
  "str_contains [] pat = (pat = [])"
| "str_contains (c # cs) pat = (take (length pat) (c # cs) = pat \<or> str_contains cs pat)"

text \<open>\<open>s.find(c)\<close>: the position of the first occurrence.\<close>

fun str_find :: "char \<Rightarrow> string \<Rightarrow> nat option" where
  "str_find c [] = None"
| "str_find c (d # ds) = (if d = c then Some 0 else map_option Suc (str_find c ds))"

text \<open>\<open>char::is_whitespace\<close> for code points below 256.\<close>

definition is_whitespace :: "char \<Rightarrow> bool" where
  "is_whitespace c =
     (let n = (of_char c :: nat) in (9 \<le> n \<and> n \<le> 13) \<or> n = 32 \<or> n = 133 \<or> n = 160)"

text \<open>\<open>s.rfind(p)\<close> with a character predicate: the position of the last match.\<close>

fun str_rfind :: "(char \<Rightarrow> bool) \<Rightarrow> string \<Rightarrow> nat option" where
  "str_rfind p [] = None"
| "str_rfind p (c # cs) =
     (case str_rfind p cs of Some i \<Rightarrow> Some (Suc i)
      | None \<Rightarrow> if p c then Some 0 else None)"

definition trim :: "string \<Rightarrow> string" where
  "trim s = rev (dropWhile is_whitespace (rev (dropWhile is_whitespace s)))"

text \<open>\<open>s.split(c).count()\<close>: one more than the number of separators.\<close>

definition split_count :: "char \<Rightarrow> string \<Rightarrow> nat" where
  "split_count c s = Suc (count_list s c)"

text \<open>
  \<open>s.lines()\<close>: the string is cut after every newline; a line loses its newline and, if it
  had one, a carriage return right before it; no empty line is produced at the end.
\<close>

fun split_inclusive :: "string \<Rightarrow> string list" where
  "split_inclusive [] = []"
| "split_inclusive (c # cs) =
     (if c = nl then [c] # split_inclusive cs
      else case split_inclusive cs of [] \<Rightarrow> [[c]] | l # ls \<Rightarrow> (c # l) # ls)"

definition strip_line :: "string \<Rightarrow> string" where
  "strip_line l =
     (if l \<noteq> [] \<and> last l = nl then
        (let m = butlast l in if m \<noteq> [] \<and> last m = CHR 0x0D then butlast m else m)
      else l)"

definition str_lines :: "string \<Rightarrow> string list" where
  "str_lines s = map strip_line (split_inclusive s)"

lemma join_map_Cons: "join sep (x # xs) = x @ concat (map ((@) sep) xs)"
  by (induction xs arbitrary: x) auto

section \<open>Ordered maps\<close>

text \<open>
  \<open>BTreeMap\<close> as the association list of its entries in key order. Iteration is the list
  itself, which is why the order is part of the model.
\<close>

type_synonym ('k, 'v) btree = "('k \<times> 'v) list"

fun bt_insert :: "'k::linorder \<Rightarrow> 'v \<Rightarrow> ('k, 'v) btree \<Rightarrow> ('k, 'v) btree" where
  "bt_insert k v [] = [(k, v)]"
| "bt_insert k v ((k', v') # m) =
     (if k < k' then (k, v) # (k', v') # m
      else if k = k' then (k, v) # m
      else (k', v') # bt_insert k v m)"

definition bt_get :: "('k, 'v) btree \<Rightarrow> 'k \<Rightarrow> 'v option" where
  "bt_get m k = map_of m k"

definition bt_remove :: "'k \<Rightarrow> ('k, 'v) btree \<Rightarrow> ('k, 'v) btree" where
  "bt_remove k m = filter (\<lambda>e. fst e \<noteq> k) m"

text \<open>\<open>if let Some(x) = m.get_mut(&k) { *x = f(x) }\<close>\<close>

definition bt_adjust :: "'k \<Rightarrow> ('v \<Rightarrow> 'v) \<Rightarrow> ('k, 'v) btree \<Rightarrow> ('k, 'v) btree" where
  "bt_adjust k f m = map (\<lambda>e. if fst e = k then (fst e, f (snd e)) else e) m"

definition bt_inv :: "('k::linorder, 'v) btree \<Rightarrow> bool" where
  "bt_inv m = (sorted (map fst m) \<and> distinct (map fst m))"

lemma bt_get_insert [simp]: "bt_get (bt_insert k v m) k' = (if k' = k then Some v else bt_get m k')"
  by (induction m) (auto simp: bt_get_def)

lemma bt_get_empty [simp]: "bt_get [] k = None"
  by (simp add: bt_get_def)

lemma bt_get_adjust [simp]:
  "bt_get (bt_adjust k f m) k' = (if k' = k then map_option f (bt_get m k) else bt_get m k')"
  by (induction m) (auto simp: bt_get_def bt_adjust_def)

lemma bt_get_remove [simp]: "bt_get (bt_remove k m) k' = (if k' = k then None else bt_get m k')"
  by (induction m) (auto simp: bt_get_def bt_remove_def)

lemma bt_keys_adjust [simp]: "map fst (bt_adjust k f m) = map fst m"
  by (auto simp: bt_adjust_def)

lemma set_keys_insert: "fst ` set (bt_insert k v m) = insert k (fst ` set m)"
proof (induction m)
  case (Cons e m)
  then show ?case by (cases e) (simp add: insert_commute)
qed simp

lemma bt_inv_empty [simp]: "bt_inv []"
  by (simp add: bt_inv_def)

lemma bt_inv_insert [simp]:
  assumes "bt_inv m" shows "bt_inv (bt_insert k v m)"
  using assms
proof (induction m)
  case (Cons e m)
  then show ?case
    using set_keys_insert [of k v m] by (cases e) (fastforce simp: bt_inv_def)
qed (simp add: bt_inv_def)

lemma bt_inv_adjust [simp]: "bt_inv (bt_adjust k f m) = bt_inv m"
  by (simp add: bt_inv_def)

lemma bt_inv_remove [simp]: "bt_inv m \<Longrightarrow> bt_inv (bt_remove k m)"
  unfolding bt_inv_def bt_remove_def
  by (auto simp: sorted_filter distinct_map_filter)

section \<open>Traversals in the option monad\<close>

text \<open>\<open>xs.iter().map(f).collect()\<close> where \<open>f\<close> may panic.\<close>

fun opt_map :: "('a \<Rightarrow> 'b option) \<Rightarrow> 'a list \<Rightarrow> 'b list option" where
  "opt_map f [] = Some []"
| "opt_map f (x # xs) = do { y \<leftarrow> f x; ys \<leftarrow> opt_map f xs; Some (y # ys) }"

text \<open>The same where \<open>f\<close> also updates a state.\<close>

fun opt_map_state :: "('a \<Rightarrow> 's \<Rightarrow> ('b \<times> 's) option) \<Rightarrow> 'a list \<Rightarrow> 's \<Rightarrow> ('b list \<times> 's) option" where
  "opt_map_state f [] s = Some ([], s)"
| "opt_map_state f (x # xs) s =
     do { (y, s) \<leftarrow> f x s; (ys, s) \<leftarrow> opt_map_state f xs s; Some (y # ys, s) }"

text \<open>
  A growing state: an operation adds at most so much to it, and needs as much room. What holds
  of one operation holds of a row of them, with the sum of their needs.
\<close>

locale growing =
  fixes ok :: "'s \<Rightarrow> bool" and space :: "nat \<Rightarrow> 's \<Rightarrow> bool" and grow :: "nat \<Rightarrow> 's \<Rightarrow> 's \<Rightarrow> bool"
  assumes grow_refl: "ok s \<Longrightarrow> grow 0 s s"
    and grow_trans: "grow m s t \<Longrightarrow> grow n t u \<Longrightarrow> grow (m + n) s u"
    and grow_ok: "ok s \<Longrightarrow> grow n s t \<Longrightarrow> ok t"
    and grow_space: "grow m s t \<Longrightarrow> space (m + n) s \<Longrightarrow> space n t"
    and space_less: "space n s \<Longrightarrow> m \<le> n \<Longrightarrow> space m s"
begin

lemma map_state:
  assumes "\<And>x s. x \<in> set xs \<Longrightarrow> ok s \<Longrightarrow> space (c x) s \<Longrightarrow> \<exists>y t. f x s = Some (y, t) \<and> grow (c x) s t"
  shows "ok s \<Longrightarrow> space (sum_list (map c xs)) s \<Longrightarrow>
    \<exists>ys t. opt_map_state f xs s = Some (ys, t) \<and> length ys = length xs \<and> grow (sum_list (map c xs)) s t"
  using assms
proof (induction xs arbitrary: s)
  case Nil
  then show ?case using grow_refl by simp
next
  case (Cons x xs)
  have "space (c x) s" using Cons.prems(2) by (rule space_less) simp
  then obtain y t where y: "f x s = Some (y, t)" "grow (c x) s t" using Cons.prems(1,3) by fastforce
  have t: "ok t" "space (sum_list (map c xs)) t"
    using grow_ok [OF Cons.prems(1) y(2)] grow_space [OF y(2)] Cons.prems(2) by simp_all
  obtain ys u where "opt_map_state f xs t = Some (ys, u)" "length ys = length xs" "grow (sum_list (map c xs)) t u"
    using Cons.IH [OF t] Cons.prems(3) by auto
  then show ?case using y(1) grow_trans [OF y(2)] by simp
qed

end

lemma opt_map_cong [fundef_cong]:
  "xs = ys \<Longrightarrow> (\<And>x. x \<in> set ys \<Longrightarrow> f x = g x) \<Longrightarrow> opt_map f xs = opt_map g ys"
  by (induction ys arbitrary: xs) auto

lemma opt_map_Some:
  "(opt_map f xs = Some ys) = list_all2 (\<lambda>x y. f x = Some y) xs ys"
  by (induction xs arbitrary: ys) (auto simp: list_all2_Cons1 bind_Some_iff)

lemma opt_map_total: "(\<And>x. x \<in> set xs \<Longrightarrow> \<exists>y. f x = Some y) \<Longrightarrow> \<exists>ys. opt_map f xs = Some ys"
  by (induction xs) fastforce+

lemma opt_map_length: "opt_map f xs = Some ys \<Longrightarrow> length ys = length xs"
  by (simp add: opt_map_Some list_all2_lengthD)

lemma opt_map_mono:
  "opt_map f xs = Some ys \<Longrightarrow> (\<And>x y. x \<in> set xs \<Longrightarrow> f x = Some y \<Longrightarrow> g x = Some y) \<Longrightarrow>
   opt_map g xs = Some ys"
  by (induction xs arbitrary: ys) (auto simp: bind_Some_iff)

section \<open>Prefix lookups\<close>

text \<open>Bounds-checked indexing: \<open>None\<close> is Rust's index panic.\<close>

definition idx :: "'a list \<Rightarrow> nat \<Rightarrow> 'a option" where
  "idx xs i = (if i < length xs then Some (xs ! i) else None)"

lemma idx_Some [simp]: "i < length xs \<Longrightarrow> idx xs i = Some (xs ! i)"
  by (simp add: idx_def)

lemma idx_append: "idx xs i = Some x \<Longrightarrow> idx (xs @ ys) i = Some x"
  by (auto simp: idx_def nth_append split: if_splits)

lemma idx_length: "idx xs i = Some x \<Longrightarrow> i < length xs"
  by (auto simp: idx_def split: if_splits)

end
