(* ===== verification/CAst.thy ===== *)
theory CAst
  imports Prelude
begin

text \<open>
  The C abstract syntax of \<open>c_ast.rs\<close>: operators, expressions, statements, the \<open>Display\<close>
  rendering of expressions and the indenting printer for statements. The printer is modelled
  as it is written, as updates of its buffer and indent level; \<open>stmt_text\<close> is the
  functional specification it is shown to meet, and the bracket lemmas say when printed
  text is balanced.
\<close>

section \<open>Operators\<close>

datatype CBinOp =
    Add | Sub | Mul | Div | Rem | Shl | Shr | BitAnd | BitOr | BitXor
  | Eq | Ne | Lt | Le | Gt | Ge | LogAnd | LogOr

fun CBinOp_fmt :: "CBinOp \<Rightarrow> string" where
  "CBinOp_fmt Add = ''+''"
| "CBinOp_fmt Sub = ''-''"
| "CBinOp_fmt Mul = ''*''"
| "CBinOp_fmt Div = ''/''"
| "CBinOp_fmt Rem = ''%''"
| "CBinOp_fmt Shl = ''<<''"
| "CBinOp_fmt Shr = ''>>''"
| "CBinOp_fmt BitAnd = ''&''"
| "CBinOp_fmt BitOr = ''|''"
| "CBinOp_fmt BitXor = ''^''"
| "CBinOp_fmt Eq = ''==''"
| "CBinOp_fmt Ne = ''!=''"
| "CBinOp_fmt Lt = ''<''"
| "CBinOp_fmt Le = ''<=''"
| "CBinOp_fmt Gt = ''>''"
| "CBinOp_fmt Ge = ''>=''"
| "CBinOp_fmt LogAnd = ''&&''"
| "CBinOp_fmt LogOr = ''||''"

datatype CUnaryOp = Neg | BitNot | LogNot

fun CUnaryOp_fmt :: "CUnaryOp \<Rightarrow> string" where
  "CUnaryOp_fmt Neg = ''-''"
| "CUnaryOp_fmt BitNot = ''~''"
| "CUnaryOp_fmt LogNot = ''!''"

section \<open>Expressions\<close>

datatype CExpr =
    Var string
  | Lit string
  | BinOp CExpr CBinOp CExpr
  | UnaryOp CUnaryOp CExpr
  | Cast string CExpr
  | Deref string CExpr
  | AddrOf CExpr
  | Call CExpr "CExpr list"
  | Field CExpr string
  | Index CExpr CExpr
  | Ternary CExpr CExpr CExpr
  | Sizeof CExpr
  | SizeofType string
  | CompoundLiteral string "CExpr list"
  | Paren CExpr
  | Raw string

fun CExpr_fmt :: "CExpr \<Rightarrow> string" where
  "CExpr_fmt (Var name) = name"
| "CExpr_fmt (Lit s) = s"
| "CExpr_fmt (BinOp lhs op rhs) =
     CExpr_fmt lhs @ '' '' @ CBinOp_fmt op @ '' '' @ CExpr_fmt rhs"
| "CExpr_fmt (UnaryOp op e) = CUnaryOp_fmt op @ ''('' @ CExpr_fmt e @ '')''"
| "CExpr_fmt (Cast ty e) = ''('' @ ty @ '')'' @ CExpr_fmt e"
| "CExpr_fmt (Deref cast_ty ptr) = ''*('' @ cast_ty @ '')'' @ CExpr_fmt ptr"
| "CExpr_fmt (AddrOf e) = ''&'' @ CExpr_fmt e"
| "CExpr_fmt (Call func args) =
     CExpr_fmt func @ ''('' @ join '', '' (map CExpr_fmt args) @ '')''"
| "CExpr_fmt (Field e name) = CExpr_fmt e @ ''.'' @ name"
| "CExpr_fmt (Index e i) = CExpr_fmt e @ ''['' @ CExpr_fmt i @ '']''"
| "CExpr_fmt (Ternary c t e) =
     ''('' @ CExpr_fmt c @ '') ? ('' @ CExpr_fmt t @ '') : ('' @ CExpr_fmt e @ '')''"
| "CExpr_fmt (Sizeof e) = ''sizeof('' @ CExpr_fmt e @ '')''"
| "CExpr_fmt (SizeofType ty) = ''sizeof('' @ ty @ '')''"
| "CExpr_fmt (CompoundLiteral ty elts) =
     ''('' @ ty @ ''){ '' @ join '', '' (map CExpr_fmt elts) @ '' }''"
| "CExpr_fmt (Paren e) = ''('' @ CExpr_fmt e @ '')''"
| "CExpr_fmt (Raw s) = s"

section \<open>Statements\<close>

datatype CStmt =
    Assign CExpr CExpr
  | Expr CExpr
  | Return "CExpr option"
  | Goto string
  | CondGoto CExpr string string
  | Switch CExpr "(CExpr \<times> string) list" string
  | Unreachable
  | DoWhile "CStmt list" CExpr
  | Fallthrough
  | RawStmt string

section \<open>The printer\<close>

record PrettyPrinter =
  pp_buf :: string
  pp_indent :: nat

definition pp_push :: "string \<Rightarrow> PrettyPrinter \<Rightarrow> PrettyPrinter" where
  "pp_push s pp = pp\<lparr>pp_buf := pp_buf pp @ s\<rparr>"

definition push_indent :: "PrettyPrinter \<Rightarrow> PrettyPrinter" where
  "push_indent pp = ((pp_push ''  '') ^^ pp_indent pp) pp"

definition push_newline :: "PrettyPrinter \<Rightarrow> PrettyPrinter" where
  "push_newline pp = pp_push [nl] pp"

definition pp_line :: "string \<Rightarrow> PrettyPrinter \<Rightarrow> PrettyPrinter" where
  "pp_line text pp = push_newline (pp_push text (push_indent pp))"

definition indent_more :: "PrettyPrinter \<Rightarrow> PrettyPrinter" where
  "indent_more pp = pp\<lparr>pp_indent := pp_indent pp + 1\<rparr>"

definition dedent :: "PrettyPrinter \<Rightarrow> PrettyPrinter" where
  "dedent pp = pp\<lparr>pp_indent := pp_indent pp - 1\<rparr>"

definition fmt_expr :: "CExpr \<Rightarrow> PrettyPrinter \<Rightarrow> PrettyPrinter" where
  "fmt_expr e pp = pp_push (CExpr_fmt e) pp"

definition fmt_case :: "CExpr \<times> string \<Rightarrow> PrettyPrinter \<Rightarrow> PrettyPrinter" where
  "fmt_case c pp = push_newline (pp_push
     (''case '' @ CExpr_fmt (fst c) @ '': goto '' @ snd c @ '';'') (push_indent pp))"

definition fmt_raw_line :: "string \<Rightarrow> PrettyPrinter \<Rightarrow> PrettyPrinter" where
  "fmt_raw_line l pp = push_newline (pp_push l (push_indent pp))"

fun fmt_stmt :: "CStmt \<Rightarrow> PrettyPrinter \<Rightarrow> PrettyPrinter"
and fmt_stmts :: "CStmt list \<Rightarrow> PrettyPrinter \<Rightarrow> PrettyPrinter" where
  "fmt_stmt (Assign target v) pp =
     push_newline (pp_push (CExpr_fmt target @ '' = '' @ CExpr_fmt v @ '';'') (push_indent pp))"
| "fmt_stmt (Expr e) pp = push_newline (pp_push (CExpr_fmt e @ '';'') (push_indent pp))"
| "fmt_stmt (Return None) pp = pp_line ''return;'' pp"
| "fmt_stmt (Return (Some e)) pp =
     push_newline (pp_push (''return '' @ CExpr_fmt e @ '';'') (push_indent pp))"
| "fmt_stmt (Goto l) pp = push_newline (pp_push (''goto '' @ l @ '';'') (push_indent pp))"
| "fmt_stmt (CondGoto c then_label else_label) pp =
     push_newline (pp_push (''if ('' @ CExpr_fmt c @ '') goto '' @ then_label
                            @ ''; else goto '' @ else_label @ '';'') (push_indent pp))"
| "fmt_stmt (Switch e cases dflt) pp =
     (let pp = push_newline (pp_push (''switch ('' @ CExpr_fmt e @ '') {'') (push_indent pp));
          pp = indent_more pp;
          pp = fold fmt_case cases pp;
          pp = push_newline (pp_push (''default: goto '' @ dflt @ '';'') (push_indent pp));
          pp = dedent pp
      in pp_line ''}'' pp)"
| "fmt_stmt Unreachable pp = pp_line ''abort();'' pp"
| "fmt_stmt (DoWhile body c) pp =
     (let pp = indent_more (pp_line ''do {'' pp);
          pp = fmt_stmts body pp;
          pp = dedent pp
      in push_newline (pp_push (''} while ('' @ CExpr_fmt c @ '');'') (push_indent pp)))"
| "fmt_stmt Fallthrough pp = pp_line ''; /* fallthrough */'' pp"
| "fmt_stmt (RawStmt s) pp = fold fmt_raw_line (str_lines s) pp"
| "fmt_stmts [] pp = pp"
| "fmt_stmts (s # ss) pp = fmt_stmts ss (fmt_stmt s pp)"

text \<open>\<open>PrettyPrinter::with_indent(&stmts, n).to_string()\<close> and the same at level 0.\<close>

definition with_indent :: "CStmt list \<Rightarrow> nat \<Rightarrow> PrettyPrinter" where
  "with_indent stmts n = fmt_stmts stmts \<lparr>pp_buf = [], pp_indent = n\<rparr>"

definition pp_new :: "CStmt list \<Rightarrow> PrettyPrinter" where
  "pp_new stmts = with_indent stmts 0"

definition pp_finish :: "PrettyPrinter \<Rightarrow> string" where
  "pp_finish pp = pp_buf pp"

section \<open>What the printer computes\<close>

text \<open>
  The specification: the text of a statement at an indent level, with no buffer. A line is
  \<open>2 * n\<close> blanks, its text and a newline.
\<close>

definition line_text :: "nat \<Rightarrow> string \<Rightarrow> string" where
  "line_text n s = replicate (2 * n) (CHR '' '') @ s @ [nl]"

fun stmt_text :: "nat \<Rightarrow> CStmt \<Rightarrow> string" where
  "stmt_text n (Assign t v) = line_text n (CExpr_fmt t @ '' = '' @ CExpr_fmt v @ '';'')"
| "stmt_text n (Expr e) = line_text n (CExpr_fmt e @ '';'')"
| "stmt_text n (Return None) = line_text n ''return;''"
| "stmt_text n (Return (Some e)) = line_text n (''return '' @ CExpr_fmt e @ '';'')"
| "stmt_text n (Goto l) = line_text n (''goto '' @ l @ '';'')"
| "stmt_text n (CondGoto c t e) =
     line_text n (''if ('' @ CExpr_fmt c @ '') goto '' @ t @ ''; else goto '' @ e @ '';'')"
| "stmt_text n (Switch e cs d) =
     line_text n (''switch ('' @ CExpr_fmt e @ '') {'')
     @ concat (map (\<lambda>c. line_text (Suc n)
                    (''case '' @ CExpr_fmt (fst c) @ '': goto '' @ snd c @ '';'')) cs)
     @ line_text (Suc n) (''default: goto '' @ d @ '';'')
     @ line_text n ''}''"
| "stmt_text n Unreachable = line_text n ''abort();''"
| "stmt_text n (DoWhile body c) =
     line_text n ''do {'' @ concat (map (stmt_text (Suc n)) body)
     @ line_text n (''} while ('' @ CExpr_fmt c @ '');'')"
| "stmt_text n Fallthrough = line_text n ''; /* fallthrough */''"
| "stmt_text n (RawStmt s) = concat (map (line_text n) (str_lines s))"

definition stmts_text :: "nat \<Rightarrow> CStmt list \<Rightarrow> string" where
  "stmts_text n ss = concat (map (stmt_text n) ss)"

lemma pp_push_push [simp]: "pp_push t (pp_push s pp) = pp_push (s @ t) pp"
  by (simp add: pp_push_def)

lemma pp_push_Nil [simp]: "pp_push [] pp = pp"
  by (simp add: pp_push_def)

lemma pp_indent_push [simp]: "pp_indent (pp_push s pp) = pp_indent pp"
  by (simp add: pp_push_def)

lemma pp_buf_push [simp]: "pp_buf (pp_push s pp) = pp_buf pp @ s"
  by (simp add: pp_push_def)

lemma push_indent_eq: "push_indent pp = pp_push (replicate (2 * pp_indent pp) (CHR '' '')) pp"
proof -
  have blanks: "replicate (2 * n) (CHR '' '') @ ''  '' = replicate (2 * Suc n) (CHR '' '')" for n
    by (induction n) (auto simp: numeral_2_eq_2)
  have "((pp_push ''  '') ^^ n) pp = pp_push (replicate (2 * n) (CHR '' '')) pp" for n
    by (induction n) (simp_all add: blanks del: replicate_Suc mult_Suc_right)
  then show ?thesis by (simp add: push_indent_def)
qed

text \<open>Every way the printer writes one line is the specification's line.\<close>

lemma push_line_eq:
  "push_newline (pp_push s (push_indent pp)) = pp_push (line_text (pp_indent pp) s) pp"
  by (simp add: push_indent_eq push_newline_def line_text_def)

lemma pp_line_eq: "pp_line s pp = pp_push (line_text (pp_indent pp) s) pp"
  by (simp add: pp_line_def push_line_eq)

lemma fold_lines_eq:
  assumes "\<And>x pp. f x pp = pp_push (line_text (pp_indent pp) (g x)) pp"
  shows "fold f xs pp = pp_push (concat (map (\<lambda>x. line_text (pp_indent pp) (g x)) xs)) pp"
  by (induction xs arbitrary: pp) (simp_all add: assms)

lemma fmt_case_eq:
  "fmt_case c pp = pp_push (line_text (pp_indent pp)
     (''case '' @ CExpr_fmt (fst c) @ '': goto '' @ snd c @ '';'')) pp"
  by (simp only: fmt_case_def push_line_eq)

lemma fmt_raw_line_eq: "fmt_raw_line l pp = pp_push (line_text (pp_indent pp) l) pp"
  by (simp add: fmt_raw_line_def push_line_eq)

lemma dedent_push_indent_more [simp]: "dedent (pp_push s (indent_more pp)) = pp_push s pp"
  by (simp add: dedent_def indent_more_def pp_push_def)

lemma pp_indent_more [simp]: "pp_indent (indent_more pp) = Suc (pp_indent pp)"
  by (simp add: indent_more_def)

lemma fmt_stmt_eq: "fmt_stmt s pp = pp_push (stmt_text (pp_indent pp) s) pp"
  and fmt_stmts_eq: "fmt_stmts ss pp = pp_push (stmts_text (pp_indent pp) ss) pp"
proof (induction s pp and ss pp rule: fmt_stmt_fmt_stmts.induct)
  case (7 e cs d pp)
  then show ?case
    by (simp add: push_line_eq pp_line_eq Let_def fold_lines_eq [OF fmt_case_eq])
next
  case (9 body c pp)
  then show ?case
    by (simp add: push_line_eq pp_line_eq Let_def stmts_text_def)
next
  case (11 s pp)
  then show ?case by (simp add: fold_lines_eq [OF fmt_raw_line_eq])
qed (simp_all add: push_line_eq pp_line_eq stmts_text_def)

lemma with_indent_text: "pp_buf (with_indent ss n) = stmts_text n ss"
  by (simp add: with_indent_def fmt_stmts_eq)

section \<open>Balanced brackets\<close>

text \<open>
  \<open>brackets st s\<close> reads a text with a stack of open brackets. A text is balanced when it
  leaves every stack as it was, so balanced texts can be placed anywhere.
\<close>

fun brackets :: "string \<Rightarrow> string \<Rightarrow> string option" where
  "brackets st [] = Some st"
| "brackets st (c # cs) =
     (if c = CHR ''('' \<or> c = CHR ''['' \<or> c = CHR ''{'' then brackets (c # st) cs
      else if c = CHR '')'' then
        (case st of d # ds \<Rightarrow> if d = CHR ''('' then brackets ds cs else None | [] \<Rightarrow> None)
      else if c = CHR '']'' then
        (case st of d # ds \<Rightarrow> if d = CHR ''['' then brackets ds cs else None | [] \<Rightarrow> None)
      else if c = CHR ''}'' then
        (case st of d # ds \<Rightarrow> if d = CHR ''{'' then brackets ds cs else None | [] \<Rightarrow> None)
      else brackets st cs)"

definition balanced :: "string \<Rightarrow> bool" where
  "balanced s = (\<forall>st. brackets st s = Some st)"

lemma brackets_append:
  "brackets st (xs @ ys) = Option.bind (brackets st xs) (\<lambda>st'. brackets st' ys)"
  by (induction st xs rule: brackets.induct) (auto split: list.splits)

lemma balanced_Nil [simp]: "balanced []"
  by (simp add: balanced_def)

lemma balanced_append [simp]: "balanced xs \<Longrightarrow> balanced ys \<Longrightarrow> balanced (xs @ ys)"
  by (simp add: balanced_def brackets_append)

lemma balanced_concat: "(\<And>x. x \<in> set xs \<Longrightarrow> balanced x) \<Longrightarrow> balanced (concat xs)"
  by (induction xs) auto

lemma balanced_join: "balanced sep \<Longrightarrow> (\<And>x. x \<in> set xs \<Longrightarrow> balanced x) \<Longrightarrow> balanced (join sep xs)"
  by (induction sep xs rule: join.induct) auto

lemma balanced_paren [simp]: "balanced s \<Longrightarrow> balanced (CHR ''('' # s @ CHR '')'' # t) = balanced t"
  by (auto simp: balanced_def brackets_append)

lemma balanced_bracket [simp]: "balanced s \<Longrightarrow> balanced (CHR ''['' # s @ CHR '']'' # t) = balanced t"
  by (auto simp: balanced_def brackets_append)

lemma balanced_brace [simp]: "balanced s \<Longrightarrow> balanced (CHR ''{'' # s @ CHR ''}'' # t) = balanced t"
  by (auto simp: balanced_def brackets_append)

definition plain_char :: "char \<Rightarrow> bool" where
  "plain_char c = (c \<notin> set ''()[]{}'')"

lemma balanced_plain [simp]: "plain_char c \<Longrightarrow> balanced (c # s) = balanced s"
  by (auto simp: balanced_def plain_char_def)

lemma balanced_all_plain: "(\<And>c. c \<in> set s \<Longrightarrow> plain_char c) \<Longrightarrow> balanced s"
  by (induction s) auto

text \<open>The strings at the leaves of an expression: names, literals, types, raw text.\<close>

fun expr_atoms :: "CExpr \<Rightarrow> string set" where
  "expr_atoms (Var s) = {s}"
| "expr_atoms (Lit s) = {s}"
| "expr_atoms (BinOp a op b) = expr_atoms a \<union> expr_atoms b"
| "expr_atoms (UnaryOp op e) = expr_atoms e"
| "expr_atoms (Cast ty e) = {ty} \<union> expr_atoms e"
| "expr_atoms (Deref ty e) = {ty} \<union> expr_atoms e"
| "expr_atoms (AddrOf e) = expr_atoms e"
| "expr_atoms (Call f args) = expr_atoms f \<union> \<Union> (set (map expr_atoms args))"
| "expr_atoms (Field e n) = expr_atoms e \<union> {n}"
| "expr_atoms (Index e i) = expr_atoms e \<union> expr_atoms i"
| "expr_atoms (Ternary c t e) = expr_atoms c \<union> expr_atoms t \<union> expr_atoms e"
| "expr_atoms (Sizeof e) = expr_atoms e"
| "expr_atoms (SizeofType ty) = {ty}"
| "expr_atoms (CompoundLiteral ty es) = {ty} \<union> \<Union> (set (map expr_atoms es))"
| "expr_atoms (Paren e) = expr_atoms e"
| "expr_atoms (Raw s) = {s}"

lemma balanced_binop [simp]: "balanced (CBinOp_fmt op @ s) = balanced s"
  by (cases op) (simp_all add: plain_char_def)

lemma balanced_unop [simp]: "balanced (CUnaryOp_fmt op @ s) = balanced s"
  by (cases op) (simp_all add: plain_char_def)

lemma balanced_expr: "(\<And>s. s \<in> expr_atoms e \<Longrightarrow> balanced s) \<Longrightarrow> balanced (CExpr_fmt e)"
proof (induction e rule: CExpr_fmt.induct)
  case (8 f args)
  then have "balanced (join '', '' (map CExpr_fmt args))"
    by (intro balanced_join) (auto simp: plain_char_def)
  with 8 show ?case by simp
next
  case (14 ty elts)
  then have "balanced (CHR '' '' # join '', '' (map CExpr_fmt elts) @ '' '')"
    by (intro balanced_append balanced_plain [THEN iffD2] balanced_join)
      (auto simp: plain_char_def)
  with 14 balanced_brace [OF this, of "[]"] show ?case by simp
qed (simp_all add: plain_char_def)

end
