(* ===== verification/Types.thy ===== *)
theory Types
  imports Prelude
begin

text \<open>
  The type representation of \<open>types.rs\<close>: interned C types, their store, alignment and
  rendering. The store's functions recurse through references into the store, so they take
  fuel; \<open>Suc (length (ts_types ts))\<close> units are enough for every store in which a type
  refers to earlier types only (\<open>ts_wf\<close>), which \<open>intern\<close> keeps.
\<close>

section \<open>References, kinds and the store\<close>

datatype TypeRef = TypeRef (tr: nat)

datatype CTypeKind =
    TVoid
  | TBool
  | TInt nat bool
  | TFloat nat
  | TPtr
  | TArray TypeRef nat
  | TStruct "TypeRef list" bool "string option"
  | TFunction TypeRef "TypeRef list" bool
  | TVector TypeRef nat
  | TPtrWidth bool

record TypeStore =
  ts_types :: "CTypeKind list"
  ts_index :: "CTypeKind \<rightharpoonup> TypeRef"

definition TypeStore_new :: TypeStore where
  "TypeStore_new = \<lparr>ts_types = [], ts_index = Map.empty\<rparr>"

definition intern :: "CTypeKind \<Rightarrow> TypeStore \<Rightarrow> TypeRef \<times> TypeStore" where
  "intern kind ts =
     (case ts_index ts kind of
        Some existing \<Rightarrow> (existing, ts)
      | None \<Rightarrow>
          (let type_ref = TypeRef (as_u32 (length (ts_types ts))) in
           (type_ref, ts\<lparr>ts_types := ts_types ts @ [kind],
                         ts_index := (ts_index ts)(kind \<mapsto> type_ref)\<rparr>)))"

definition ts_get :: "TypeStore \<Rightarrow> TypeRef \<Rightarrow> CTypeKind option" where
  "ts_get ts ty = idx (ts_types ts) (tr ty)"

text \<open>The C integer width a bit count is rounded up to, the match shared by five functions.\<close>

definition c_bits :: "nat \<Rightarrow> nat" where
  "c_bits bits =
     (if bits \<le> 8 then 8 else if bits \<le> 16 then 16 else if bits \<le> 32 then 32
      else if bits \<le> 64 then 64 else 128)"

section \<open>Alignment\<close>

text \<open>\<open>u64::next_power_of_two\<close>, with the wrapped value 0 above \<open>2 ^ 63\<close>.\<close>

function pow2_from :: "nat \<Rightarrow> nat \<Rightarrow> nat" where
  "pow2_from p n = (if p = 0 then 0 else if p < n then pow2_from (2 * p) n else p)"
  by pat_completeness auto
termination
  by (relation "measure (\<lambda>(p, n). n - p)") auto

declare pow2_from.simps [simp del]

definition next_power_of_two :: "nat \<Rightarrow> nat" where
  "next_power_of_two n = as_u64 (pow2_from 1 n)"

fun nat_align_f :: "nat \<Rightarrow> TypeStore \<Rightarrow> TypeRef \<Rightarrow> nat \<Rightarrow> nat option" where
  "nat_align_f 0 ts ty pointer_bytes = None"
| "nat_align_f (Suc n) ts ty pointer_bytes =
     do { k \<leftarrow> ts_get ts ty;
          case k of
            TVoid \<Rightarrow> Some 1
          | TBool \<Rightarrow> Some 1
          | TInt bits signed \<Rightarrow> Some (max (c_bits bits div 8) 1)
          | TFloat bits \<Rightarrow> Some (max (bits div 8) 1)
          | TPtr \<Rightarrow> Some pointer_bytes
          | TPtrWidth signed \<Rightarrow> Some pointer_bytes
          | TArray element len \<Rightarrow> nat_align_f n ts element pointer_bytes
          | TVector element len \<Rightarrow>
              do { elem_bytes \<leftarrow> nat_align_f n ts element pointer_bytes;
                   Some (next_power_of_two (as_u64 (elem_bytes * len))) }
          | TStruct flds packed name \<Rightarrow>
              if packed then Some 1
              else do { as \<leftarrow> opt_map (\<lambda>f. nat_align_f n ts f pointer_bytes) flds;
                        Some (if as = [] then 1 else Max (set as)) }
          | TFunction ret args variadic \<Rightarrow> Some pointer_bytes }"

definition natural_align_bytes :: "TypeStore \<Rightarrow> TypeRef \<Rightarrow> nat \<Rightarrow> nat option" where
  "natural_align_bytes ts ty pointer_bytes =
     nat_align_f (Suc (length (ts_types ts))) ts ty pointer_bytes"

section \<open>Rendering\<close>

text \<open>The joined parameter list of a function type.\<close>

definition args_joined :: "string list \<Rightarrow> bool \<Rightarrow> string" where
  "args_joined args variadic =
     (if args = [] then ''void'' else join '', '' args) @ (if variadic then '', ...'' else [])"

fun render_f :: "nat \<Rightarrow> TypeStore \<Rightarrow> TypeRef \<Rightarrow> string option" where
  "render_f 0 ts ty = None"
| "render_f (Suc n) ts ty =
     do { k \<leftarrow> ts_get ts ty;
          case k of
            TVoid \<Rightarrow> Some ''void''
          | TBool \<Rightarrow> Some ''_Bool''
          | TInt bits signed \<Rightarrow>
              if bits = 1 then Some ''_Bool''
              else if signed then Some (''int'' @ nat_str (c_bits bits) @ ''_t'')
              else Some (''uint'' @ nat_str (c_bits bits) @ ''_t'')
          | TFloat bits \<Rightarrow>
              if bits = 16 then Some ''_Float16''
              else if bits = 32 then Some ''float''
              else if bits = 64 then Some ''double''
              else if bits = 128 then Some ''_Float128''
              else None
          | TPtr \<Rightarrow> Some ''void *''
          | TArray element len \<Rightarrow>
              do { e \<leftarrow> render_f n ts element; Some (e @ ''['' @ nat_str len @ '']'') }
          | TStruct flds packed name \<Rightarrow>
              (case name of
                 Some s \<Rightarrow> Some (''struct '' @ s)
               | None \<Rightarrow> Some (''struct _S'' @ nat_str (tr ty)))
          | TFunction ret args variadic \<Rightarrow>
              do { args_str \<leftarrow> opt_map (render_f n ts) args;
                   r \<leftarrow> render_f n ts ret;
                   Some (r @ '' (*)('' @ args_joined args_str variadic @ '')'') }
          | TVector element len \<Rightarrow> Some (''_V'' @ nat_str (tr ty))
          | TPtrWidth signed \<Rightarrow>
              Some (if signed then ''__rustc_isize'' else ''__rustc_usize'') }"

definition render :: "TypeStore \<Rightarrow> TypeRef \<Rightarrow> string option" where
  "render ts ty = render_f (Suc (length (ts_types ts))) ts ty"

definition render_decl :: "TypeStore \<Rightarrow> TypeRef \<Rightarrow> string \<Rightarrow> string option" where
  "render_decl ts ty name =
     do { k \<leftarrow> ts_get ts ty;
          case k of
            TArray element len \<Rightarrow>
              do { e \<leftarrow> render ts element;
                   Some (e @ '' '' @ name @ ''['' @ nat_str len @ '']'') }
          | TFunction ret args variadic \<Rightarrow>
              do { args_str \<leftarrow> opt_map (render ts) args;
                   r \<leftarrow> render ts ret;
                   Some (r @ '' (*'' @ name @ '')('' @ args_joined args_str variadic @ '')'') }
          | _ \<Rightarrow> do { t \<leftarrow> render ts ty; Some (t @ '' '' @ name) } }"

text \<open>The definition of one struct or vector type, if the type at this index needs one.\<close>

definition struct_def_of :: "TypeStore \<Rightarrow> nat \<Rightarrow> CTypeKind \<Rightarrow> string list option" where
  "struct_def_of ts i kind =
     (case kind of
        TStruct flds packed None \<Rightarrow>
          do { fields_str \<leftarrow> opt_map
                 (\<lambda>(j, f). do { d \<leftarrow> render_decl ts f (''f'' @ nat_str j);
                               Some (''  '' @ d @ '';'') })
                 (enumerate 0 flds);
               Some [if packed then
                       ''#pragma pack(push, 1)'' @ [nl] @ ''struct _S'' @ nat_str i @ '' {'' @ [nl]
                       @ join [nl] fields_str @ [nl] @ ''};'' @ [nl] @ ''#pragma pack(pop)''
                     else
                       ''struct _S'' @ nat_str i @ '' {'' @ [nl]
                       @ join [nl] fields_str @ [nl] @ ''};''] }
      | TVector element len \<Rightarrow>
          do { k \<leftarrow> ts_get ts element;
               elem_str \<leftarrow> (case k of
                   TPtr \<Rightarrow> Some ''__rustc_usize''
                 | TPtrWidth signed \<Rightarrow> Some ''__rustc_usize''
                 | _ \<Rightarrow> render ts element);
               Some [''typedef struct { '' @ elem_str @ '' v['' @ nat_str len @ '']; } _V''
                     @ nat_str i @ '';''] }
      | _ \<Rightarrow> Some [])"

definition render_struct_defs :: "TypeStore \<Rightarrow> string list option" where
  "render_struct_defs ts =
     do { ds \<leftarrow> opt_map (\<lambda>(i, k). struct_def_of ts i k) (enumerate 0 (ts_types ts));
          Some (concat ds) }"

section \<open>Well-formed stores\<close>

fun kind_refs :: "CTypeKind \<Rightarrow> TypeRef list" where
  "kind_refs (TArray e n) = [e]"
| "kind_refs (TStruct fs p n) = fs"
| "kind_refs (TFunction r as v) = r # as"
| "kind_refs (TVector e n) = [e]"
| "kind_refs _ = []"

fun kind_ok :: "CTypeKind \<Rightarrow> bool" where
  "kind_ok (TFloat bits) = (bits \<in> {16, 32, 64, 128})"
| "kind_ok _ = True"

abbreviation ts_valid :: "TypeStore \<Rightarrow> TypeRef \<Rightarrow> bool" where
  "ts_valid ts ty \<equiv> tr ty < length (ts_types ts)"

definition ts_wf :: "TypeStore \<Rightarrow> bool" where
  "ts_wf ts =
     (distinct (ts_types ts) \<and> length (ts_types ts) \<le> 2 ^ 32 \<and>
      (\<forall>i < length (ts_types ts). ts_index ts (ts_types ts ! i) = Some (TypeRef i)) \<and>
      (\<forall>k r. ts_index ts k = Some r \<longrightarrow> ts_get ts r = Some k) \<and>
      (\<forall>i < length (ts_types ts). kind_ok (ts_types ts ! i) \<and>
         (\<forall>c \<in> set (kind_refs (ts_types ts ! i)). tr c < i)))"

definition ts_admits :: "CTypeKind \<Rightarrow> TypeStore \<Rightarrow> bool" where
  "ts_admits k ts =
     (kind_ok k \<and> (\<forall>c \<in> set (kind_refs k). ts_valid ts c) \<and> length (ts_types ts) < 2 ^ 32)"

definition ts_le :: "TypeStore \<Rightarrow> TypeStore \<Rightarrow> bool" where
  "ts_le ts ts' = (\<exists>ks. ts_types ts' = ts_types ts @ ks)"

lemma ts_le_refl [simp, intro]: "ts_le ts ts"
  by (simp add: ts_le_def)

lemma ts_le_trans [trans]: "ts_le a b \<Longrightarrow> ts_le b c \<Longrightarrow> ts_le a c"
  by (auto simp: ts_le_def)

lemma ts_le_length: "ts_le ts ts' \<Longrightarrow> length (ts_types ts) \<le> length (ts_types ts')"
  by (auto simp: ts_le_def)

lemma ts_le_valid: "ts_le ts ts' \<Longrightarrow> ts_valid ts ty \<Longrightarrow> ts_valid ts' ty"
  by (auto simp: ts_le_def)

lemma ts_le_get: "ts_le ts ts' \<Longrightarrow> ts_get ts ty = Some k \<Longrightarrow> ts_get ts' ty = Some k"
  by (auto simp: ts_le_def ts_get_def idx_append)

lemma ts_get_valid: "ts_get ts ty = Some k \<Longrightarrow> ts_valid ts ty"
  by (auto simp: ts_get_def dest: idx_length)

lemma ts_valid_get: "ts_valid ts ty \<Longrightarrow> \<exists>k. ts_get ts ty = Some k"
  by (auto simp: ts_get_def)

lemma ts_wf_new: "ts_wf TypeStore_new"
  by (simp add: ts_wf_def TypeStore_new_def)

lemma ts_wf_index: "ts_wf ts \<Longrightarrow> ts_index ts k = Some r \<Longrightarrow> ts_get ts r = Some k"
  by (simp add: ts_wf_def)

lemma ts_wf_refs: "ts_wf ts \<Longrightarrow> ts_get ts ty = Some k \<Longrightarrow> c \<in> set (kind_refs k) \<Longrightarrow> tr c < tr ty"
  by (auto simp: ts_wf_def ts_get_def idx_def split: if_splits)

lemma ts_wf_kind_ok: "ts_wf ts \<Longrightarrow> ts_get ts ty = Some k \<Longrightarrow> kind_ok k"
  by (auto simp: ts_wf_def ts_get_def idx_def split: if_splits)

lemma ts_wf_canonical:
  assumes "ts_wf ts" "ts_get ts a = Some k" "ts_get ts b = Some k"
  shows "a = b"
proof -
  from assms(2,3) have "tr a < length (ts_types ts)" "tr b < length (ts_types ts)"
    and "ts_types ts ! tr a = ts_types ts ! tr b"
    by (auto simp: ts_get_def idx_def split: if_splits)
  with assms(1) have "tr a = tr b"
    by (simp add: ts_wf_def nth_eq_iff_index_eq)
  then show ?thesis by (rule TypeRef.expand)
qed

lemma ts_index_None: "ts_wf ts \<Longrightarrow> ts_index ts k = None \<Longrightarrow> k \<notin> set (ts_types ts)"
  by (auto simp: ts_wf_def in_set_conv_nth)

section \<open>Interning\<close>

lemma intern_le: "intern k ts = (r, ts') \<Longrightarrow> ts_le ts ts'"
  by (auto simp: intern_def ts_le_def Let_def split: option.splits)

lemma intern_length: "intern k ts = (r, ts') \<Longrightarrow> length (ts_types ts') \<le> Suc (length (ts_types ts))"
  by (auto simp: intern_def Let_def split: option.splits)

lemma intern_get:
  assumes "ts_wf ts" "ts_admits k ts" "intern k ts = (r, ts')"
  shows "ts_get ts' r = Some k"
proof (cases "ts_index ts k")
  case None
  with assms show ?thesis
    by (auto simp: intern_def Let_def ts_admits_def ts_get_def idx_def)
next
  case (Some existing)
  with assms show ?thesis by (auto simp: intern_def dest: ts_wf_index)
qed

lemma intern_wf:
  assumes wf: "ts_wf ts" and adm: "ts_admits k ts" and i: "intern k ts = (r, ts')"
  shows "ts_wf ts'"
proof (cases "ts_index ts k")
  case (Some existing)
  with i wf show ?thesis by (simp add: intern_def)
next
  case None
  let ?n = "length (ts_types ts)"
  from None i adm have ts': "ts' = ts\<lparr>ts_types := ts_types ts @ [k],
      ts_index := (ts_index ts)(k \<mapsto> TypeRef ?n)\<rparr>"
    by (auto simp: intern_def ts_admits_def Let_def)
  have new: "k \<notin> set (ts_types ts)"
    using wf None by (rule ts_index_None)
  show ?thesis
    unfolding ts_wf_def
  proof (intro conjI allI impI)
    show "distinct (ts_types ts')" using wf new by (simp add: ts' ts_wf_def)
    show "length (ts_types ts') \<le> 2 ^ 32" using adm by (simp add: ts' ts_admits_def)
    fix j assume j: "j < length (ts_types ts')"
    then have "j < ?n \<or> j = ?n" by (auto simp: ts')
    then show "ts_index ts' (ts_types ts' ! j) = Some (TypeRef j)"
      using wf new by (auto simp: ts' ts_wf_def nth_append)
    show "kind_ok (ts_types ts' ! j)"
      using \<open>j < ?n \<or> j = ?n\<close> wf adm by (auto simp: ts' ts_wf_def ts_admits_def nth_append)
    show "\<forall>c \<in> set (kind_refs (ts_types ts' ! j)). tr c < j"
      using \<open>j < ?n \<or> j = ?n\<close> wf adm by (auto simp: ts' ts_wf_def ts_admits_def nth_append)
  next
    fix q s assume "ts_index ts' q = Some s"
    then show "ts_get ts' s = Some q"
      using wf by (auto simp: ts' ts_wf_def ts_get_def idx_def nth_append split: if_splits)
  qed
qed

lemma intern_idem:
  assumes "ts_wf ts" "ts_get ts r = Some k"
  shows "intern k ts = (r, ts)"
proof -
  from assms have "ts_index ts k = Some r"
    by (cases r) (auto simp: ts_wf_def ts_get_def idx_def split: if_splits)
  then show ?thesis by (simp add: intern_def)
qed

lemma intern_valid: "ts_wf ts \<Longrightarrow> ts_admits k ts \<Longrightarrow> intern k ts = (r, ts') \<Longrightarrow> ts_valid ts' r"
  by (blast intro: ts_get_valid intern_get)

section \<open>Fuel\<close>

text \<open>More fuel, and a larger store, never change a result.\<close>

lemma render_f_mono:
  "render_f n ts ty = Some s \<Longrightarrow> n \<le> m \<Longrightarrow> ts_le ts ts' \<Longrightarrow> render_f m ts' ty = Some s"
proof (induction n arbitrary: m ty s)
  case (Suc n)
  from Suc.prems obtain m' where m: "m = Suc m'" "n \<le> m'" by (cases m) auto
  from Suc.prems obtain k where k: "ts_get ts ty = Some k" by (auto simp: bind_Some_iff)
  note IH = Suc.IH [OF _ m(2) Suc.prems(3)]
  have k': "ts_get ts' ty = Some k" using Suc.prems(3) k by (rule ts_le_get)
  have args: "opt_map (render_f n ts) as = Some ss \<Longrightarrow> opt_map (render_f m' ts') as = Some ss"
    for as ss by (erule opt_map_mono) (rule IH)
  show ?case
    using Suc.prems(1) k k'
    by (cases k) (auto simp: m bind_Some_iff split: if_splits option.splits dest: IH args)
qed simp

lemma nat_align_f_mono:
  "nat_align_f n ts ty p = Some s \<Longrightarrow> n \<le> m \<Longrightarrow> ts_le ts ts' \<Longrightarrow> nat_align_f m ts' ty p = Some s"
proof (induction n arbitrary: m ty s)
  case (Suc n)
  from Suc.prems obtain m' where m: "m = Suc m'" "n \<le> m'" by (cases m) auto
  from Suc.prems obtain k where k: "ts_get ts ty = Some k" by (auto simp: bind_Some_iff)
  note IH = Suc.IH [OF _ m(2) Suc.prems(3)]
  have k': "ts_get ts' ty = Some k" using Suc.prems(3) k by (rule ts_le_get)
  have as: "opt_map (\<lambda>f. nat_align_f n ts f p) fs = Some xs \<Longrightarrow>
      opt_map (\<lambda>f. nat_align_f m' ts' f p) fs = Some xs"
    for fs xs by (erule opt_map_mono) (rule IH)
  show ?case
    using Suc.prems(1) k k'
    by (cases k) (auto simp: m bind_Some_iff split: if_splits dest: IH as)
qed simp

text \<open>In a well-formed store a reference needs at most its own index plus one.\<close>

lemma render_f_total:
  assumes "ts_wf ts" "ts_valid ts ty" "tr ty < n"
  shows "\<exists>s. render_f n ts ty = Some s"
  using assms(2,3)
proof (induction n arbitrary: ty)
  case (Suc n)
  from Suc.prems obtain k where k: "ts_get ts ty = Some k" using ts_valid_get by blast
  have refs: "\<exists>s. render_f n ts c = Some s" if "c \<in> set (kind_refs k)" for c
    using ts_wf_refs [OF assms(1) k that] Suc.prems by (intro Suc.IH) auto
  have ok: "kind_ok k" using assms(1) k by (rule ts_wf_kind_ok)
  show ?case
  proof (cases k)
    case (TFunction r as v)
    then obtain ss where "opt_map (render_f n ts) as = Some ss"
      using refs opt_map_total [of as "render_f n ts"] by auto
    then show ?thesis using refs [of r] k TFunction by auto
  qed (use k refs ok in \<open>auto split: option.splits\<close>)
qed simp

lemma nat_align_f_total:
  assumes "ts_wf ts" "ts_valid ts ty" "tr ty < n"
  shows "\<exists>a. nat_align_f n ts ty p = Some a"
  using assms(2,3)
proof (induction n arbitrary: ty)
  case (Suc n)
  from Suc.prems obtain k where k: "ts_get ts ty = Some k" using ts_valid_get by blast
  have refs: "\<exists>a. nat_align_f n ts c p = Some a" if "c \<in> set (kind_refs k)" for c
    using ts_wf_refs [OF assms(1) k that] Suc.prems by (intro Suc.IH) auto
  show ?case
  proof (cases k)
    case (TStruct fs pk nm)
    then obtain xs where "opt_map (\<lambda>f. nat_align_f n ts f p) fs = Some xs"
      using refs opt_map_total [of fs "\<lambda>f. nat_align_f n ts f p"] by auto
    then show ?thesis using k TStruct by auto
  qed (use k refs in auto)
qed simp

lemma render_total: "ts_wf ts \<Longrightarrow> ts_valid ts ty \<Longrightarrow> \<exists>s. render ts ty = Some s"
  unfolding render_def by (rule render_f_total) auto

lemma natural_align_total:
  "ts_wf ts \<Longrightarrow> ts_valid ts ty \<Longrightarrow> \<exists>a. natural_align_bytes ts ty p = Some a"
  unfolding natural_align_bytes_def by (rule nat_align_f_total) auto

lemma render_le: "ts_le ts ts' \<Longrightarrow> render ts ty = Some s \<Longrightarrow> render ts' ty = Some s"
  unfolding render_def by (erule render_f_mono) (auto dest: ts_le_length)

lemma render_decl_le:
  assumes le: "ts_le ts ts'" and "render_decl ts ty n = Some s"
  shows "render_decl ts' ty n = Some s"
proof -
  from assms(2) obtain k where k: "ts_get ts ty = Some k"
    by (auto simp: render_decl_def bind_Some_iff)
  have k': "ts_get ts' ty = Some k" using le k by (rule ts_le_get)
  note r = render_le [OF le]
  have args: "opt_map (render ts) as = Some ss \<Longrightarrow> opt_map (render ts') as = Some ss" for as ss
    by (erule opt_map_mono) (rule r)
  show ?thesis
    using assms(2) k k'
    by (cases k) (auto simp: render_decl_def bind_Some_iff dest: r args)
qed

lemma render_decl_total:
  assumes wf: "ts_wf ts" and "ts_valid ts ty"
  shows "\<exists>s. render_decl ts ty n = Some s"
proof -
  from assms(2) obtain k where k: "ts_get ts ty = Some k" using ts_valid_get by blast
  have refs: "\<exists>s. render ts c = Some s" if "c \<in> set (kind_refs k)" for c
    using ts_wf_refs [OF wf k that] assms(2) by (intro render_total wf) auto
  from render_total [OF assms] obtain t where t: "render ts ty = Some t" by blast
  show ?thesis
  proof (cases k)
    case (TFunction r as v)
    then obtain ss where "opt_map (render ts) as = Some ss"
      using refs opt_map_total [of as "render ts"] by auto
    then show ?thesis using refs [of r] k TFunction by (auto simp: render_decl_def)
  qed (use k t refs in \<open>auto simp: render_decl_def\<close>)
qed

section \<open>The interface of an interning store\<close>

text \<open>
  What the code generator relies on when it holds references: an addition returns a reference
  to the added entry, old references keep their meaning, and the store stays well formed.
\<close>

locale ref_store =
  fixes get :: "'s \<Rightarrow> 'r \<Rightarrow> 'k option"
    and add :: "'k \<Rightarrow> 's \<Rightarrow> 'r \<times> 's"
    and inv :: "'s \<Rightarrow> bool"
    and admits :: "'k \<Rightarrow> 's \<Rightarrow> bool"
  assumes add_inv: "inv s \<Longrightarrow> admits k s \<Longrightarrow> add k s = (r, s') \<Longrightarrow> inv s'"
    and add_get: "inv s \<Longrightarrow> admits k s \<Longrightarrow> add k s = (r, s') \<Longrightarrow> get s' r = Some k"
    and add_stable: "add k s = (r, s') \<Longrightarrow> get s q = Some k' \<Longrightarrow> get s' q = Some k'"
begin

text \<open>A run of additions: each entry must be admitted by the store it is added to.\<close>

fun adds :: "'k list \<Rightarrow> 's \<Rightarrow> 'r list \<times> 's" where
  "adds [] s = ([], s)"
| "adds (k # ks) s = (let (r, s) = add k s; (rs, s) = adds ks s in (r # rs, s))"

fun all_admitted :: "'k list \<Rightarrow> 's \<Rightarrow> bool" where
  "all_admitted [] s = True"
| "all_admitted (k # ks) s = (admits k s \<and> all_admitted ks (snd (add k s)))"

lemma adds_stable: "adds ks s = (rs, s') \<Longrightarrow> get s q = Some k \<Longrightarrow> get s' q = Some k"
  by (induction ks arbitrary: s rs)
    (auto simp: Let_def split: prod.splits dest: add_stable)

lemma adds_inv: "adds ks s = (rs, s') \<Longrightarrow> inv s \<Longrightarrow> all_admitted ks s \<Longrightarrow> inv s'"
  by (induction ks arbitrary: s rs)
    (auto simp: Let_def split: prod.splits dest: add_inv)

lemma adds_get:
  "adds ks s = (rs, s') \<Longrightarrow> inv s \<Longrightarrow> all_admitted ks s \<Longrightarrow> map (get s') rs = map Some ks"
proof (induction ks arbitrary: s rs)
  case (Cons k ks)
  obtain r s1 where r: "add k s = (r, s1)" by (cases "add k s") auto
  obtain rs' s2 where rs': "adds ks s1 = (rs', s2)" by (cases "adds ks s1") auto
  from Cons.prems r rs' have eq: "rs = r # rs'" "s' = s2" by auto
  have "get s1 r = Some k" using Cons.prems r by (auto intro: add_get)
  then have "get s2 r = Some k" using rs' by (auto intro: adds_stable)
  moreover have "map (get s2) rs' = map Some ks"
    using Cons.IH [OF rs' [folded eq(2)]] Cons.prems r eq by (auto intro: add_inv)
  ultimately show ?case by (simp add: eq)
qed simp

end

text \<open>A store that also hash-conses: an entry has one reference, and adding it again finds it.\<close>

locale consing_store = ref_store +
  assumes canonical: "inv s \<Longrightarrow> get s a = Some k \<Longrightarrow> get s b = Some k \<Longrightarrow> a = b"
    and add_again: "inv s \<Longrightarrow> get s r = Some k \<Longrightarrow> add k s = (r, s)"
begin

lemma add_eq_iff:
  assumes "inv s" "admits k s" "add k s = (r, s')" "admits k' s'" "add k' s' = (r', s'')"
  shows "r = r' \<longleftrightarrow> k = k'"
proof
  assume "r = r'"
  have i: "inv s'" using assms by (auto intro: add_inv)
  have "get s' r = Some k" using assms by (auto intro: add_get)
  then have "get s'' r = Some k" using assms by (auto intro: add_stable)
  moreover have "get s'' r' = Some k'" using i assms by (auto intro: add_get)
  ultimately show "k = k'" using \<open>r = r'\<close> by simp
next
  assume "k = k'"
  have "get s' r = Some k" using assms by (auto intro: add_get)
  then have "add k s' = (r, s')" using assms by (auto intro: add_again add_inv)
  then show "r = r'" using assms \<open>k = k'\<close> by simp
qed

end

interpretation types: consing_store ts_get intern ts_wf ts_admits
proof unfold_locales
  fix s s' :: TypeStore and k k' r q
  show "ts_wf s \<Longrightarrow> ts_admits k s \<Longrightarrow> intern k s = (r, s') \<Longrightarrow> ts_wf s'"
    by (rule intern_wf)
  show "ts_wf s \<Longrightarrow> ts_admits k s \<Longrightarrow> intern k s = (r, s') \<Longrightarrow> ts_get s' r = Some k"
    by (rule intern_get)
  show "intern k s = (r, s') \<Longrightarrow> ts_get s q = Some k' \<Longrightarrow> ts_get s' q = Some k'"
    by (drule intern_le) (rule ts_le_get)
next
  fix s a b k
  show "ts_wf s \<Longrightarrow> ts_get s a = Some k \<Longrightarrow> ts_get s b = Some k \<Longrightarrow> a = b"
    by (rule ts_wf_canonical)
next
  fix s r k
  show "ts_wf s \<Longrightarrow> ts_get s r = Some k \<Longrightarrow> intern k s = (r, s)"
    by (rule intern_idem)
qed

end
