(* ===== verification/Values.thy ===== *)
theory Values
  imports Types
begin

text \<open>
  The value representation of \<open>values.rs\<close>: value kinds, the arena that holds them and the
  rendering of a value as a C expression. Values refer to earlier values only
  (\<open>vs_wf\<close>), so \<open>Suc (length (vs_values vs))\<close> units of fuel are enough to render one.
  The decimal text of a finite \<open>f64\<close> comes from Rust's formatter and is a parameter
  \<open>fmt_f64\<close> on the bits of the number; NaN and the infinities are told apart by their bits.
\<close>

section \<open>Kinds and the arena\<close>

datatype ValueRef = ValueRef (vr: nat)

text \<open>An \<open>f64\<close> by its 64 bits.\<close>

type_synonym f64 = nat

datatype CValueKind =
    Param nat
  | Temp nat
  | IntConst int
  | UintConst nat
  | FloatConst f64
  | BoolConst bool
  | NullPtr
  | Undef
  | Poison
  | Global string
  | FunctionVal string TypeRef
  | StructConst "ValueRef list"
  | VectorConst "ValueRef list" string
  | ByteString "nat list" nat
  | StringLiteral string nat
  | PtrOffset ValueRef nat
  | InlineExpr string

record CValueInfo =
  v_kind :: CValueKind
  v_ty :: TypeRef

record ValueStore =
  vs_values :: "CValueInfo list"
  temp_counter :: nat
  byte_string_counter :: nat
  string_literal_counter :: nat

definition ValueStore_new :: ValueStore where
  "ValueStore_new = \<lparr>vs_values = [], temp_counter = 0, byte_string_counter = 0,
                     string_literal_counter = 0\<rparr>"

definition alloc :: "CValueKind \<Rightarrow> TypeRef \<Rightarrow> ValueStore \<Rightarrow> ValueRef \<times> ValueStore" where
  "alloc kind ty vs =
     (ValueRef (as_u32 (length (vs_values vs))),
      vs\<lparr>vs_values := vs_values vs @ [\<lparr>v_kind = kind, v_ty = ty\<rparr>]\<rparr>)"

definition next_temp :: "TypeRef \<Rightarrow> ValueStore \<Rightarrow> ValueRef \<times> ValueStore" where
  "next_temp ty vs =
     (let i = temp_counter vs;
          vs = vs\<lparr>temp_counter := as_u32 (temp_counter vs + 1)\<rparr>
      in alloc (Temp i) ty vs)"

definition next_byte_string :: "nat list \<Rightarrow> TypeRef \<Rightarrow> ValueStore \<Rightarrow> ValueRef \<times> ValueStore" where
  "next_byte_string data ty vs =
     (let i = byte_string_counter vs;
          vs = vs\<lparr>byte_string_counter := as_u32 (byte_string_counter vs + 1)\<rparr>
      in alloc (ByteString data i) ty vs)"

definition next_string_literal :: "string \<Rightarrow> TypeRef \<Rightarrow> ValueStore \<Rightarrow> ValueRef \<times> ValueStore" where
  "next_string_literal data ty vs =
     (let i = string_literal_counter vs;
          vs = vs\<lparr>string_literal_counter := as_u32 (string_literal_counter vs + 1)\<rparr>
      in alloc (StringLiteral data i) ty vs)"

definition vs_get :: "ValueStore \<Rightarrow> ValueRef \<Rightarrow> CValueInfo option" where
  "vs_get vs v = idx (vs_values vs) (vr v)"

definition get_type :: "ValueStore \<Rightarrow> ValueRef \<Rightarrow> TypeRef option" where
  "get_type vs v = map_option v_ty (vs_get vs v)"

text \<open>The outer \<open>option\<close> is the index panic, the inner one the function's result.\<close>

definition get_fn_sig :: "ValueStore \<Rightarrow> ValueRef \<Rightarrow> TypeRef option option" where
  "get_fn_sig vs v =
     map_option (\<lambda>i. case v_kind i of FunctionVal name sig \<Rightarrow> Some sig | _ \<Rightarrow> None) (vs_get vs v)"

section \<open>Rendering\<close>

definition i64_MIN :: int where
  "i64_MIN = - (2 ^ 63)"

definition i64_MAX :: int where
  "i64_MAX = 2 ^ 63 - 1"

text \<open>The high and low 64-bit halves of a 128-bit pattern.\<close>

definition hi64 :: "nat \<Rightarrow> nat" where
  "hi64 u = (u div 2 ^ 64) mod 2 ^ 64"

definition lo64 :: "nat \<Rightarrow> nat" where
  "lo64 u = u mod 2 ^ 64"

definition int_const_text :: "int \<Rightarrow> string" where
  "int_const_text i =
     (if i > i64_MIN \<and> i \<le> i64_MAX then int_str i @ ''LL''
      else if i = i64_MIN then ''(-9223372036854775807LL - 1LL)''
      else (let bits = nat (i mod 2 ^ 128) in
            ''((int128_t)((uint128_t)'' @ nat_str (hi64 bits) @ ''ULL << 64 | ''
            @ nat_str (lo64 bits) @ ''ULL))''))"

definition uint_const_text :: "nat \<Rightarrow> string" where
  "uint_const_text u =
     (if u \<le> u64_MAX then nat_str u @ ''ULL''
      else ''((uint128_t)'' @ nat_str (hi64 u) @ ''ULL << 64 | '' @ nat_str (lo64 u) @ ''ULL)'')"

text \<open>\<open>is_nan\<close>, \<open>is_infinite\<close> and the sign test, on the bits of an \<open>f64\<close>.\<close>

definition f64_exponent :: "f64 \<Rightarrow> nat" where
  "f64_exponent f = (f div 2 ^ 52) mod 2 ^ 11"

definition f64_mantissa :: "f64 \<Rightarrow> nat" where
  "f64_mantissa f = f mod 2 ^ 52"

definition f64_is_nan :: "f64 \<Rightarrow> bool" where
  "f64_is_nan f = (f64_exponent f = 2047 \<and> f64_mantissa f \<noteq> 0)"

definition f64_is_infinite :: "f64 \<Rightarrow> bool" where
  "f64_is_infinite f = (f64_exponent f = 2047 \<and> f64_mantissa f = 0)"

definition f64_sign :: "f64 \<Rightarrow> bool" where
  "f64_sign f = ((f div 2 ^ 63) mod 2 = 1)"

definition float_const_text :: "(f64 \<Rightarrow> string) \<Rightarrow> f64 \<Rightarrow> string" where
  "float_const_text fmt_f64 f =
     (if f64_is_nan f then ''NAN''
      else if f64_is_infinite f then (if \<not> f64_sign f then ''INFINITY'' else ''(-INFINITY)'')
      else (let s = fmt_f64 f in
            if CHR ''.'' \<in> set s \<or> CHR ''e'' \<in> set s \<or> CHR ''E'' \<in> set s then s
            else s @ ''.0''))"

fun vrender_f :: "nat \<Rightarrow> (f64 \<Rightarrow> string) \<Rightarrow> ValueStore \<Rightarrow> ValueRef \<Rightarrow> string option" where
  "vrender_f 0 fmt_f64 vs v = None"
| "vrender_f (Suc n) fmt_f64 vs v =
     do { info \<leftarrow> vs_get vs v;
          case v_kind info of
            Param index \<Rightarrow> Some (''_arg'' @ nat_str index)
          | Temp i \<Rightarrow> Some (''_t'' @ nat_str i)
          | IntConst i \<Rightarrow> Some (int_const_text i)
          | UintConst u \<Rightarrow> Some (uint_const_text u)
          | FloatConst f \<Rightarrow> Some (float_const_text fmt_f64 f)
          | BoolConst b \<Rightarrow> Some (if b then ''1'' else ''0'')
          | NullPtr \<Rightarrow> Some ''0''
          | Undef \<Rightarrow> Some ''0 /* undef */''
          | Poison \<Rightarrow> Some ''0 /* undef */''
          | Global name \<Rightarrow> Some name
          | FunctionVal name sig \<Rightarrow> Some name
          | StructConst fs \<Rightarrow>
              do { elts \<leftarrow> opt_map (vrender_f n fmt_f64 vs) fs;
                   Some (''{ '' @ join '', '' elts @ '' }'') }
          | VectorConst elements type_str \<Rightarrow>
              do { elts \<leftarrow> opt_map (vrender_f n fmt_f64 vs) elements;
                   Some (''('' @ type_str @ ''){ .v = { '' @ join '', '' elts @ '' } }'') }
          | ByteString data i \<Rightarrow> Some (''_bytes'' @ nat_str i)
          | StringLiteral data i \<Rightarrow> Some (''_str'' @ nat_str i)
          | PtrOffset base offset \<Rightarrow>
              do { b \<leftarrow> vrender_f n fmt_f64 vs base;
                   Some (''((char *)'' @ b @ '' + '' @ nat_str offset @ '')'') }
          | InlineExpr expr \<Rightarrow> Some expr }"

definition vrender :: "(f64 \<Rightarrow> string) \<Rightarrow> ValueStore \<Rightarrow> ValueRef \<Rightarrow> string option" where
  "vrender fmt_f64 vs v = vrender_f (Suc (length (vs_values vs))) fmt_f64 vs v"

section \<open>Reading constants back\<close>

definition as_u64_opt :: "ValueStore \<Rightarrow> ValueRef \<Rightarrow> nat option option" where
  "as_u64_opt vs v =
     map_option (\<lambda>i. case v_kind i of
         UintConst u \<Rightarrow> if u \<le> u64_MAX then Some u else None
       | IntConst i \<Rightarrow> if i \<ge> 0 then (if nat i \<le> u64_MAX then Some (nat i) else None) else None
       | BoolConst b \<Rightarrow> Some (if b then 1 else 0)
       | _ \<Rightarrow> None) (vs_get vs v)"

definition as_u128_opt :: "ValueStore \<Rightarrow> ValueRef \<Rightarrow> bool \<Rightarrow> nat option option" where
  "as_u128_opt vs v sign_ext =
     map_option (\<lambda>i. case v_kind i of
         UintConst u \<Rightarrow> Some u
       | IntConst i \<Rightarrow>
           if sign_ext then Some (nat (i mod 2 ^ 128))
           else if i \<ge> 0 then Some (nat (i mod 2 ^ 128))
           else None
       | BoolConst b \<Rightarrow> Some (if b then 1 else 0)
       | _ \<Rightarrow> None) (vs_get vs v)"

section \<open>Well-formed arenas\<close>

fun value_refs :: "CValueKind \<Rightarrow> ValueRef list" where
  "value_refs (StructConst fs) = fs"
| "value_refs (VectorConst es t) = es"
| "value_refs (PtrOffset b n) = [b]"
| "value_refs _ = []"

fun kind_temp :: "CValueKind \<Rightarrow> nat option" where
  "kind_temp (Temp i) = Some i"
| "kind_temp _ = None"

abbreviation vs_valid :: "ValueStore \<Rightarrow> ValueRef \<Rightarrow> bool" where
  "vs_valid vs v \<equiv> vr v < length (vs_values vs)"

text \<open>
  The values refer backwards, and the temporaries are numbered by the counter: their numbers
  are distinct and below it.
\<close>

definition vs_temps :: "ValueStore \<Rightarrow> nat list" where
  "vs_temps vs = List.map_filter (kind_temp \<circ> v_kind) (vs_values vs)"

definition vs_wf :: "ValueStore \<Rightarrow> bool" where
  "vs_wf vs =
     (length (vs_values vs) \<le> 2 ^ 32 \<and>
      (\<forall>i < length (vs_values vs). \<forall>c \<in> set (value_refs (v_kind (vs_values vs ! i))). vr c < i) \<and>
      distinct (vs_temps vs) \<and> (\<forall>i \<in> set (vs_temps vs). i < temp_counter vs) \<and>
      temp_counter vs \<le> length (vs_values vs))"

definition vs_admits :: "CValueKind \<Rightarrow> ValueStore \<Rightarrow> bool" where
  "vs_admits k vs =
     (kind_temp k = None \<and> (\<forall>c \<in> set (value_refs k). vs_valid vs c) \<and>
      length (vs_values vs) < 2 ^ 32)"

definition vs_le :: "ValueStore \<Rightarrow> ValueStore \<Rightarrow> bool" where
  "vs_le vs vs' = ((\<exists>xs. vs_values vs' = vs_values vs @ xs) \<and> temp_counter vs \<le> temp_counter vs')"

lemma vs_le_refl [simp, intro]: "vs_le vs vs"
  by (simp add: vs_le_def)

lemma vs_le_trans [trans]: "vs_le a b \<Longrightarrow> vs_le b c \<Longrightarrow> vs_le a c"
  by (auto simp: vs_le_def)

lemma vs_le_length: "vs_le vs vs' \<Longrightarrow> length (vs_values vs) \<le> length (vs_values vs')"
  by (auto simp: vs_le_def)

lemma vs_le_valid: "vs_le vs vs' \<Longrightarrow> vs_valid vs v \<Longrightarrow> vs_valid vs' v"
  by (auto simp: vs_le_def)

lemma vs_le_get: "vs_le vs vs' \<Longrightarrow> vs_get vs v = Some i \<Longrightarrow> vs_get vs' v = Some i"
  by (auto simp: vs_le_def vs_get_def idx_append)

lemma vs_le_type: "vs_le vs vs' \<Longrightarrow> get_type vs v = Some t \<Longrightarrow> get_type vs' v = Some t"
  by (auto simp: get_type_def dest: vs_le_get)

lemma vs_get_valid: "vs_get vs v = Some i \<Longrightarrow> vs_valid vs v"
  by (auto simp: vs_get_def dest: idx_length)

lemma vs_valid_get: "vs_valid vs v \<Longrightarrow> \<exists>i. vs_get vs v = Some i"
  by (auto simp: vs_get_def)

lemma get_type_valid: "get_type vs v = Some t \<Longrightarrow> vs_valid vs v"
  by (auto simp: get_type_def dest: vs_get_valid)

lemma vs_wf_new: "vs_wf ValueStore_new"
  by (simp add: vs_wf_def ValueStore_new_def vs_temps_def map_filter_def)

lemma vs_wf_refs:
  "vs_wf vs \<Longrightarrow> vs_get vs v = Some i \<Longrightarrow> c \<in> set (value_refs (v_kind i)) \<Longrightarrow> vr c < vr v"
  by (auto simp: vs_wf_def vs_get_def idx_def split: if_splits)

lemma vs_temps_append [simp]:
  "vs_temps (vs\<lparr>vs_values := vs_values vs @ [i]\<rparr>) =
     vs_temps vs @ (case kind_temp (v_kind i) of None \<Rightarrow> [] | Some t \<Rightarrow> [t])"
  by (auto simp: vs_temps_def map_filter_def split: option.splits)

lemma vs_temps_counter [simp]: "vs_temps (vs\<lparr>temp_counter := n\<rparr>) = vs_temps vs"
  by (simp add: vs_temps_def)

lemma alloc_le: "alloc k t vs = (v, vs') \<Longrightarrow> vs_le vs vs'"
  by (auto simp: alloc_def vs_le_def)

lemma alloc_get:
  "length (vs_values vs) < 2 ^ 32 \<Longrightarrow> alloc k t vs = (v, vs') \<Longrightarrow>
   vs_get vs' v = Some \<lparr>v_kind = k, v_ty = t\<rparr>"
  by (auto simp: alloc_def vs_get_def idx_def)

lemma alloc_wf: "vs_wf vs \<Longrightarrow> vs_admits k vs \<Longrightarrow> alloc k t vs = (v, vs') \<Longrightarrow> vs_wf vs'"
  by (auto simp: alloc_def vs_wf_def vs_admits_def nth_append less_Suc_eq)

lemma alloc_length: "alloc k t vs = (v, vs') \<Longrightarrow> length (vs_values vs') = Suc (length (vs_values vs))"
  by (auto simp: alloc_def)

lemma next_temp_eq:
  "next_temp t vs = alloc (Temp (temp_counter vs)) t (vs\<lparr>temp_counter := as_u32 (temp_counter vs + 1)\<rparr>)"
  by (simp add: next_temp_def Let_def)

lemma next_temp_le:
  "vs_wf vs \<Longrightarrow> length (vs_values vs) + 1 < 2 ^ 32 \<Longrightarrow> next_temp t vs = (v, vs') \<Longrightarrow> vs_le vs vs'"
  by (auto simp: next_temp_eq alloc_def vs_le_def vs_wf_def)

lemma next_temp_get:
  "length (vs_values vs) < 2 ^ 32 \<Longrightarrow> next_temp t vs = (v, vs') \<Longrightarrow>
   vs_get vs' v = Some \<lparr>v_kind = Temp (temp_counter vs), v_ty = t\<rparr>"
  by (auto simp: next_temp_eq alloc_def vs_get_def idx_def)

lemma next_temp_wf:
  assumes wf: "vs_wf vs" and room: "length (vs_values vs) + 1 < 2 ^ 32"
    and nt: "next_temp t vs = (v, vs')"
  shows "vs_wf vs'"
proof -
  have c: "as_u32 (temp_counter vs + 1) = temp_counter vs + 1"
    using wf room by (intro as_u32_small) (simp add: vs_wf_def)
  let ?vs = "vs\<lparr>temp_counter := temp_counter vs + 1\<rparr>"
  from nt c have vs': "vs' = ?vs\<lparr>vs_values := vs_values ?vs
      @ [\<lparr>v_kind = Temp (temp_counter vs), v_ty = t\<rparr>]\<rparr>"
    by (simp add: next_temp_eq alloc_def)
  have temps: "vs_temps vs' = vs_temps vs @ [temp_counter vs]"
    unfolding vs' by (subst vs_temps_append) simp
  show ?thesis
    unfolding vs_wf_def temps using wf room
    by (auto simp: vs' vs_wf_def nth_append less_Suc_eq)
qed

lemma next_temp_length:
  "next_temp t vs = (v, vs') \<Longrightarrow> length (vs_values vs') = Suc (length (vs_values vs))"
  by (auto simp: next_temp_eq alloc_def)

section \<open>Fuel\<close>

lemma vrender_f_mono:
  "vrender_f n ff vs v = Some s \<Longrightarrow> n \<le> m \<Longrightarrow> vs_le vs vs' \<Longrightarrow> vrender_f m ff vs' v = Some s"
proof (induction n arbitrary: m v s)
  case (Suc n)
  from Suc.prems obtain m' where m: "m = Suc m'" "n \<le> m'" by (cases m) auto
  from Suc.prems obtain i where i: "vs_get vs v = Some i" by (auto simp: bind_Some_iff)
  note IH = Suc.IH [OF _ m(2) Suc.prems(3)]
  have i': "vs_get vs' v = Some i" using Suc.prems(3) i by (rule vs_le_get)
  have elts: "opt_map (vrender_f n ff vs) as = Some ss \<Longrightarrow> opt_map (vrender_f m' ff vs') as = Some ss"
    for as ss by (erule opt_map_mono) (rule IH)
  show ?case
    using Suc.prems(1) i i'
    by (cases "v_kind i") (auto simp: m bind_Some_iff split: if_splits dest: IH elts)
qed simp

lemma vrender_f_total:
  assumes "vs_wf vs" "vs_valid vs v" "vr v < n"
  shows "\<exists>s. vrender_f n ff vs v = Some s"
  using assms(2,3)
proof (induction n arbitrary: v)
  case (Suc n)
  from Suc.prems obtain i where i: "vs_get vs v = Some i" using vs_valid_get by blast
  have refs: "\<exists>s. vrender_f n ff vs c = Some s" if "c \<in> set (value_refs (v_kind i))" for c
    using vs_wf_refs [OF assms(1) i that] Suc.prems by (intro Suc.IH) auto
  have list: "\<exists>ss. opt_map (vrender_f n ff vs) cs = Some ss"
    if "set cs \<subseteq> set (value_refs (v_kind i))" for cs
    using that refs by (intro opt_map_total) auto
  show ?case
    using i refs list [of "value_refs (v_kind i)"]
    by (cases "v_kind i") auto
qed simp

lemma vrender_total: "vs_wf vs \<Longrightarrow> vs_valid vs v \<Longrightarrow> \<exists>s. vrender ff vs v = Some s"
  unfolding vrender_def by (rule vrender_f_total) auto

lemma vrender_le: "vs_le vs vs' \<Longrightarrow> vrender ff vs v = Some s \<Longrightarrow> vrender ff vs' v = Some s"
  unfolding vrender_def by (erule vrender_f_mono) (auto dest: vs_le_length)

lemma vrender_valid: "vrender ff vs v = Some s \<Longrightarrow> vs_valid vs v"
  by (auto simp: vrender_def bind_Some_iff dest: vs_get_valid)

section \<open>The arena as a reference store\<close>

text \<open>An arena entry is a kind with its type; additions never look entries up.\<close>

definition alloc_info :: "CValueInfo \<Rightarrow> ValueStore \<Rightarrow> ValueRef \<times> ValueStore" where
  "alloc_info i vs = alloc (v_kind i) (v_ty i) vs"

interpretation arena: ref_store vs_get alloc_info vs_wf "\<lambda>i. vs_admits (v_kind i)"
proof unfold_locales
  fix s s' :: ValueStore and i i' :: CValueInfo and r q
  show "vs_wf s \<Longrightarrow> vs_admits (v_kind i) s \<Longrightarrow> alloc_info i s = (r, s') \<Longrightarrow> vs_wf s'"
    by (auto simp: alloc_info_def intro: alloc_wf)
  show "vs_wf s \<Longrightarrow> vs_admits (v_kind i) s \<Longrightarrow> alloc_info i s = (r, s') \<Longrightarrow>
      vs_get s' r = Some i"
    using alloc_get [of s "v_kind i" "v_ty i" r s'] by (simp add: alloc_info_def vs_admits_def)
  show "alloc_info i s = (r, s') \<Longrightarrow> vs_get s q = Some i' \<Longrightarrow> vs_get s' q = Some i'"
    unfolding alloc_info_def by (drule alloc_le) (rule vs_le_get)
qed

end
