(* ===== verification/CModule.thy ===== *)
theory CModule
  imports CAst Values
begin

text \<open>
  The module under construction (\<open>module.rs\<close>): basic blocks, function definitions, the
  lists and name sets of a C file, and the serialisation of all of it. Block labels are
  shown to be distinct within a function, and declarations to be emitted once per name.
\<close>

section \<open>Functions and blocks\<close>

datatype BasicBlockId = BasicBlockId (bid: nat)

record BasicBlockData =
  bb_label :: string
  bb_statements :: "CStmt list"
  bb_terminated :: bool

record FunctionDef =
  fd_name :: string
  fd_return_type :: TypeRef
  fd_params :: "(TypeRef \<times> string) list"
  fd_blocks :: "(nat, BasicBlockData) btree"
  fd_block_counter :: nat
  fd_local_decls :: "string list"
  fd_linkage_prefix :: string
  fd_has_indirect_ret :: bool
  fd_ret_data_type :: "TypeRef option"
  fd_retbuf_name :: "string option"
  fd_invoke_counter :: nat
  fd_param_type_overrides :: "(nat, string) btree"
  fd_is_variadic :: bool
  fd_is_weak :: bool
  fd_on_stack_params :: "nat set"

definition FunctionDef_new :: "string \<Rightarrow> TypeRef \<Rightarrow> (TypeRef \<times> string) list \<Rightarrow> FunctionDef" where
  "FunctionDef_new name return_type params =
     \<lparr>fd_name = name, fd_return_type = return_type, fd_params = params, fd_blocks = [],
      fd_block_counter = 0, fd_local_decls = [], fd_linkage_prefix = [],
      fd_has_indirect_ret = False, fd_ret_data_type = None, fd_retbuf_name = None,
      fd_invoke_counter = 0, fd_param_type_overrides = [], fd_is_variadic = False,
      fd_is_weak = True, fd_on_stack_params = {}\<rparr>"

definition new_block :: "string \<Rightarrow> FunctionDef \<Rightarrow> BasicBlockId \<times> FunctionDef" where
  "new_block label f =
     (let i = fd_block_counter f in
      (BasicBlockId i,
       f\<lparr>fd_block_counter := as_u32 (fd_block_counter f + 1),
         fd_blocks := bt_insert i \<lparr>bb_label = label, bb_statements = [], bb_terminated = False\<rparr>
                        (fd_blocks f)\<rparr>))"

definition fd_emit :: "BasicBlockId \<Rightarrow> CStmt \<Rightarrow> FunctionDef \<Rightarrow> FunctionDef" where
  "fd_emit bb stmt f =
     f\<lparr>fd_blocks := bt_adjust (bid bb)
        (\<lambda>b. b\<lparr>bb_statements := bb_statements b @ [stmt]\<rparr>) (fd_blocks f)\<rparr>"

definition fd_set_terminated :: "BasicBlockId \<Rightarrow> FunctionDef \<Rightarrow> FunctionDef" where
  "fd_set_terminated bb f =
     f\<lparr>fd_blocks := bt_adjust (bid bb) (\<lambda>b. b\<lparr>bb_terminated := True\<rparr>) (fd_blocks f)\<rparr>"

definition fd_add_local_decl :: "string \<Rightarrow> FunctionDef \<Rightarrow> FunctionDef" where
  "fd_add_local_decl decl f = f\<lparr>fd_local_decls := fd_local_decls f @ [decl]\<rparr>"

text \<open>The parameter list of a definition or of a forward declaration.\<close>

definition params_joined :: "string list \<Rightarrow> bool \<Rightarrow> string" where
  "params_joined params_str is_variadic =
     (let p = (if params_str = [] then (if is_variadic then [] else ''void'')
               else join '', '' params_str)
      in if is_variadic then (if p \<noteq> [] then p @ '', '' else p) @ ''...'' else p)"

definition param_text :: "FunctionDef \<Rightarrow> TypeStore \<Rightarrow> nat \<times> TypeRef \<times> string \<Rightarrow> string option" where
  "param_text f types p =
     (case p of (i, ty, name) \<Rightarrow>
        (case bt_get (fd_param_type_overrides f) i of
           Some override_ty \<Rightarrow> Some (override_ty @ '' '' @ name)
         | None \<Rightarrow> render_decl types ty name))"

definition block_text :: "BasicBlockData \<Rightarrow> string" where
  "block_text block =
     bb_label block @ '':'' @ [nl]
     @ pp_buf (with_indent (bb_statements block) 1)
     @ (if bb_terminated block then [] else ''  ; /* fallthrough */'' @ [nl])"

definition FunctionDef_render :: "FunctionDef \<Rightarrow> TypeStore \<Rightarrow> string option" where
  "FunctionDef_render f types =
     do { params_str \<leftarrow> opt_map (param_text f types) (enumerate 0 (fd_params f));
          ret \<leftarrow> render types (fd_return_type f);
          Some (
            (if fd_is_weak f \<and> \<not> str_contains (fd_linkage_prefix f) ''static''
             then ''#pragma weak '' @ fd_name f @ [nl] else [])
            @ fd_linkage_prefix f @ ret @ '' '' @ fd_name f @ ''(''
            @ params_joined params_str (fd_is_variadic f) @ '') {'' @ [nl]
            @ concat (map (\<lambda>decl. ''  '' @ decl @ [nl]) (fd_local_decls f))
            @ (if fd_local_decls f \<noteq> [] then [nl] else [])
            @ concat (map (\<lambda>e. block_text (snd e)) (fd_blocks f))
            @ ''}'' @ [nl]) }"

section \<open>The module\<close>

record CModule =
  m_name :: string
  m_types :: TypeStore
  m_values :: ValueStore
  struct_defs :: "string list"
  global_extern_decls :: "string list"
  global_decls :: "string list"
  function_decls :: "string list"
  declared_fns :: "string set"
  declared_globals :: "string set"
  declared_extern_globals :: "string set"
  function_defs :: "string list"
  open_functions :: "(string, FunctionDef) btree"
  block_to_function :: "(nat, string) btree"
  data_sections :: "string list"
  constructor_defs :: "string list"
  precompiled_source :: "string option"

definition CModule_new :: "string \<Rightarrow> CModule" where
  "CModule_new name =
     \<lparr>m_name = name, m_types = TypeStore_new, m_values = ValueStore_new,
      struct_defs = [], global_extern_decls = [], global_decls = [], function_decls = [],
      declared_fns = {''memcpy'', ''memset'', ''memmove'', ''abort'', ''__rust_try'',
                      ''_Unwind_RaiseException''},
      declared_globals = {}, declared_extern_globals = {}, function_defs = [],
      open_functions = [], block_to_function = [], data_sections = [],
      constructor_defs = [], precompiled_source = None\<rparr>"

definition add_global_decl :: "string \<Rightarrow> string \<Rightarrow> CModule \<Rightarrow> CModule" where
  "add_global_decl name decl m =
     (if name \<notin> declared_extern_globals m then
        m\<lparr>declared_extern_globals := insert name (declared_extern_globals m),
          global_extern_decls := global_extern_decls m @ [decl]\<rparr>
      else m)"

text \<open>
  \<open>if module.declared_fns.insert(name) { module.function_decls.push(decl); }\<close>, as both
  \<open>get_fn\<close> and \<open>predefine_fn\<close> do.
\<close>

definition add_function_decl :: "string \<Rightarrow> string \<Rightarrow> CModule \<Rightarrow> CModule" where
  "add_function_decl name decl m =
     (if name \<notin> declared_fns m then
        m\<lparr>declared_fns := insert name (declared_fns m),
          function_decls := function_decls m @ [decl]\<rparr>
      else m)"

text \<open>The function name and parameter count the serialiser reads off a C text.\<close>

definition sig_of :: "string \<Rightarrow> (string \<times> nat) option" where
  "sig_of def =
     do { paren \<leftarrow> str_find (CHR ''('') def;
          let before = take paren def;
          i \<leftarrow> str_rfind is_whitespace before;
          let name = drop (i + 1) before;
          let after_paren = drop paren def;
          close \<leftarrow> str_find (CHR '')'') after_paren;
          let params = drop 1 (take close after_paren);
          Some (name, if trim params = ''void'' \<or> trim params = [] then 0
                      else split_count (CHR '','') params) }"

definition defined_sigs :: "string list \<Rightarrow> (string, nat) btree" where
  "defined_sigs defs = fold (\<lambda>(k, c) m. bt_insert k c m) (List.map_filter sig_of defs) []"

definition skip_decl :: "(string, nat) btree \<Rightarrow> string \<Rightarrow> bool" where
  "skip_decl sigs decl =
     (case sig_of decl of
        None \<Rightarrow> False
      | Some (name, decl_count) \<Rightarrow>
          (case bt_get sigs name of Some def_count \<Rightarrow> def_count \<noteq> decl_count | None \<Rightarrow> False))"

definition text_lines :: "string list \<Rightarrow> string" where
  "text_lines ds = concat (map (\<lambda>d. d @ [nl]) ds)"

definition blank_after :: "string list \<Rightarrow> string" where
  "blank_after ds = (if ds \<noteq> [] then [nl] else [])"

text \<open>The argument \<open>preamble\<close> is the text of \<open>c/preamble.c\<close>.\<close>

definition to_c_source :: "string \<Rightarrow> CModule \<Rightarrow> string option" where
  "to_c_source preamble m =
     (case precompiled_source m of
        Some src \<Rightarrow> Some src
      | None \<Rightarrow>
          do { defs \<leftarrow> render_struct_defs (m_types m);
               let sigs = defined_sigs (function_defs m);
               Some (preamble
                 @ text_lines defs
                 @ text_lines (struct_defs m) @ blank_after (struct_defs m)
                 @ text_lines (global_extern_decls m) @ blank_after (global_extern_decls m)
                 @ text_lines (filter (\<lambda>decl. \<not> skip_decl sigs decl) (function_decls m))
                 @ blank_after (function_decls m)
                 @ text_lines (data_sections m) @ blank_after (data_sections m)
                 @ text_lines (global_decls m) @ blank_after (global_decls m)
                 @ text_lines (function_defs m)
                 @ text_lines (constructor_defs m)) })"

definition finalize_function :: "string \<Rightarrow> TypeStore \<Rightarrow> CModule \<Rightarrow> CModule option" where
  "finalize_function name types m =
     (case bt_get (open_functions m) name of
        Some func \<Rightarrow>
          do { rendered \<leftarrow> FunctionDef_render func types;
               Some (m\<lparr>open_functions := bt_remove name (open_functions m),
                       function_defs := function_defs m @ [rendered]\<rparr>) }
      | None \<Rightarrow> Some m)"

text \<open>The loop of \<open>compile_codegen_unit\<close> that finalises every open function, in key order.\<close>

fun finalize_names :: "string list \<Rightarrow> TypeStore \<Rightarrow> CModule \<Rightarrow> CModule option" where
  "finalize_names [] types m = Some m"
| "finalize_names (n # ns) types m =
     do { m \<leftarrow> finalize_function n types m; finalize_names ns types m }"

definition finalize_open_functions :: "TypeStore \<Rightarrow> CModule \<Rightarrow> CModule option" where
  "finalize_open_functions types m = finalize_names (map fst (open_functions m)) types m"

section \<open>Block labels\<close>

text \<open>The number a block label carries.\<close>

definition label_number :: "string \<Rightarrow> nat option" where
  "label_number l =
     (if take 3 l = ''bb_'' then read_nat (takeWhile is_digit (drop 3 l))
      else if take 2 l = ''bb'' then read_nat (takeWhile is_digit (drop 2 l))
      else None)"

text \<open>
  The blocks of a function are numbered below its counter, each under its own number, and its
  label carries that number.
\<close>

definition fd_wf :: "FunctionDef \<Rightarrow> bool" where
  "fd_wf f =
     (bt_inv (fd_blocks f) \<and>
      (\<forall>(i, b) \<in> set (fd_blocks f). i < fd_block_counter f \<and> label_number (bb_label b) = Some i))"

lemma takeWhile_digits_nat_str:
  "(\<And>c cs. s = c # cs \<Longrightarrow> \<not> is_digit c) \<Longrightarrow> takeWhile is_digit (nat_str n @ s) = nat_str n"
  using nat_str_digits [of _ n] by (cases s) (auto simp: takeWhile_append)

lemma label_number_plain [simp]: "label_number (''bb'' @ nat_str n) = Some n"
proof -
  obtain c cs where n: "nat_str n = c # cs" by (cases "nat_str n") auto
  then have "is_digit c" using nat_str_digits [of c n] by auto
  then have "c \<noteq> CHR ''_''" by (auto simp: digit_val_def)
  moreover have "takeWhile is_digit (nat_str n) = nat_str n"
    using takeWhile_digits_nat_str [of "[]"] by simp
  ultimately show ?thesis
    using read_nat_nat_str [of n] by (simp add: label_number_def n)
qed

lemma label_number_named [simp]: "label_number (''bb_'' @ nat_str n @ ''_'' @ s) = Some n"
proof -
  have "takeWhile is_digit (nat_str n @ ''_'' @ s) = nat_str n"
    by (rule takeWhile_digits_nat_str) (auto simp: digit_val_def)
  then show ?thesis by (simp add: label_number_def)
qed

lemma fd_wf_new: "fd_wf (FunctionDef_new n r p)"
  by (simp add: fd_wf_def FunctionDef_new_def)

lemma set_bt_insert: "set (bt_insert k v m) \<subseteq> insert (k, v) (set m)"
  by (induction m) (auto split: if_splits)

lemma new_block_wf:
  assumes wf: "fd_wf f" and label: "label_number l = Some (fd_block_counter f)"
    and room: "fd_block_counter f + 1 < 2 ^ 32" and nb: "new_block l f = (bb, f')"
  shows "fd_wf f'"
proof -
  have c: "as_u32 (fd_block_counter f + 1) = fd_block_counter f + 1"
    using room by (rule as_u32_small)
  show ?thesis
    using wf label nb set_bt_insert [of "fd_block_counter f" _ "fd_blocks f"]
    by (fastforce simp: fd_wf_def new_block_def Let_def c [simplified] split: prod.splits)
qed

lemma bt_adjust_set:
  "(i, b) \<in> set (bt_adjust k g m) \<longleftrightarrow> (\<exists>b'. (i, b') \<in> set m \<and> b = (if i = k then g b' else b'))"
  by (force simp: bt_adjust_def image_iff)

lemma fd_wf_adjust:
  assumes "fd_wf f" "\<And>b. bb_label (g b) = bb_label b"
  shows "fd_wf (f\<lparr>fd_blocks := bt_adjust k g (fd_blocks f)\<rparr>)"
  using assms by (fastforce simp: fd_wf_def bt_adjust_set)

lemma fd_wf_emit: "fd_wf f \<Longrightarrow> fd_wf (fd_emit bb s f)"
  unfolding fd_emit_def by (erule fd_wf_adjust) simp

lemma fd_wf_set_terminated: "fd_wf f \<Longrightarrow> fd_wf (fd_set_terminated bb f)"
  unfolding fd_set_terminated_def by (erule fd_wf_adjust) simp

lemma fd_wf_add_local_decl: "fd_wf f \<Longrightarrow> fd_wf (fd_add_local_decl d f)"
  by (simp add: fd_wf_def fd_add_local_decl_def)

text \<open>Distinct blocks have distinct labels, which is what makes a C \<open>goto\<close> unambiguous.\<close>

lemma fd_wf_labels_distinct:
  assumes "fd_wf f" shows "distinct (map (\<lambda>e. bb_label (snd e)) (fd_blocks f))"
proof -
  have d: "distinct (map fst (fd_blocks f))" using assms by (simp add: fd_wf_def bt_inv_def)
  have "map (\<lambda>e. label_number (bb_label (snd e))) (fd_blocks f) = map (Some \<circ> fst) (fd_blocks f)"
    using assms by (auto simp: fd_wf_def)
  then have eq: "map label_number (map (\<lambda>e. bb_label (snd e)) (fd_blocks f))
      = map Some (map fst (fd_blocks f))"
    by (simp add: comp_def)
  have "distinct (map Some (map fst (fd_blocks f)))"
    using d by (simp only: distinct_map inj_on_def) auto
  then have "distinct (map label_number (map (\<lambda>e. bb_label (snd e)) (fd_blocks f)))"
    by (simp only: eq)
  then show ?thesis using distinct_map by blast
qed

section \<open>One declaration per name\<close>

text \<open>
  A module is consistent when the text lists are as long as the name sets that guard them.
\<close>

definition decls_once :: "CModule \<Rightarrow> bool" where
  "decls_once m =
     (finite (declared_extern_globals m) \<and> finite (declared_fns m) \<and>
      length (global_extern_decls m) = card (declared_extern_globals m) \<and>
      length (function_decls m) + 6 = card (declared_fns m))"

lemma decls_once_new: "decls_once (CModule_new n)"
  by (simp add: decls_once_def CModule_new_def)

lemma decls_once_add_global: "decls_once m \<Longrightarrow> decls_once (add_global_decl n d m)"
  by (auto simp: decls_once_def add_global_decl_def)

lemma decls_once_add_function: "decls_once m \<Longrightarrow> decls_once (add_function_decl n d m)"
  by (auto simp: decls_once_def add_function_decl_def)

end
