(* ===== verification/Context.thy ===== *)
theory Context
  imports CModule
begin

text \<open>
  The codegen context of \<open>context.rs\<close>: the type store, the value arena, the module and the
  caches, with the operations through which everything else reaches them; the type
  constructors and queries of \<open>types.rs\<close> that are methods of the context.

  From the compiler session the context uses the pointer width of the target and, through
  Rust's formatter, the decimal text of a float; both are fields. Instances and definition
  ids of the compiler are opaque numbers. The reference cells are not modelled: each
  operation takes the context and returns it updated. Where the code would borrow a cell
  twice, which panics, the model returns \<open>None\<close>.
\<close>

section \<open>The context\<close>

record CodegenCx =
  pointer_bits :: nat
  fmt_f64 :: "f64 \<Rightarrow> string"
  cx_types :: TypeStore
  cx_values :: ValueStore
  cx_module :: CModule
  cx_instances :: "nat \<rightharpoonup> ValueRef"
  cx_statics_cache :: "nat \<rightharpoonup> ValueRef"
  cx_eh_personality :: "ValueRef option"

definition CodegenCx_new :: "nat \<Rightarrow> (f64 \<Rightarrow> string) \<Rightarrow> string \<Rightarrow> CodegenCx" where
  "CodegenCx_new ptr_bits fmt name =
     \<lparr>pointer_bits = ptr_bits, fmt_f64 = fmt,
      cx_types = snd (intern TVoid TypeStore_new), cx_values = ValueStore_new,
      cx_module = CModule_new name, cx_instances = Map.empty, cx_statics_cache = Map.empty,
      cx_eh_personality = None\<rparr>"

definition intern_type :: "CTypeKind \<Rightarrow> CodegenCx \<Rightarrow> TypeRef \<times> CodegenCx" where
  "intern_type kind cx =
     (let (t, ts) = intern kind (cx_types cx) in (t, cx\<lparr>cx_types := ts\<rparr>))"

definition intern_value :: "CValueKind \<Rightarrow> TypeRef \<Rightarrow> CodegenCx \<Rightarrow> ValueRef \<times> CodegenCx" where
  "intern_value kind ty cx =
     (let (v, vs) = alloc kind ty (cx_values cx) in (v, cx\<lparr>cx_values := vs\<rparr>))"

definition new_temp :: "TypeRef \<Rightarrow> CodegenCx \<Rightarrow> ValueRef \<times> CodegenCx" where
  "new_temp ty cx = (let (v, vs) = next_temp ty (cx_values cx) in (v, cx\<lparr>cx_values := vs\<rparr>))"

definition render_value :: "CodegenCx \<Rightarrow> ValueRef \<Rightarrow> string option" where
  "render_value cx v = vrender (fmt_f64 cx) (cx_values cx) v"

definition render_type :: "CodegenCx \<Rightarrow> TypeRef \<Rightarrow> string option" where
  "render_type cx ty = render (cx_types cx) ty"

definition render_type_decl :: "CodegenCx \<Rightarrow> TypeRef \<Rightarrow> string \<Rightarrow> string option" where
  "render_type_decl cx ty name = render_decl (cx_types cx) ty name"

definition type_of_value :: "CodegenCx \<Rightarrow> ValueRef \<Rightarrow> TypeRef option" where
  "type_of_value cx v = get_type (cx_values cx) v"

definition kind_of :: "CodegenCx \<Rightarrow> TypeRef \<Rightarrow> CTypeKind option" where
  "kind_of cx ty = ts_get (cx_types cx) ty"

section \<open>Names\<close>

definition is_ascii_alphanumeric :: "char \<Rightarrow> bool" where
  "is_ascii_alphanumeric c =
     (let n = (of_char c :: nat) in
      (48 \<le> n \<and> n \<le> 57) \<or> (65 \<le> n \<and> n \<le> 90) \<or> (97 \<le> n \<and> n \<le> 122))"

definition sanitize_name :: "string \<Rightarrow> string" where
  "sanitize_name name =
     map (\<lambda>c. if is_ascii_alphanumeric c \<or> c = CHR ''_'' then c else CHR ''_'') name"

definition asm_label :: "string \<Rightarrow> string \<Rightarrow> string" where
  "asm_label original sanitized =
     (if original = sanitized then []
      else '' __asm__('' @ [dquote] @ original @ [dquote] @ '')'')"

section \<open>Type constructors and queries\<close>

definition type_i8 :: "CodegenCx \<Rightarrow> TypeRef \<times> CodegenCx" where
  "type_i8 cx = intern_type (TInt 8 True) cx"

definition type_i16 :: "CodegenCx \<Rightarrow> TypeRef \<times> CodegenCx" where
  "type_i16 cx = intern_type (TInt 16 True) cx"

definition type_i32 :: "CodegenCx \<Rightarrow> TypeRef \<times> CodegenCx" where
  "type_i32 cx = intern_type (TInt 32 True) cx"

definition type_i64 :: "CodegenCx \<Rightarrow> TypeRef \<times> CodegenCx" where
  "type_i64 cx = intern_type (TInt 64 True) cx"

definition type_i128 :: "CodegenCx \<Rightarrow> TypeRef \<times> CodegenCx" where
  "type_i128 cx = intern_type (TInt 128 True) cx"

definition type_isize :: "CodegenCx \<Rightarrow> TypeRef \<times> CodegenCx" where
  "type_isize cx = intern_type (TPtrWidth True) cx"

definition type_usize :: "CodegenCx \<Rightarrow> TypeRef \<times> CodegenCx" where
  "type_usize cx = intern_type (TPtrWidth False) cx"

definition type_f16 :: "CodegenCx \<Rightarrow> TypeRef \<times> CodegenCx" where
  "type_f16 cx = intern_type (TFloat 16) cx"

definition type_f32 :: "CodegenCx \<Rightarrow> TypeRef \<times> CodegenCx" where
  "type_f32 cx = intern_type (TFloat 32) cx"

definition type_f64 :: "CodegenCx \<Rightarrow> TypeRef \<times> CodegenCx" where
  "type_f64 cx = intern_type (TFloat 64) cx"

definition type_f128 :: "CodegenCx \<Rightarrow> TypeRef \<times> CodegenCx" where
  "type_f128 cx = intern_type (TFloat 128) cx"

definition type_array :: "TypeRef \<Rightarrow> nat \<Rightarrow> CodegenCx \<Rightarrow> TypeRef \<times> CodegenCx" where
  "type_array ty len cx = intern_type (TArray ty len) cx"

definition type_func :: "TypeRef list \<Rightarrow> TypeRef \<Rightarrow> CodegenCx \<Rightarrow> TypeRef \<times> CodegenCx" where
  "type_func args ret cx = intern_type (TFunction ret args False) cx"

definition type_ptr :: "CodegenCx \<Rightarrow> TypeRef \<times> CodegenCx" where
  "type_ptr cx = intern_type TPtr cx"

text \<open>The kinds of \<open>rustc_codegen_ssa::common::TypeKind\<close> that the source names.\<close>

datatype TypeKind =
    KVoid | KHalf | KFloat | KDouble | KFP128 | KInteger | KFunction | KStruct | KArray
  | KPointer | KScalableVector

fun kind_class :: "CTypeKind \<Rightarrow> TypeKind" where
  "kind_class TVoid = KVoid"
| "kind_class TBool = KInteger"
| "kind_class (TInt bits signed) = KInteger"
| "kind_class (TFloat bits) =
     (if bits = 16 then KHalf else if bits = 32 then KFloat else if bits = 64 then KDouble
      else if bits = 128 then KFP128 else KFloat)"
| "kind_class TPtr = KPointer"
| "kind_class (TArray e n) = KArray"
| "kind_class (TStruct fs p n) = KStruct"
| "kind_class (TFunction r as v) = KFunction"
| "kind_class (TVector e n) = KScalableVector"
| "kind_class (TPtrWidth s) = KInteger"

definition type_kind :: "CodegenCx \<Rightarrow> TypeRef \<Rightarrow> TypeKind option" where
  "type_kind cx ty = map_option kind_class (kind_of cx ty)"

definition element_type :: "CodegenCx \<Rightarrow> TypeRef \<Rightarrow> TypeRef option" where
  "element_type cx ty =
     do { k \<leftarrow> kind_of cx ty;
          case k of TArray element len \<Rightarrow> Some element
          | TVector element len \<Rightarrow> Some element | _ \<Rightarrow> None }"

definition vector_length :: "CodegenCx \<Rightarrow> TypeRef \<Rightarrow> nat option" where
  "vector_length cx ty =
     do { k \<leftarrow> kind_of cx ty; case k of TVector element len \<Rightarrow> Some len | _ \<Rightarrow> None }"

definition float_width :: "CodegenCx \<Rightarrow> TypeRef \<Rightarrow> nat option" where
  "float_width cx ty =
     do { k \<leftarrow> kind_of cx ty; case k of TFloat bits \<Rightarrow> Some bits | _ \<Rightarrow> None }"

definition int_width :: "CodegenCx \<Rightarrow> TypeRef \<Rightarrow> nat option" where
  "int_width cx ty =
     do { k \<leftarrow> kind_of cx ty;
          case k of TBool \<Rightarrow> Some 1 | TInt bits signed \<Rightarrow> Some bits
          | TPtrWidth signed \<Rightarrow> Some (pointer_bits cx) | TPtr \<Rightarrow> Some (pointer_bits cx)
          | _ \<Rightarrow> None }"

text \<open>The register kinds of \<open>rustc_abi::RegKind\<close>.\<close>

datatype RegKind = RInteger | RFloat | RVector

definition reg_backend_type :: "RegKind \<Rightarrow> nat \<Rightarrow> CodegenCx \<Rightarrow> TypeRef \<times> CodegenCx" where
  "reg_backend_type rk bits cx =
     (case rk of
        RInteger \<Rightarrow> intern_type (TInt (as_u32 bits) True) cx
      | RFloat \<Rightarrow> intern_type (TFloat (as_u32 bits)) cx
      | RVector \<Rightarrow>
          (let (elem, cx) = intern_type (TInt 8 True) cx
           in intern_type (TVector elem (bits div 8)) cx))"

section \<open>The entry point and the personality function\<close>

definition eh_personality :: "CodegenCx \<Rightarrow> ValueRef \<times> CodegenCx" where
  "eh_personality cx =
     (case cx_eh_personality cx of
        Some v \<Rightarrow> (v, cx)
      | None \<Rightarrow>
          (let (i32_ty, cx) = intern_type (TInt 32 True) cx;
               (sig, cx) = intern_type (TFunction i32_ty [] False) cx;
               (ptr_ty, cx) = type_ptr cx;
               (val, cx) = intern_value (FunctionVal ''__rust_eh_personality'' sig) ptr_ty cx
           in (val, cx\<lparr>cx_eh_personality := Some val\<rparr>)))"

definition declare_c_main :: "CodegenCx \<Rightarrow> ValueRef option \<times> CodegenCx" where
  "declare_c_main cx =
     (let (ret_ty, cx) = intern_type (TInt 32 True) cx;
          (sig, cx) = intern_type (TFunction ret_ty [] False) cx;
          (ptr_ty, cx) = type_ptr cx;
          (val, cx) = intern_value (FunctionVal ''main'' sig) ptr_ty cx;
          (i32_ty, cx) = type_i32 cx;
          params = [(i32_ty, ''_arg0''), (ptr_ty, ''_arg1'')];
          func_def = FunctionDef_new ''main'' ret_ty params;
          func_def = func_def\<lparr>fd_param_type_overrides :=
            bt_insert 1 ''char **'' (fd_param_type_overrides func_def)\<rparr>;
          m = cx_module cx
      in (Some val, cx\<lparr>cx_module :=
            m\<lparr>open_functions := bt_insert ''main'' func_def (open_functions m)\<rparr>\<rparr>))"

definition predefine_static :: "nat \<Rightarrow> string \<Rightarrow> CodegenCx \<Rightarrow> CodegenCx" where
  "predefine_static def_id symbol_name cx =
     (let c_name = sanitize_name symbol_name;
          (ptr_ty, cx) = type_ptr cx;
          (val, cx) = intern_value (Global (''&'' @ c_name)) ptr_ty cx;
          cx = cx\<lparr>cx_statics_cache := (cx_statics_cache cx)(def_id \<mapsto> val)\<rparr>;
          m = cx_module cx
      in cx\<lparr>cx_module := m\<lparr>declared_globals := insert c_name (declared_globals m)\<rparr>\<rparr>)"

section \<open>Well-formed contexts\<close>

text \<open>
  A context is well formed when its two stores are, when every type a value or an open
  function mentions is in the type store, and when the open functions are well formed.
\<close>

fun kind_types :: "CValueKind \<Rightarrow> TypeRef list" where
  "kind_types (FunctionVal n sig) = [sig]"
| "kind_types _ = []"

definition value_typed :: "TypeStore \<Rightarrow> CValueInfo \<Rightarrow> bool" where
  "value_typed ts i = (ts_valid ts (v_ty i) \<and> (\<forall>t \<in> set (kind_types (v_kind i)). ts_valid ts t))"

definition fn_typed :: "TypeStore \<Rightarrow> FunctionDef \<Rightarrow> bool" where
  "fn_typed ts f =
     (ts_valid ts (fd_return_type f) \<and> (\<forall>p \<in> set (fd_params f). ts_valid ts (fst p)) \<and>
      (case fd_ret_data_type f of None \<Rightarrow> True | Some t \<Rightarrow> ts_valid ts t))"

definition cx_wf :: "CodegenCx \<Rightarrow> bool" where
  "cx_wf cx =
     (ts_wf (cx_types cx) \<and> vs_wf (cx_values cx) \<and>
      (\<forall>i \<in> set (vs_values (cx_values cx)). value_typed (cx_types cx) i) \<and>
      bt_inv (open_functions (cx_module cx)) \<and>
      (\<forall>(n, f) \<in> set (open_functions (cx_module cx)). fd_wf f \<and> fn_typed (cx_types cx) f))"

text \<open>Space for \<open>n\<close> more entries in each store before a 32-bit reference would wrap.\<close>

definition room :: "nat \<Rightarrow> CodegenCx \<Rightarrow> bool" where
  "room n cx =
     (length (ts_types (cx_types cx)) + n < 2 ^ 32 \<and>
      length (vs_values (cx_values cx)) + n < 2 ^ 32)"

abbreviation tval :: "CodegenCx \<Rightarrow> TypeRef \<Rightarrow> bool" where
  "tval cx t \<equiv> ts_valid (cx_types cx) t"

abbreviation vval :: "CodegenCx \<Rightarrow> ValueRef \<Rightarrow> bool" where
  "vval cx v \<equiv> vs_valid (cx_values cx) v"

lemma room_mono: "room n cx \<Longrightarrow> m \<le> n \<Longrightarrow> room m cx"
  by (auto simp: room_def)

lemma room_zero: "room 1 cx \<Longrightarrow> room 0 cx"
  by (rule room_mono) auto

lemma value_typed_le: "ts_le ts ts' \<Longrightarrow> value_typed ts i \<Longrightarrow> value_typed ts' i"
  by (auto simp: value_typed_def dest: ts_le_valid)

lemma fn_typed_le: "ts_le ts ts' \<Longrightarrow> fn_typed ts f \<Longrightarrow> fn_typed ts' f"
  by (auto simp: fn_typed_def dest: ts_le_valid split: option.splits)

lemma cx_wf_new: "cx_wf (CodegenCx_new p fmt n)"
proof -
  have ts: "ts_wf (snd (intern TVoid TypeStore_new))"
    using ts_wf_new intern_wf [of TypeStore_new TVoid] 
    by (cases "intern TVoid TypeStore_new") (auto simp: ts_admits_def TypeStore_new_def)
  show ?thesis
    using ts vs_wf_new by (simp add: cx_wf_def CodegenCx_new_def CModule_new_def ValueStore_new_def)
qed

end
