(* ===== verification/BuilderCore.thy ===== *)
theory BuilderCore
  imports Context
begin

text \<open>
  The builder of \<open>builder.rs\<close>: its two fields, the helpers every operation is written with
  (emit a statement, declare and assign a temporary, cast, pick the unsigned variant of a
  type) and the operations on blocks and on control flow, apart from calls.

  An operation takes the builder, its arguments and the context and returns its result with
  the updated context, or \<open>None\<close> where the code panics. Only \<open>switch_to_block\<close> changes the
  builder's own fields.
\<close>

section \<open>The builder and its helpers\<close>

record Builder =
  current_bb :: BasicBlockId
  current_fn :: string

text \<open>\<open>if let Some(func) = module.open_functions.get_mut(&self.current_fn) { .. }\<close>\<close>

definition with_current_fn :: "Builder \<Rightarrow> (FunctionDef \<Rightarrow> FunctionDef) \<Rightarrow> CodegenCx \<Rightarrow> CodegenCx" where
  "with_current_fn b g cx =
     (let m = cx_module cx in
      cx\<lparr>cx_module := m\<lparr>open_functions := bt_adjust (current_fn b) g (open_functions m)\<rparr>\<rparr>)"

definition lookup_current_fn :: "Builder \<Rightarrow> CodegenCx \<Rightarrow> FunctionDef option" where
  "lookup_current_fn b cx = bt_get (open_functions (cx_module cx)) (current_fn b)"

definition emit :: "Builder \<Rightarrow> CStmt \<Rightarrow> CodegenCx \<Rightarrow> CodegenCx" where
  "emit b stmt cx = with_current_fn b (fd_emit (current_bb b) stmt) cx"

definition local_decl :: "Builder \<Rightarrow> string \<Rightarrow> CodegenCx \<Rightarrow> CodegenCx" where
  "local_decl b decl cx = with_current_fn b (fd_add_local_decl decl) cx"

definition set_terminated :: "Builder \<Rightarrow> CodegenCx \<Rightarrow> CodegenCx" where
  "set_terminated b cx = with_current_fn b (fd_set_terminated (current_bb b)) cx"

definition new_temp_with_stmt ::
  "Builder \<Rightarrow> TypeRef \<Rightarrow> CExpr \<Rightarrow> CodegenCx \<Rightarrow> (ValueRef \<times> CodegenCx) option" where
  "new_temp_with_stmt b ty expr cx =
     do { let (val, cx) = new_temp ty cx;
          name \<leftarrow> render_value cx val;
          decl_str \<leftarrow> render_type_decl cx ty name;
          let cx = local_decl b (decl_str @ '';'') cx;
          let cx = emit b (Assign (Var name) expr) cx;
          Some (val, cx) }"

definition binop ::
  "Builder \<Rightarrow> CBinOp \<Rightarrow> ValueRef \<Rightarrow> ValueRef \<Rightarrow> CodegenCx \<Rightarrow> (ValueRef \<times> CodegenCx) option" where
  "binop b op lhs rhs cx =
     do { ty \<leftarrow> type_of_value cx lhs;
          l \<leftarrow> render_value cx lhs;
          r \<leftarrow> render_value cx rhs;
          new_temp_with_stmt b ty (BinOp (Var l) op (Var r)) cx }"

definition cast_op ::
  "Builder \<Rightarrow> ValueRef \<Rightarrow> TypeRef \<Rightarrow> CodegenCx \<Rightarrow> (ValueRef \<times> CodegenCx) option" where
  "cast_op b val dest_ty cx =
     do { v \<leftarrow> render_value cx val;
          t \<leftarrow> render_type cx dest_ty;
          new_temp_with_stmt b dest_ty (Cast t (Var v)) cx }"

fun ptr_int_pair :: "CTypeKind \<Rightarrow> CTypeKind \<Rightarrow> bool" where
  "ptr_int_pair TPtr (TPtrWidth s) = True"
| "ptr_int_pair TPtr (TInt n s) = True"
| "ptr_int_pair (TPtrWidth s) TPtr = True"
| "ptr_int_pair (TInt n s) TPtr = True"
| "ptr_int_pair _ _ = False"

definition coerce_ptr_int ::
  "Builder \<Rightarrow> ValueRef \<Rightarrow> TypeRef \<Rightarrow> CodegenCx \<Rightarrow> (ValueRef \<times> CodegenCx) option" where
  "coerce_ptr_int b val dest_ty cx =
     do { src_ty \<leftarrow> type_of_value cx val;
          if src_ty = dest_ty then Some (val, cx)
          else do { src \<leftarrow> kind_of cx src_ty;
                    dst \<leftarrow> kind_of cx dest_ty;
                    if ptr_int_pair src dst then cast_op b val dest_ty cx else Some (val, cx) } }"

definition unsigned_type ::
  "TypeRef \<Rightarrow> CodegenCx \<Rightarrow> (TypeRef option \<times> CodegenCx) option" where
  "unsigned_type ty cx =
     do { k \<leftarrow> kind_of cx ty;
          Some (case k of
              TInt bits True \<Rightarrow> map_prod Some id (intern_type (TInt bits False) cx)
            | TPtrWidth True \<Rightarrow> map_prod Some id (intern_type (TPtrWidth False) cx)
            | _ \<Rightarrow> (None, cx)) }"

definition unsigned_binop ::
  "Builder \<Rightarrow> CBinOp \<Rightarrow> ValueRef \<Rightarrow> ValueRef \<Rightarrow> CodegenCx \<Rightarrow> (ValueRef \<times> CodegenCx) option" where
  "unsigned_binop b op lhs rhs cx =
     do { ty \<leftarrow> type_of_value cx lhs;
          (u, cx) \<leftarrow> unsigned_type ty cx;
          case u of
            Some unsigned_ty \<Rightarrow>
              do { l \<leftarrow> render_value cx lhs;
                   r \<leftarrow> render_value cx rhs;
                   ut \<leftarrow> render_type cx unsigned_ty;
                   t \<leftarrow> render_type cx ty;
                   new_temp_with_stmt b ty
                     (Cast t (Paren (BinOp (Cast ut (Var l)) op (Cast ut (Var r))))) cx }
          | None \<Rightarrow> binop b op lhs rhs cx }"

text \<open>The orderings of \<open>rustc_middle::ty::AtomicOrdering\<close>.\<close>

datatype AtomicOrdering = Relaxed | Acquire | Release | AcqRel | SeqCst

fun atomic_ordering_to_c :: "AtomicOrdering \<Rightarrow> string" where
  "atomic_ordering_to_c Relaxed = ''memory_order_relaxed''"
| "atomic_ordering_to_c Acquire = ''memory_order_acquire''"
| "atomic_ordering_to_c Release = ''memory_order_release''"
| "atomic_ordering_to_c AcqRel = ''memory_order_acq_rel''"
| "atomic_ordering_to_c SeqCst = ''memory_order_seq_cst''"

definition block_label :: "Builder \<Rightarrow> CodegenCx \<Rightarrow> BasicBlockId \<Rightarrow> string" where
  "block_label b cx bb =
     (case lookup_current_fn b cx of
        Some func \<Rightarrow> (case bt_get (fd_blocks func) (bid bb) of
                        Some block \<Rightarrow> bb_label block | None \<Rightarrow> ''bb'' @ nat_str (bid bb))
      | None \<Rightarrow> ''bb'' @ nat_str (bid bb))"

section \<open>Blocks\<close>

definition build :: "CodegenCx \<Rightarrow> BasicBlockId \<Rightarrow> Builder" where
  "build cx llbb =
     \<lparr>current_bb = llbb,
      current_fn = (case bt_get (block_to_function (cx_module cx)) (bid llbb) of
                      Some n \<Rightarrow> n | None \<Rightarrow> [])\<rparr>"

text \<open>
  \<open>func.new_block(label)\<close> in an open function and the entry in the reverse map; both ways of
  appending a block end with it.
\<close>

definition push_block ::
  "string \<Rightarrow> FunctionDef \<Rightarrow> string \<Rightarrow> CodegenCx \<Rightarrow> BasicBlockId \<times> CodegenCx" where
  "push_block fn_name func label cx =
     (let m = cx_module cx; (bb, func) = new_block label func in
      (bb, cx\<lparr>cx_module :=
         m\<lparr>open_functions := bt_adjust fn_name (\<lambda>_. func) (open_functions m),
           block_to_function := bt_insert (bid bb) fn_name (block_to_function m)\<rparr>\<rparr>))"

definition append_block ::
  "ValueRef \<Rightarrow> string \<Rightarrow> CodegenCx \<Rightarrow> (BasicBlockId \<times> CodegenCx) option" where
  "append_block llfn name cx =
     do { fn_name \<leftarrow> render_value cx llfn;
          case bt_get (open_functions (cx_module cx)) fn_name of
            Some func \<Rightarrow>
              Some (push_block fn_name func
                (if name = [] then ''bb'' @ nat_str (fd_block_counter func)
                 else ''bb_'' @ nat_str (fd_block_counter func) @ ''_'' @ sanitize_name name) cx)
          | None \<Rightarrow> Some (BasicBlockId u32_MAX, cx) }"

definition append_sibling_block :: "Builder \<Rightarrow> string \<Rightarrow> CodegenCx \<Rightarrow> BasicBlockId \<times> CodegenCx" where
  "append_sibling_block b name cx =
     (case lookup_current_fn b cx of
        Some func \<Rightarrow>
          push_block (current_fn b) func
            (''bb_'' @ nat_str (fd_block_counter func) @ ''_'' @ sanitize_name name) cx
      | None \<Rightarrow> (BasicBlockId u32_MAX, cx))"

definition switch_to_block :: "BasicBlockId \<Rightarrow> Builder \<Rightarrow> Builder" where
  "switch_to_block llbb b = b\<lparr>current_bb := llbb\<rparr>"

section \<open>Control flow\<close>

definition ret_void :: "Builder \<Rightarrow> CodegenCx \<Rightarrow> CodegenCx" where
  "ret_void b cx =
     (let retbuf = Option.bind (lookup_current_fn b cx) fd_retbuf_name;
          cx = (case retbuf of
                  Some name \<Rightarrow> emit b (Return (Some (Var name))) cx
                | None \<Rightarrow> emit b (Return None) cx)
      in set_terminated b cx)"

definition ret :: "Builder \<Rightarrow> ValueRef \<Rightarrow> CodegenCx \<Rightarrow> CodegenCx option" where
  "ret b v cx =
     do { is_void \<leftarrow> (case lookup_current_fn b cx of
             Some f \<Rightarrow> map_option (\<lambda>k. k = TVoid) (kind_of cx (fd_return_type f))
           | None \<Rightarrow> Some False);
          cx \<leftarrow> (if is_void then Some (emit b (Return None) cx)
                 else do { val \<leftarrow> render_value cx v;
                           Some (emit b (Return (Some (Var val))) cx) });
          Some (set_terminated b cx) }"

definition br :: "Builder \<Rightarrow> BasicBlockId \<Rightarrow> CodegenCx \<Rightarrow> CodegenCx" where
  "br b dest cx =
     (let label = block_label b cx dest in set_terminated b (emit b (Goto label) cx))"

definition cond_br ::
  "Builder \<Rightarrow> ValueRef \<Rightarrow> BasicBlockId \<Rightarrow> BasicBlockId \<Rightarrow> CodegenCx \<Rightarrow> CodegenCx option" where
  "cond_br b cond then_llbb else_llbb cx =
     do { c \<leftarrow> render_value cx cond;
          let then_label = block_label b cx then_llbb;
          let else_label = block_label b cx else_llbb;
          Some (set_terminated b (emit b (CondGoto (Var c) then_label else_label) cx)) }"

definition switch_expr :: "CTypeKind \<Rightarrow> string \<Rightarrow> CExpr" where
  "switch_expr k val =
     (case k of
        TInt bits True \<Rightarrow> Cast (''uint'' @ nat_str bits @ ''_t'') (Var val)
      | TPtrWidth True \<Rightarrow> Cast ''__rustc_usize'' (Var val)
      | _ \<Rightarrow> Var val)"

text \<open>The constants are \<open>u128\<close>.\<close>

definition case_expr :: "nat \<Rightarrow> CExpr" where
  "case_expr constant =
     (if constant > u64_MAX then
        (let hi = as_u64 (constant div 2 ^ 64); lo = as_u64 constant in
         Raw (''((uint128_t)'' @ nat_str hi @ ''ULL << 64 | '' @ nat_str lo @ ''ULL)''))
      else Lit (nat_str constant @ ''ULL''))"

definition switch ::
  "Builder \<Rightarrow> ValueRef \<Rightarrow> BasicBlockId \<Rightarrow> (nat \<times> BasicBlockId) list \<Rightarrow> CodegenCx
   \<Rightarrow> CodegenCx option" where
  "switch b v else_llbb cases cx =
     do { val \<leftarrow> render_value cx v;
          let else_label = block_label b cx else_llbb;
          val_ty \<leftarrow> type_of_value cx v;
          k \<leftarrow> kind_of cx val_ty;
          let ast_cases = map (\<lambda>(constant, bb). (case_expr constant, block_label b cx bb)) cases;
          Some (set_terminated b (emit b (Switch (switch_expr k val) ast_cases else_label) cx)) }"

definition unreachable :: "Builder \<Rightarrow> CodegenCx \<Rightarrow> CodegenCx" where
  "unreachable b cx = set_terminated b (emit b Unreachable cx)"

end
