(* ===== verification/BuilderArith.thy ===== *)
theory BuilderArith
  imports BuilderCore
begin

text \<open>
  The arithmetic, shift and bitwise operations of \<open>builder.rs\<close>, the negations and the
  overflow-checked operations. The signed operations print the C operator itself; the
  unsigned ones and the logical shift go through the unsigned variant of the type.
\<close>

type_synonym value_op = "CodegenCx \<Rightarrow> (ValueRef \<times> CodegenCx) option"

section \<open>Binary operations\<close>

definition op_add :: "Builder \<Rightarrow> ValueRef \<Rightarrow> ValueRef \<Rightarrow> value_op" where
  "op_add b lhs rhs = binop b Add lhs rhs"

definition op_fadd :: "Builder \<Rightarrow> ValueRef \<Rightarrow> ValueRef \<Rightarrow> value_op" where
  "op_fadd b lhs rhs = binop b Add lhs rhs"

definition op_fadd_fast :: "Builder \<Rightarrow> ValueRef \<Rightarrow> ValueRef \<Rightarrow> value_op" where
  "op_fadd_fast b lhs rhs = binop b Add lhs rhs"

definition op_fadd_algebraic :: "Builder \<Rightarrow> ValueRef \<Rightarrow> ValueRef \<Rightarrow> value_op" where
  "op_fadd_algebraic b lhs rhs = binop b Add lhs rhs"

definition op_sub :: "Builder \<Rightarrow> ValueRef \<Rightarrow> ValueRef \<Rightarrow> value_op" where
  "op_sub b lhs rhs = binop b Sub lhs rhs"

definition op_fsub :: "Builder \<Rightarrow> ValueRef \<Rightarrow> ValueRef \<Rightarrow> value_op" where
  "op_fsub b lhs rhs = binop b Sub lhs rhs"

definition op_fsub_fast :: "Builder \<Rightarrow> ValueRef \<Rightarrow> ValueRef \<Rightarrow> value_op" where
  "op_fsub_fast b lhs rhs = binop b Sub lhs rhs"

definition op_fsub_algebraic :: "Builder \<Rightarrow> ValueRef \<Rightarrow> ValueRef \<Rightarrow> value_op" where
  "op_fsub_algebraic b lhs rhs = binop b Sub lhs rhs"

definition op_mul :: "Builder \<Rightarrow> ValueRef \<Rightarrow> ValueRef \<Rightarrow> value_op" where
  "op_mul b lhs rhs = binop b Mul lhs rhs"

definition op_fmul :: "Builder \<Rightarrow> ValueRef \<Rightarrow> ValueRef \<Rightarrow> value_op" where
  "op_fmul b lhs rhs = binop b Mul lhs rhs"

definition op_fmul_fast :: "Builder \<Rightarrow> ValueRef \<Rightarrow> ValueRef \<Rightarrow> value_op" where
  "op_fmul_fast b lhs rhs = binop b Mul lhs rhs"

definition op_fmul_algebraic :: "Builder \<Rightarrow> ValueRef \<Rightarrow> ValueRef \<Rightarrow> value_op" where
  "op_fmul_algebraic b lhs rhs = binop b Mul lhs rhs"

definition op_udiv :: "Builder \<Rightarrow> ValueRef \<Rightarrow> ValueRef \<Rightarrow> value_op" where
  "op_udiv b lhs rhs = unsigned_binop b Div lhs rhs"

definition op_exactudiv :: "Builder \<Rightarrow> ValueRef \<Rightarrow> ValueRef \<Rightarrow> value_op" where
  "op_exactudiv b lhs rhs = unsigned_binop b Div lhs rhs"

definition op_sdiv :: "Builder \<Rightarrow> ValueRef \<Rightarrow> ValueRef \<Rightarrow> value_op" where
  "op_sdiv b lhs rhs = binop b Div lhs rhs"

definition op_exactsdiv :: "Builder \<Rightarrow> ValueRef \<Rightarrow> ValueRef \<Rightarrow> value_op" where
  "op_exactsdiv b lhs rhs = binop b Div lhs rhs"

definition op_fdiv :: "Builder \<Rightarrow> ValueRef \<Rightarrow> ValueRef \<Rightarrow> value_op" where
  "op_fdiv b lhs rhs = binop b Div lhs rhs"

definition op_fdiv_fast :: "Builder \<Rightarrow> ValueRef \<Rightarrow> ValueRef \<Rightarrow> value_op" where
  "op_fdiv_fast b lhs rhs = binop b Div lhs rhs"

definition op_fdiv_algebraic :: "Builder \<Rightarrow> ValueRef \<Rightarrow> ValueRef \<Rightarrow> value_op" where
  "op_fdiv_algebraic b lhs rhs = binop b Div lhs rhs"

definition op_urem :: "Builder \<Rightarrow> ValueRef \<Rightarrow> ValueRef \<Rightarrow> value_op" where
  "op_urem b lhs rhs = unsigned_binop b Rem lhs rhs"

definition op_srem :: "Builder \<Rightarrow> ValueRef \<Rightarrow> ValueRef \<Rightarrow> value_op" where
  "op_srem b lhs rhs = binop b Rem lhs rhs"

definition op_frem :: "Builder \<Rightarrow> ValueRef \<Rightarrow> ValueRef \<Rightarrow> value_op" where
  "op_frem b lhs rhs cx =
     do { ty \<leftarrow> type_of_value cx lhs;
          l \<leftarrow> render_value cx lhs;
          r \<leftarrow> render_value cx rhs;
          new_temp_with_stmt b ty (Call (Var ''fmod'') [Var l, Var r]) cx }"

definition op_frem_fast :: "Builder \<Rightarrow> ValueRef \<Rightarrow> ValueRef \<Rightarrow> value_op" where
  "op_frem_fast b lhs rhs = op_frem b lhs rhs"

definition op_frem_algebraic :: "Builder \<Rightarrow> ValueRef \<Rightarrow> ValueRef \<Rightarrow> value_op" where
  "op_frem_algebraic b lhs rhs = op_frem b lhs rhs"

section \<open>Shifts and bit operations\<close>

definition op_shl :: "Builder \<Rightarrow> ValueRef \<Rightarrow> ValueRef \<Rightarrow> value_op" where
  "op_shl b lhs rhs cx =
     do { ty \<leftarrow> type_of_value cx lhs;
          l \<leftarrow> render_value cx lhs;
          r \<leftarrow> render_value cx rhs;
          t \<leftarrow> render_type cx ty;
          new_temp_with_stmt b ty (BinOp (Cast t (Paren (Var l))) Shl (Paren (Var r))) cx }"

definition op_lshr :: "Builder \<Rightarrow> ValueRef \<Rightarrow> ValueRef \<Rightarrow> value_op" where
  "op_lshr b lhs rhs cx =
     do { ty \<leftarrow> type_of_value cx lhs;
          l \<leftarrow> render_value cx lhs;
          r \<leftarrow> render_value cx rhs;
          (u, cx) \<leftarrow> unsigned_type ty cx;
          case u of
            Some unsigned_ty \<Rightarrow>
              do { ut \<leftarrow> render_type cx unsigned_ty;
                   t \<leftarrow> render_type cx ty;
                   new_temp_with_stmt b ty
                     (Cast t (Paren (BinOp (Cast ut (Paren (Var l))) Shr (Paren (Var r))))) cx }
          | None \<Rightarrow>
              do { t \<leftarrow> render_type cx ty;
                   new_temp_with_stmt b ty
                     (BinOp (Cast t (Paren (Var l))) Shr (Paren (Var r))) cx } }"

definition op_ashr :: "Builder \<Rightarrow> ValueRef \<Rightarrow> ValueRef \<Rightarrow> value_op" where
  "op_ashr b lhs rhs cx =
     do { ty \<leftarrow> type_of_value cx lhs;
          l \<leftarrow> render_value cx lhs;
          r \<leftarrow> render_value cx rhs;
          t \<leftarrow> render_type cx ty;
          new_temp_with_stmt b ty (BinOp (Cast t (Paren (Var l))) Shr (Paren (Var r))) cx }"

definition op_and :: "Builder \<Rightarrow> ValueRef \<Rightarrow> ValueRef \<Rightarrow> value_op" where
  "op_and b lhs rhs = binop b BitAnd lhs rhs"

definition op_or :: "Builder \<Rightarrow> ValueRef \<Rightarrow> ValueRef \<Rightarrow> value_op" where
  "op_or b lhs rhs = binop b BitOr lhs rhs"

definition op_xor :: "Builder \<Rightarrow> ValueRef \<Rightarrow> ValueRef \<Rightarrow> value_op" where
  "op_xor b lhs rhs = binop b BitXor lhs rhs"

definition op_neg :: "Builder \<Rightarrow> ValueRef \<Rightarrow> value_op" where
  "op_neg b v cx =
     do { ty \<leftarrow> type_of_value cx v;
          val \<leftarrow> render_value cx v;
          new_temp_with_stmt b ty (UnaryOp Neg (Var val)) cx }"

definition op_fneg :: "Builder \<Rightarrow> ValueRef \<Rightarrow> value_op" where
  "op_fneg b v = op_neg b v"

fun is_bool_kind :: "CTypeKind \<Rightarrow> bool" where
  "is_bool_kind TBool = True"
| "is_bool_kind (TInt bits signed) = (bits = 1)"
| "is_bool_kind _ = False"

definition op_not :: "Builder \<Rightarrow> ValueRef \<Rightarrow> value_op" where
  "op_not b v cx =
     do { ty \<leftarrow> type_of_value cx v;
          val \<leftarrow> render_value cx v;
          k \<leftarrow> kind_of cx ty;
          if is_bool_kind k then new_temp_with_stmt b ty (UnaryOp LogNot (Var val)) cx
          else new_temp_with_stmt b ty (UnaryOp BitNot (Var val)) cx }"

section \<open>Overflow-checked operations\<close>

text \<open>\<open>rustc_codegen_ssa::traits::OverflowOp\<close>\<close>

datatype OverflowOp = OvAdd | OvSub | OvMul

fun overflow_op_name :: "OverflowOp \<Rightarrow> string" where
  "overflow_op_name OvAdd = ''add''"
| "overflow_op_name OvSub = ''sub''"
| "overflow_op_name OvMul = ''mul''"

fun overflow_suffix :: "CTypeKind \<Rightarrow> string" where
  "overflow_suffix (TInt bits signed) =
     (if signed then ''i'' else ''u'') @ nat_str (c_bits bits)"
| "overflow_suffix (TPtrWidth signed) = (if signed then ''i'' else ''u'') @ ''size''"
| "overflow_suffix _ = ''u64''"

definition overflow_helper :: "OverflowOp \<Rightarrow> CTypeKind \<Rightarrow> string" where
  "overflow_helper oop k =
     ''__rustc_'' @ overflow_op_name oop @ ''_overflow_'' @ overflow_suffix k"

definition checked_binop ::
  "Builder \<Rightarrow> OverflowOp \<Rightarrow> ValueRef \<Rightarrow> ValueRef \<Rightarrow> CodegenCx
   \<Rightarrow> ((ValueRef \<times> ValueRef) \<times> CodegenCx) option" where
  "checked_binop b oop lhs rhs cx =
     do { val_ty \<leftarrow> type_of_value cx lhs;
          let (result, cx) = new_temp val_ty cx;
          result_name \<leftarrow> render_value cx result;
          type_str \<leftarrow> render_type cx val_ty;
          let cx = local_decl b (type_str @ '' '' @ result_name @ '';'') cx;
          l \<leftarrow> render_value cx lhs;
          r \<leftarrow> render_value cx rhs;
          k \<leftarrow> kind_of cx val_ty;
          let helper = overflow_helper oop k;
          let (bool_ty, cx) = intern_type TBool cx;
          let (overflow, cx) = new_temp bool_ty cx;
          overflow_name \<leftarrow> render_value cx overflow;
          let cx = local_decl b (''_Bool '' @ overflow_name @ '';'') cx;
          let cx = emit b (Assign (Var overflow_name)
                     (Call (Var helper) [Var l, Var r, AddrOf (Var result_name)])) cx;
          Some ((result, overflow), cx) }"

end
