(* ===== verification/TypeOf.thy ===== *)
theory TypeOf
  imports Context
begin

text \<open>
  From layouts to C types (\<open>type_of.rs\<close>) and the layout queries of \<open>types.rs\<close>. Layouts,
  scalars and call conventions belong to the compiler: they are records holding the answers
  to the queries the source makes of them.
\<close>

section \<open>What the compiler tells about a type\<close>

text \<open>Integer scalars give their size in bytes, float scalars their width in bits.\<close>

datatype Primitive = PInt nat bool | PFloat nat | PPointer

text \<open>\<open>is_bool()\<close>, \<open>size(cx)\<close> and \<open>align(cx).abi\<close> of a scalar are queries of the compiler.\<close>

record Scalar =
  sc_primitive :: Primitive
  sc_is_bool :: bool
  sc_size :: nat
  sc_align :: nat

datatype BackendRepr =
    BScalar Scalar | BScalarPair Scalar Scalar | BSimdVector Scalar nat | BMemory

text \<open>The cases of \<open>layout.ty.kind()\<close> the source tells apart.\<close>

datatype TyClass = TyUsize | TyIsize | TyOther

text \<open>
  A layout: \<open>is_zst\<close>, the class of its type, its representation, size and alignment in
  bytes, whether it has a single variant, the number of its fields and \<open>field(cx, i)\<close>,
  which panics (\<open>None\<close>) out of range.
\<close>

datatype Layout =
  Layout (l_is_zst: bool) (l_ty: TyClass) (l_repr: BackendRepr) (l_size: nat) (l_align: nat)
    (l_single_variant: bool) (l_field_count: nat) (l_field: "nat \<Rightarrow> Layout option")

text \<open>
  A \<open>CastTarget\<close>: the sizes of the prefix registers that are present, the unit and total
  size of the rest, and \<open>size(cx)\<close>, \<open>align(cx)\<close>, \<open>unaligned_size(cx)\<close>.
\<close>

record CastTarget =
  ct_prefix :: "nat option list"
  ct_rest_unit :: nat
  ct_rest_total :: nat
  ct_size :: nat
  ct_align :: nat
  ct_unaligned_size :: nat

text \<open>
  The pass modes; \<open>Indirect\<close> with the pointee alignment of its attributes, whether it has
  metadata attributes, and \<open>on_stack\<close>.
\<close>

datatype PassMode =
    PMIgnore | PMDirect | PMPair | PMCast CastTarget
  | PMIndirect "nat option" bool bool

record ArgAbi =
  arg_mode :: PassMode
  arg_layout :: Layout

record FnAbi =
  fa_ret :: ArgAbi
  fa_args :: "ArgAbi list"
  fa_c_variadic :: bool

fun is_indirect :: "PassMode \<Rightarrow> bool" where
  "is_indirect (PMIndirect a m s) = True"
| "is_indirect _ = False"

section \<open>C types of scalars and layouts\<close>

definition scalar_to_c_type :: "Scalar \<Rightarrow> CodegenCx \<Rightarrow> TypeRef \<times> CodegenCx" where
  "scalar_to_c_type scalar cx =
     (if sc_is_bool scalar then intern_type TBool cx
      else case sc_primitive scalar of
        PInt bytes signed \<Rightarrow> intern_type (TInt (c_bits (as_u32 (8 * bytes))) signed) cx
      | PFloat bits \<Rightarrow> intern_type (TFloat (as_u32 bits)) cx
      | PPointer \<Rightarrow> intern_type TPtr cx)"

definition scalar_field_to_c_type ::
  "Scalar \<Rightarrow> Layout \<Rightarrow> nat \<Rightarrow> CodegenCx \<Rightarrow> (TypeRef \<times> CodegenCx) option" where
  "scalar_field_to_c_type scalar pair_layout field_idx cx =
     (if l_single_variant pair_layout \<and> field_idx < l_field_count pair_layout then
        do { field \<leftarrow> l_field pair_layout field_idx;
             Some (case l_ty field of
                 TyUsize \<Rightarrow> intern_type (TPtrWidth False) cx
               | TyIsize \<Rightarrow> intern_type (TPtrWidth True) cx
               | TyOther \<Rightarrow> scalar_to_c_type scalar cx) }
      else Some (scalar_to_c_type scalar cx))"

definition layout_to_c_type :: "Layout \<Rightarrow> CodegenCx \<Rightarrow> (TypeRef \<times> CodegenCx) option" where
  "layout_to_c_type layout cx =
     (if l_is_zst layout then Some (intern_type (TStruct [] False None) cx)
      else case l_repr layout of
        BScalar scalar \<Rightarrow>
          Some (case l_ty layout of
              TyUsize \<Rightarrow> intern_type (TPtrWidth False) cx
            | TyIsize \<Rightarrow> intern_type (TPtrWidth True) cx
            | TyOther \<Rightarrow> scalar_to_c_type scalar cx)
      | BScalarPair a b \<Rightarrow>
          do { (a_ty, cx) \<leftarrow> scalar_field_to_c_type a layout 0 cx;
               (b_ty, cx) \<leftarrow> scalar_field_to_c_type b layout 1 cx;
               Some (intern_type (TStruct [a_ty, b_ty] False None) cx) }
      | BSimdVector element count \<Rightarrow>
          (let (elem_ty, cx) = scalar_to_c_type element cx
           in Some (intern_type (TVector elem_ty count) cx))
      | BMemory \<Rightarrow>
          (let bytes = l_size layout in
           if bytes = 0 then Some (intern_type (TStruct [] False None) cx)
           else (let (byte_ty, cx) = intern_type (TInt 8 True) cx;
                     (arr_ty, cx) = intern_type (TArray byte_ty bytes) cx
                 in Some (intern_type (TStruct [arr_ty] False None) cx))))"

section \<open>Calling conventions\<close>

fun push_prefix_types :: "nat option list \<Rightarrow> CodegenCx \<Rightarrow> TypeRef list \<times> CodegenCx" where
  "push_prefix_types [] cx = ([], cx)"
| "push_prefix_types (None # ps) cx = push_prefix_types ps cx"
| "push_prefix_types (Some reg_bytes # ps) cx =
     (let (t, cx) = intern_type (TInt (as_u32 (reg_bytes * 8)) True) cx;
          (ts, cx) = push_prefix_types ps cx
      in (t # ts, cx))"

text \<open>\<open>a.div_ceil(b)\<close>, which panics on zero.\<close>

definition div_ceil :: "nat \<Rightarrow> nat \<Rightarrow> nat option" where
  "div_ceil a b = (if b = 0 then None else Some (a div b + (if a mod b > 0 then 1 else 0)))"

definition cast_target_to_c_type ::
  "CastTarget \<Rightarrow> CodegenCx \<Rightarrow> (TypeRef \<times> CodegenCx) option" where
  "cast_target_to_c_type target cx =
     (if list_all (\<lambda>x. x = None) (ct_prefix target) then
        (let bytes = ct_size target in
         if bytes = 0 then Some (intern_type TVoid cx)
         else (let bits = as_u32 (bytes * 8) in Some (intern_type (TInt (c_bits bits) True) cx)))
      else
        (let (rest_unit_ty, cx) = intern_type (TInt (as_u32 (ct_rest_unit target * 8)) True) cx
         in do { rest_count \<leftarrow> (if ct_rest_total target = 0 then Some 0
                               else div_ceil (ct_rest_total target) (ct_rest_unit target));
                 let (field_tys, cx) = push_prefix_types (ct_prefix target) cx;
                 Some (intern_type
                   (TStruct (field_tys @ replicate rest_count rest_unit_ty) False None) cx) }))"

definition fn_abi_ret_type :: "FnAbi \<Rightarrow> CodegenCx \<Rightarrow> (TypeRef \<times> CodegenCx) option" where
  "fn_abi_ret_type fn_abi cx =
     (case arg_mode (fa_ret fn_abi) of
        PMIgnore \<Rightarrow> Some (intern_type TVoid cx)
      | PMDirect \<Rightarrow> layout_to_c_type (arg_layout (fa_ret fn_abi)) cx
      | PMPair \<Rightarrow> layout_to_c_type (arg_layout (fa_ret fn_abi)) cx
      | PMCast cast \<Rightarrow> cast_target_to_c_type cast cx
      | PMIndirect a m s \<Rightarrow> layout_to_c_type (arg_layout (fa_ret fn_abi)) cx)"

definition fn_abi_arg_type :: "ArgAbi \<Rightarrow> CodegenCx \<Rightarrow> (TypeRef \<times> CodegenCx) option" where
  "fn_abi_arg_type arg cx =
     (case arg_mode arg of
        PMIgnore \<Rightarrow> Some (intern_type TVoid cx)
      | PMDirect \<Rightarrow> layout_to_c_type (arg_layout arg) cx
      | PMPair \<Rightarrow> layout_to_c_type (arg_layout arg) cx
      | PMCast cast \<Rightarrow> cast_target_to_c_type cast cx
      | PMIndirect a m on_stack \<Rightarrow>
          (if on_stack then layout_to_c_type (arg_layout arg) cx
           else Some (intern_type TPtr cx)))"

text \<open>The C argument types one argument of the convention contributes.\<close>

definition fn_abi_arg_types :: "ArgAbi \<Rightarrow> CodegenCx \<Rightarrow> (TypeRef list \<times> CodegenCx) option" where
  "fn_abi_arg_types arg cx =
     (case arg_mode arg of
        PMIgnore \<Rightarrow> Some ([], cx)
      | PMPair \<Rightarrow>
          (case l_repr (arg_layout arg) of
             BScalarPair a b \<Rightarrow>
               do { (a_ty, cx) \<leftarrow> scalar_field_to_c_type a (arg_layout arg) 0 cx;
                    (b_ty, cx) \<leftarrow> scalar_field_to_c_type b (arg_layout arg) 1 cx;
                    Some ([a_ty, b_ty], cx) }
           | _ \<Rightarrow> do { (t, cx) \<leftarrow> layout_to_c_type (arg_layout arg) cx; Some ([t], cx) })
      | PMIndirect a True on_stack \<Rightarrow>
          (let (ptr_ty, cx) = intern_type TPtr cx in Some ([ptr_ty, ptr_ty], cx))
      | _ \<Rightarrow> do { (t, cx) \<leftarrow> fn_abi_arg_type arg cx; Some ([t], cx) })"

definition fn_abi_to_c_type :: "FnAbi \<Rightarrow> CodegenCx \<Rightarrow> (TypeRef \<times> CodegenCx) option" where
  "fn_abi_to_c_type fn_abi cx =
     do { (ret, cx) \<leftarrow> fn_abi_ret_type fn_abi cx;
          (argss, cx) \<leftarrow> opt_map_state fn_abi_arg_types (fa_args fn_abi) cx;
          Some (intern_type (TFunction ret (concat argss) (fa_c_variadic fn_abi)) cx) }"

section \<open>Layout queries of the context\<close>

definition backend_type :: "Layout \<Rightarrow> CodegenCx \<Rightarrow> (TypeRef \<times> CodegenCx) option" where
  "backend_type layout cx = layout_to_c_type layout cx"

definition cast_backend_type :: "CastTarget \<Rightarrow> CodegenCx \<Rightarrow> (TypeRef \<times> CodegenCx) option" where
  "cast_backend_type target cx = cast_target_to_c_type target cx"

definition fn_decl_backend_type :: "FnAbi \<Rightarrow> CodegenCx \<Rightarrow> (TypeRef \<times> CodegenCx) option" where
  "fn_decl_backend_type fn_abi cx = fn_abi_to_c_type fn_abi cx"

definition fn_ptr_backend_type :: "FnAbi \<Rightarrow> CodegenCx \<Rightarrow> (TypeRef \<times> CodegenCx) option" where
  "fn_ptr_backend_type fn_abi cx = fn_decl_backend_type fn_abi cx"

definition immediate_backend_type :: "Layout \<Rightarrow> CodegenCx \<Rightarrow> (TypeRef \<times> CodegenCx) option" where
  "immediate_backend_type layout cx = backend_type layout cx"

definition is_backend_immediate :: "Layout \<Rightarrow> bool" where
  "is_backend_immediate layout =
     (case l_repr layout of BScalar s \<Rightarrow> True | BSimdVector e n \<Rightarrow> True | _ \<Rightarrow> False)"

definition is_backend_scalar_pair :: "Layout \<Rightarrow> bool" where
  "is_backend_scalar_pair layout = (case l_repr layout of BScalarPair a b \<Rightarrow> True | _ \<Rightarrow> False)"

definition scalar_pair_element_backend_type ::
  "Layout \<Rightarrow> nat \<Rightarrow> CodegenCx \<Rightarrow> (TypeRef \<times> CodegenCx) option" where
  "scalar_pair_element_backend_type layout index cx =
     (case l_repr layout of
        BScalarPair a b \<Rightarrow> scalar_field_to_c_type (if index = 0 then a else b) layout index cx
      | _ \<Rightarrow> None)"

end
