(* ===== verification/Consts.thy ===== *)
theory Consts
  imports TypeOf
begin

text \<open>
  Constants (\<open>consts.rs\<close>): the constructors of integer, boolean, float, string, struct and
  vector constants, sign extension of a bit pattern, and the translation of the compiler's
  integer scalars. The 128-bit signed arithmetic is on \<open>int\<close> with the wrap-around written
  out.
\<close>

section \<open>Sign extension\<close>

text \<open>\<open>x as i128\<close>, and every \<open>i128\<close> operation on a result \<open>x\<close>: the wrapped value.\<close>

definition wrap_i128 :: "int \<Rightarrow> int" where
  "wrap_i128 x = (x + 2 ^ 127) mod 2 ^ 128 - 2 ^ 127"

text \<open>
  The shift amount of an \<open>i128\<close> shift is taken modulo 128, as a release build does; the
  right shift is arithmetic, a division rounding down.
\<close>

definition sign_extend_to_i128 :: "nat \<Rightarrow> nat \<Rightarrow> int" where
  "sign_extend_to_i128 val bits =
     (if bits \<ge> 128 then wrap_i128 (int val)
      else (let shift = (128 - bits) mod 128 in
            wrap_i128 (wrap_i128 (int val) * 2 ^ shift) div 2 ^ shift))"

section \<open>Constant constructors\<close>

definition const_null :: "TypeRef \<Rightarrow> CodegenCx \<Rightarrow> ValueRef \<times> CodegenCx" where
  "const_null t cx = intern_value NullPtr t cx"

definition const_undef :: "TypeRef \<Rightarrow> CodegenCx \<Rightarrow> ValueRef \<times> CodegenCx" where
  "const_undef t cx = intern_value Undef t cx"

definition const_poison :: "TypeRef \<Rightarrow> CodegenCx \<Rightarrow> ValueRef \<times> CodegenCx" where
  "const_poison t cx = intern_value Poison t cx"

definition const_bool :: "bool \<Rightarrow> CodegenCx \<Rightarrow> ValueRef \<times> CodegenCx" where
  "const_bool val cx =
     (let (ty, cx) = intern_type TBool cx in intern_value (BoolConst val) ty cx)"

definition const_i8 :: "int \<Rightarrow> CodegenCx \<Rightarrow> ValueRef \<times> CodegenCx" where
  "const_i8 i cx = (let (ty, cx) = type_i8 cx in intern_value (IntConst i) ty cx)"

definition const_i16 :: "int \<Rightarrow> CodegenCx \<Rightarrow> ValueRef \<times> CodegenCx" where
  "const_i16 i cx = (let (ty, cx) = type_i16 cx in intern_value (IntConst i) ty cx)"

definition const_i32 :: "int \<Rightarrow> CodegenCx \<Rightarrow> ValueRef \<times> CodegenCx" where
  "const_i32 i cx = (let (ty, cx) = type_i32 cx in intern_value (IntConst i) ty cx)"

definition const_int :: "TypeRef \<Rightarrow> int \<Rightarrow> CodegenCx \<Rightarrow> ValueRef \<times> CodegenCx" where
  "const_int t i cx = intern_value (IntConst i) t cx"

definition const_u8 :: "nat \<Rightarrow> CodegenCx \<Rightarrow> ValueRef \<times> CodegenCx" where
  "const_u8 i cx = (let (ty, cx) = type_i8 cx in intern_value (UintConst i) ty cx)"

definition const_u32 :: "nat \<Rightarrow> CodegenCx \<Rightarrow> ValueRef \<times> CodegenCx" where
  "const_u32 i cx = (let (ty, cx) = type_i32 cx in intern_value (UintConst i) ty cx)"

definition const_u64 :: "nat \<Rightarrow> CodegenCx \<Rightarrow> ValueRef \<times> CodegenCx" where
  "const_u64 i cx = (let (ty, cx) = type_i64 cx in intern_value (UintConst i) ty cx)"

definition const_u128 :: "nat \<Rightarrow> CodegenCx \<Rightarrow> ValueRef \<times> CodegenCx" where
  "const_u128 i cx = (let (ty, cx) = type_i128 cx in intern_value (UintConst i) ty cx)"

definition const_usize :: "nat \<Rightarrow> CodegenCx \<Rightarrow> ValueRef \<times> CodegenCx" where
  "const_usize i cx = (let (ty, cx) = type_usize cx in intern_value (UintConst i) ty cx)"

definition signed_bits :: "nat \<Rightarrow> CTypeKind \<Rightarrow> nat option" where
  "signed_bits ptr_bits k =
     (case k of TInt bits True \<Rightarrow> Some bits | TPtrWidth True \<Rightarrow> Some (as_u32 ptr_bits) | _ \<Rightarrow> None)"

definition const_uint :: "TypeRef \<Rightarrow> nat \<Rightarrow> CodegenCx \<Rightarrow> (ValueRef \<times> CodegenCx) option" where
  "const_uint t i cx =
     do { k \<leftarrow> kind_of cx t;
          Some (case signed_bits (pointer_bits cx) k of
              Some bits \<Rightarrow> intern_value (IntConst (sign_extend_to_i128 i bits)) t cx
            | None \<Rightarrow> intern_value (UintConst i) t cx) }"

definition const_uint_big :: "TypeRef \<Rightarrow> nat \<Rightarrow> CodegenCx \<Rightarrow> (ValueRef \<times> CodegenCx) option" where
  "const_uint_big t u cx =
     do { k \<leftarrow> kind_of cx t;
          Some (case signed_bits (pointer_bits cx) k of
              Some bits \<Rightarrow> intern_value (IntConst (sign_extend_to_i128 u bits)) t cx
            | None \<Rightarrow> intern_value (UintConst u) t cx) }"

definition const_real :: "TypeRef \<Rightarrow> f64 \<Rightarrow> CodegenCx \<Rightarrow> ValueRef \<times> CodegenCx" where
  "const_real t val cx = intern_value (FloatConst val) t cx"

text \<open>\<open>format!("0x{b:02x}")\<close> of a byte.\<close>

definition hex_digit :: "nat \<Rightarrow> char" where
  "hex_digit d = ''0123456789abcdef'' ! d"

definition hex_byte :: "nat \<Rightarrow> string" where
  "hex_byte byte = ''0x'' @ [hex_digit (byte div 16), hex_digit (byte mod 16)]"

text \<open>Appending a declaration to \<open>module.data_sections\<close>.\<close>

definition push_data_section :: "string \<Rightarrow> CodegenCx \<Rightarrow> CodegenCx" where
  "push_data_section decl cx =
     (let m = cx_module cx in cx\<lparr>cx_module := m\<lparr>data_sections := data_sections m @ [decl]\<rparr>\<rparr>)"

text \<open>The bytes of the string are the codes of its characters.\<close>

definition const_str :: "string \<Rightarrow> CodegenCx \<Rightarrow> ((ValueRef \<times> ValueRef) \<times> CodegenCx) option" where
  "const_str s cx =
     do { let (ptr_ty, cx) = type_ptr cx;
          let (ptr_val, vs) = next_string_literal s ptr_ty (cx_values cx);
          let cx = cx\<lparr>cx_values := vs\<rparr>;
          name \<leftarrow> render_value cx ptr_val;
          let hex = map (\<lambda>c. hex_byte (of_char c)) s;
          let decl = ''static const unsigned char '' @ name @ ''[] = { '' @ join '', '' hex @ '' };'';
          let cx = push_data_section decl cx;
          let (len_val, cx) = const_usize (length s) cx;
          Some ((ptr_val, len_val), cx) }"

definition const_struct :: "ValueRef list \<Rightarrow> bool \<Rightarrow> CodegenCx \<Rightarrow> (ValueRef \<times> CodegenCx) option" where
  "const_struct elts packed cx =
     do { field_types \<leftarrow> opt_map (type_of_value cx) elts;
          let (ty, cx) = intern_type (TStruct field_types packed None) cx;
          Some (intern_value (StructConst elts) ty cx) }"

definition const_vector :: "ValueRef list \<Rightarrow> CodegenCx \<Rightarrow> (ValueRef \<times> CodegenCx) option" where
  "const_vector elts cx =
     do { (elem_ty, cx) \<leftarrow> (case elts of
             [] \<Rightarrow> Some (type_i8 cx)
           | e # es \<Rightarrow> map_option (\<lambda>t. (t, cx)) (type_of_value cx e));
          let (ty, cx) = intern_type (TVector elem_ty (length elts)) cx;
          type_str \<leftarrow> render_type cx ty;
          Some (intern_value (VectorConst elts type_str) ty cx) }"

definition const_to_opt_uint :: "CodegenCx \<Rightarrow> ValueRef \<Rightarrow> nat option option" where
  "const_to_opt_uint cx v = as_u64_opt (cx_values cx) v"

definition const_to_opt_u128 :: "CodegenCx \<Rightarrow> ValueRef \<Rightarrow> bool \<Rightarrow> nat option option" where
  "const_to_opt_u128 cx v sign_ext = as_u128_opt (cx_values cx) v sign_ext"

definition const_ptr_byte_offset :: "ValueRef \<Rightarrow> nat \<Rightarrow> CodegenCx \<Rightarrow> ValueRef \<times> CodegenCx" where
  "const_ptr_byte_offset val offset cx =
     (if offset = 0 then (val, cx)
      else (let (ty, cx) = type_ptr cx in intern_value (PtrOffset val offset) ty cx))"

section \<open>Integer scalars of the compiler\<close>

text \<open>
  \<open>f32::from_bits(x) as f64\<close> on bits: zero and subnormal numbers are renormalised, the
  exponent is rebiased, the mantissa is shifted up.
\<close>

fun norm_shift :: "nat \<Rightarrow> nat \<Rightarrow> nat" where
  "norm_shift 0 m = 0"
| "norm_shift (Suc fuel) m = (if m \<ge> 2 ^ 23 then 0 else Suc (norm_shift fuel (2 * m)))"

definition f32_to_f64 :: "nat \<Rightarrow> f64" where
  "f32_to_f64 x =
     (let s = (x div 2 ^ 31) mod 2; e = (x div 2 ^ 23) mod 2 ^ 8; m = x mod 2 ^ 23 in
      s * 2 ^ 63 +
      (if e = 255 then 2047 * 2 ^ 52 + m * 2 ^ 29
       else if e > 0 then (e + 896) * 2 ^ 52 + m * 2 ^ 29
       else if m = 0 then 0
       else (let k = norm_shift 23 m in
             (897 - k) * 2 ^ 52 + (m * 2 ^ k - 2 ^ 23) * 2 ^ 29)))"

text \<open>
  The \<open>InterpScalar::Int\<close> arm of \<open>scalar_to_backend\<close>; \<open>data\<close> is \<open>int.to_bits(..)\<close>.
\<close>

definition scalar_int_to_backend ::
  "nat \<Rightarrow> Scalar \<Rightarrow> TypeRef \<Rightarrow> CodegenCx \<Rightarrow> (ValueRef \<times> CodegenCx) option" where
  "scalar_int_to_backend data layout llty cx =
     do { k \<leftarrow> kind_of cx llty;
          Some (if k = TPtr then
              (let expr = (if data \<le> u64_MAX then ''(void *)(__rustc_usize)'' @ nat_str data @ ''ULL''
                 else ''(void *)(__rustc_usize)((unsigned __int128)'' @ nat_str (as_u64 (data div 2 ^ 64))
                      @ ''ULL << 64 | '' @ nat_str (data mod 2 ^ 64) @ ''ULL)'')
               in intern_value (InlineExpr expr) llty cx)
            else case sc_primitive layout of
              PFloat bits \<Rightarrow>
                (if bits = 32 then intern_value (FloatConst (f32_to_f64 (as_u32 data))) llty cx
                 else if bits = 64 then intern_value (FloatConst (as_u64 data)) llty cx
                 else intern_value (UintConst data) llty cx)
            | PInt bytes True \<Rightarrow>
                (let bits = 8 * sc_size layout;
                     signed_val = (if bits < 128 then
                         (let shift = (128 - bits) mod 128 in
                          wrap_i128 (wrap_i128 (int data) * 2 ^ shift) div 2 ^ shift)
                       else wrap_i128 (int data))
                 in intern_value (IntConst signed_val) llty cx)
            | _ \<Rightarrow> intern_value (UintConst data) llty cx) }"

section \<open>Sign extension reads the low bits as two's complement\<close>

lemma wrap_i128_signed: "wrap_i128 x = signed_take_bit 127 x"
  by (simp add: wrap_i128_def signed_take_bit_eq_take_bit_shift take_bit_eq_mod)

lemma shift_up_down:
  assumes "n + s = 127"
  shows "wrap_i128 (wrap_i128 x * 2 ^ s) div 2 ^ s = signed_take_bit n x"
proof -
  have "drop_bit s (signed_take_bit 127 (push_bit s (signed_take_bit 127 x))) = signed_take_bit n x"
  proof (rule bit_eqI)
    fix i
    have n: "127 - s = n" using assms by simp
    show "bit (drop_bit s (signed_take_bit 127 (push_bit s (signed_take_bit 127 x)))) i
        = bit (signed_take_bit n x) i"
      using assms n by (cases "s = 0") (auto simp: bit_simps min_def)
  qed
  then show ?thesis
    by (simp add: wrap_i128_signed drop_bit_eq_div push_bit_eq_mult)
qed

text \<open>
  The result is the two's complement reading of the low \<open>bits\<close> bits: it is congruent to the
  pattern and in range, which determines it.
\<close>

lemma sign_extend_to_i128_signed:
  assumes "0 < bits" "bits \<le> 128"
  shows "sign_extend_to_i128 val bits = signed_take_bit (bits - 1) (int val)"
proof (cases "bits = 128")
  case True
  then show ?thesis by (simp add: sign_extend_to_i128_def wrap_i128_signed)
next
  case False
  then have "(bits - 1) + (128 - bits) = 127" "(128 - bits) mod 128 = 128 - bits"
    using assms by auto
  then show ?thesis
    using shift_up_down [of "bits - 1" "128 - bits" "int val"] False assms
    by (simp add: sign_extend_to_i128_def Let_def)
qed

end
