(* ===== verification/BuilderMem.thy ===== *)
theory BuilderMem
  imports BuilderArith Consts
begin

text \<open>
  The memory operations of \<open>builder.rs\<close>: conversions between immediates and memory values,
  stack slots, loads and stores (plain, volatile, atomic), operands, and address arithmetic.
  Alignments are byte counts.
\<close>

section \<open>Immediates\<close>

definition declare_var :: "Builder \<Rightarrow> string \<Rightarrow> string \<Rightarrow> CodegenCx \<Rightarrow> CodegenCx" where
  "declare_var b t name cx = local_decl b (t @ '' '' @ name @ '';'') cx"

definition from_immediate :: "Builder \<Rightarrow> ValueRef \<Rightarrow> value_op" where
  "from_immediate b val cx =
     do { ty \<leftarrow> type_of_value cx val;
          k \<leftarrow> kind_of cx ty;
          if k = TBool then
            do { let (i8_ty, cx) = intern_type (TInt 8 True) cx;
                 v \<leftarrow> render_value cx val;
                 new_temp_with_stmt b i8_ty (Cast ''int8_t'' (Paren (Var v))) cx }
          else Some (val, cx) }"

definition to_immediate_scalar :: "Builder \<Rightarrow> ValueRef \<Rightarrow> Scalar \<Rightarrow> value_op" where
  "to_immediate_scalar b val scalar cx =
     (if sc_is_bool scalar then
        do { let (bool_ty, cx) = intern_type TBool cx;
             actual_ty \<leftarrow> type_of_value cx val;
             if actual_ty \<noteq> bool_ty then
               do { v \<leftarrow> render_value cx val;
                    new_temp_with_stmt b bool_ty (Cast ''_Bool'' (Paren (Var v))) cx }
             else Some (val, cx) }
      else
        do { let (expected_ty, cx) = scalar_to_c_type scalar cx;
             actual_ty \<leftarrow> type_of_value cx val;
             if actual_ty \<noteq> expected_ty then
               do { expr \<leftarrow> render_value cx val;
                    Some (intern_value (InlineExpr expr) expected_ty cx) }
             else Some (val, cx) })"

section \<open>Stack slots\<close>

definition alloca :: "Builder \<Rightarrow> nat \<Rightarrow> nat \<Rightarrow> value_op" where
  "alloca b bytes align cx =
     do { let (byte_ty, cx) = intern_type (TInt 8 True) cx;
          let (arr_ty, cx) = intern_type (TArray byte_ty bytes) cx;
          let (ptr_ty, cx) = type_ptr cx;
          let (val, cx) = new_temp ptr_ty cx;
          name \<leftarrow> render_value cx val;
          let arr_name = name @ ''_storage'';
          let cx = local_decl b (''_Alignas('' @ nat_str align @ '') uint8_t '' @ arr_name
                     @ ''['' @ nat_str bytes @ ''];'') cx;
          let cx = local_decl b (''void *'' @ name @ '' = (void *)'' @ arr_name @ '';'') cx;
          Some (val, cx) }"

definition scalable_alloca :: "Builder \<Rightarrow> nat \<Rightarrow> nat \<Rightarrow> value_op" where
  "scalable_alloca b elt align = alloca b elt align"

section \<open>Loads\<close>

fun is_i128 :: "CTypeKind \<Rightarrow> bool" where
  "is_i128 (TInt bits signed) = (bits = 128)"
| "is_i128 _ = False"

definition op_load :: "Builder \<Rightarrow> TypeRef \<Rightarrow> ValueRef \<Rightarrow> value_op" where
  "op_load b ty ptr cx =
     do { p \<leftarrow> render_value cx ptr;
          k \<leftarrow> kind_of cx ty;
          case k of
            TArray element len \<Rightarrow>
              do { let (result, cx) = new_temp ty cx;
                   result_name \<leftarrow> render_value cx result;
                   t \<leftarrow> render_type_decl cx ty result_name;
                   let cx = local_decl b (t @ '';'') cx;
                   let cx = emit b (Expr (Call (Var ''memcpy'')
                              [Var result_name, Var p, Sizeof (Var result_name)])) cx;
                   Some (result, cx) }
          | TFunction r as variadic \<Rightarrow>
              do { ptr_to_fnptr \<leftarrow> render_type_decl cx ty ''*'';
                   new_temp_with_stmt b ty (Deref ptr_to_fnptr (Var p)) cx }
          | _ \<Rightarrow>
              (if is_i128 k then
                 do { let (result, cx) = new_temp ty cx;
                      result_name \<leftarrow> render_value cx result;
                      t \<leftarrow> render_type cx ty;
                      let cx = declare_var b t result_name cx;
                      let cx = emit b (Expr (Call (Var ''memcpy'')
                                 [AddrOf (Var result_name), Var p, Sizeof (Var result_name)])) cx;
                      Some (result, cx) }
               else
                 do { t \<leftarrow> render_type cx ty;
                      new_temp_with_stmt b ty (Deref (t @ '' *'') (Var p)) cx }) }"

definition volatile_load :: "Builder \<Rightarrow> TypeRef \<Rightarrow> ValueRef \<Rightarrow> value_op" where
  "volatile_load b ty ptr cx =
     do { p \<leftarrow> render_value cx ptr;
          t \<leftarrow> render_type cx ty;
          k \<leftarrow> kind_of cx ty;
          if is_i128 k then
            do { let (result, cx) = new_temp ty cx;
                 result_name \<leftarrow> render_value cx result;
                 let cx = declare_var b t result_name cx;
                 let cx = emit b (RawStmt (''{ volatile char *__src = (volatile char *)'' @ p
                            @ ''; char *__dst = (char *)&'' @ result_name
                            @ ''; for (int __i = 0; __i < 16; __i++) __dst[__i] = __src[__i]; }'')) cx;
                 Some (result, cx) }
          else new_temp_with_stmt b ty (Deref (''volatile '' @ t @ '' *'') (Var p)) cx }"

definition op_atomic_load :: "Builder \<Rightarrow> TypeRef \<Rightarrow> ValueRef \<Rightarrow> AtomicOrdering \<Rightarrow> nat \<Rightarrow> value_op" where
  "op_atomic_load b ty ptr order bytes cx =
     do { p \<leftarrow> render_value cx ptr;
          t \<leftarrow> render_type cx ty;
          if bytes > 8 then
            new_temp_with_stmt b ty (Call (Var ''__sync_val_compare_and_swap'')
              [Cast (t @ '' *'') (Var p), Lit ''0'', Lit ''0'']) cx
          else
            new_temp_with_stmt b ty (Call (Var ''atomic_load'')
              [Cast (''_Atomic('' @ t @ '') *'') (Var p)]) cx }"

section \<open>Stores\<close>

definition op_store :: "Builder \<Rightarrow> ValueRef \<Rightarrow> ValueRef \<Rightarrow> value_op" where
  "op_store b val ptr cx =
     do { v \<leftarrow> render_value cx val;
          p \<leftarrow> render_value cx ptr;
          ty \<leftarrow> type_of_value cx val;
          k \<leftarrow> kind_of cx ty;
          case k of
            TArray element len \<Rightarrow>
              Some (val, emit b (Expr (Call (Var ''memcpy'')
                           [Var p, AddrOf (Var v), Sizeof (Var v)])) cx)
          | _ \<Rightarrow>
              (if is_i128 k then
                 do { t \<leftarrow> render_type cx ty;
                      let (src_tmp, cx) = new_temp ty cx;
                      src_name \<leftarrow> render_value cx src_tmp;
                      let cx = declare_var b t src_name cx;
                      let cx = emit b (Assign (Var src_name) (Var v)) cx;
                      let cx = emit b (Expr (Call (Var ''memcpy'')
                                 [Var p, AddrOf (Var src_name), Lit (nat_str (128 div 8))])) cx;
                      Some (val, cx) }
               else
                 do { t \<leftarrow> render_type cx ty;
                      Some (val, emit b (Assign (Deref (t @ '' *'') (Var p)) (Var v)) cx) }) }"

definition store_with_flags :: "Builder \<Rightarrow> ValueRef \<Rightarrow> ValueRef \<Rightarrow> value_op" where
  "store_with_flags b val ptr = op_store b val ptr"

definition op_atomic_store ::
  "Builder \<Rightarrow> ValueRef \<Rightarrow> ValueRef \<Rightarrow> AtomicOrdering \<Rightarrow> nat \<Rightarrow> CodegenCx \<Rightarrow> CodegenCx option" where
  "op_atomic_store b val ptr order bytes cx =
     do { v \<leftarrow> render_value cx val;
          p \<leftarrow> render_value cx ptr;
          ty \<leftarrow> type_of_value cx val;
          t \<leftarrow> render_type cx ty;
          if bytes > 8 then
            do { let (old, cx) = new_temp ty cx;
                 old_name \<leftarrow> render_value cx old;
                 let cx = declare_var b t old_name cx;
                 let cast_ptr = Cast (t @ '' *'') (Var p);
                 Some (emit b (DoWhile
                     [Assign (Var old_name) (Deref (t @ '' *'') (Var p))]
                     (UnaryOp LogNot (Call (Var ''__sync_bool_compare_and_swap'')
                        [cast_ptr, Var old_name, Var v]))) cx) }
          else
            Some (emit b (Expr (Call (Var ''atomic_store'')
                     [Cast (''_Atomic('' @ t @ '') *'') (Var p), Var v])) cx) }"

section \<open>Address arithmetic\<close>

definition op_gep :: "Builder \<Rightarrow> TypeRef \<Rightarrow> ValueRef \<Rightarrow> ValueRef list \<Rightarrow> value_op" where
  "op_gep b ty ptr indices cx =
     do { let (ptr_ty, cx) = type_ptr cx;
          p \<leftarrow> render_value cx ptr;
          index0 \<leftarrow> idx indices 0;
          idx0 \<leftarrow> render_value cx index0;
          t \<leftarrow> render_type cx ty;
          let base = Cast ''__rustc_usize'' (Var p);
          let scaled_idx0 = BinOp (Cast ''__rustc_isize'' (Paren (Var idx0))) Mul
                              (Cast ''__rustc_isize'' (SizeofType t));
          if length indices = 1 then
            new_temp_with_stmt b ptr_ty (Cast ''void *'' (Paren (BinOp base Add scaled_idx0))) cx
          else if length indices = 2 then
            do { index1 \<leftarrow> idx indices 1;
                 idx1 \<leftarrow> render_value cx index1;
                 let sum = BinOp (BinOp base Add scaled_idx0) Add
                             (Cast ''__rustc_isize'' (Paren (Var idx1)));
                 new_temp_with_stmt b ptr_ty (Cast ''void *'' (Paren sum)) cx }
          else
            new_temp_with_stmt b ptr_ty (Cast ''void *'' (Paren (BinOp base Add scaled_idx0))) cx }"

definition op_inbounds_gep :: "Builder \<Rightarrow> TypeRef \<Rightarrow> ValueRef \<Rightarrow> ValueRef list \<Rightarrow> value_op" where
  "op_inbounds_gep b ty ptr indices = op_gep b ty ptr indices"

section \<open>Operands\<close>

text \<open>
  A place is an address, its alignment and the layout of what is there; an operand is one of
  the representations of \<open>OperandValue\<close>.
\<close>

record Place =
  pl_llval :: ValueRef
  pl_align :: nat
  pl_layout :: Layout

datatype Operand = OpZeroSized | OpImmediate ValueRef | OpPair ValueRef ValueRef | OpRef Place

text \<open>
  What these operations take from the compiler's own crates: the default \<open>ptradd\<close> of the
  builder trait, rounding a size up to an alignment, the size product that panics on
  overflow, storing an operand into a place and storing a cast value.
\<close>

record SsaLib =
  ssa_ptradd :: "Builder \<Rightarrow> ValueRef \<Rightarrow> ValueRef \<Rightarrow> value_op"
  ssa_align_to :: "nat \<Rightarrow> nat \<Rightarrow> nat"
  ssa_size_mul :: "nat \<Rightarrow> nat \<Rightarrow> nat option"
  ssa_store_operand :: "Builder \<Rightarrow> Operand \<Rightarrow> Place \<Rightarrow> CodegenCx \<Rightarrow> CodegenCx option"
  ssa_store_cast ::
    "Builder \<Rightarrow> CastTarget \<Rightarrow> ValueRef \<Rightarrow> ValueRef \<Rightarrow> nat \<Rightarrow> CodegenCx \<Rightarrow> CodegenCx option"

definition load_operand :: "SsaLib \<Rightarrow> Builder \<Rightarrow> Place \<Rightarrow> CodegenCx \<Rightarrow> (Operand \<times> CodegenCx) option" where
  "load_operand lib b place cx =
     (let ty = pl_layout place in
      if l_is_zst ty then Some (OpZeroSized, cx)
      else if is_backend_immediate ty then
        do { (llty, cx) \<leftarrow> backend_type ty cx;
             (llval, cx) \<leftarrow> op_load b llty (pl_llval place) cx;
             (llval, cx) \<leftarrow> (case l_repr ty of
                 BScalar scalar \<Rightarrow> to_immediate_scalar b llval scalar cx
               | _ \<Rightarrow> Some (llval, cx));
             Some (OpImmediate llval, cx) }
      else case l_repr ty of
        BScalarPair sa sb \<Rightarrow>
          do { (a_ty, cx) \<leftarrow> scalar_pair_element_backend_type ty 0 cx;
               (b_ty, cx) \<leftarrow> scalar_pair_element_backend_type ty 1 cx;
               let ptr = pl_llval place;
               (a_val, cx) \<leftarrow> op_load b a_ty ptr cx;
               let b_offset = ssa_align_to lib (sc_size sa) (sc_align sb);
               (b_ptr, cx) \<leftarrow> (if b_offset > 0 then
                   (let (off, cx) = const_usize b_offset cx in ssa_ptradd lib b ptr off cx)
                 else Some (ptr, cx));
               (b_val, cx) \<leftarrow> op_load b b_ty b_ptr cx;
               Some (OpPair a_val b_val, cx) }
      | _ \<Rightarrow> Some (OpRef place, cx))"

fun write_each ::
  "SsaLib \<Rightarrow> Builder \<Rightarrow> Operand \<Rightarrow> nat \<Rightarrow> Place \<Rightarrow> Layout \<Rightarrow> nat list \<Rightarrow> CodegenCx \<Rightarrow> CodegenCx option" where
  "write_each lib b elem stride dest field [] cx = Some cx"
| "write_each lib b elem stride dest field (i # is) cx =
     do { offset \<leftarrow> ssa_size_mul lib stride i;
          (dest_ptr, cx) \<leftarrow> (if offset > 0 then
              (let (off, cx) = const_usize offset cx in ssa_ptradd lib b (pl_llval dest) off cx)
            else Some (pl_llval dest, cx));
          cx \<leftarrow> ssa_store_operand lib b elem
                 \<lparr>pl_llval = dest_ptr, pl_align = l_align (pl_layout dest), pl_layout = field\<rparr> cx;
          write_each lib b elem stride dest field is cx }"

definition UNROLL_LIMIT :: nat where
  "UNROLL_LIMIT = 16"

definition write_operand_repeatedly ::
  "SsaLib \<Rightarrow> Builder \<Rightarrow> Operand \<Rightarrow> nat \<Rightarrow> Place \<Rightarrow> CodegenCx \<Rightarrow> CodegenCx option" where
  "write_operand_repeatedly lib b elem count dest cx =
     do { field \<leftarrow> l_field (pl_layout dest) 0;
          let stride = l_size field;
          if count > UNROLL_LIMIT \<and> stride > 0 then
            do { d \<leftarrow> render_value cx (pl_llval dest);
                 if stride = 1 then
                   do { val \<leftarrow> (case elem of OpImmediate v \<Rightarrow> Some v | _ \<Rightarrow> None);
                        v \<leftarrow> render_value cx val;
                        Some (emit b (RawStmt (''memset('' @ d @ '', (int)'' @ v @ '', ''
                                @ nat_str count @ ''ULL);'')) cx) }
                 else
                   do { cx \<leftarrow> ssa_store_operand lib b elem
                          \<lparr>pl_llval = pl_llval dest, pl_align = l_align (pl_layout dest),
                           pl_layout = field\<rparr> cx;
                        let sb = nat_str stride;
                        Some (emit b (RawStmt (''for (uint64_t _rep = 1; _rep < '' @ nat_str count
                          @ ''ULL; _rep++) { memcpy((void *)((__rustc_usize)'' @ d @ '' + _rep * ''
                          @ sb @ ''ULL), (void *)'' @ d @ '', '' @ sb @ ''ULL); }'')) cx) } }
          else write_each lib b elem stride dest field [0..<count] cx }"

end
