(* ===== verification/BuilderConv.thy ===== *)
theory BuilderConv
  imports BuilderMem
begin

text \<open>
  Conversions and comparisons of \<open>builder.rs\<close>: integer and float casts with the saturating
  ones, bit casts, integer and float comparison, selection, and the memory block calls.
\<close>

section \<open>Casts\<close>

definition op_trunc :: "Builder \<Rightarrow> ValueRef \<Rightarrow> TypeRef \<Rightarrow> value_op" where
  "op_trunc b val dest_ty = cast_op b val dest_ty"

definition op_sext :: "Builder \<Rightarrow> ValueRef \<Rightarrow> TypeRef \<Rightarrow> value_op" where
  "op_sext b val dest_ty = cast_op b val dest_ty"

definition op_fptosi :: "Builder \<Rightarrow> ValueRef \<Rightarrow> TypeRef \<Rightarrow> value_op" where
  "op_fptosi b val dest_ty = cast_op b val dest_ty"

definition op_sitofp :: "Builder \<Rightarrow> ValueRef \<Rightarrow> TypeRef \<Rightarrow> value_op" where
  "op_sitofp b val dest_ty = cast_op b val dest_ty"

definition op_fptrunc :: "Builder \<Rightarrow> ValueRef \<Rightarrow> TypeRef \<Rightarrow> value_op" where
  "op_fptrunc b val dest_ty = cast_op b val dest_ty"

definition op_fpext :: "Builder \<Rightarrow> ValueRef \<Rightarrow> TypeRef \<Rightarrow> value_op" where
  "op_fpext b val dest_ty = cast_op b val dest_ty"

definition op_ptrtoint :: "Builder \<Rightarrow> ValueRef \<Rightarrow> TypeRef \<Rightarrow> value_op" where
  "op_ptrtoint b val dest_ty = cast_op b val dest_ty"

definition op_inttoptr :: "Builder \<Rightarrow> ValueRef \<Rightarrow> TypeRef \<Rightarrow> value_op" where
  "op_inttoptr b val dest_ty = cast_op b val dest_ty"

definition op_pointercast :: "Builder \<Rightarrow> ValueRef \<Rightarrow> TypeRef \<Rightarrow> value_op" where
  "op_pointercast b val dest_ty = cast_op b val dest_ty"

text \<open>\<open>isnan ? zero : (below ? low : (above ? high : cast))\<close> of the saturating casts.\<close>

definition saturating_expr :: "string \<Rightarrow> string \<Rightarrow> string \<Rightarrow> string \<Rightarrow> string \<Rightarrow> CExpr" where
  "saturating_expr v dt min_val low max_val =
     (let isnan = BinOp (Var v) Ne (Var v);
          zero = Cast dt (Lit ''0'');
          cast_v = Cast dt (Var v);
          cast_max = Cast dt (Lit max_val);
          inner = Ternary (BinOp (Var v) Gt (Lit max_val)) cast_max cast_v;
          mid = Ternary (BinOp (Var v) Lt (Lit min_val)) (Cast dt (Lit low)) inner
      in Ternary isnan zero mid)"

fun fptoui_max :: "CTypeKind \<Rightarrow> string option" where
  "fptoui_max (TInt bits signed) =
     (if bits < 128 then
        Some (if bits = 64 then ''18446744073709551615.0'' else nat_str (2 ^ bits - 1) @ ''.0'')
      else None)"
| "fptoui_max (TPtrWidth signed) = Some ''(double)UINTPTR_MAX''"
| "fptoui_max _ = None"

definition op_fptoui_sat :: "Builder \<Rightarrow> ValueRef \<Rightarrow> TypeRef \<Rightarrow> value_op" where
  "op_fptoui_sat b val dest_ty cx =
     do { v \<leftarrow> render_value cx val;
          dt \<leftarrow> render_type cx dest_ty;
          k \<leftarrow> kind_of cx dest_ty;
          case fptoui_max k of
            Some max_val \<Rightarrow>
              new_temp_with_stmt b dest_ty (saturating_expr v dt ''0.0'' ''0'' max_val) cx
          | None \<Rightarrow> cast_op b val dest_ty cx }"

text \<open>
  \<open>1i128 << (bits - 1)\<close> with a \<open>u32\<close> subtraction that wraps and a shift amount modulo 128.
\<close>

definition sign_bit_i128 :: "nat \<Rightarrow> int" where
  "sign_bit_i128 bits = wrap_i128 (2 ^ (as_u32 (bits + u32_MAX) mod 128))"

fun fptosi_bounds :: "CTypeKind \<Rightarrow> (string \<times> string) option" where
  "fptosi_bounds (TInt bits True) =
     (if bits \<le> 64 then
        Some (int_str (wrap_i128 (- sign_bit_i128 bits)) @ ''.0'',
              int_str (wrap_i128 (sign_bit_i128 bits - 1)) @ ''.0'')
      else None)"
| "fptosi_bounds (TPtrWidth True) = Some (''(double)INTPTR_MIN'', ''(double)INTPTR_MAX'')"
| "fptosi_bounds _ = None"

definition op_fptosi_sat :: "Builder \<Rightarrow> ValueRef \<Rightarrow> TypeRef \<Rightarrow> value_op" where
  "op_fptosi_sat b val dest_ty cx =
     do { v \<leftarrow> render_value cx val;
          dt \<leftarrow> render_type cx dest_ty;
          k \<leftarrow> kind_of cx dest_ty;
          case fptosi_bounds k of
            Some (min_val, max_val) \<Rightarrow>
              new_temp_with_stmt b dest_ty (saturating_expr v dt min_val min_val max_val) cx
          | None \<Rightarrow> cast_op b val dest_ty cx }"

definition op_fptoui :: "Builder \<Rightarrow> ValueRef \<Rightarrow> TypeRef \<Rightarrow> value_op" where
  "op_fptoui b val dest_ty cx =
     do { (u, cx) \<leftarrow> unsigned_type dest_ty cx;
          case u of
            Some unsigned_dest \<Rightarrow>
              do { v \<leftarrow> render_value cx val;
                   ut \<leftarrow> render_type cx unsigned_dest;
                   dt \<leftarrow> render_type cx dest_ty;
                   new_temp_with_stmt b dest_ty (Cast dt (Cast ut (Var v))) cx }
          | None \<Rightarrow> cast_op b val dest_ty cx }"

definition op_uitofp :: "Builder \<Rightarrow> ValueRef \<Rightarrow> TypeRef \<Rightarrow> value_op" where
  "op_uitofp b val dest_ty cx =
     do { src_ty \<leftarrow> type_of_value cx val;
          (u, cx) \<leftarrow> unsigned_type src_ty cx;
          case u of
            Some unsigned_src \<Rightarrow>
              do { v \<leftarrow> render_value cx val;
                   us \<leftarrow> render_type cx unsigned_src;
                   dt \<leftarrow> render_type cx dest_ty;
                   new_temp_with_stmt b dest_ty (Cast dt (Cast us (Var v))) cx }
          | None \<Rightarrow> cast_op b val dest_ty cx }"

definition op_zext :: "Builder \<Rightarrow> ValueRef \<Rightarrow> TypeRef \<Rightarrow> value_op" where
  "op_zext b val dest_ty cx =
     do { src_ty \<leftarrow> type_of_value cx val;
          (u, cx) \<leftarrow> unsigned_type src_ty cx;
          case u of
            Some unsigned_src \<Rightarrow>
              do { v \<leftarrow> render_value cx val;
                   us \<leftarrow> render_type cx unsigned_src;
                   dt \<leftarrow> render_type cx dest_ty;
                   new_temp_with_stmt b dest_ty (Cast dt (Cast us (Var v))) cx }
          | None \<Rightarrow> cast_op b val dest_ty cx }"

fun same_width_ints :: "nat \<Rightarrow> CTypeKind \<Rightarrow> CTypeKind \<Rightarrow> bool" where
  "same_width_ints ptr_bits (TInt m s) (TInt n s') = (m = n)"
| "same_width_ints ptr_bits (TPtrWidth s) (TPtrWidth s') = True"
| "same_width_ints ptr_bits (TPtrWidth s) (TInt n s') = (n = as_u32 ptr_bits)"
| "same_width_ints ptr_bits (TInt n s) (TPtrWidth s') = (n = as_u32 ptr_bits)"
| "same_width_ints _ _ _ = False"

definition op_bitcast :: "Builder \<Rightarrow> ValueRef \<Rightarrow> TypeRef \<Rightarrow> value_op" where
  "op_bitcast b val dest_ty cx =
     do { src_ty \<leftarrow> type_of_value cx val;
          if src_ty = dest_ty then Some (val, cx)
          else
            do { src \<leftarrow> kind_of cx src_ty;
                 dst \<leftarrow> kind_of cx dest_ty;
                 if src = TPtr \<and> dst = TPtr then cast_op b val dest_ty cx
                 else if same_width_ints (pointer_bits cx) src dst then cast_op b val dest_ty cx
                 else
                   do { let (result, cx) = new_temp dest_ty cx;
                        result_name \<leftarrow> render_value cx result;
                        dt \<leftarrow> render_type cx dest_ty;
                        v \<leftarrow> render_value cx val;
                        st \<leftarrow> render_type cx src_ty;
                        let (src_temp, cx) = new_temp src_ty cx;
                        src_name \<leftarrow> render_value cx src_temp;
                        let cx = declare_var b dt result_name cx;
                        let cx = declare_var b st src_name cx;
                        let cx = emit b (Assign (Var src_name) (Var v)) cx;
                        let cx = emit b (Expr (Call (Var ''memcpy'')
                                   [AddrOf (Var result_name), AddrOf (Var src_name),
                                    Sizeof (Var result_name)])) cx;
                        Some (result, cx) } } }"

definition signed_type_of :: "CTypeKind \<Rightarrow> TypeRef \<Rightarrow> CodegenCx \<Rightarrow> TypeRef \<times> CodegenCx" where
  "signed_type_of k src_ty cx =
     (case k of
        TInt bits s \<Rightarrow> intern_type (TInt bits True) cx
      | TPtrWidth s \<Rightarrow> intern_type (TPtrWidth True) cx
      | _ \<Rightarrow> (src_ty, cx))"

fun is_unsigned_kind :: "CTypeKind \<Rightarrow> bool" where
  "is_unsigned_kind (TInt bits s) = (\<not> s)"
| "is_unsigned_kind (TPtrWidth s) = (\<not> s)"
| "is_unsigned_kind _ = False"

definition op_intcast :: "Builder \<Rightarrow> ValueRef \<Rightarrow> TypeRef \<Rightarrow> bool \<Rightarrow> value_op" where
  "op_intcast b val dest_ty is_signed cx =
     (if is_signed then
        do { src_ty \<leftarrow> type_of_value cx val;
             k \<leftarrow> kind_of cx src_ty;
             if is_unsigned_kind k then
               do { let (signed_src, cx) = signed_type_of k src_ty cx;
                    v \<leftarrow> render_value cx val;
                    st \<leftarrow> render_type cx signed_src;
                    dt \<leftarrow> render_type cx dest_ty;
                    new_temp_with_stmt b dest_ty (Cast dt (Cast st (Var v))) cx }
             else cast_op b val dest_ty cx }
      else op_zext b val dest_ty cx)"

section \<open>Comparisons\<close>

text \<open>\<open>IntPredicate\<close> and \<open>RealPredicate\<close> of \<open>rustc_codegen_ssa::common\<close>.\<close>

datatype IntPredicate =
    IntEQ | IntNE | IntUGT | IntUGE | IntULT | IntULE | IntSGT | IntSGE | IntSLT | IntSLE

datatype RealPredicate =
    RealPredicateFalse | RealOEQ | RealOGT | RealOGE | RealOLT | RealOLE | RealONE | RealORD
  | RealUNO | RealUEQ | RealUGT | RealUGE | RealULT | RealULE | RealUNE | RealPredicateTrue

fun icmp_op :: "IntPredicate \<Rightarrow> CBinOp" where
  "icmp_op IntEQ = Eq"
| "icmp_op IntNE = Ne"
| "icmp_op IntUGT = Gt"
| "icmp_op IntSGT = Gt"
| "icmp_op IntUGE = Ge"
| "icmp_op IntSGE = Ge"
| "icmp_op IntULT = Lt"
| "icmp_op IntSLT = Lt"
| "icmp_op IntULE = Le"
| "icmp_op IntSLE = Le"

definition pred_unsigned :: "IntPredicate \<Rightarrow> bool" where
  "pred_unsigned op = (op = IntUGT \<or> op = IntUGE \<or> op = IntULT \<or> op = IntULE)"

definition pred_signed :: "IntPredicate \<Rightarrow> bool" where
  "pred_signed op = (op = IntSGT \<or> op = IntSGE \<or> op = IntSLT \<or> op = IntSLE)"

fun is_ptr_width :: "CTypeKind \<Rightarrow> bool" where
  "is_ptr_width (TPtrWidth s) = True"
| "is_ptr_width _ = False"

fun icmp_width :: "CTypeKind \<Rightarrow> nat" where
  "icmp_width (TInt bits s) = bits"
| "icmp_width TBool = 1"
| "icmp_width TPtr = 64"
| "icmp_width _ = 0"

text \<open>The type both operands are cast to, if they are.\<close>

definition icmp_cast_kind :: "IntPredicate \<Rightarrow> CTypeKind \<Rightarrow> CTypeKind \<Rightarrow> CTypeKind option" where
  "icmp_cast_kind op kl kr =
     (if is_ptr_width kl \<or> is_ptr_width kr then Some (TPtrWidth (\<not> pred_unsigned op))
      else (let cast_bits = max (icmp_width kl) (icmp_width kr) in
            if pred_unsigned op then Some (TInt cast_bits False)
            else if pred_signed op \<or> cast_bits > 0 then Some (TInt cast_bits True)
            else None))"

definition op_icmp :: "Builder \<Rightarrow> IntPredicate \<Rightarrow> ValueRef \<Rightarrow> ValueRef \<Rightarrow> value_op" where
  "op_icmp b op lhs rhs cx =
     do { let (bool_ty, cx) = intern_type TBool cx;
          l \<leftarrow> render_value cx lhs;
          r \<leftarrow> render_value cx rhs;
          lhs_ty \<leftarrow> type_of_value cx lhs;
          rhs_ty \<leftarrow> type_of_value cx rhs;
          kl \<leftarrow> kind_of cx lhs_ty;
          kr \<leftarrow> kind_of cx rhs_ty;
          case icmp_cast_kind op kl kr of
            Some k \<Rightarrow>
              do { let (cast_ty, cx) = intern_type k cx;
                   ct \<leftarrow> render_type cx cast_ty;
                   new_temp_with_stmt b bool_ty
                     (BinOp (Cast ct (Var l)) (icmp_op op) (Cast ct (Var r))) cx }
          | None \<Rightarrow> new_temp_with_stmt b bool_ty (BinOp (Var l) (icmp_op op) (Var r)) cx }"

text \<open>The C expression of a float comparison, or the constant it folds to.\<close>

definition fcmp_expr :: "RealPredicate \<Rightarrow> string \<Rightarrow> string \<Rightarrow> bool + CExpr" where
  "fcmp_expr op l r =
     (let isnan_l = BinOp (Var l) Ne (Var l);
          isnan_r = BinOp (Var r) Ne (Var r);
          plain = (\<lambda>c_op. Inr (BinOp (Var l) c_op (Var r)))
      in case op of
           RealOEQ \<Rightarrow> plain Eq | RealUEQ \<Rightarrow> plain Eq
         | RealONE \<Rightarrow> plain Ne | RealUNE \<Rightarrow> plain Ne
         | RealOGT \<Rightarrow> plain Gt | RealUGT \<Rightarrow> plain Gt
         | RealOGE \<Rightarrow> plain Ge | RealUGE \<Rightarrow> plain Ge
         | RealOLT \<Rightarrow> plain Lt | RealULT \<Rightarrow> plain Lt
         | RealOLE \<Rightarrow> plain Le | RealULE \<Rightarrow> plain Le
         | RealPredicateFalse \<Rightarrow> Inl False
         | RealPredicateTrue \<Rightarrow> Inl True
         | RealORD \<Rightarrow> Inr (BinOp (UnaryOp LogNot isnan_l) LogAnd (UnaryOp LogNot isnan_r))
         | RealUNO \<Rightarrow> Inr (BinOp isnan_l LogOr isnan_r))"

definition op_fcmp :: "Builder \<Rightarrow> RealPredicate \<Rightarrow> ValueRef \<Rightarrow> ValueRef \<Rightarrow> value_op" where
  "op_fcmp b op lhs rhs cx =
     do { let (bool_ty, cx) = intern_type TBool cx;
          l \<leftarrow> render_value cx lhs;
          r \<leftarrow> render_value cx rhs;
          case fcmp_expr op l r of
            Inl c \<Rightarrow> Some (const_bool c cx)
          | Inr e \<Rightarrow> new_temp_with_stmt b bool_ty e cx }"

section \<open>Memory blocks and selection\<close>

definition call_three ::
  "string \<Rightarrow> Builder \<Rightarrow> ValueRef \<Rightarrow> ValueRef \<Rightarrow> ValueRef \<Rightarrow> CodegenCx \<Rightarrow> CodegenCx option" where
  "call_three f b x y z cx =
     do { d \<leftarrow> render_value cx x;
          s \<leftarrow> render_value cx y;
          sz \<leftarrow> render_value cx z;
          Some (emit b (Expr (Call (Var f) [Var d, Var s, Var sz])) cx) }"

definition op_memcpy ::
  "Builder \<Rightarrow> ValueRef \<Rightarrow> ValueRef \<Rightarrow> ValueRef \<Rightarrow> CodegenCx \<Rightarrow> CodegenCx option" where
  "op_memcpy b dst src sz = call_three ''memcpy'' b dst src sz"

definition op_memmove ::
  "Builder \<Rightarrow> ValueRef \<Rightarrow> ValueRef \<Rightarrow> ValueRef \<Rightarrow> CodegenCx \<Rightarrow> CodegenCx option" where
  "op_memmove b dst src sz = call_three ''memmove'' b dst src sz"

definition op_memset ::
  "Builder \<Rightarrow> ValueRef \<Rightarrow> ValueRef \<Rightarrow> ValueRef \<Rightarrow> CodegenCx \<Rightarrow> CodegenCx option" where
  "op_memset b ptr fill_byte sz = call_three ''memset'' b ptr fill_byte sz"

definition op_select :: "Builder \<Rightarrow> ValueRef \<Rightarrow> ValueRef \<Rightarrow> ValueRef \<Rightarrow> value_op" where
  "op_select b cond then_val else_val cx =
     do { ty \<leftarrow> type_of_value cx then_val;
          c \<leftarrow> render_value cx cond;
          t \<leftarrow> render_value cx then_val;
          e \<leftarrow> render_value cx else_val;
          new_temp_with_stmt b ty (Ternary (Var c) (Var t) (Var e)) cx }"

end
