(* ===== verification/IntrinsicInt.thy ===== *)
theory IntrinsicInt
  imports BuilderConv
begin

text \<open>
  The helper functions of \<open>intrinsic.rs\<close> for numbers: the math library calls, bit counts,
  byte swap, bit reversal, saturation, rotation, funnel shifts and the wide product. Most
  build their C code as text; the text is what the definitions give. An intrinsic stores its
  result in the destination place.
\<close>

section \<open>Operands and results\<close>

text \<open>\<open>OperandRef::immediate\<close> panics for other representations.\<close>

definition immediate_arg :: "Operand list \<Rightarrow> nat \<Rightarrow> ValueRef option" where
  "immediate_arg args i =
     do { x \<leftarrow> idx args i; case x of OpImmediate v \<Rightarrow> Some v | _ \<Rightarrow> None }"

definition store_result :: "Builder \<Rightarrow> ValueRef \<Rightarrow> Place \<Rightarrow> CodegenCx \<Rightarrow> CodegenCx option" where
  "store_result b result dest cx = map_option snd (op_store b result (pl_llval dest) cx)"

type_synonym intrinsic = "Operand list \<Rightarrow> Place \<Rightarrow> CodegenCx \<Rightarrow> CodegenCx option"

text \<open>The text of an immediate argument.\<close>

definition arg_text :: "Operand list \<Rightarrow> nat \<Rightarrow> CodegenCx \<Rightarrow> string option" where
  "arg_text args i cx = do { v \<leftarrow> immediate_arg args i; render_value cx v }"

section \<open>Math functions\<close>

definition unary_math_names :: "(string \<times> string) list" where
  "unary_math_names =
     [(''fabsf32'', ''fabsf''), (''fabsf64'', ''fabs''), (''sqrtf32'', ''sqrtf''), (''sqrtf64'', ''sqrt''),
      (''sinf32'', ''sinf''), (''sinf64'', ''sin''), (''cosf32'', ''cosf''), (''cosf64'', ''cos''),
      (''expf32'', ''expf''), (''expf64'', ''exp''), (''exp2f32'', ''exp2f''), (''exp2f64'', ''exp2''),
      (''logf32'', ''logf''), (''logf64'', ''log''), (''log10f32'', ''log10f''), (''log10f64'', ''log10''),
      (''log2f32'', ''log2f''), (''log2f64'', ''log2''), (''floorf32'', ''floorf''), (''floorf64'', ''floor''),
      (''ceilf32'', ''ceilf''), (''ceilf64'', ''ceil''), (''truncf32'', ''truncf''), (''truncf64'', ''trunc''),
      (''roundf32'', ''roundf''), (''roundf64'', ''round''),
      (''round_ties_even_f32'', ''rintf''), (''round_ties_even_f64'', ''rint'')]"

definition codegen_unary_math :: "Builder \<Rightarrow> string \<Rightarrow> intrinsic" where
  "codegen_unary_math b name args dest cx =
     do { x \<leftarrow> immediate_arg args 0;
          v \<leftarrow> render_value cx x;
          ty \<leftarrow> type_of_value cx x;
          cfn \<leftarrow> map_of unary_math_names name;
          (result, cx) \<leftarrow> new_temp_with_stmt b ty (Call (Var cfn) [Var v]) cx;
          store_result b result dest cx }"

definition binary_math_names :: "(string \<times> string) list" where
  "binary_math_names =
     [(''copysignf32'', ''copysignf''), (''copysignf64'', ''copysign''),
      (''powf32'', ''powf''), (''powf64'', ''pow''),
      (''minnumf32'', ''fminf''), (''minnumf64'', ''fmin''),
      (''maxnumf32'', ''fmaxf''), (''maxnumf64'', ''fmax'')]"

definition codegen_binary_math :: "Builder \<Rightarrow> string \<Rightarrow> intrinsic" where
  "codegen_binary_math b name args dest cx =
     do { a \<leftarrow> arg_text args 0 cx;
          v \<leftarrow> arg_text args 1 cx;
          x \<leftarrow> immediate_arg args 0;
          ty \<leftarrow> type_of_value cx x;
          cfn \<leftarrow> map_of binary_math_names name;
          (result, cx) \<leftarrow> new_temp_with_stmt b ty (Call (Var cfn) [Var a, Var v]) cx;
          store_result b result dest cx }"

section \<open>Counting bits\<close>

text \<open>The C text of each count, for a width and an operand's text.\<close>

definition ctlz_text :: "nat \<Rightarrow> string \<Rightarrow> string" where
  "ctlz_text bits v =
     (if bits < 32 then
        ''('' @ v @ '' == 0 ? '' @ nat_str bits @ '' : __rustc_clz32((uint32_t)('' @ v @ '') & ''
        @ nat_str (2 ^ bits - 1) @ ''U) - (32 - '' @ nat_str bits @ ''))''
      else if bits \<le> 32 then
        ''('' @ v @ '' == 0 ? '' @ nat_str bits @ '' : __rustc_clz32((uint32_t)'' @ v @ '') - (32 - ''
        @ nat_str bits @ ''))''
      else if bits \<le> 64 then
        ''('' @ v @ '' == 0 ? '' @ nat_str bits @ '' : __rustc_clz64((uint64_t)'' @ v @ '') - (64 - ''
        @ nat_str bits @ ''))''
      else
        ''((uint64_t)((uint128_t)('' @ v @ '') >> 64) != 0 ? __rustc_clz64((uint64_t)((uint128_t)('' @ v
        @ '') >> 64)) : 64 + ((uint64_t)('' @ v @ '') == 0 ? 64 : __rustc_clz64((uint64_t)('' @ v @ ''))))'')"

definition cttz_text :: "nat \<Rightarrow> string \<Rightarrow> string" where
  "cttz_text bits v =
     (if bits \<le> 32 then
        ''('' @ v @ '' == 0 ? '' @ nat_str bits @ '' : __rustc_ctz32((uint32_t)'' @ v @ ''))''
      else if bits \<le> 64 then
        ''('' @ v @ '' == 0 ? '' @ nat_str bits @ '' : __rustc_ctz64((uint64_t)'' @ v @ ''))''
      else
        ''((uint64_t)('' @ v @ '') != 0 ? __rustc_ctz64((uint64_t)('' @ v @ '')) : 64 + ((uint64_t)((uint128_t)(''
        @ v @ '') >> 64) == 0 ? 64 : __rustc_ctz64((uint64_t)((uint128_t)('' @ v @ '') >> 64))))'')"

definition ctpop_text :: "nat \<Rightarrow> string \<Rightarrow> string" where
  "ctpop_text bits v =
     (if bits < 32 then
        ''__rustc_popcount32((uint32_t)('' @ v @ '') & '' @ nat_str (2 ^ bits - 1) @ ''U)''
      else if bits \<le> 32 then ''__rustc_popcount32((uint32_t)'' @ v @ '')''
      else if bits \<le> 64 then ''__rustc_popcount64((uint64_t)'' @ v @ '')''
      else
        ''(__rustc_popcount64((uint64_t)('' @ v @ '')) + __rustc_popcount64((uint64_t)((uint128_t)('' @ v
        @ '') >> 64)))'')"

definition count_intrinsic :: "(nat \<Rightarrow> string \<Rightarrow> string) \<Rightarrow> Builder \<Rightarrow> intrinsic" where
  "count_intrinsic text b args dest cx =
     do { x \<leftarrow> immediate_arg args 0;
          v \<leftarrow> render_value cx x;
          ty \<leftarrow> type_of_value cx x;
          bits \<leftarrow> int_width cx ty;
          let (ret_ty, cx) = type_i32 cx;
          (result, cx) \<leftarrow> new_temp_with_stmt b ret_ty (Raw (text bits v)) cx;
          store_result b result dest cx }"

definition codegen_ctlz :: "Builder \<Rightarrow> intrinsic" where
  "codegen_ctlz = count_intrinsic ctlz_text"

definition codegen_cttz :: "Builder \<Rightarrow> intrinsic" where
  "codegen_cttz = count_intrinsic cttz_text"

definition codegen_ctpop :: "Builder \<Rightarrow> intrinsic" where
  "codegen_ctpop = count_intrinsic ctpop_text"

section \<open>Swapping and reversing\<close>

definition bswap_text :: "nat \<Rightarrow> string \<Rightarrow> string" where
  "bswap_text bits v =
     (if bits = 8 then v
      else if bits = 16 then ''__rustc_bswap16('' @ v @ '')''
      else if bits = 32 then ''__rustc_bswap32('' @ v @ '')''
      else if bits = 64 then ''__rustc_bswap64('' @ v @ '')''
      else if bits = 128 then
        ''((uint128_t)__rustc_bswap64((uint64_t)('' @ v @ '')) << 64 | ''
        @ ''(uint128_t)__rustc_bswap64((uint64_t)((uint128_t)('' @ v @ '') >> 64)))''
      else v @ '' /* bswap unsupported for '' @ nat_str bits @ ''-bit */'')"

definition codegen_bswap :: "Builder \<Rightarrow> intrinsic" where
  "codegen_bswap b args dest cx =
     do { x \<leftarrow> immediate_arg args 0;
          v \<leftarrow> render_value cx x;
          ty \<leftarrow> type_of_value cx x;
          bits \<leftarrow> int_width cx ty;
          (result, cx) \<leftarrow> new_temp_with_stmt b ty (Raw (bswap_text bits v)) cx;
          store_result b result dest cx }"

text \<open>\<open>bx.unsigned_type(ty)\<close>, or the type itself, as text.\<close>

definition unsigned_text :: "TypeRef \<Rightarrow> CodegenCx \<Rightarrow> (string \<times> CodegenCx) option" where
  "unsigned_text ty cx =
     do { (u, cx) \<leftarrow> unsigned_type ty cx;
          s \<leftarrow> render_type cx (case u of Some uty \<Rightarrow> uty | None \<Rightarrow> ty);
          Some (s, cx) }"

definition bitreverse_loop :: "string \<Rightarrow> string \<Rightarrow> nat \<Rightarrow> string \<Rightarrow> string \<Rightarrow> string \<Rightarrow> string" where
  "bitreverse_loop itn rn bits t ut v =
     ''for ('' @ itn @ '' = 0; '' @ itn @ '' < '' @ nat_str bits @ ''; '' @ itn @ ''++) { '' @ rn @ '' = (''
     @ t @ '')((('' @ ut @ '')'' @ rn @ '' << 1) | ((('' @ ut @ '')'' @ v @ '' >> '' @ itn @ '') & 1)); }''"

definition codegen_bitreverse :: "Builder \<Rightarrow> intrinsic" where
  "codegen_bitreverse b args dest cx =
     do { x \<leftarrow> immediate_arg args 0;
          v \<leftarrow> render_value cx x;
          ty \<leftarrow> type_of_value cx x;
          bits \<leftarrow> int_width cx ty;
          t \<leftarrow> render_type cx ty;
          let (result_name, cx) = new_temp ty cx;
          rn \<leftarrow> render_value cx result_name;
          let cx = local_decl b (t @ '' '' @ rn @ '';'') cx;
          let (i32_ty, cx) = type_i32 cx;
          let (iter, cx) = new_temp i32_ty cx;
          itn \<leftarrow> render_value cx iter;
          let cx = local_decl b (''int32_t '' @ itn @ '';'') cx;
          (ut, cx) \<leftarrow> unsigned_text ty cx;
          let cx = emit b (RawStmt (rn @ '' = 0;'')) cx;
          let cx = emit b (RawStmt (bitreverse_loop itn rn bits t ut v)) cx;
          store_result b result_name dest cx }"

section \<open>Saturation\<close>

text \<open>\<open>1i128 << (bits - 1)\<close>: the subtraction is of \<open>u64\<close>, the amount taken modulo 128.\<close>

definition saturating_bit :: "nat \<Rightarrow> int" where
  "saturating_bit bits = wrap_i128 (2 ^ (as_u64 (bits + u64_MAX) mod 128))"

text \<open>The value an overflowing operation is replaced by.\<close>

definition clamp_text :: "bool \<Rightarrow> bool \<Rightarrow> nat \<Rightarrow> string \<Rightarrow> string \<Rightarrow> string" where
  "clamp_text is_add is_signed bits t r =
     (if is_signed then
        (let (min_val, max_val) =
           (if bits \<le> 64 then
              (''('' @ t @ '')'' @ int_str (wrap_i128 (- saturating_bit bits)) @ ''LL'',
               ''('' @ t @ '')'' @ int_str (wrap_i128 (saturating_bit bits - 1)) @ ''LL'')
            else (''0'', ''0''))
         in if is_add then ''('' @ r @ '' > 0 ? '' @ max_val @ '' : '' @ min_val @ '')''
            else ''('' @ r @ '' > 0 ? '' @ min_val @ '' : '' @ max_val @ '')'')
      else
        (let max_val =
           (if bits < 128 then
              ''('' @ t @ '')'' @ (if bits = 64 then ''18446744073709551615'' else nat_str (2 ^ bits - 1)) @ ''ULL''
            else ''('' @ t @ '')-1'')
         in if is_add then max_val else ''('' @ t @ '')0''))"

fun is_signed_kind :: "CTypeKind \<Rightarrow> bool" where
  "is_signed_kind (TInt bits s) = s"
| "is_signed_kind (TPtrWidth s) = s"
| "is_signed_kind _ = False"

definition codegen_saturating :: "Builder \<Rightarrow> string \<Rightarrow> intrinsic" where
  "codegen_saturating b name args dest cx =
     do { lhs \<leftarrow> immediate_arg args 0;
          rhs \<leftarrow> immediate_arg args 1;
          ty \<leftarrow> type_of_value cx lhs;
          bits \<leftarrow> int_width cx ty;
          l \<leftarrow> render_value cx lhs;
          r \<leftarrow> render_value cx rhs;
          t \<leftarrow> render_type cx ty;
          let (result, cx) = new_temp ty cx;
          result_name \<leftarrow> render_value cx result;
          let (overflow, cx) = new_temp ty cx;
          overflow_name \<leftarrow> render_value cx overflow;
          let cx = local_decl b (t @ '' '' @ result_name @ '';'') cx;
          let cx = local_decl b (t @ '' '' @ overflow_name @ '';'') cx;
          k \<leftarrow> kind_of cx ty;
          let is_add = (name = ''saturating_add'');
          let helper = overflow_helper (if is_add then OvAdd else OvSub) k;
          let clamp = clamp_text is_add (is_signed_kind k) bits t r;
          let cx = emit b (RawStmt (overflow_name @ '' = '' @ helper @ ''('' @ l @ '', '' @ r @ '', &''
                     @ result_name @ '');'')) cx;
          let cx = emit b (RawStmt (''if ('' @ overflow_name @ '') '' @ result_name @ '' = '' @ clamp @ '';'')) cx;
          store_result b result dest cx }"

section \<open>Rotations and funnel shifts\<close>

definition rotate_text :: "bool \<Rightarrow> nat \<Rightarrow> string \<Rightarrow> string \<Rightarrow> string \<Rightarrow> string \<Rightarrow> string" where
  "rotate_text left bits t ut v s =
     ''('' @ t @ '')(('' @ ut @ '')'' @ v @ (if left then '' << ('' else '' >> ('') @ s @ '' % ''
     @ nat_str bits @ '') | ('' @ ut @ '')'' @ v @ (if left then '' >> (('' else '' << (('') @ nat_str bits
     @ '' - '' @ s @ '') % '' @ nat_str bits @ ''))''"

definition codegen_rotate :: "Builder \<Rightarrow> string \<Rightarrow> intrinsic" where
  "codegen_rotate b name args dest cx =
     do { val \<leftarrow> immediate_arg args 0;
          amount \<leftarrow> immediate_arg args 1;
          ty \<leftarrow> type_of_value cx val;
          bits \<leftarrow> int_width cx ty;
          v \<leftarrow> render_value cx val;
          s \<leftarrow> render_value cx amount;
          (ut, cx) \<leftarrow> unsigned_text ty cx;
          t \<leftarrow> render_type cx ty;
          (result, cx) \<leftarrow> new_temp_with_stmt b ty
             (Raw (rotate_text (name = ''rotate_left'') bits t ut v s)) cx;
          store_result b result dest cx }"

definition funnel_text ::
  "bool \<Rightarrow> nat \<Rightarrow> string \<Rightarrow> string \<Rightarrow> string \<Rightarrow> string \<Rightarrow> string \<Rightarrow> string" where
  "funnel_text left bits t ut va vb vs =
     ''('' @ t @ '')((('' @ ut @ '')'' @ va @ (if left then '' << '' else '' >> '') @ vs @ '') | (('' @ ut @ '')''
     @ vb @ (if left then '' >> ('' else '' << ('') @ nat_str bits @ '' - '' @ vs @ '')))''"

definition codegen_funnel_shift :: "Builder \<Rightarrow> string \<Rightarrow> intrinsic" where
  "codegen_funnel_shift b name args dest cx =
     do { x \<leftarrow> immediate_arg args 0;
          y \<leftarrow> immediate_arg args 1;
          amount \<leftarrow> immediate_arg args 2;
          ty \<leftarrow> type_of_value cx x;
          bits \<leftarrow> int_width cx ty;
          va \<leftarrow> render_value cx x;
          vb \<leftarrow> render_value cx y;
          vs \<leftarrow> render_value cx amount;
          t \<leftarrow> render_type cx ty;
          (ut, cx) \<leftarrow> unsigned_text ty cx;
          (result, cx) \<leftarrow> new_temp_with_stmt b ty
             (Raw (funnel_text (name = ''unchecked_funnel_shl'') bits t ut va vb vs)) cx;
          store_result b result dest cx }"

section \<open>Wide products\<close>

definition int_text :: "bool \<Rightarrow> nat \<Rightarrow> string" where
  "int_text signed n = (if signed then ''int'' else ''uint'') @ nat_str n @ ''_t''"

text \<open>The statements of the 128-bit product, on 64-bit halves.\<close>

definition wide_mul_lines :: "string \<Rightarrow> nat \<Rightarrow> string \<Rightarrow> string \<Rightarrow> string \<Rightarrow> string \<Rightarrow> string \<Rightarrow> string list" where
  "wide_mul_lines t bytes dest a b c d =
     [''{ /* carrying_mul_add u128 */'',
      ''  uint64_t _a_lo = (uint64_t)'' @ a @ '';'',
      ''  uint64_t _a_hi = (uint64_t)((uint128_t)'' @ a @ '' >> 64);'',
      ''  uint64_t _b_lo = (uint64_t)'' @ b @ '';'',
      ''  uint64_t _b_hi = (uint64_t)((uint128_t)'' @ b @ '' >> 64);'',
      ''  uint128_t _lo_lo = (uint128_t)_a_lo * _b_lo;'',
      ''  uint128_t _hi_lo = (uint128_t)_a_hi * _b_lo;'',
      ''  uint128_t _lo_hi = (uint128_t)_a_lo * _b_hi;'',
      ''  uint128_t _hi_hi = (uint128_t)_a_hi * _b_hi;'',
      ''  uint128_t _mid = _hi_lo + _lo_hi;'',
      ''  uint128_t _carry_mid = (_mid < _hi_lo) ? ((uint128_t)1 << 64) : 0;'',
      ''  uint128_t _low = _lo_lo + (_mid << 64);'',
      ''  uint128_t _carry_low = (_low < _lo_lo) ? 1 : 0;'',
      ''  uint128_t _high = _hi_hi + (_mid >> 64) + _carry_mid + _carry_low;'',
      ''  _low += (uint128_t)'' @ c @ '';'',
      ''  if (_low < (uint128_t)'' @ c @ '') _high += 1;'',
      ''  _low += (uint128_t)'' @ d @ '';'',
      ''  if (_low < (uint128_t)'' @ d @ '') _high += 1;'',
      ''  *(('' @ t @ '' *)'' @ dest @ '') = ('' @ t @ '')_low;'',
      ''  *(('' @ t @ '' *)((char *)'' @ dest @ '' + '' @ nat_str bytes @ '')) = ('' @ t @ '')_high;'',
      ''}'']"

definition codegen_carrying_mul_add :: "Builder \<Rightarrow> nat \<Rightarrow> bool \<Rightarrow> intrinsic" where
  "codegen_carrying_mul_add b bytes signed args dest cx =
     do { let bits = 8 * bytes;
          va \<leftarrow> arg_text args 0 cx;
          vb \<leftarrow> arg_text args 1 cx;
          vc \<leftarrow> arg_text args 2 cx;
          vd \<leftarrow> arg_text args 3 cx;
          let (narrow_ty, cx) = intern_type (TInt (as_u32 bits) signed) cx;
          dst \<leftarrow> render_value cx (pl_llval dest);
          if bits \<le> 64 then
            do { let wide_bits = bits * 2;
                 let wide_t = int_text signed wide_bits;
                 let narrow_t = int_text signed bits;
                 let (wide_ty, cx) = intern_type (TInt (as_u32 wide_bits) signed) cx;
                 (wide, cx) \<leftarrow> new_temp_with_stmt b wide_ty
                    (Raw (''('' @ wide_t @ '')'' @ va @ '' * ('' @ wide_t @ '')'' @ vb @ '' + ('' @ wide_t
                          @ '')'' @ vc @ '' + ('' @ wide_t @ '')'' @ vd)) cx;
                 wide_v \<leftarrow> render_value cx wide;
                 (low, cx) \<leftarrow> new_temp_with_stmt b narrow_ty (Cast narrow_t (Var wide_v)) cx;
                 (high, cx) \<leftarrow> new_temp_with_stmt b narrow_ty
                    (Raw (''('' @ narrow_t @ '')(('' @ wide_t @ '')'' @ wide_v @ '' >> '' @ nat_str bits @ '')'')) cx;
                 low_v \<leftarrow> render_value cx low;
                 high_v \<leftarrow> render_value cx high;
                 let cx = emit b (Assign (Deref (narrow_t @ '' *'') (Var dst)) (Var low_v)) cx;
                 Some (emit b (Assign (Deref (narrow_t @ '' *'')
                    (Paren (BinOp (Cast ''char *'' (Var dst)) Add (Lit (nat_str bytes))))) (Var high_v)) cx) }
          else
            (let t = (if signed then ''int128_t'' else ''uint128_t'')
             in Some (fold (\<lambda>l cx. emit b (RawStmt l) cx) (wide_mul_lines t bytes dst va vb vc vd) cx)) }"

end
