(* ===== verification/Intrinsics.thy ===== *)
theory Intrinsics
  imports IntrinsicInt
begin

text \<open>
  The rest of \<open>intrinsic.rs\<close>: the SIMD helpers, which work lane by lane on the member \<open>v\<close> of
  a vector's struct, the typed swap, the dispatch \<open>codegen_intrinsic_call\<close> on the name of the
  intrinsic, and the other methods of the intrinsic trait. The dispatch answers whether the
  intrinsic was handled (\<open>Ok\<close>) or left to the caller (\<open>Err\<close>).
\<close>

section \<open>Vectors\<close>

fun vector_parts :: "CTypeKind \<Rightarrow> TypeRef \<Rightarrow> TypeRef \<times> nat" where
  "vector_parts (TVector element len) ty = (element, len)"
| "vector_parts _ ty = (ty, 1)"

definition vector_lanes :: "CodegenCx \<Rightarrow> TypeRef \<Rightarrow> (TypeRef \<times> nat) option" where
  "vector_lanes cx ty = map_option (\<lambda>k. vector_parts k ty) (kind_of cx ty)"

text \<open>A declared temporary without a value.\<close>

definition declared_temp :: "Builder \<Rightarrow> TypeRef \<Rightarrow> CodegenCx \<Rightarrow> ((ValueRef \<times> string) \<times> CodegenCx) option" where
  "declared_temp b ty cx =
     do { let (result, cx) = new_temp ty cx;
          rn \<leftarrow> render_value cx result;
          result_decl \<leftarrow> render_type_decl cx ty rn;
          Some ((result, rn), local_decl b (result_decl @ '';'') cx) }"

definition lane :: "string \<Rightarrow> nat \<Rightarrow> string" where
  "lane v i = v @ ''.v['' @ nat_str i @ '']''"

definition emit_lanes :: "Builder \<Rightarrow> (nat \<Rightarrow> CStmt) \<Rightarrow> nat \<Rightarrow> CodegenCx \<Rightarrow> CodegenCx" where
  "emit_lanes b stmt n cx = fold (\<lambda>i cx. emit b (stmt i) cx) [0..<n] cx"

definition codegen_simd_extract :: "Builder \<Rightarrow> intrinsic" where
  "codegen_simd_extract b args dest cx =
     do { vec \<leftarrow> immediate_arg args 0;
          v \<leftarrow> render_value cx vec;
          i \<leftarrow> arg_text args 1 cx;
          ret_ty \<leftarrow> type_of_value cx vec;
          (elem_ty, len) \<leftarrow> vector_lanes cx ret_ty;
          (result, cx) \<leftarrow> new_temp_with_stmt b elem_ty (Raw (v @ ''.v['' @ i @ '']'')) cx;
          store_result b result dest cx }"

definition simd_cmp_names :: "(string \<times> string) list" where
  "simd_cmp_names =
     [(''simd_eq'', ''==''), (''simd_ne'', ''!=''), (''simd_lt'', ''<''), (''simd_le'', ''<=''),
      (''simd_gt'', ''>''), (''simd_ge'', ''>='')]"

definition codegen_simd_cmp :: "Builder \<Rightarrow> string \<Rightarrow> intrinsic" where
  "codegen_simd_cmp b name args dest cx =
     do { x \<leftarrow> immediate_arg args 0;
          va \<leftarrow> render_value cx x;
          vb \<leftarrow> arg_text args 1 cx;
          c_op \<leftarrow> map_of simd_cmp_names name;
          a_ty \<leftarrow> type_of_value cx x;
          (e, vec_len) \<leftarrow> vector_lanes cx a_ty;
          (ret_ty, cx) \<leftarrow> backend_type (pl_layout dest) cx;
          ((result, rn), cx) \<leftarrow> declared_temp b ret_ty cx;
          let cx = emit_lanes b (\<lambda>i. RawStmt (lane rn i @ '' = ('' @ lane va i @ '' '' @ c_op @ '' ''
                     @ lane vb i @ '') ? -1 : 0;'')) vec_len cx;
          store_result b result dest cx }"

definition simd_bitwise_names :: "(string \<times> string) list" where
  "simd_bitwise_names = [(''simd_and'', ''&''), (''simd_or'', ''|''), (''simd_xor'', ''^'')]"

text \<open>The bitwise operations and the shifts.\<close>

definition lanewise :: "Builder \<Rightarrow> string \<Rightarrow> intrinsic" where
  "lanewise b c_op args dest cx =
     do { x \<leftarrow> immediate_arg args 0;
          va \<leftarrow> render_value cx x;
          vb \<leftarrow> arg_text args 1 cx;
          a_ty \<leftarrow> type_of_value cx x;
          (e, vec_len) \<leftarrow> vector_lanes cx a_ty;
          ((result, rn), cx) \<leftarrow> declared_temp b a_ty cx;
          let cx = emit_lanes b (\<lambda>i. Assign (Raw (lane rn i))
                     (Raw (lane va i @ '' '' @ c_op @ '' '' @ lane vb i))) vec_len cx;
          store_result b result dest cx }"

definition codegen_simd_bitwise :: "Builder \<Rightarrow> string \<Rightarrow> intrinsic" where
  "codegen_simd_bitwise b name args dest cx =
     do { c_op \<leftarrow> map_of simd_bitwise_names name; lanewise b c_op args dest cx }"

definition codegen_simd_shift :: "Builder \<Rightarrow> string \<Rightarrow> intrinsic" where
  "codegen_simd_shift b name = lanewise b (if name = ''simd_shl'' then ''<<'' else ''>>'')"

definition codegen_simd_insert :: "Builder \<Rightarrow> intrinsic" where
  "codegen_simd_insert b args dest cx =
     do { vec \<leftarrow> immediate_arg args 0;
          v \<leftarrow> render_value cx vec;
          i \<leftarrow> arg_text args 1 cx;
          e \<leftarrow> arg_text args 2 cx;
          vec_ty \<leftarrow> type_of_value cx vec;
          (result, cx) \<leftarrow> new_temp_with_stmt b vec_ty (Raw v) cx;
          rn \<leftarrow> render_value cx result;
          let cx = emit b (Assign (Raw (rn @ ''.v['' @ i @ '']'')) (Var e)) cx;
          store_result b result dest cx }"

definition codegen_simd_cast :: "Builder \<Rightarrow> intrinsic" where
  "codegen_simd_cast b args dest cx =
     do { va \<leftarrow> arg_text args 0 cx;
          (ret_ty, cx) \<leftarrow> backend_type (pl_layout dest) cx;
          (out_elem_ty, out_len) \<leftarrow> vector_lanes cx ret_ty;
          out_elem_t \<leftarrow> render_type cx out_elem_ty;
          ((result, rn), cx) \<leftarrow> declared_temp b ret_ty cx;
          let cx = emit_lanes b (\<lambda>i. Assign (Raw (lane rn i))
                     (Raw (''('' @ out_elem_t @ '')'' @ lane va i))) out_len cx;
          store_result b result dest cx }"

text \<open>The constant indices of a shuffle; an index that is no constant counts as 0.\<close>

definition shuffle_indices :: "CodegenCx \<Rightarrow> ValueRef \<Rightarrow> nat \<Rightarrow> nat list option" where
  "shuffle_indices cx indices out_len =
     do { info \<leftarrow> vs_get (cx_values cx) indices;
          case v_kind info of
            VectorConst elements t \<Rightarrow>
              opt_map (\<lambda>e. map_option (\<lambda>x. case x of Some n \<Rightarrow> n | None \<Rightarrow> 0) (as_u64_opt (cx_values cx) e))
                elements
          | _ \<Rightarrow> Some [0..<out_len] }"

text \<open>The array both inputs are copied to.\<close>

definition shuffle_array ::
  "Builder \<Rightarrow> TypeRef \<Rightarrow> string \<Rightarrow> nat \<Rightarrow> string \<Rightarrow> string \<Rightarrow> CodegenCx \<Rightarrow> (string \<times> CodegenCx) option" where
  "shuffle_array b elem_ty elem_t in_len v1 v2 cx =
     do { let (arr_temp, cx) = new_temp elem_ty cx;
          arr \<leftarrow> render_value cx arr_temp;
          let arr_name = arr @ ''_shuf'';
          let cx = local_decl b (elem_t @ '' '' @ arr_name @ ''['' @ nat_str (in_len * 2) @ ''];'') cx;
          let cx = emit b (RawStmt (''memcpy(&'' @ arr_name @ ''[0], &'' @ v1 @ ''.v[0], '' @ nat_str in_len
                     @ '' * sizeof('' @ elem_t @ ''));'')) cx;
          let cx = emit b (RawStmt (''memcpy(&'' @ arr_name @ ''['' @ nat_str in_len @ ''], &'' @ v2
                     @ ''.v[0], '' @ nat_str in_len @ '' * sizeof('' @ elem_t @ ''));'')) cx;
          Some (arr_name, cx) }"

definition codegen_simd_shuffle :: "Builder \<Rightarrow> intrinsic" where
  "codegen_simd_shuffle b args dest cx =
     do { in_vec \<leftarrow> immediate_arg args 0;
          in_vec2 \<leftarrow> immediate_arg args 1;
          indices \<leftarrow> immediate_arg args 2;
          in_ty \<leftarrow> type_of_value cx in_vec;
          (elem_ty, in_len) \<leftarrow> vector_lanes cx in_ty;
          (ret_ty, cx) \<leftarrow> backend_type (pl_layout dest) cx;
          (e, out_len) \<leftarrow> vector_lanes cx ret_ty;
          v1 \<leftarrow> render_value cx in_vec;
          v2 \<leftarrow> render_value cx in_vec2;
          elem_t \<leftarrow> render_type cx elem_ty;
          (arr_name, cx) \<leftarrow> shuffle_array b elem_ty elem_t in_len v1 v2 cx;
          index_vals \<leftarrow> shuffle_indices cx indices out_len;
          ((result, rn), cx) \<leftarrow> declared_temp b ret_ty cx;
          let cx = fold (\<lambda>ik cx. emit b (Assign (Raw (lane rn (fst ik)))
                     (Index (Var arr_name) (Lit (nat_str (snd ik))))) cx) (enumerate 0 index_vals) cx;
          store_result b result dest cx }"

section \<open>Swap\<close>

definition codegen_typed_swap :: "Builder \<Rightarrow> Layout \<Rightarrow> Operand list \<Rightarrow> CodegenCx \<Rightarrow> CodegenCx option" where
  "codegen_typed_swap b pointee args cx =
     do { let size = nat_str (l_size pointee);
          x \<leftarrow> arg_text args 0 cx;
          y \<leftarrow> arg_text args 1 cx;
          let cx = emit b (RawStmt (''{ _Alignas('' @ nat_str (l_align pointee)
                     @ '') unsigned char _swap_tmp['' @ size @ ''];'')) cx;
          let cx = emit b (RawStmt (''  memcpy(_swap_tmp, '' @ x @ '', '' @ size @ '');'')) cx;
          let cx = emit b (RawStmt (''  memcpy('' @ x @ '', '' @ y @ '', '' @ size @ '');'')) cx;
          Some (emit b (RawStmt (''  memcpy('' @ y @ '', _swap_tmp, '' @ size @ ''); }'')) cx) }"

section \<open>Calls stored to the destination\<close>

definition call_result :: "Builder \<Rightarrow> TypeRef \<Rightarrow> CExpr \<Rightarrow> Place \<Rightarrow> CodegenCx \<Rightarrow> CodegenCx option" where
  "call_result b ty e dest cx =
     do { (result, cx) \<leftarrow> new_temp_with_stmt b ty e cx; store_result b result dest cx }"

definition codegen_powi :: "Builder \<Rightarrow> string \<Rightarrow> string \<Rightarrow> intrinsic" where
  "codegen_powi b f ct args dest cx =
     do { x \<leftarrow> immediate_arg args 0;
          a \<leftarrow> render_value cx x;
          n \<leftarrow> arg_text args 1 cx;
          ty \<leftarrow> type_of_value cx x;
          call_result b ty (Call (Var f) [Var a, Cast ct (Var n)]) dest cx }"

definition codegen_fma :: "Builder \<Rightarrow> string \<Rightarrow> intrinsic" where
  "codegen_fma b f args dest cx =
     do { x \<leftarrow> immediate_arg args 0;
          a \<leftarrow> render_value cx x;
          m \<leftarrow> arg_text args 1 cx;
          c \<leftarrow> arg_text args 2 cx;
          ty \<leftarrow> type_of_value cx x;
          call_result b ty (Call (Var f) [Var a, Var m, Var c]) dest cx }"

definition codegen_raw_eq :: "Builder \<Rightarrow> Layout \<Rightarrow> intrinsic" where
  "codegen_raw_eq b layout args dest cx =
     do { lhs \<leftarrow> arg_text args 0 cx;
          rhs \<leftarrow> arg_text args 1 cx;
          let (ret_ty, cx) = type_i8 cx;
          call_result b ret_ty
            (BinOp (Call (Var ''memcmp'') [Var lhs, Var rhs, Lit (nat_str (l_size layout))]) Eq (Lit ''0''))
            dest cx }"

definition codegen_compare_bytes :: "Builder \<Rightarrow> intrinsic" where
  "codegen_compare_bytes b args dest cx =
     do { lhs \<leftarrow> arg_text args 0 cx;
          rhs \<leftarrow> arg_text args 1 cx;
          len \<leftarrow> arg_text args 2 cx;
          let (ret_ty, cx) = type_i32 cx;
          call_result b ret_ty (Call (Var ''memcmp'') [Var lhs, Var rhs, Var len]) dest cx }"

definition codegen_catch_unwind :: "Builder \<Rightarrow> intrinsic" where
  "codegen_catch_unwind b args dest cx =
     do { f \<leftarrow> arg_text args 0 cx;
          d \<leftarrow> arg_text args 1 cx;
          c \<leftarrow> arg_text args 2 cx;
          let (i32_ty, cx) = type_i32 cx;
          call_result b i32_ty (Call (Var ''__rust_try'')
            [Cast ''void (*)(void *)'' (Var f), Var d, Cast ''void (*)(void *, void *)'' (Var c)]) dest cx }"

definition codegen_black_box :: "SsaLib \<Rightarrow> Builder \<Rightarrow> intrinsic" where
  "codegen_black_box lib b args dest cx =
     do { x \<leftarrow> idx args 0;
          cx \<leftarrow> ssa_store_operand lib b x dest cx;
          if \<not> l_is_zst (pl_layout dest) then
            do { ptr \<leftarrow> render_value cx (pl_llval dest);
                 Some (emit b (RawStmt (''atomic_signal_fence(memory_order_acq_rel); (void)'' @ ptr @ '';'')) cx) }
          else Some (emit b (RawStmt ''atomic_signal_fence(memory_order_acq_rel);'') cx) }"

definition codegen_volatile_store :: "Builder \<Rightarrow> Operand list \<Rightarrow> CodegenCx \<Rightarrow> CodegenCx option" where
  "codegen_volatile_store b args cx =
     do { val \<leftarrow> immediate_arg args 1;
          p \<leftarrow> arg_text args 0 cx;
          v \<leftarrow> render_value cx val;
          ty \<leftarrow> type_of_value cx val;
          t \<leftarrow> render_type cx ty;
          Some (emit b (Assign (Deref (''volatile '' @ t @ '' *'') (Var p)) (Var v)) cx) }"

definition codegen_va_copy :: "Builder \<Rightarrow> Operand list \<Rightarrow> CodegenCx \<Rightarrow> CodegenCx option" where
  "codegen_va_copy b args cx =
     do { d \<leftarrow> arg_text args 0 cx;
          s \<leftarrow> arg_text args 1 cx;
          Some (emit b (Expr (Call (Var ''va_copy'')
            [Deref ''va_list *'' (Var d), Deref ''va_list *'' (Var s)])) cx) }"

definition codegen_va_arg :: "Builder \<Rightarrow> Layout \<Rightarrow> intrinsic" where
  "codegen_va_arg b layout args dest cx =
     do { (result_ty, cx) \<leftarrow> backend_type layout cx;
          t \<leftarrow> render_type cx result_ty;
          l \<leftarrow> arg_text args 0 cx;
          call_result b result_ty (Raw (''va_arg(*(va_list *)'' @ l @ '', '' @ t @ '')'')) dest cx }"

definition codegen_volatile_load :: "Builder \<Rightarrow> Layout \<Rightarrow> intrinsic" where
  "codegen_volatile_load b layout args dest cx =
     do { ptr \<leftarrow> immediate_arg args 0;
          (load_ty, cx) \<leftarrow> backend_type layout cx;
          (val, cx) \<leftarrow> volatile_load b load_ty ptr cx;
          store_result b val dest cx }"

definition codegen_statically_known :: "Builder \<Rightarrow> Place \<Rightarrow> CodegenCx \<Rightarrow> CodegenCx option" where
  "codegen_statically_known b dest cx =
     (let (val, cx) = const_bool False cx in store_result b val dest cx)"

definition codegen_select_unpredictable :: "Builder \<Rightarrow> intrinsic" where
  "codegen_select_unpredictable b args dest cx =
     do { c \<leftarrow> immediate_arg args 0;
          x \<leftarrow> immediate_arg args 1;
          y \<leftarrow> immediate_arg args 2;
          (result, cx) \<leftarrow> op_select b c x y cx;
          store_result b result dest cx }"

text \<open>A SIMD intrinsic without a case of its own zeroes the destination.\<close>

definition codegen_simd_fallback :: "Builder \<Rightarrow> Place \<Rightarrow> CodegenCx \<Rightarrow> CodegenCx option" where
  "codegen_simd_fallback b dest cx =
     do { p \<leftarrow> render_value cx (pl_llval dest);
          Some (emit b (Expr (Call (Var ''memset'')
            [Var p, Lit ''0'', Lit (nat_str (l_size (pl_layout dest)))])) cx) }"

section \<open>Dispatch\<close>

text \<open>
  What the compiler says of an instance: its name, the layout of its first type argument, and
  the size and signedness of that type where it is an integer.
\<close>

record Instance =
  i_name :: string
  i_type0 :: Layout
  i_int_bytes :: nat
  i_int_signed :: bool

definition codegen_intrinsic_call ::
  "SsaLib \<Rightarrow> Builder \<Rightarrow> Instance \<Rightarrow> Operand list \<Rightarrow> Place \<Rightarrow> CodegenCx \<Rightarrow> (bool \<times> CodegenCx) option" where
  "codegen_intrinsic_call lib b inst args dest cx =
     (let name = i_name inst; ok = map_option (\<lambda>cx. (True, cx)) in
      if name = ''black_box'' then ok (codegen_black_box lib b args dest cx)
      else if name \<in> {''volatile_load'', ''unaligned_volatile_load''} then
        ok (codegen_volatile_load b (i_type0 inst) args dest cx)
      else if name = ''volatile_store'' then ok (codegen_volatile_store b args cx)
      else if name \<in> {''prefetch_read_data'', ''prefetch_write_data'', ''prefetch_read_instruction'',
                      ''prefetch_write_instruction''} then Some (True, cx)
      else if name = ''va_copy'' then ok (codegen_va_copy b args cx)
      else if name = ''va_arg'' then ok (codegen_va_arg b (i_type0 inst) args dest cx)
      else if name = ''catch_unwind'' then ok (codegen_catch_unwind b args dest cx)
      else if name = ''is_val_statically_known'' then
        ok (codegen_statically_known b dest cx)
      else if name = ''select_unpredictable'' then
        ok (codegen_select_unpredictable b args dest cx)
      else if name = ''compare_bytes'' then ok (codegen_compare_bytes b args dest cx)
      else if name \<in> {''ctlz'', ''ctlz_nonzero''} then ok (codegen_ctlz b args dest cx)
      else if name \<in> {''cttz'', ''cttz_nonzero''} then ok (codegen_cttz b args dest cx)
      else if name = ''ctpop'' then ok (codegen_ctpop b args dest cx)
      else if name = ''bswap'' then ok (codegen_bswap b args dest cx)
      else if name = ''bitreverse'' then ok (codegen_bitreverse b args dest cx)
      else if name \<in> {''saturating_add'', ''saturating_sub''} then ok (codegen_saturating b name args dest cx)
      else if name \<in> fst ` set unary_math_names then ok (codegen_unary_math b name args dest cx)
      else if name \<in> fst ` set binary_math_names then ok (codegen_binary_math b name args dest cx)
      else if name = ''powif32'' then ok (codegen_powi b ''powf'' ''float'' args dest cx)
      else if name = ''powif64'' then ok (codegen_powi b ''pow'' ''double'' args dest cx)
      else if name \<in> {''fmaf32'', ''fmuladdf32''} then ok (codegen_fma b ''fmaf'' args dest cx)
      else if name \<in> {''fmaf64'', ''fmuladdf64''} then ok (codegen_fma b ''fma'' args dest cx)
      else if name = ''raw_eq'' then ok (codegen_raw_eq b (i_type0 inst) args dest cx)
      else if name \<in> {''rotate_left'', ''rotate_right''} then ok (codegen_rotate b name args dest cx)
      else if name \<in> {''unchecked_funnel_shl'', ''unchecked_funnel_shr''} then
        ok (codegen_funnel_shift b name args dest cx)
      else if name = ''simd_extract'' then ok (codegen_simd_extract b args dest cx)
      else if name \<in> fst ` set simd_cmp_names then ok (codegen_simd_cmp b name args dest cx)
      else if name \<in> fst ` set simd_bitwise_names then ok (codegen_simd_bitwise b name args dest cx)
      else if name \<in> {''simd_shl'', ''simd_shr''} then ok (codegen_simd_shift b name args dest cx)
      else if name = ''simd_insert'' then ok (codegen_simd_insert b args dest cx)
      else if name \<in> {''simd_cast'', ''simd_as''} then ok (codegen_simd_cast b args dest cx)
      else if name \<in> {''simd_shuffle'', ''simd_shuffle_const_generic''} then
        ok (codegen_simd_shuffle b args dest cx)
      else if take 5 name = ''simd_'' then ok (codegen_simd_fallback b dest cx)
      else if name = ''typed_swap_nonoverlapping'' then ok (codegen_typed_swap b (i_type0 inst) args cx)
      else if name = ''carrying_mul_add'' then
        ok (codegen_carrying_mul_add b (i_int_bytes inst) (i_int_signed inst) args dest cx)
      else Some (False, cx))"

section \<open>The other methods\<close>

definition codegen_llvm_intrinsic_call :: "CodegenCx \<Rightarrow> ValueRef \<times> CodegenCx" where
  "codegen_llvm_intrinsic_call cx = (let (ptr_ty, cx) = type_ptr cx in const_null ptr_ty cx)"

definition codegen_abort :: "Builder \<Rightarrow> CodegenCx \<Rightarrow> CodegenCx" where
  "codegen_abort b cx = emit b (Expr (Call (Var ''abort'') [])) cx"

definition codegen_expect :: "ValueRef \<Rightarrow> bool \<Rightarrow> ValueRef" where
  "codegen_expect c expected = c"

definition type_checked_load :: "Builder \<Rightarrow> ValueRef \<Rightarrow> nat \<Rightarrow> value_op" where
  "type_checked_load b llvtable vtable_byte_offset cx =
     do { let (ptr_ty, cx) = type_ptr cx;
          vtable \<leftarrow> render_value cx llvtable;
          let slot_index = vtable_byte_offset div (pointer_bits cx div 8);
          new_temp_with_stmt b ptr_ty
            (Deref ''void **'' (Paren (BinOp (Cast ''char *'' (Var vtable)) Add
               (Raw (nat_str slot_index @ '' * sizeof(void *)''))))) cx }"

definition va_start :: "Builder \<Rightarrow> ValueRef \<Rightarrow> value_op" where
  "va_start b val cx =
     do { v \<leftarrow> render_value cx val;
          Some (val, emit b (RawStmt (''va_start(*(va_list *)'' @ v @ '', 0);'')) cx) }"

definition va_end :: "Builder \<Rightarrow> ValueRef \<Rightarrow> value_op" where
  "va_end b val cx =
     do { v \<leftarrow> render_value cx val;
          Some (val, emit b (RawStmt (''va_end(*(va_list *)'' @ v @ '');'')) cx) }"

definition codegen_inline_asm :: "Builder \<Rightarrow> BasicBlockId option \<Rightarrow> CodegenCx \<Rightarrow> CodegenCx" where
  "codegen_inline_asm b dest cx =
     (let cx = emit b (RawStmt ''/* inline asm not supported */'') cx in
      case dest of Some bb \<Rightarrow> emit b (Goto (block_label b cx bb)) cx | None \<Rightarrow> cx)"

end
