(* ===== verification/BuilderAgg.thy ===== *)
theory BuilderAgg
  imports BuilderConv
begin

text \<open>
  Aggregates, exception landing pads and atomic read-modify-write operations of
  \<open>builder.rs\<close>.
\<close>

section \<open>Aggregates\<close>

definition op_va_arg :: "Builder \<Rightarrow> ValueRef \<Rightarrow> TypeRef \<Rightarrow> value_op" where
  "op_va_arg b list ty cx =
     do { l \<leftarrow> render_value cx list;
          t \<leftarrow> render_type cx ty;
          new_temp_with_stmt b ty (Call (Var ''va_arg'') [Var l, Raw t]) cx }"

definition op_extract_element :: "Builder \<Rightarrow> ValueRef \<Rightarrow> ValueRef \<Rightarrow> value_op" where
  "op_extract_element b vec index cx =
     do { vec_ty \<leftarrow> type_of_value cx vec;
          ty \<leftarrow> element_type cx vec_ty;
          v \<leftarrow> render_value cx vec;
          i \<leftarrow> render_value cx index;
          new_temp_with_stmt b ty (Index (Var v) (Var i)) cx }"

definition op_vector_splat :: "Builder \<Rightarrow> nat \<Rightarrow> ValueRef \<Rightarrow> value_op" where
  "op_vector_splat b num_elts elt cx =
     do { elem_ty \<leftarrow> type_of_value cx elt;
          let (vec_ty, cx) = intern_type (TVector elem_ty num_elts) cx;
          vec_ty_str \<leftarrow> render_type cx vec_ty;
          e \<leftarrow> render_value cx elt;
          new_temp_with_stmt b vec_ty
            (CompoundLiteral vec_ty_str (map (\<lambda>_. Var e) [0..<num_elts])) cx }"

text \<open>\<open>fields[idx as usize]\<close> of a struct, which panics out of range; \<open>None\<close> inside for another kind.\<close>

definition struct_field_type :: "CTypeKind \<Rightarrow> nat \<Rightarrow> TypeRef option option" where
  "struct_field_type k i =
     (case k of TStruct field_tys packed name \<Rightarrow> map_option Some (idx field_tys i) | _ \<Rightarrow> Some None)"

definition field_name :: "nat \<Rightarrow> string" where
  "field_name i = ''f'' @ nat_str i"

definition op_extract_value :: "Builder \<Rightarrow> ValueRef \<Rightarrow> nat \<Rightarrow> value_op" where
  "op_extract_value b agg_val i cx =
     do { agg_ty \<leftarrow> type_of_value cx agg_val;
          k \<leftarrow> kind_of cx agg_ty;
          ft \<leftarrow> struct_field_type k i;
          let field_ty = (case ft of Some t \<Rightarrow> t | None \<Rightarrow> agg_ty);
          v \<leftarrow> render_value cx agg_val;
          new_temp_with_stmt b field_ty (Field (Var v) (field_name i)) cx }"

definition op_insert_value :: "Builder \<Rightarrow> ValueRef \<Rightarrow> ValueRef \<Rightarrow> nat \<Rightarrow> value_op" where
  "op_insert_value b agg_val elt i cx =
     do { agg_ty \<leftarrow> type_of_value cx agg_val;
          k \<leftarrow> kind_of cx agg_ty;
          field_ty \<leftarrow> struct_field_type k i;
          (elt, cx) \<leftarrow> (case field_ty of
              Some ft \<Rightarrow> coerce_ptr_int b elt ft cx
            | None \<Rightarrow> Some (elt, cx));
          let (result, cx) = new_temp agg_ty cx;
          result_name \<leftarrow> render_value cx result;
          e \<leftarrow> render_value cx elt;
          t \<leftarrow> render_type cx agg_ty;
          let cx = declare_var b t result_name cx;
          info \<leftarrow> vs_get (cx_values cx) agg_val;
          cx \<leftarrow> (if v_kind info = Undef \<or> v_kind info = Poison then
                Some (emit b (Expr (Call (Var ''memset'')
                        [AddrOf (Var result_name), Lit ''0'', Sizeof (Var result_name)])) cx)
              else
                do { agg \<leftarrow> render_value cx agg_val;
                     Some (emit b (Assign (Var result_name) (Var agg)) cx) });
          let cx = emit b (Assign (Field (Var result_name) (field_name i)) (Var e)) cx;
          Some (result, cx) }"

section \<open>Exceptions\<close>

definition cleanup_landing_pad :: "Builder \<Rightarrow> ValueRef \<Rightarrow> CodegenCx \<Rightarrow> (ValueRef \<times> ValueRef) \<times> CodegenCx" where
  "cleanup_landing_pad b pers_fn cx =
     (let (ptr_ty, cx) = type_ptr cx;
          (exn, cx) = intern_value (InlineExpr ''__exn_ptr'') ptr_ty cx;
          (selector, cx) = const_i32 0 cx
      in ((exn, selector), cx))"

definition op_resume :: "Builder \<Rightarrow> ValueRef \<Rightarrow> ValueRef \<Rightarrow> CodegenCx \<Rightarrow> CodegenCx option" where
  "op_resume b exn0 exn1 cx =
     do { e \<leftarrow> render_value cx exn0;
          Some (set_terminated b (emit b (RawStmt
            (''if (__rustc_unwind_chain) { __rustc_unwind_chain->exception_ptr = (void *)'' @ e
             @ ''; __rustc_longjmp(__rustc_unwind_chain->buf, 1); } else { abort(); }'')) cx)) }"

definition cleanup_ret :: "Builder \<Rightarrow> BasicBlockId option \<Rightarrow> CodegenCx \<Rightarrow> CodegenCx" where
  "cleanup_ret b unwind cx =
     set_terminated b (case unwind of
         Some target \<Rightarrow> (let label = block_label b cx target in emit b (Goto label) cx)
       | None \<Rightarrow> emit b (RawStmt
           (''if (__rustc_unwind_chain) { __rustc_unwind_chain->exception_ptr = __exn_ptr; ''
            @ ''__rustc_longjmp(__rustc_unwind_chain->buf, 1); } else { abort(); }'')) cx)"

definition catch_switch :: "CodegenCx \<Rightarrow> ValueRef \<times> CodegenCx" where
  "catch_switch cx = (let (t, cx) = type_ptr cx in const_null t cx)"

section \<open>Atomic operations\<close>

definition atomic_ptr :: "string \<Rightarrow> string \<Rightarrow> CExpr" where
  "atomic_ptr t p = Cast (''_Atomic('' @ t @ '') *'') (Var p)"

definition op_atomic_cmpxchg ::
  "Builder \<Rightarrow> ValueRef \<Rightarrow> ValueRef \<Rightarrow> ValueRef \<Rightarrow> AtomicOrdering \<Rightarrow> AtomicOrdering \<Rightarrow> bool
   \<Rightarrow> CodegenCx \<Rightarrow> ((ValueRef \<times> ValueRef) \<times> CodegenCx) option" where
  "op_atomic_cmpxchg b dst cmp src order failure_order weak cx =
     do { ty \<leftarrow> type_of_value cx cmp;
          let (bool_ty, cx) = intern_type TBool cx;
          d \<leftarrow> render_value cx dst;
          c \<leftarrow> render_value cx cmp;
          s \<leftarrow> render_value cx src;
          t \<leftarrow> render_type cx ty;
          (old, cx) \<leftarrow> new_temp_with_stmt b ty (Var c) cx;
          old_name \<leftarrow> render_value cx old;
          (success, cx) \<leftarrow> new_temp_with_stmt b bool_ty
             (Call (Var ''atomic_compare_exchange_strong'')
                [atomic_ptr t d, AddrOf (Var old_name), Var s]) cx;
          Some ((old, success), cx) }"

text \<open>\<open>AtomicRmwBinOp\<close> of \<open>rustc_codegen_ssa::common\<close>.\<close>

datatype AtomicRmwBinOp =
    AtomicXchg | AtomicAdd | AtomicSub | AtomicAnd | AtomicNand | AtomicOr | AtomicXor
  | AtomicMax | AtomicMin | AtomicUMax | AtomicUMin

text \<open>The C11 function of the operations that have one.\<close>

fun atomic_fetch_name :: "AtomicRmwBinOp \<Rightarrow> string option" where
  "atomic_fetch_name AtomicXchg = Some ''atomic_exchange''"
| "atomic_fetch_name AtomicAdd = Some ''atomic_fetch_add''"
| "atomic_fetch_name AtomicSub = Some ''atomic_fetch_sub''"
| "atomic_fetch_name AtomicAnd = Some ''atomic_fetch_and''"
| "atomic_fetch_name AtomicOr = Some ''atomic_fetch_or''"
| "atomic_fetch_name AtomicXor = Some ''atomic_fetch_xor''"
| "atomic_fetch_name _ = None"

text \<open>The declarations and the compare-and-swap loop the other operations share.\<close>

definition rmw_loop :: "Builder \<Rightarrow> string \<Rightarrow> string \<Rightarrow> string \<Rightarrow> string \<Rightarrow> CExpr \<Rightarrow> CodegenCx \<Rightarrow> CodegenCx" where
  "rmw_loop b t d old_name desired_name desired_expr cx =
     (let cx = emit b (Assign (Var old_name) (Call (Var ''atomic_load'') [atomic_ptr t d])) cx
      in emit b (DoWhile [Assign (Var desired_name) desired_expr]
           (UnaryOp LogNot (Call (Var ''atomic_compare_exchange_weak'')
              [atomic_ptr t d, AddrOf (Var old_name), Var desired_name]))) cx)"

definition plain_min_max :: "string \<Rightarrow> string \<Rightarrow> string \<Rightarrow> string" where
  "plain_min_max cmp old_name s =
     old_name @ '' '' @ cmp @ '' '' @ s @ '' ? '' @ old_name @ '' : '' @ s"

definition unsigned_min_max :: "string \<Rightarrow> string \<Rightarrow> string \<Rightarrow> string \<Rightarrow> string \<Rightarrow> string" where
  "unsigned_min_max cmp t ut old_name s =
     ''('' @ t @ '')(('' @ ut @ '')'' @ old_name @ '' '' @ cmp @ '' ('' @ ut @ '')'' @ s
     @ '' ? ('' @ ut @ '')'' @ old_name @ '' : ('' @ ut @ '')'' @ s @ '')''"

definition umin_umax ::
  "string \<Rightarrow> TypeRef \<Rightarrow> string \<Rightarrow> string \<Rightarrow> string \<Rightarrow> CodegenCx \<Rightarrow> (string \<times> CodegenCx) option" where
  "umin_umax cmp ty t old_name s cx =
     do { (u, cx) \<leftarrow> unsigned_type ty cx;
          case u of
            Some ut \<Rightarrow> do { ut_str \<leftarrow> render_type cx ut;
                            Some (unsigned_min_max cmp t ut_str old_name s, cx) }
          | None \<Rightarrow> Some (plain_min_max cmp old_name s, cx) }"

definition rmw_min_max ::
  "AtomicRmwBinOp \<Rightarrow> TypeRef \<Rightarrow> string \<Rightarrow> string \<Rightarrow> string \<Rightarrow> CodegenCx \<Rightarrow> (string \<times> CodegenCx) option" where
  "rmw_min_max op ty t old_name s cx =
     (case op of
        AtomicMin \<Rightarrow> Some (plain_min_max ''<'' old_name s, cx)
      | AtomicMax \<Rightarrow> Some (plain_min_max ''>'' old_name s, cx)
      | AtomicUMin \<Rightarrow> umin_umax ''<'' ty t old_name s cx
      | AtomicUMax \<Rightarrow> umin_umax ''>'' ty t old_name s cx
      | _ \<Rightarrow> None)"

definition op_atomic_rmw ::
  "Builder \<Rightarrow> AtomicRmwBinOp \<Rightarrow> ValueRef \<Rightarrow> ValueRef \<Rightarrow> AtomicOrdering \<Rightarrow> bool \<Rightarrow> value_op" where
  "op_atomic_rmw b op dst src order ret_ptr cx =
     do { ty \<leftarrow> type_of_value cx src;
          d \<leftarrow> render_value cx dst;
          s \<leftarrow> render_value cx src;
          t \<leftarrow> render_type cx ty;
          case atomic_fetch_name op of
            Some f \<Rightarrow> new_temp_with_stmt b ty (Call (Var f) [atomic_ptr t d, Var s]) cx
          | None \<Rightarrow>
              do { let (old, cx) = new_temp ty cx;
                   old_name \<leftarrow> render_value cx old;
                   let (desired, cx) = new_temp ty cx;
                   desired_name \<leftarrow> render_value cx desired;
                   let cx = declare_var b t old_name cx;
                   let cx = declare_var b t desired_name cx;
                   if op = AtomicNand then
                     Some (old, rmw_loop b t d old_name desired_name
                       (UnaryOp BitNot (Paren (BinOp (Var old_name) BitAnd (Var s)))) cx)
                   else
                     do { (cmp, cx) \<leftarrow> rmw_min_max op ty t old_name s cx;
                          Some (old, rmw_loop b t d old_name desired_name (Raw cmp) cx) } } }"

text \<open>\<open>SynchronizationScope\<close> of \<open>rustc_codegen_ssa::common\<close>.\<close>

datatype SynchronizationScope = SingleThread | CrossThread

definition op_atomic_fence :: "Builder \<Rightarrow> AtomicOrdering \<Rightarrow> SynchronizationScope \<Rightarrow> CodegenCx \<Rightarrow> CodegenCx" where
  "op_atomic_fence b order scope cx =
     emit b (Expr (Call
       (Var (case scope of SingleThread \<Rightarrow> ''atomic_signal_fence''
             | CrossThread \<Rightarrow> ''atomic_thread_fence''))
       [Var (atomic_ordering_to_c order)])) cx"

end
