(* ===== verification/BuilderCall.thy ===== *)
theory BuilderCall
  imports BuilderAgg
begin

text \<open>
  Calls of \<open>builder.rs\<close>: plain calls with argument coercion and struct returns, invokes
  through \<open>setjmp\<close>, tail calls, and the translation between the parameters codegen expects
  and the ones the C function has.

  A function with an indirect return has no hidden parameter in C: the address it would
  write to is the local \<open>_retbuf\<close>, and parameter numbers are one lower.
\<close>

section \<open>Calls\<close>

text \<open>One argument against the declared parameter type at its position, if there is one.\<close>

definition coerce_arg :: "Builder \<Rightarrow> TypeRef list \<Rightarrow> nat \<times> ValueRef \<Rightarrow> value_op" where
  "coerce_arg b param_types ia cx =
     (let (i, a) = ia in
      if i < length param_types then
        (let pty = param_types ! i in
         do { pk \<leftarrow> kind_of cx pty;
              val_ty \<leftarrow> type_of_value cx a;
              vk \<leftarrow> kind_of cx val_ty;
              if (case pk of TStruct f p n \<Rightarrow> True | _ \<Rightarrow> False) \<and> vk = TPtr then
                do { ptr_str \<leftarrow> render_value cx a;
                     ty_str \<leftarrow> render_type cx pty;
                     Some (intern_value (InlineExpr (''*('' @ ty_str @ '' *)'' @ ptr_str)) pty cx) }
              else coerce_ptr_int b a pty cx })
      else Some (a, cx))"

text \<open>
  The return type and the callee expression. In the fallback of a callee whose type is not a
  function type the code interns a type while it holds the type store, which panics.
\<close>

definition callee :: "TypeRef \<Rightarrow> ValueRef \<Rightarrow> CodegenCx \<Rightarrow> (TypeRef \<times> string) option" where
  "callee llty fn_val cx =
     do { s \<leftarrow> get_fn_sig (cx_values cx) fn_val;
          case s of
            Some sig \<Rightarrow>
              do { k \<leftarrow> kind_of cx sig;
                   ret \<leftarrow> (case k of TFunction r as variadic \<Rightarrow> Some r | _ \<Rightarrow> None);
                   f \<leftarrow> render_value cx fn_val;
                   Some (ret, f) }
          | None \<Rightarrow>
              do { f_raw \<leftarrow> render_value cx fn_val;
                   k \<leftarrow> kind_of cx llty;
                   ret \<leftarrow> (case k of TFunction r as variadic \<Rightarrow> Some r | _ \<Rightarrow> None);
                   fn_ptr_ty \<leftarrow> render_type cx llty;
                   Some (ret, ''(('' @ fn_ptr_ty @ '')'' @ f_raw @ '')'') } }"

definition returns_indirect :: "FnAbi option \<Rightarrow> bool" where
  "returns_indirect fn_abi =
     (case fn_abi of Some abi \<Rightarrow> is_indirect (arg_mode (fa_ret abi)) | None \<Rightarrow> False)"

definition returns_bool :: "FnAbi option \<Rightarrow> bool" where
  "returns_bool fn_abi =
     (case fn_abi of
        Some abi \<Rightarrow> (case l_repr (arg_layout (fa_ret abi)) of
                       BScalar s \<Rightarrow> sc_is_bool s | _ \<Rightarrow> False)
      | None \<Rightarrow> False)"

text \<open>The value a call of a \<open>void\<close> function stands for.\<close>

definition void_result :: "FnAbi option \<Rightarrow> value_op" where
  "void_result fn_abi cx =
     (if returns_indirect fn_abi then
        do { (t, cx) \<leftarrow> (case fn_abi of
                 Some abi \<Rightarrow> layout_to_c_type (arg_layout (fa_ret abi)) cx
               | None \<Rightarrow> Some (type_ptr cx));
             Some (const_undef t cx) }
      else (let (t, cx) = type_ptr cx in Some (const_null t cx)))"

definition op_call ::
  "Builder \<Rightarrow> TypeRef \<Rightarrow> FnAbi option \<Rightarrow> ValueRef \<Rightarrow> ValueRef list \<Rightarrow> value_op" where
  "op_call b llty fn_abi fn_val args cx =
     do { let is_indirect_ret = returns_indirect fn_abi;
          let (sret_ptr, actual_args) =
            (if is_indirect_ret \<and> args \<noteq> [] then (Some (hd args), tl args) else (None, args));
          s \<leftarrow> get_fn_sig (cx_values cx) fn_val;
          let fn_sig_ty = (case s of Some sig \<Rightarrow> sig | None \<Rightarrow> llty);
          k \<leftarrow> kind_of cx fn_sig_ty;
          let param_types = (case k of TFunction r ps variadic \<Rightarrow> ps | _ \<Rightarrow> []);
          (coerced_args, cx) \<leftarrow> opt_map_state (coerce_arg b param_types) (enumerate 0 actual_args) cx;
          arg_texts \<leftarrow> opt_map (render_value cx) coerced_args;
          (ret_ty, f) \<leftarrow> callee llty fn_val cx;
          ret_kind \<leftarrow> kind_of cx ret_ty;
          if ret_kind = TVoid then
            do { let cx = emit b (Expr (Call (Var f) (map Var arg_texts))) cx;
                 void_result fn_abi cx }
          else
            do { (result, cx) \<leftarrow> new_temp_with_stmt b ret_ty (Call (Var f) (map Var arg_texts)) cx;
                 case sret_ptr of
                   Some sret \<Rightarrow>
                     do { r \<leftarrow> render_value cx result;
                          s \<leftarrow> render_value cx sret;
                          t \<leftarrow> render_type cx ret_ty;
                          Some (sret, emit b (Assign (Deref (t @ '' *'') (Var s)) (Var r)) cx) }
                 | None \<Rightarrow>
                     (if returns_bool fn_abi then
                        do { let (bool_ty, cx) = intern_type TBool cx;
                             v \<leftarrow> render_value cx result;
                             new_temp_with_stmt b bool_ty (Cast ''_Bool'' (Paren (Var v))) cx }
                      else Some (result, cx)) } }"

section \<open>Invokes\<close>

definition invoke_enter :: "FunctionDef \<Rightarrow> FunctionDef" where
  "invoke_enter func =
     (let func = (if fd_invoke_counter func = 0 then
            fd_add_local_decl ''struct __rustc_unwind_context __unwind_ctx;''
              (fd_add_local_decl ''void *__exn_ptr;'' func)
          else func)
      in func\<lparr>fd_invoke_counter := as_u32 (fd_invoke_counter func + 1)\<rparr>)"

definition op_invoke ::
  "Builder \<Rightarrow> TypeRef \<Rightarrow> FnAbi option \<Rightarrow> ValueRef \<Rightarrow> ValueRef list \<Rightarrow> BasicBlockId \<Rightarrow> BasicBlockId
   \<Rightarrow> value_op" where
  "op_invoke b llty fn_abi llfn args then_bb catch_bb cx =
     do { func \<leftarrow> lookup_current_fn b cx;
          let cx = with_current_fn b invoke_enter cx;
          let catch_label = block_label b cx catch_bb;
          let then_label = block_label b cx then_bb;
          let cx = emit b (Assign (Field (Var ''__unwind_ctx'') ''prev'')
                     (Var ''__rustc_unwind_chain'')) cx;
          let cx = emit b (Assign (Field (Var ''__unwind_ctx'') ''exception_ptr'')
                     (Cast ''void *'' (Lit ''0''))) cx;
          let cx = emit b (Assign (Var ''__rustc_unwind_chain'')
                     (AddrOf (Var ''__unwind_ctx''))) cx;
          let cx = emit b (RawStmt (''if (__rustc_setjmp(__unwind_ctx.buf) != 0) { ''
                     @ ''__exn_ptr = __unwind_ctx.exception_ptr; ''
                     @ ''__rustc_unwind_chain = __unwind_ctx.prev; goto '' @ catch_label @ ''; }'')) cx;
          (result, cx) \<leftarrow> op_call b llty fn_abi llfn args cx;
          let cx = emit b (Assign (Var ''__rustc_unwind_chain'')
                     (Field (Var ''__unwind_ctx'') ''prev'')) cx;
          let cx = emit b (Goto then_label) cx;
          Some (result, set_terminated b cx) }"

section \<open>Tail calls\<close>

text \<open>
  The type by which a tail call decides how to return: the one of the callee's declared
  signature, \<open>void\<close> for a callee that has none.
\<close>

definition tail_ret_type :: "ValueRef \<Rightarrow> CodegenCx \<Rightarrow> (TypeRef \<times> CodegenCx) option" where
  "tail_ret_type llfn cx =
     do { s \<leftarrow> get_fn_sig (cx_values cx) llfn;
          case s of
            Some sig \<Rightarrow>
              do { k \<leftarrow> kind_of cx sig;
                   case k of TFunction r as variadic \<Rightarrow> Some (r, cx) | _ \<Rightarrow> None }
          | None \<Rightarrow> Some (intern_type TVoid cx) }"

definition op_tail_call ::
  "Builder \<Rightarrow> TypeRef \<Rightarrow> FnAbi \<Rightarrow> ValueRef \<Rightarrow> ValueRef list \<Rightarrow> CodegenCx \<Rightarrow> CodegenCx option" where
  "op_tail_call b llty fn_abi llfn args cx =
     do { (result, cx) \<leftarrow> op_call b llty (Some fn_abi) llfn args cx;
          let has_retbuf = (Option.bind (lookup_current_fn b cx) fd_retbuf_name \<noteq> None);
          if has_retbuf then Some (ret_void b cx)
          else
            do { (ret_ty, cx) \<leftarrow> tail_ret_type llfn cx;
                 k \<leftarrow> kind_of cx ret_ty;
                 if k = TVoid then Some (ret_void b cx) else ret b result cx } }"

section \<open>Parameters\<close>

definition fn_has_indirect_ret :: "Builder \<Rightarrow> CodegenCx \<Rightarrow> bool" where
  "fn_has_indirect_ret b cx =
     (case lookup_current_fn b cx of Some f \<Rightarrow> fd_has_indirect_ret f | None \<Rightarrow> False)"

text \<open>The parameter that stands for the return slot.\<close>

definition get_retbuf :: "Builder \<Rightarrow> value_op" where
  "get_retbuf b cx =
     (case Option.bind (lookup_current_fn b cx) fd_retbuf_name of
        Some arr_name \<Rightarrow>
          (let (ptr_ty, cx) = type_ptr cx
           in Some (intern_value (InlineExpr (''(void *)&'' @ arr_name)) ptr_ty cx))
      | None \<Rightarrow>
          do { let data_ty = Option.bind (lookup_current_fn b cx) fd_ret_data_type;
               let (default_ty, cx) = type_ptr cx;
               let ret_ty = (case data_ty of Some t \<Rightarrow> t | None \<Rightarrow> default_ty);
               t \<leftarrow> render_type_decl cx ret_ty ''_retbuf'';
               natural_align \<leftarrow> natural_align_bytes (cx_types cx) ret_ty (pointer_bits cx div 8);
               let align = max natural_align 16;
               let cx = local_decl b (''_Alignas('' @ nat_str align @ '') '' @ t @ '';'') cx;
               let cx = with_current_fn b (\<lambda>f. f\<lparr>fd_retbuf_name := Some ''_retbuf''\<rparr>) cx;
               let (ptr_ty, cx) = type_ptr cx;
               Some (intern_value (InlineExpr ''(void *)&_retbuf'') ptr_ty cx) })"

text \<open>Parameter numbers are \<open>usize\<close>; the subtraction is reached with a positive index only.\<close>

definition get_param :: "Builder \<Rightarrow> nat \<Rightarrow> value_op" where
  "get_param b index cx =
     (let has_indirect_ret = fn_has_indirect_ret b cx in
      if has_indirect_ret \<and> index = 0 then get_retbuf b cx
      else
        (let c_index = (if has_indirect_ret then index - 1 else index);
             is_on_stack = (case lookup_current_fn b cx of
                 Some f \<Rightarrow> c_index \<in> fd_on_stack_params f | None \<Rightarrow> False)
         in if is_on_stack then
              (let (ptr_ty, cx) = type_ptr cx
               in Some (intern_value (InlineExpr (''(void *)&_arg'' @ nat_str c_index)) ptr_ty cx))
            else
              (let declared = Option.bind (lookup_current_fn b cx)
                     (\<lambda>f. map_option fst (idx (fd_params f) c_index));
                   (default_ty, cx) = type_ptr cx;
                   param_ty = (case declared of Some t \<Rightarrow> t | None \<Rightarrow> default_ty)
               in Some (intern_value (Param c_index) param_ty cx))))"

text \<open>Copying a cast value through a scratch slot.\<close>

definition store_via_scratch ::
  "SsaLib \<Rightarrow> Builder \<Rightarrow> CastTarget \<Rightarrow> ValueRef \<Rightarrow> nat \<Rightarrow> ValueRef \<Rightarrow> CodegenCx \<Rightarrow> CodegenCx option" where
  "store_via_scratch lib b cast val layout_bytes dst cx =
     do { let copy_bytes = min (ct_unaligned_size cast) layout_bytes;
          (scratch, cx) \<leftarrow> alloca b (ct_size cast) (ct_align cast) cx;
          cx \<leftarrow> ssa_store_cast lib b cast val scratch (ct_align cast) cx;
          let (size_val, cx) = const_usize copy_bytes cx;
          op_memcpy b dst scratch size_val cx }"

text \<open>The returned number is the next parameter index.\<close>

definition store_fn_arg ::
  "SsaLib \<Rightarrow> Builder \<Rightarrow> ArgAbi \<Rightarrow> nat \<Rightarrow> Place \<Rightarrow> CodegenCx \<Rightarrow> (nat \<times> CodegenCx) option" where
  "store_fn_arg lib b arg_abi i dst cx =
     (case arg_mode arg_abi of
        PMIgnore \<Rightarrow> Some (i, cx)
      | PMPair \<Rightarrow>
          do { (va, cx) \<leftarrow> get_param b i cx;
               (vb, cx) \<leftarrow> get_param b (i + 1) cx;
               (_, cx) \<leftarrow> op_store b va (pl_llval dst) cx;
               (sa, sb) \<leftarrow> (case l_repr (pl_layout dst) of
                   BScalarPair sa sb \<Rightarrow> Some (sa, sb) | _ \<Rightarrow> None);
               let b_offset = ssa_align_to lib (sc_size sa) (sc_align sb);
               (b_ptr, cx) \<leftarrow> (if b_offset > 0 then
                   (let (off, cx) = const_usize b_offset cx
                    in ssa_ptradd lib b (pl_llval dst) off cx)
                 else Some (pl_llval dst, cx));
               (_, cx) \<leftarrow> op_store b vb b_ptr cx;
               Some (i + 2, cx) }
      | PMIndirect a m on_stack \<Rightarrow>
          do { (val, cx) \<leftarrow> get_param b i cx;
               let (size_val, cx) = const_usize (l_size (pl_layout dst)) cx;
               cx \<leftarrow> op_memcpy b (pl_llval dst) val size_val cx;
               Some (i + 1, cx) }
      | PMCast cast \<Rightarrow>
          do { (val, cx) \<leftarrow> get_param b i cx;
               cx \<leftarrow> store_via_scratch lib b cast val (l_size (pl_layout dst)) (pl_llval dst) cx;
               Some (i + 1, cx) }
      | PMDirect \<Rightarrow>
          do { (val, cx) \<leftarrow> get_param b i cx;
               (_, cx) \<leftarrow> op_store b val (pl_llval dst) cx;
               Some (i + 1, cx) })"

definition store_arg ::
  "SsaLib \<Rightarrow> Builder \<Rightarrow> ArgAbi \<Rightarrow> ValueRef \<Rightarrow> Place \<Rightarrow> CodegenCx \<Rightarrow> CodegenCx option" where
  "store_arg lib b arg_abi val dst cx =
     (case arg_mode arg_abi of
        PMCast cast \<Rightarrow>
          store_via_scratch lib b cast val (l_size (arg_layout arg_abi)) (pl_llval dst) cx
      | PMIndirect pointee_align False on_stack \<Rightarrow>
          (let align = (case pointee_align of Some x \<Rightarrow> x | None \<Rightarrow> l_align (arg_layout arg_abi))
           in ssa_store_operand lib b
                (OpRef \<lparr>pl_llval = val, pl_align = align, pl_layout = arg_layout arg_abi\<rparr>) dst cx)
      | _ \<Rightarrow> map_option snd (op_store b val (pl_llval dst) cx))"

end
