(* ===== verification/BuilderInv.thy ===== *)
theory BuilderInv
  imports BuilderCall
begin

text \<open>
  What an operation of the builder may do to the context. \<open>reach b g n cx cx'\<close> says that
  \<open>cx'\<close> is well formed, that its stores extend those of \<open>cx\<close> by at most \<open>n\<close> entries each,
  and that the module differs only in the current function, by \<open>g\<close>. Every operation is shown
  to succeed in such a step, with the declarations and statements it adds spelled out by
  \<open>appends\<close>; the steps compose, which is how the proofs go.
\<close>

section \<open>Steps\<close>

definition keeps :: "nat \<Rightarrow> CodegenCx \<Rightarrow> CodegenCx \<Rightarrow> bool" where
  "keeps n cx cx' =
     (pointer_bits cx' = pointer_bits cx \<and> fmt_f64 cx' = fmt_f64 cx \<and>
      cx_instances cx' = cx_instances cx \<and> cx_statics_cache cx' = cx_statics_cache cx \<and>
      cx_eh_personality cx' = cx_eh_personality cx \<and>
      ts_le (cx_types cx) (cx_types cx') \<and> vs_le (cx_values cx) (cx_values cx') \<and>
      length (ts_types (cx_types cx')) \<le> length (ts_types (cx_types cx)) + n \<and>
      length (vs_values (cx_values cx')) \<le> length (vs_values (cx_values cx)) + n)"

definition reach ::
  "Builder \<Rightarrow> (FunctionDef \<Rightarrow> FunctionDef) \<Rightarrow> nat \<Rightarrow> CodegenCx \<Rightarrow> CodegenCx \<Rightarrow> bool" where
  "reach b g n cx cx' =
     (cx_wf cx' \<and> keeps n cx cx' \<and>
      cx_module cx' = (cx_module cx)
        \<lparr>open_functions := bt_adjust (current_fn b) g (open_functions (cx_module cx))\<rparr>)"

definition appends :: "Builder \<Rightarrow> string list \<Rightarrow> CStmt list \<Rightarrow> FunctionDef \<Rightarrow> FunctionDef" where
  "appends b decls stmts f =
     f\<lparr>fd_local_decls := fd_local_decls f @ decls,
       fd_blocks := bt_adjust (bid (current_bb b))
         (\<lambda>blk. blk\<lparr>bb_statements := bb_statements blk @ stmts\<rparr>) (fd_blocks f)\<rparr>"

text \<open>Updates of a function that keep it well formed.\<close>

definition fn_safe :: "(FunctionDef \<Rightarrow> FunctionDef) \<Rightarrow> bool" where
  "fn_safe g = (\<forall>f. (fd_wf f \<longrightarrow> fd_wf (g f)) \<and> (\<forall>ts. fn_typed ts f \<longrightarrow> fn_typed ts (g f)))"

lemma bt_adjust_id [simp]: "bt_adjust k id m = m" "bt_adjust k (\<lambda>x. x) m = m"
  by (induction m) (auto simp: bt_adjust_def)

lemma bt_adjust_comp: "bt_adjust k g (bt_adjust k h m) = bt_adjust k (g \<circ> h) m"
  by (auto simp: bt_adjust_def)

lemma appends_comp [simp]:
  "appends b ds' ss' \<circ> appends b ds ss = appends b (ds @ ds') (ss @ ss')"
  by (auto simp: appends_def bt_adjust_comp comp_def)

lemma appends_nil [simp]: "appends b [] [] = id"
  by (auto simp: appends_def fun_eq_iff)

lemma fd_emit_appends: "fd_emit (current_bb b) s = appends b [] [s]"
  by (auto simp: fd_emit_def appends_def fun_eq_iff)

lemma fd_add_local_decl_appends: "fd_add_local_decl d = appends b [d] []"
  by (auto simp: fd_add_local_decl_def appends_def fun_eq_iff)

lemma fn_typed_fields:
  "fd_return_type g = fd_return_type f \<Longrightarrow> fd_params g = fd_params f \<Longrightarrow>
   fd_ret_data_type g = fd_ret_data_type f \<Longrightarrow> fn_typed ts g = fn_typed ts f"
  by (simp add: fn_typed_def)

lemma fd_wf_fields:
  "fd_blocks g = fd_blocks f \<Longrightarrow> fd_block_counter g = fd_block_counter f \<Longrightarrow> fd_wf g = fd_wf f"
  by (simp add: fd_wf_def)

lemma fn_safe_appends [simp]: "fn_safe (appends b ds ss)"
proof -
  have "fd_wf (appends b ds ss f)" if "fd_wf f" for f
  proof -
    have "fd_wf (f\<lparr>fd_local_decls := fd_local_decls f @ ds\<rparr>)"
      using that by (simp add: fd_wf_def)
    from fd_wf_adjust [OF this, of "\<lambda>blk. blk\<lparr>bb_statements := bb_statements blk @ ss\<rparr>"
        "bid (current_bb b)"]
    show ?thesis by (simp add: appends_def)
  qed
  then show ?thesis by (auto simp: fn_safe_def fn_typed_def appends_def)
qed

lemma fn_safe_id [simp]: "fn_safe id"
  by (simp add: fn_safe_def)

lemma fn_safe_terminated [simp]: "fn_safe (fd_set_terminated bb)"
  using fd_wf_set_terminated [of _ bb]
  by (auto simp: fn_safe_def fn_typed_def fd_set_terminated_def)

lemma fn_safe_comp: "fn_safe g \<Longrightarrow> fn_safe h \<Longrightarrow> fn_safe (g \<circ> h)"
  by (simp add: fn_safe_def)

lemma fn_safe_invoke_enter [simp]: "fn_safe invoke_enter"
  by (auto simp: fn_safe_def invoke_enter_def Let_def fd_wf_def fn_typed_def fd_add_local_decl_def)

lemma fn_safe_retbuf [simp]: "fn_safe (\<lambda>f. f\<lparr>fd_retbuf_name := n\<rparr>)"
  by (auto simp: fn_safe_def fd_wf_def fn_typed_def)

section \<open>Composition\<close>

lemma keeps_refl [simp]: "keeps n cx cx"
  by (simp add: keeps_def)

lemma keeps_trans: "keeps m cx cx1 \<Longrightarrow> keeps n cx1 cx2 \<Longrightarrow> keeps (m + n) cx cx2"
  by (auto simp: keeps_def intro: ts_le_trans vs_le_trans)

lemma reach_refl: "cx_wf cx \<Longrightarrow> reach b id 0 cx cx"
  by (simp add: reach_def)

lemma reach_trans:
  "reach b g m cx cx1 \<Longrightarrow> reach b h n cx1 cx2 \<Longrightarrow> reach b (h \<circ> g) (m + n) cx cx2"
  by (auto simp: reach_def bt_adjust_comp intro: keeps_trans)

lemma reach_wf: "reach b g n cx cx' \<Longrightarrow> cx_wf cx'"
  by (simp add: reach_def)

lemma reach_more: "reach b g n cx cx' \<Longrightarrow> n \<le> m \<Longrightarrow> reach b g m cx cx'"
  by (auto simp: reach_def keeps_def)

lemma reach_room: "reach b g n cx cx' \<Longrightarrow> room (n + m) cx \<Longrightarrow> room m cx'"
  by (auto simp: reach_def keeps_def room_def)

lemma reach_tval: "reach b g n cx cx' \<Longrightarrow> tval cx t \<Longrightarrow> tval cx' t"
  by (auto simp: reach_def keeps_def dest: ts_le_valid)

lemma reach_vval: "reach b g n cx cx' \<Longrightarrow> vval cx v \<Longrightarrow> vval cx' v"
  by (auto simp: reach_def keeps_def dest: vs_le_valid)

lemma reach_kind: "reach b g n cx cx' \<Longrightarrow> kind_of cx t = Some k \<Longrightarrow> kind_of cx' t = Some k"
  by (auto simp: reach_def keeps_def kind_of_def dest: ts_le_get)

lemma reach_get: "reach b g n cx cx' \<Longrightarrow> vs_get (cx_values cx) v = Some i \<Longrightarrow>
    vs_get (cx_values cx') v = Some i"
  by (auto simp: reach_def keeps_def dest: vs_le_get)

lemma reach_type: "reach b g n cx cx' \<Longrightarrow> type_of_value cx v = Some t \<Longrightarrow> type_of_value cx' v = Some t"
  by (auto simp: reach_def keeps_def type_of_value_def dest: vs_le_type)

lemma reach_text: "reach b g n cx cx' \<Longrightarrow> render_value cx v = Some s \<Longrightarrow> render_value cx' v = Some s"
  by (auto simp: reach_def keeps_def render_value_def dest: vrender_le)

lemma reach_type_text: "reach b g n cx cx' \<Longrightarrow> render_type cx t = Some s \<Longrightarrow> render_type cx' t = Some s"
  by (auto simp: reach_def keeps_def render_type_def dest: render_le)

lemma reach_decl_text:
  "reach b g n cx cx' \<Longrightarrow> render_type_decl cx t x = Some s \<Longrightarrow> render_type_decl cx' t x = Some s"
  by (auto simp: reach_def keeps_def render_type_decl_def dest: render_decl_le)

lemmas reach_stable = reach_tval reach_vval reach_kind reach_get reach_type reach_text
  reach_type_text reach_decl_text

lemma reach_current_fn:
  "reach b g n cx cx' \<Longrightarrow> lookup_current_fn b cx' = map_option g (lookup_current_fn b cx)"
  by (simp add: reach_def lookup_current_fn_def)

section \<open>The queries in a well-formed context\<close>

lemma cx_wf_stores: "cx_wf cx \<Longrightarrow> ts_wf (cx_types cx)" "cx_wf cx \<Longrightarrow> vs_wf (cx_values cx)"
  by (simp_all add: cx_wf_def)

lemma value_typed_get:
  "cx_wf cx \<Longrightarrow> vs_get (cx_values cx) v = Some i \<Longrightarrow> value_typed (cx_types cx) i"
  by (auto simp: cx_wf_def vs_get_def idx_def split: if_splits)

lemma text_total: "cx_wf cx \<Longrightarrow> vval cx v \<Longrightarrow> \<exists>s. render_value cx v = Some s"
  unfolding render_value_def by (rule vrender_total) (auto simp: cx_wf_def)

lemma type_text_total: "cx_wf cx \<Longrightarrow> tval cx t \<Longrightarrow> \<exists>s. render_type cx t = Some s"
  unfolding render_type_def by (rule render_total) (auto simp: cx_wf_def)

lemma decl_text_total: "cx_wf cx \<Longrightarrow> tval cx t \<Longrightarrow> \<exists>s. render_type_decl cx t x = Some s"
  unfolding render_type_decl_def by (rule render_decl_total) (auto simp: cx_wf_def)

lemma type_total:
  assumes "cx_wf cx" "vval cx v"
  shows "\<exists>t k. type_of_value cx v = Some t \<and> tval cx t \<and> kind_of cx t = Some k"
proof -
  obtain i where i: "vs_get (cx_values cx) v = Some i" using vs_valid_get [OF assms(2)] ..
  have "tval cx (v_ty i)" using value_typed_get [OF assms(1) i] by (simp add: value_typed_def)
  then show ?thesis
    using i ts_valid_get [of "v_ty i" "cx_types cx"]
    by (auto simp: type_of_value_def get_type_def kind_of_def)
qed

lemma type_tval: "cx_wf cx \<Longrightarrow> type_of_value cx v = Some t \<Longrightarrow> tval cx t"
  using type_total [of cx v] get_type_valid [of "cx_values cx" v t]
  by (auto simp: type_of_value_def)

lemma type_vval: "type_of_value cx v = Some t \<Longrightarrow> vval cx v"
  by (auto simp: type_of_value_def dest: get_type_valid)

lemma kind_tval: "kind_of cx t = Some k \<Longrightarrow> tval cx t"
  by (auto simp: kind_of_def dest: ts_get_valid)

lemma tval_kind: "tval cx t \<Longrightarrow> \<exists>k. kind_of cx t = Some k"
  by (auto simp: kind_of_def dest: ts_valid_get)

lemma kind_refs_tval: "cx_wf cx \<Longrightarrow> kind_of cx t = Some k \<Longrightarrow> c \<in> set (kind_refs k) \<Longrightarrow> tval cx c"
  using ts_wf_refs [of "cx_types cx" t k c] kind_tval [of cx t k]
  by (auto simp: kind_of_def cx_wf_def)

section \<open>The primitive steps\<close>

lemma reach_with_current_fn:
  assumes wf: "cx_wf cx" and g: "fn_safe g"
  shows "reach b g 0 cx (with_current_fn b g cx)"
proof -
  have "fd_wf f' \<and> fn_typed (cx_types cx) f'"
    if "(n, f') \<in> set (bt_adjust (current_fn b) g (open_functions (cx_module cx)))" for n f'
    using that wf g by (auto simp: bt_adjust_set cx_wf_def fn_safe_def)
  then show ?thesis
    using wf by (auto simp: reach_def keeps_def with_current_fn_def cx_wf_def Let_def)
qed

lemma reach_emit: "cx_wf cx \<Longrightarrow> reach b (appends b [] [s]) 0 cx (emit b s cx)"
  unfolding emit_def fd_emit_appends by (rule reach_with_current_fn) auto

lemma reach_local_decl: "cx_wf cx \<Longrightarrow> reach b (appends b [d] []) 0 cx (local_decl b d cx)"
  unfolding local_decl_def fd_add_local_decl_appends [of d b] by (rule reach_with_current_fn) auto

lemma reach_set_terminated:
  "cx_wf cx \<Longrightarrow> reach b (fd_set_terminated (current_bb b)) 0 cx (set_terminated b cx)"
  unfolding set_terminated_def by (rule reach_with_current_fn) auto

lemma intern_type_reach:
  assumes wf: "cx_wf cx" and rm: "room 1 cx" and k: "kind_ok k"
    and refs: "\<forall>c \<in> set (kind_refs k). tval cx c"
    and i: "intern_type k cx = (t, cx')"
  shows "reach b id 1 cx cx' \<and> kind_of cx' t = Some k \<and> tval cx' t \<and> cx_values cx' = cx_values cx"
proof -
  obtain ts where ts: "intern k (cx_types cx) = (t, ts)" "cx' = cx\<lparr>cx_types := ts\<rparr>"
    using i by (auto simp: intern_type_def split: prod.splits)
  have adm: "ts_admits k (cx_types cx)"
    using k refs rm by (auto simp: ts_admits_def room_def)
  have le: "ts_le (cx_types cx) ts" using ts(1) by (rule intern_le)
  have "cx_wf cx'"
    using wf intern_wf [OF _ adm ts(1)] value_typed_le [OF le] fn_typed_le [OF le]
    by (auto simp: cx_wf_def ts(2))
  moreover have "kind_of cx' t = Some k"
    using wf intern_get [OF _ adm ts(1)] by (simp add: kind_of_def ts(2) cx_wf_def)
  ultimately show ?thesis
    using le intern_length [OF ts(1)] by (auto simp: reach_def keeps_def ts(2) dest: kind_tval)
qed

lemma intern_value_reach:
  assumes wf: "cx_wf cx" and rm: "room 1 cx" and t: "tval cx ty"
    and k: "kind_temp k = None" "\<forall>c \<in> set (value_refs k). vval cx c"
      "\<forall>c \<in> set (kind_types k). tval cx c"
    and i: "intern_value k ty cx = (v, cx')"
  shows "reach b id 1 cx cx' \<and> vs_get (cx_values cx') v = Some \<lparr>v_kind = k, v_ty = ty\<rparr>"
proof -
  obtain vs where vs: "alloc k ty (cx_values cx) = (v, vs)" "cx' = cx\<lparr>cx_values := vs\<rparr>"
    using i by (auto simp: intern_value_def split: prod.splits)
  have adm: "vs_admits k (cx_values cx)" using k rm by (auto simp: vs_admits_def room_def)
  have val: "vs_values vs = vs_values (cx_values cx) @ [\<lparr>v_kind = k, v_ty = ty\<rparr>]"
    using vs(1) by (auto simp: alloc_def)
  have "cx_wf cx'"
    using wf alloc_wf [OF _ adm vs(1)] t k by (auto simp: cx_wf_def vs(2) val value_typed_def)
  moreover have "vs_get vs v = Some \<lparr>v_kind = k, v_ty = ty\<rparr>"
    using alloc_get [OF _ vs(1)] rm by (simp add: room_def)
  ultimately show ?thesis
    using alloc_le [OF vs(1)] alloc_length [OF vs(1)] by (auto simp: reach_def keeps_def vs(2))
qed

definition temp_name :: "nat \<Rightarrow> string" where
  "temp_name i = ''_t'' @ nat_str i"

text \<open>Number \<open>i\<close> is not the number of a temporary yet.\<close>

definition fresh_temp :: "CodegenCx \<Rightarrow> nat \<Rightarrow> bool" where
  "fresh_temp cx i = (\<forall>w info. vs_get (cx_values cx) w = Some info \<longrightarrow> v_kind info \<noteq> Temp i)"

lemma fresh_temp_reach: "reach b g n cx cx' \<Longrightarrow> fresh_temp cx' i \<Longrightarrow> fresh_temp cx i"
  by (auto simp: fresh_temp_def dest: reach_get)

lemma fresh_temp_counter:
  assumes "cx_wf cx" shows "fresh_temp cx (temp_counter (cx_values cx))"
proof -
  have "i < temp_counter (cx_values cx)"
    if "vs_get (cx_values cx) w = Some info" "v_kind info = Temp i" for w info i
  proof -
    have "info \<in> set (vs_values (cx_values cx))"
      using that(1) by (auto simp: vs_get_def idx_def split: if_splits)
    then have "i \<in> set (vs_temps (cx_values cx))"
      using that(2) by (force simp: vs_temps_def map_filter_def)
    then show ?thesis using assms by (auto simp: cx_wf_def vs_wf_def)
  qed
  then show ?thesis by (fastforce simp: fresh_temp_def)
qed

lemma temp_text:
  "vs_get (cx_values cx) v = Some \<lparr>v_kind = Temp i, v_ty = t\<rparr> \<Longrightarrow> render_value cx v = Some (temp_name i)"
  by (simp add: render_value_def vrender_def temp_name_def)

lemma new_temp_reach:
  assumes wf: "cx_wf cx" and rm: "room 1 cx" and t: "tval cx ty" and i: "new_temp ty cx = (v, cx')"
  shows "reach b id 1 cx cx' \<and>
    (\<exists>i. fresh_temp cx i \<and> vs_get (cx_values cx') v = Some \<lparr>v_kind = Temp i, v_ty = ty\<rparr> \<and>
         render_value cx' v = Some (temp_name i))"
proof -
  obtain vs where vs: "next_temp ty (cx_values cx) = (v, vs)" "cx' = cx\<lparr>cx_values := vs\<rparr>"
    using i by (auto simp: new_temp_def split: prod.splits)
  let ?i = "temp_counter (cx_values cx)"
  have r: "length (vs_values (cx_values cx)) + 1 < 2 ^ 32" using rm by (simp add: room_def)
  have val: "vs_values vs = vs_values (cx_values cx) @ [\<lparr>v_kind = Temp ?i, v_ty = ty\<rparr>]"
    using vs(1) by (auto simp: next_temp_eq alloc_def)
  have get: "vs_get vs v = Some \<lparr>v_kind = Temp ?i, v_ty = ty\<rparr>"
    using next_temp_get [OF _ vs(1)] r by simp
  have "cx_wf cx'"
    using wf next_temp_wf [OF _ r vs(1)] t by (auto simp: cx_wf_def vs(2) val value_typed_def)
  moreover have "vs_le (cx_values cx) vs"
    using wf r vs(1) by (auto simp: cx_wf_def intro: next_temp_le)
  ultimately have "reach b id 1 cx cx'"
    using next_temp_length [OF vs(1)] by (auto simp: reach_def keeps_def vs(2))
  then show ?thesis
    using get fresh_temp_counter [OF wf] temp_text [of cx' v ?i ty] by (auto simp: vs(2))
qed

end
