(* ===== verification/BuilderRun.thy ===== *)
theory BuilderRun
  imports BuilderInv
begin

text \<open>
  Every operation of the builder succeeds on valid operands. \<open>good b c0 cx\<close> says that \<open>cx\<close> is
  well formed and that it differs from \<open>c0\<close> by declarations and statements appended to the
  current function and by entries added to the stores, in nothing else. \<open>run b c0 m Q\<close> says that
  the operation \<open>m\<close> returns a result with such a context and that both satisfy \<open>Q\<close>. The rules
  in \<open>run_intros\<close> follow the code step by step, so that the proof of an operation is one
  application of them; \<open>grown\<close> bounds the growth of the stores, so that the room for further
  entries is linear arithmetic.
\<close>

section \<open>The judgement\<close>

named_theorems run_intros \<open>symbolic execution rules for the builder operations\<close>

definition grown :: "nat \<Rightarrow> CodegenCx \<Rightarrow> CodegenCx \<Rightarrow> bool" where
  "grown n cx cx' =
     (length (ts_types (cx_types cx)) \<le> length (ts_types (cx_types cx')) \<and>
      length (vs_values (cx_values cx)) \<le> length (vs_values (cx_values cx')) \<and>
      length (ts_types (cx_types cx')) \<le> length (ts_types (cx_types cx)) + n \<and>
      length (vs_values (cx_values cx')) \<le> length (vs_values (cx_values cx)) + n \<and>
      (\<forall>t k. kind_of cx t = Some k \<longrightarrow> kind_of cx' t = Some k) \<and>
      (\<forall>v i. vs_get (cx_values cx) v = Some i \<longrightarrow> vs_get (cx_values cx') v = Some i))"

text \<open>The labels a statement jumps to; straight-line statements have none.\<close>

fun stmt_labels :: "CStmt \<Rightarrow> string list" where
  "stmt_labels (Goto l) = [l]"
| "stmt_labels (CondGoto c t e) = [t, e]"
| "stmt_labels (Switch e cs d) = map snd cs @ [d]"
| "stmt_labels (DoWhile body c) = concat (map stmt_labels body)"
| "stmt_labels _ = []"

definition straight :: "CStmt list \<Rightarrow> bool" where
  "straight ss = (\<forall>s \<in> set ss. stmt_labels s = [])"

definition good :: "Builder \<Rightarrow> CodegenCx \<Rightarrow> CodegenCx \<Rightarrow> bool" where
  "good b cx cx' = (\<exists>ds ss n. straight ss \<and> reach b (appends b ds ss) n cx cx')"

definition run :: "Builder \<Rightarrow> CodegenCx \<Rightarrow> ('a \<times> CodegenCx) option
    \<Rightarrow> ('a \<Rightarrow> CodegenCx \<Rightarrow> bool) \<Rightarrow> bool" where
  "run b cx m Q = (\<exists>x cx'. m = Some (x, cx') \<and> good b cx cx' \<and> Q x cx')"

lemma reach_grown: "reach b g n cx cx' \<Longrightarrow> grown n cx cx'"
  using reach_kind [of b g n cx cx'] reach_get [of b g n cx cx']
  by (auto simp: reach_def keeps_def grown_def dest: ts_le_length vs_le_length)

lemma grown_zero: "grown n cx cx"
  by (simp add: grown_def)

lemma good_wf: "good b c0 cx \<Longrightarrow> cx_wf cx"
  by (auto simp: good_def dest: reach_wf)

lemma good_refl: "cx_wf cx \<Longrightarrow> good b cx cx"
  unfolding good_def using reach_refl [of cx b] appends_nil [of b]
  by (intro exI [of _ "[]"] exI [of _ 0]) (simp add: straight_def)

lemma good_reach:
  assumes "good b c0 cx" "straight ss" "reach b (appends b ds ss) n cx cx'" shows "good b c0 cx'"
proof -
  obtain ds' ss' n' where r: "straight ss'" "reach b (appends b ds' ss') n' c0 cx"
    using assms(1) by (auto simp: good_def)
  from reach_trans [OF r(2) assms(3)] have "reach b (appends b (ds' @ ds) (ss' @ ss)) (n' + n) c0 cx'"
    by simp
  moreover have "straight (ss' @ ss)" using r(1) assms(2) by (auto simp: straight_def)
  ultimately show ?thesis by (auto simp: good_def)
qed

lemma good_id: "good b c0 cx \<Longrightarrow> reach b id n cx cx' \<Longrightarrow> good b c0 cx'"
  using good_reach [of b c0 cx "[]" "[]" n cx'] by (simp add: straight_def)

lemma run_Some [run_intros]: "good b c0 cx \<Longrightarrow> Q x cx \<Longrightarrow> run b c0 (Some (x, cx)) Q"
  by (auto simp: run_def)

lemma run_text [run_intros]:
  assumes "good b c0 cx" "vval cx v"
    "\<And>s. render_value cx v = Some s \<Longrightarrow> run b c0 (f s) Q"
  shows "run b c0 (Option.bind (render_value cx v) f) Q"
  using text_total [OF good_wf [OF assms(1)] assms(2)] assms(3) by auto

lemma run_type [run_intros]:
  assumes "good b c0 cx" "vval cx v"
    "\<And>t. type_of_value cx v = Some t \<Longrightarrow> tval cx t \<Longrightarrow> run b c0 (f t) Q"
  shows "run b c0 (Option.bind (type_of_value cx v) f) Q"
  using type_total [OF good_wf [OF assms(1)] assms(2)] assms(3) by auto

lemma run_kind [run_intros]:
  assumes "good b c0 cx" "tval cx t"
    "\<And>kd. kind_of cx t = Some kd \<Longrightarrow> (\<forall>c \<in> set (kind_refs kd). tval cx c) \<Longrightarrow> run b c0 (f kd) Q"
  shows "run b c0 (Option.bind (kind_of cx t) f) Q"
  using tval_kind [OF assms(2)] assms(3) kind_refs_tval [OF good_wf [OF assms(1)], of t] by force

lemma run_type_text [run_intros]:
  assumes "good b c0 cx" "tval cx t"
    "\<And>s. render_type cx t = Some s \<Longrightarrow> run b c0 (f s) Q"
  shows "run b c0 (Option.bind (render_type cx t) f) Q"
  using type_text_total [OF good_wf [OF assms(1)] assms(2)] assms(3) by auto

lemma run_decl_text [run_intros]:
  assumes "good b c0 cx" "tval cx t"
    "\<And>s. render_type_decl cx t x = Some s \<Longrightarrow> run b c0 (f s) Q"
  shows "run b c0 (Option.bind (render_type_decl cx t x) f) Q"
  using decl_text_total [OF good_wf [OF assms(1)] assms(2), of x] assms(3) by auto

lemma run_intern_type [run_intros]:
  assumes g: "good b c0 cx" "room 1 cx"
    and kd: "kind_ok kd" "\<forall>c \<in> set (kind_refs kd). tval cx c"
    and c: "\<And>t cx'. grown 1 cx cx' \<Longrightarrow> good b c0 cx' \<Longrightarrow> kind_of cx' t = Some kd \<Longrightarrow>
          tval cx' t \<Longrightarrow> cx_values cx' = cx_values cx \<Longrightarrow> run b c0 (f t cx') Q"
  shows "run b c0 (case intern_type kd cx of (t, cx') \<Rightarrow> f t cx') Q"
proof -
  obtain t cx' where i: "intern_type kd cx = (t, cx')" by (cases "intern_type kd cx")
  from intern_type_reach [OF good_wf [OF g(1)] g(2) kd i, of b] show ?thesis
    using i by (auto intro!: c intro: good_id [OF g(1)] dest: reach_grown)
qed

lemma run_new_temp [run_intros]:
  assumes g: "good b c0 cx" "room 1 cx" and t: "tval cx ty"
    and c: "\<And>v cx'. grown 1 cx cx' \<Longrightarrow> good b c0 cx' \<Longrightarrow> vval cx' v \<Longrightarrow>
          type_of_value cx' v = Some ty \<Longrightarrow> run b c0 (f v cx') Q"
  shows "run b c0 (case new_temp ty cx of (v, cx') \<Rightarrow> f v cx') Q"
proof -
  obtain v cx' where i: "new_temp ty cx = (v, cx')" by (cases "new_temp ty cx")
  from new_temp_reach [OF good_wf [OF g(1)] g(2) t i, of b] show ?thesis
    using i by (auto intro!: c intro: good_id [OF g(1)] dest: reach_grown vs_get_valid
        simp: type_of_value_def get_type_def)
qed

lemma run_intern_value [run_intros]:
  assumes g: "good b c0 cx" "room 1 cx" and t: "tval cx ty"
    and kd: "kind_temp kd = None" "\<forall>c \<in> set (value_refs kd). vval cx c"
      "\<forall>c \<in> set (kind_types kd). tval cx c"
    and c: "\<And>v cx'. grown 1 cx cx' \<Longrightarrow> good b c0 cx' \<Longrightarrow> vval cx' v \<Longrightarrow>
          type_of_value cx' v = Some ty \<Longrightarrow> run b c0 (f v cx') Q"
  shows "run b c0 (case intern_value kd ty cx of (v, cx') \<Rightarrow> f v cx') Q"
proof -
  obtain v cx' where i: "intern_value kd ty cx = (v, cx')" by (cases "intern_value kd ty cx")
  from intern_value_reach [OF good_wf [OF g(1)] g(2) t kd i, of b] show ?thesis
    using i by (auto intro!: c intro: good_id [OF g(1)] dest: reach_grown vs_get_valid
        simp: type_of_value_def get_type_def)
qed

lemma run_Some_intern_value [run_intros]:
  "run b c0 (case intern_value kd ty cx of (v, cx') \<Rightarrow> Some (v, cx')) Q \<Longrightarrow>
   run b c0 (Some (intern_value kd ty cx)) Q"
  by (simp add: case_prod_beta)

lemma run_Some_intern_type [run_intros]:
  "run b c0 (case intern_type kd cx of (t, cx') \<Rightarrow> Some (t, cx')) Q \<Longrightarrow>
   run b c0 (Some (intern_type kd cx)) Q"
  by (simp add: case_prod_beta)

lemma run_Some_case_intern_type [run_intros]:
  "run b c0 (case intern_type kd cx of (t, cx') \<Rightarrow> Some (f t cx')) Q \<Longrightarrow>
   run b c0 (Some (case intern_type kd cx of (t, cx') \<Rightarrow> f t cx')) Q"
  by (simp add: case_prod_beta)

lemma good_emit [run_intros]: "good b c0 cx \<Longrightarrow> stmt_labels s = [] \<Longrightarrow> good b c0 (emit b s cx)"
  using good_reach [of b c0 cx "[s]" "[]" 0] reach_emit [OF good_wf] by (simp add: straight_def)

lemma good_local_decl [run_intros]: "good b c0 cx \<Longrightarrow> good b c0 (local_decl b d cx)"
  using good_reach [of b c0 cx "[]" "[d]" 0] reach_local_decl [OF good_wf] by (simp add: straight_def)

lemma emit_simps [cx_simps]:
  "cx_types (emit b s cx) = cx_types cx" "cx_values (emit b s cx) = cx_values cx"
  "fmt_f64 (emit b s cx) = fmt_f64 cx" "pointer_bits (emit b s cx) = pointer_bits cx"
  "cx_types (local_decl b d cx) = cx_types cx" "cx_values (local_decl b d cx) = cx_values cx"
  "fmt_f64 (local_decl b d cx) = fmt_f64 cx" "pointer_bits (local_decl b d cx) = pointer_bits cx"
  by (simp_all add: emit_def local_decl_def with_current_fn_def Let_def)

lemma query_simps [cx_simps]:
  "type_of_value (emit b s cx) = type_of_value cx" "kind_of (emit b s cx) = kind_of cx"
  "render_value (emit b s cx) = render_value cx" "render_type (emit b s cx) = render_type cx"
  "grown n (emit b s cx) = grown n cx" "grown n cx (emit b s cx') = grown n cx cx'"
  "room n (emit b s cx) = room n cx"
  "type_of_value (local_decl b d cx) = type_of_value cx" "kind_of (local_decl b d cx) = kind_of cx"
  "render_value (local_decl b d cx) = render_value cx"
  "render_type (local_decl b d cx) = render_type cx"
  "grown n (local_decl b d cx) = grown n cx" "grown n cx (local_decl b d cx') = grown n cx cx'"
  "room n (local_decl b d cx) = room n cx"
  by (simp_all add: cx_simps type_of_value_def fun_eq_iff kind_of_def render_value_def
      render_type_def grown_def room_def)

section \<open>Control structure\<close>

lemma run_bind [run_intros]:
  "run b c0 m (\<lambda>x cx'. run b c0 (f x cx') Q) \<Longrightarrow>
   run b c0 (Option.bind m (\<lambda>(x, cx'). f x cx')) Q"
  by (auto simp: run_def)

lemma run_if [run_intros]:
  "(c \<Longrightarrow> run b c0 x Q) \<Longrightarrow> (\<not> c \<Longrightarrow> run b c0 y Q) \<Longrightarrow> run b c0 (if c then x else y) Q"
  by simp

lemma run_option [run_intros]:
  "(u = None \<Longrightarrow> run b c0 x Q) \<Longrightarrow> (\<And>t. u = Some t \<Longrightarrow> run b c0 (f t) Q) \<Longrightarrow>
   run b c0 (case u of None \<Rightarrow> x | Some t \<Rightarrow> f t) Q"
  by (cases u) auto

lemma run_sum [run_intros]:
  "(\<And>x. u = Inl x \<Longrightarrow> run b c0 (f x) Q) \<Longrightarrow> (\<And>y. u = Inr y \<Longrightarrow> run b c0 (g y) Q) \<Longrightarrow>
   run b c0 (case u of Inl x \<Rightarrow> f x | Inr y \<Rightarrow> g y) Q"
  by (cases u) auto

lemma run_kind_case [run_intros]:
  assumes "kd = TVoid \<Longrightarrow> run b c0 f1 Q" "kd = TBool \<Longrightarrow> run b c0 f2 Q"
    "\<And>n s. kd = TInt n s \<Longrightarrow> run b c0 (f3 n s) Q" "\<And>n. kd = TFloat n \<Longrightarrow> run b c0 (f4 n) Q"
    "kd = TPtr \<Longrightarrow> run b c0 f5 Q" "\<And>e n. kd = TArray e n \<Longrightarrow> run b c0 (f6 e n) Q"
    "\<And>fs p n. kd = TStruct fs p n \<Longrightarrow> run b c0 (f7 fs p n) Q"
    "\<And>r as v. kd = TFunction r as v \<Longrightarrow> run b c0 (f8 r as v) Q"
    "\<And>e n. kd = TVector e n \<Longrightarrow> run b c0 (f9 e n) Q"
    "\<And>s. kd = TPtrWidth s \<Longrightarrow> run b c0 (f10 s) Q"
  shows "run b c0 (case_CTypeKind f1 f2 f3 f4 f5 f6 f7 f8 f9 f10 kd) Q"
  using assms by (cases kd) auto

lemma run_idx [run_intros]:
  "i < length xs \<Longrightarrow> run b c0 (f (xs ! i)) Q \<Longrightarrow> run b c0 (Option.bind (idx xs i) f) Q"
  by simp

lemma run_mono:
  "run b c0 m P \<Longrightarrow> (\<And>x cx'. good b c0 cx' \<Longrightarrow> P x cx' \<Longrightarrow> Q x cx') \<Longrightarrow> run b c0 m Q"
  by (auto simp: run_def)

text \<open>An operation without a result, as one that returns the unit value.\<close>

abbreviation unit_op :: "CodegenCx option \<Rightarrow> (unit \<times> CodegenCx) option" where
  "unit_op m \<equiv> map_option (Pair ()) m"

lemma run_unit_Some [run_intros]:
  "good b c0 cx \<Longrightarrow> Q () cx \<Longrightarrow> run b c0 (unit_op (Some cx)) Q"
  by (auto simp: run_def)

lemma run_unit_bind [run_intros]:
  "run b c0 (Option.bind m (\<lambda>x. unit_op (f x))) Q \<Longrightarrow> run b c0 (unit_op (Option.bind m f)) Q"
  by (cases m) auto

lemma run_unit_if [run_intros]:
  "run b c0 (if c then unit_op x else unit_op y) Q \<Longrightarrow> run b c0 (unit_op (if c then x else y)) Q"
  by (cases c) auto

lemma run_unit_new_temp [run_intros]:
  "run b c0 (case new_temp ty cx of (v, cx') \<Rightarrow> unit_op (f v cx')) Q \<Longrightarrow>
   run b c0 (unit_op (case new_temp ty cx of (v, cx') \<Rightarrow> f v cx')) Q"
  by (simp add: case_prod_beta)

lemma run_bind_unit [run_intros]:
  fixes m :: "CodegenCx option"
  shows "run b c0 (unit_op m) (\<lambda>_ cx'. run b c0 (f cx') Q) \<Longrightarrow> run b c0 (Option.bind m f) Q"
  by (auto simp: run_def)

text \<open>What is left after the rules have been applied.\<close>

lemmas run_simps = cx_simps grown_def room_def good_emit good_local_decl

section \<open>The helpers\<close>

lemma run_new_temp_with_stmt [run_intros]:
  assumes "good b c0 cx" "room 1 cx" "tval cx ty"
    "\<And>v cx'. grown 1 cx cx' \<Longrightarrow> good b c0 cx' \<Longrightarrow> vval cx' v \<Longrightarrow> type_of_value cx' v = Some ty \<Longrightarrow> Q v cx'"
  shows "run b c0 (new_temp_with_stmt b ty e cx) Q"
  unfolding new_temp_with_stmt_def Let_def
  by (intro run_intros assms(4); use assms in \<open>simp add: run_simps\<close>)

lemma run_binop [run_intros]:
  assumes "good b c0 cx" "room 1 cx" "vval cx lhs" "vval cx rhs"
    "\<And>v cx'. grown 1 cx cx' \<Longrightarrow> good b c0 cx' \<Longrightarrow> vval cx' v \<Longrightarrow> Q v cx'"
  shows "run b c0 (binop b op lhs rhs cx) Q"
  unfolding binop_def
  by (intro run_intros assms(5); use assms in \<open>simp add: run_simps\<close>)

lemma run_cast [run_intros]:
  assumes "good b c0 cx" "room 1 cx" "vval cx x" "tval cx ty"
    "\<And>v cx'. grown 1 cx cx' \<Longrightarrow> good b c0 cx' \<Longrightarrow> vval cx' v \<Longrightarrow> Q v cx'"
  shows "run b c0 (cast_op b x ty cx) Q"
  unfolding cast_op_def
  by (intro run_intros assms(5); use assms in \<open>simp add: run_simps\<close>)

lemma run_coerce_ptr_int [run_intros]:
  assumes "good b c0 cx" "room 1 cx" "vval cx x" "tval cx ty"
    "\<And>v cx'. grown 1 cx cx' \<Longrightarrow> good b c0 cx' \<Longrightarrow> vval cx' v \<Longrightarrow> Q v cx'"
  shows "run b c0 (coerce_ptr_int b x ty cx) Q"
  unfolding coerce_ptr_int_def
  by (intro run_intros assms(5); use assms in \<open>simp add: run_simps\<close>)

lemma run_unsigned_type [run_intros]:
  assumes "good b c0 cx" "room 1 cx" "tval cx ty"
    "\<And>v cx'. grown 1 cx cx' \<Longrightarrow> good b c0 cx' \<Longrightarrow> (\<And>t. v = Some t \<Longrightarrow> tval cx' t) \<Longrightarrow> cx_values cx' = cx_values cx \<Longrightarrow> Q v cx'"
  shows "run b c0 (unsigned_type ty cx) Q"
proof -
  have pass: "run b c0 (Some (map_prod Some id (intern_type uk cx))) Q"
    if "kind_ok uk" "kind_refs uk = []" for uk
  proof -
    have "run b c0 (case intern_type uk cx of (t, cx') \<Rightarrow> Some (Some t, cx')) Q"
      by (intro run_intros assms(4); use assms that in \<open>simp add: run_simps\<close>)
    then show ?thesis by (simp add: case_prod_beta map_prod_def)
  qed
  have none: "run b c0 (Some (None, cx)) Q"
    by (intro run_intros assms(4); use assms in \<open>simp add: run_simps\<close>)
  show ?thesis
    unfolding unsigned_type_def
    by (intro run_intros; use assms pass none in \<open>simp split: CTypeKind.split bool.split\<close>)
qed

lemma run_unsigned_binop [run_intros]:
  assumes "good b c0 cx" "room 2 cx" "vval cx lhs" "vval cx rhs"
    "\<And>v cx'. grown 2 cx cx' \<Longrightarrow> good b c0 cx' \<Longrightarrow> vval cx' v \<Longrightarrow> Q v cx'"
  shows "run b c0 (unsigned_binop b op lhs rhs cx) Q"
  unfolding unsigned_binop_def
  by (intro run_intros assms(5); use assms in \<open>simp add: run_simps\<close>)

section \<open>Arithmetic\<close>

lemma run_frem [run_intros]:
  assumes "good b c0 cx" "room 1 cx" "vval cx lhs" "vval cx rhs"
    "\<And>v cx'. grown 1 cx cx' \<Longrightarrow> good b c0 cx' \<Longrightarrow> vval cx' v \<Longrightarrow> Q v cx'"
  shows "run b c0 (op_frem b lhs rhs cx) Q"
  unfolding op_frem_def
  by (intro run_intros assms(5); use assms in \<open>simp add: run_simps\<close>)

lemma run_shl [run_intros]:
  assumes "good b c0 cx" "room 1 cx" "vval cx lhs" "vval cx rhs"
    "\<And>v cx'. grown 1 cx cx' \<Longrightarrow> good b c0 cx' \<Longrightarrow> vval cx' v \<Longrightarrow> Q v cx'"
  shows "run b c0 (op_shl b lhs rhs cx) Q"
  unfolding op_shl_def
  by (intro run_intros assms(5); use assms in \<open>simp add: run_simps\<close>)

lemma run_lshr [run_intros]:
  assumes "good b c0 cx" "room 2 cx" "vval cx lhs" "vval cx rhs"
    "\<And>v cx'. grown 2 cx cx' \<Longrightarrow> good b c0 cx' \<Longrightarrow> vval cx' v \<Longrightarrow> Q v cx'"
  shows "run b c0 (op_lshr b lhs rhs cx) Q"
  unfolding op_lshr_def
  by (intro run_intros assms(5); use assms in \<open>simp add: run_simps\<close>)

lemma run_ashr [run_intros]:
  assumes "good b c0 cx" "room 1 cx" "vval cx lhs" "vval cx rhs"
    "\<And>v cx'. grown 1 cx cx' \<Longrightarrow> good b c0 cx' \<Longrightarrow> vval cx' v \<Longrightarrow> Q v cx'"
  shows "run b c0 (op_ashr b lhs rhs cx) Q"
  unfolding op_ashr_def
  by (intro run_intros assms(5); use assms in \<open>simp add: run_simps\<close>)

lemma run_neg [run_intros]:
  assumes "good b c0 cx" "room 1 cx" "vval cx x"
    "\<And>v cx'. grown 1 cx cx' \<Longrightarrow> good b c0 cx' \<Longrightarrow> vval cx' v \<Longrightarrow> Q v cx'"
  shows "run b c0 (op_neg b x cx) Q"
  unfolding op_neg_def
  by (intro run_intros assms(4); use assms in \<open>simp add: run_simps\<close>)

lemma run_not [run_intros]:
  assumes "good b c0 cx" "room 1 cx" "vval cx x"
    "\<And>v cx'. grown 1 cx cx' \<Longrightarrow> good b c0 cx' \<Longrightarrow> vval cx' v \<Longrightarrow> Q v cx'"
  shows "run b c0 (op_not b x cx) Q"
  unfolding op_not_def
  by (intro run_intros assms(4); use assms in \<open>simp add: run_simps\<close>)

lemma run_checked_binop [run_intros]:
  assumes "good b c0 cx" "room 3 cx" "vval cx lhs" "vval cx rhs"
    "\<And>v cx'. grown 3 cx cx' \<Longrightarrow> good b c0 cx' \<Longrightarrow> vval cx' (fst v) \<Longrightarrow> vval cx' (snd v) \<Longrightarrow> Q v cx'"
  shows "run b c0 (checked_binop b oop lhs rhs cx) Q"
  unfolding checked_binop_def Let_def
  by (intro run_intros assms(5); use assms in \<open>simp add: run_simps\<close>)

section \<open>Memory\<close>

lemma run_from_immediate [run_intros]:
  assumes "good b c0 cx" "room 2 cx" "vval cx x"
    "\<And>v cx'. grown 2 cx cx' \<Longrightarrow> good b c0 cx' \<Longrightarrow> vval cx' v \<Longrightarrow> Q v cx'"
  shows "run b c0 (from_immediate b x cx) Q"
  unfolding from_immediate_def Let_def
  by (intro run_intros assms(4); use assms in \<open>simp add: run_simps\<close>)

lemma run_alloca [run_intros]:
  assumes "good b c0 cx" "room 4 cx"
    "\<And>v cx'. grown 4 cx cx' \<Longrightarrow> good b c0 cx' \<Longrightarrow> vval cx' v \<Longrightarrow> Q v cx'"
  shows "run b c0 (alloca b i n cx) Q"
  unfolding alloca_def Let_def type_ptr_def
  by (intro run_intros assms(3); use assms in \<open>simp add: run_simps\<close>)

lemma run_load [run_intros]:
  assumes "good b c0 cx" "room 1 cx" "vval cx ptr" "tval cx ty"
    "\<And>v cx'. grown 1 cx cx' \<Longrightarrow> good b c0 cx' \<Longrightarrow> vval cx' v \<Longrightarrow> Q v cx'"
  shows "run b c0 (op_load b ty ptr cx) Q"
  unfolding op_load_def Let_def declare_var_def
  by (intro run_intros assms(5); use assms in \<open>simp add: run_simps\<close>)

lemma run_volatile_load [run_intros]:
  assumes "good b c0 cx" "room 1 cx" "vval cx ptr" "tval cx ty"
    "\<And>v cx'. grown 1 cx cx' \<Longrightarrow> good b c0 cx' \<Longrightarrow> vval cx' v \<Longrightarrow> Q v cx'"
  shows "run b c0 (volatile_load b ty ptr cx) Q"
  unfolding volatile_load_def Let_def declare_var_def
  by (intro run_intros assms(5); use assms in \<open>simp add: run_simps\<close>)

lemma run_atomic_load [run_intros]:
  assumes "good b c0 cx" "room 1 cx" "vval cx ptr" "tval cx ty"
    "\<And>v cx'. grown 1 cx cx' \<Longrightarrow> good b c0 cx' \<Longrightarrow> vval cx' v \<Longrightarrow> Q v cx'"
  shows "run b c0 (op_atomic_load b ty ptr ord n cx) Q"
  unfolding op_atomic_load_def
  by (intro run_intros assms(5); use assms in \<open>simp add: run_simps\<close>)

lemma run_store [run_intros]:
  assumes "good b c0 cx" "room 1 cx" "vval cx x" "vval cx ptr"
    "\<And>v cx'. grown 1 cx cx' \<Longrightarrow> good b c0 cx' \<Longrightarrow> vval cx' v \<Longrightarrow> Q v cx'"
  shows "run b c0 (op_store b x ptr cx) Q"
  unfolding op_store_def Let_def declare_var_def
  by (intro run_intros assms(5); use assms in \<open>simp add: run_simps\<close>)

lemma run_gep [run_intros]:
  assumes "good b c0 cx" "room 2 cx" "vval cx ptr" "tval cx ty" "ixs \<noteq> []" "\<forall>i \<in> set ixs. vval cx i"
    "\<And>v cx'. grown 2 cx cx' \<Longrightarrow> good b c0 cx' \<Longrightarrow> vval cx' v \<Longrightarrow> Q v cx'"
  shows "run b c0 (op_gep b ty ptr ixs cx) Q"
  unfolding op_gep_def Let_def type_ptr_def
  by (intro run_intros assms(7); use assms in \<open>simp add: run_simps\<close>)

lemma run_atomic_store [run_intros]:
  assumes "good b c0 cx" "room 1 cx" "vval cx x" "vval cx ptr"
    "\<And>v cx'. grown 1 cx cx' \<Longrightarrow> good b c0 cx' \<Longrightarrow> Q v cx'"
  shows "run b c0 (unit_op (op_atomic_store b x ptr ord n cx)) Q"
  unfolding op_atomic_store_def Let_def declare_var_def
  by (intro run_intros assms(5); use assms in \<open>simp add: run_simps\<close>)

lemma run_call_three [run_intros]:
  assumes "good b c0 cx" "vval cx x" "vval cx y" "vval cx z"
    "\<And>v cx'. grown 0 cx cx' \<Longrightarrow> good b c0 cx' \<Longrightarrow> Q v cx'"
  shows "run b c0 (unit_op (call_three f b x y z cx)) Q"
  unfolding call_three_def
  by (intro run_intros assms(5); use assms in \<open>simp add: run_simps\<close>)

section \<open>Conversions and comparisons\<close>

lemma run_fptoui [run_intros]:
  assumes "good b c0 cx" "room 2 cx" "vval cx x" "tval cx ty"
    "\<And>v cx'. grown 2 cx cx' \<Longrightarrow> good b c0 cx' \<Longrightarrow> vval cx' v \<Longrightarrow> Q v cx'"
  shows "run b c0 (op_fptoui b x ty cx) Q"
  unfolding op_fptoui_def
  by (intro run_intros assms(5); use assms in \<open>simp add: run_simps\<close>)

lemma run_uitofp [run_intros]:
  assumes "good b c0 cx" "room 2 cx" "vval cx x" "tval cx ty"
    "\<And>v cx'. grown 2 cx cx' \<Longrightarrow> good b c0 cx' \<Longrightarrow> vval cx' v \<Longrightarrow> Q v cx'"
  shows "run b c0 (op_uitofp b x ty cx) Q"
  unfolding op_uitofp_def
  by (intro run_intros assms(5); use assms in \<open>simp add: run_simps\<close>)

lemma run_zext [run_intros]:
  assumes "good b c0 cx" "room 2 cx" "vval cx x" "tval cx ty"
    "\<And>v cx'. grown 2 cx cx' \<Longrightarrow> good b c0 cx' \<Longrightarrow> vval cx' v \<Longrightarrow> Q v cx'"
  shows "run b c0 (op_zext b x ty cx) Q"
  unfolding op_zext_def
  by (intro run_intros assms(5); use assms in \<open>simp add: run_simps\<close>)

lemma run_fptoui_sat [run_intros]:
  assumes "good b c0 cx" "room 1 cx" "vval cx x" "tval cx ty"
    "\<And>v cx'. grown 1 cx cx' \<Longrightarrow> good b c0 cx' \<Longrightarrow> vval cx' v \<Longrightarrow> Q v cx'"
  shows "run b c0 (op_fptoui_sat b x ty cx) Q"
  unfolding op_fptoui_sat_def
  by (intro run_intros assms(5); use assms in \<open>simp add: run_simps\<close>)

lemma run_fptosi_sat [run_intros]:
  assumes "good b c0 cx" "room 1 cx" "vval cx x" "tval cx ty"
    "\<And>v cx'. grown 1 cx cx' \<Longrightarrow> good b c0 cx' \<Longrightarrow> vval cx' v \<Longrightarrow> Q v cx'"
  shows "run b c0 (op_fptosi_sat b x ty cx) Q"
  unfolding op_fptosi_sat_def case_prod_beta
  by (intro run_intros assms(5); use assms in \<open>simp add: run_simps\<close>)

lemma run_bitcast [run_intros]:
  assumes "good b c0 cx" "room 2 cx" "vval cx x" "tval cx ty"
    "\<And>v cx'. grown 2 cx cx' \<Longrightarrow> good b c0 cx' \<Longrightarrow> vval cx' v \<Longrightarrow> Q v cx'"
  shows "run b c0 (op_bitcast b x ty cx) Q"
  unfolding op_bitcast_def Let_def declare_var_def
  by (intro run_intros assms(5); use assms in \<open>simp add: run_simps\<close>)

lemma run_signed_type_of [run_intros]:
  assumes "good b c0 cx" "room 1 cx" "tval cx t"
    "\<And>u cx'. grown 1 cx cx' \<Longrightarrow> good b c0 cx' \<Longrightarrow> tval cx' u \<Longrightarrow> run b c0 (f u cx') Q"
  shows "run b c0 (case signed_type_of kd t cx of (u, cx') \<Rightarrow> f u cx') Q"
proof -
  have same: "run b c0 (f t cx) Q"
    using assms by (auto simp: grown_def)
  have interned: "run b c0 (case intern_type uk cx of (u, cx') \<Rightarrow> f u cx') Q"
    if "kind_ok uk" "kind_refs uk = []" for uk
    by (intro run_intros assms(4); use assms that in \<open>simp add: run_simps\<close>)
  show ?thesis using same interned by (cases kd) (auto simp: signed_type_of_def)
qed

lemma run_intcast [run_intros]:
  assumes "good b c0 cx" "room 2 cx" "vval cx x" "tval cx ty"
    "\<And>v cx'. grown 2 cx cx' \<Longrightarrow> good b c0 cx' \<Longrightarrow> vval cx' v \<Longrightarrow> Q v cx'"
  shows "run b c0 (op_intcast b x ty s cx) Q"
  unfolding op_intcast_def Let_def
  by (intro run_intros assms(5); use assms in \<open>simp add: run_simps\<close>)

lemma run_select [run_intros]:
  assumes "good b c0 cx" "room 1 cx" "vval cx c" "vval cx x" "vval cx y"
    "\<And>v cx'. grown 1 cx cx' \<Longrightarrow> good b c0 cx' \<Longrightarrow> vval cx' v \<Longrightarrow> Q v cx'"
  shows "run b c0 (op_select b c x y cx) Q"
  unfolding op_select_def
  by (intro run_intros assms(6); use assms in \<open>simp add: run_simps\<close>)

lemma icmp_cast_kind_ok:
  assumes "icmp_cast_kind p kl kr = Some kd" shows "kind_ok kd" "kind_refs kd = []"
  using assms by (auto simp: icmp_cast_kind_def Let_def split: if_splits)

lemma run_icmp [run_intros]:
  assumes "good b c0 cx" "room 3 cx" "vval cx x" "vval cx y"
    "\<And>v cx'. grown 3 cx cx' \<Longrightarrow> good b c0 cx' \<Longrightarrow> vval cx' v \<Longrightarrow> Q v cx'"
  shows "run b c0 (op_icmp b p x y cx) Q"
  unfolding op_icmp_def Let_def
  by (intro run_intros assms(5); use assms in \<open>simp add: run_simps icmp_cast_kind_ok\<close>)

lemma run_fcmp [run_intros]:
  assumes "good b c0 cx" "room 3 cx" "vval cx x" "vval cx y"
    "\<And>v cx'. grown 3 cx cx' \<Longrightarrow> good b c0 cx' \<Longrightarrow> vval cx' v \<Longrightarrow> Q v cx'"
  shows "run b c0 (op_fcmp b p x y cx) Q"
  unfolding op_fcmp_def Let_def const_bool_def
  by (intro run_intros assms(5); use assms in \<open>simp add: run_simps\<close>)

section \<open>Aggregates, exceptions and atomics\<close>

lemma run_va_arg [run_intros]:
  assumes "good b c0 cx" "room 1 cx" "vval cx x" "tval cx ty"
    "\<And>v cx'. grown 1 cx cx' \<Longrightarrow> good b c0 cx' \<Longrightarrow> vval cx' v \<Longrightarrow> Q v cx'"
  shows "run b c0 (op_va_arg b x ty cx) Q"
  unfolding op_va_arg_def
  by (intro run_intros assms(5); use assms in \<open>simp add: run_simps\<close>)

lemma run_vector_splat [run_intros]:
  assumes "good b c0 cx" "room 2 cx" "vval cx x"
    "\<And>v cx'. grown 2 cx cx' \<Longrightarrow> good b c0 cx' \<Longrightarrow> vval cx' v \<Longrightarrow> Q v cx'"
  shows "run b c0 (op_vector_splat b n x cx) Q"
  unfolding op_vector_splat_def Let_def
  by (intro run_intros assms(4); use assms in \<open>simp add: run_simps\<close>)

lemma run_cmpxchg [run_intros]:
  assumes "good b c0 cx" "room 3 cx" "vval cx d" "vval cx c" "vval cx x"
    "\<And>v cx'. grown 3 cx cx' \<Longrightarrow> good b c0 cx' \<Longrightarrow> vval cx' (fst v) \<Longrightarrow> vval cx' (snd v) \<Longrightarrow> Q v cx'"
  shows "run b c0 (op_atomic_cmpxchg b d c x o1 o2 w cx) Q"
  unfolding op_atomic_cmpxchg_def Let_def
  by (intro run_intros assms(6); use assms in \<open>simp add: run_simps\<close>)

lemma run_umin_umax [run_intros]:
  assumes "good b c0 cx" "room 1 cx" "tval cx ty"
    "\<And>v cx'. grown 1 cx cx' \<Longrightarrow> good b c0 cx' \<Longrightarrow> Q v cx'"
  shows "run b c0 (umin_umax c ty t l x cx) Q"
  unfolding umin_umax_def
  by (intro run_intros assms(4); use assms in \<open>simp add: run_simps\<close>)

lemma run_vs_get [run_intros]:
  assumes "vval cx v" "\<And>i. vs_get (cx_values cx) v = Some i \<Longrightarrow> run b c0 (f i) Q"
  shows "run b c0 (Option.bind (vs_get (cx_values cx) v) f) Q"
  using vs_valid_get [OF assms(1)] assms(2) by auto

lemma run_rmw_min_max [run_intros]:
  assumes "good b c0 cx" "room 1 cx" "tval cx ty" "op \<in> {AtomicMin, AtomicMax, AtomicUMin, AtomicUMax}"
    "\<And>v cx'. grown 1 cx cx' \<Longrightarrow> good b c0 cx' \<Longrightarrow> Q v cx'"
  shows "run b c0 (rmw_min_max op ty t l x cx) Q"
proof -
  have "run b c0 (Some (plain_min_max c l x, cx)) Q" for c
    by (intro run_intros assms(5); use assms in \<open>simp add: run_simps\<close>)
  moreover have "run b c0 (umin_umax c ty t l x cx) Q" for c
    by (intro run_intros assms(5); use assms in \<open>simp add: run_simps\<close>)
  ultimately show ?thesis using assms(4) by (auto simp: rmw_min_max_def)
qed

lemma run_atomic_rmw [run_intros]:
  assumes "good b c0 cx" "room 3 cx" "vval cx d" "vval cx x"
    "\<And>v cx'. grown 3 cx cx' \<Longrightarrow> good b c0 cx' \<Longrightarrow> vval cx' v \<Longrightarrow> Q v cx'"
  shows "run b c0 (op_atomic_rmw b op d x ord rp cx) Q"
proof -
  have "op \<in> {AtomicMin, AtomicMax, AtomicUMin, AtomicUMax}"
    if "atomic_fetch_name op = None" "op \<noteq> AtomicNand"
    using that by (cases op) auto
  then show ?thesis
    unfolding op_atomic_rmw_def Let_def declare_var_def rmw_loop_def
    by (intro run_intros assms(5); use assms in \<open>simp add: run_simps\<close>)
qed

lemma run_Some_value [run_intros]:
  "run b c0 (f x) Q \<Longrightarrow> run b c0 (Option.bind (Some x) f) Q"
  by simp

lemma run_extract_element [run_intros]:
  assumes "good b c0 cx" "room 1 cx" "vval cx x" "vval cx i"
    "\<exists>t k. type_of_value cx x = Some t \<and> kind_of cx t = Some k \<and> (\<exists>e n. k = TArray e n \<or> k = TVector e n)"
    "\<And>v cx'. grown 1 cx cx' \<Longrightarrow> good b c0 cx' \<Longrightarrow> vval cx' v \<Longrightarrow> Q v cx'"
  shows "run b c0 (op_extract_element b x i cx) Q"
proof -
  from assms(5) obtain t k e n where k: "type_of_value cx x = Some t" "kind_of cx t = Some k"
    "k = TArray e n \<or> k = TVector e n" by blast
  then have e: "element_type cx t = Some e" "tval cx e"
    using kind_refs_tval [OF good_wf [OF assms(1)] k(2), of e] by (auto simp: element_type_def)
  have "run b c0 (do { v \<leftarrow> render_value cx x; i \<leftarrow> render_value cx i;
      new_temp_with_stmt b e (Index (Var v) (Var i)) cx }) Q"
    by (intro run_intros assms(6); use assms e in \<open>simp add: run_simps\<close>)
  then show ?thesis by (simp add: op_extract_element_def k e)
qed

text \<open>Field \<open>i\<close> of a value exists, or the value is no struct.\<close>

definition field_in_range :: "CodegenCx \<Rightarrow> ValueRef \<Rightarrow> nat \<Rightarrow> bool" where
  "field_in_range cx x i =
     (\<exists>t k. type_of_value cx x = Some t \<and> kind_of cx t = Some k \<and>
        (\<forall>fs p n. k = TStruct fs p n \<longrightarrow> i < length fs))"

lemma run_field_type [run_intros]:
  assumes "good b c0 cx" "\<forall>c \<in> set (kind_refs kd). tval cx c"
    "\<forall>fs p n. kd = TStruct fs p n \<longrightarrow> i < length fs"
    "\<And>u. (\<And>t. u = Some t \<Longrightarrow> tval cx t) \<Longrightarrow> run b c0 (f u) Q"
  shows "run b c0 (Option.bind (struct_field_type kd i) f) Q"
proof (cases "struct_field_type kd i")
  case None
  then show ?thesis using assms(3) by (cases kd) (auto simp: struct_field_type_def)
next
  case (Some u)
  then have "tval cx t" if "u = Some t" for t
    using assms(2,3) that by (cases kd) (auto simp: struct_field_type_def)
  then show ?thesis using Some assms(4) by simp
qed

lemma run_extract_value [run_intros]:
  assumes "good b c0 cx" "room 1 cx" "field_in_range cx x i"
    "\<And>v cx'. grown 1 cx cx' \<Longrightarrow> good b c0 cx' \<Longrightarrow> vval cx' v \<Longrightarrow> Q v cx'"
  shows "run b c0 (op_extract_value b x i cx) Q"
proof -
  from assms(3) obtain t k where k: "type_of_value cx x = Some t" "kind_of cx t = Some k"
    "\<forall>fs p n. k = TStruct fs p n \<longrightarrow> i < length fs" by (auto simp: field_in_range_def)
  note wf = good_wf [OF assms(1)]
  have refs: "\<forall>c \<in> set (kind_refs k). tval cx c" using kind_refs_tval [OF wf k(2)] by blast
  have "run b c0 (do { ft \<leftarrow> struct_field_type k i; v \<leftarrow> render_value cx x;
      new_temp_with_stmt b (case ft of Some u \<Rightarrow> u | None \<Rightarrow> t) (Field (Var v) (field_name i)) cx }) Q"
    using refs type_tval [OF wf k(1)] type_vval [OF k(1)]
    by (intro run_intros assms(4); use assms k in \<open>auto simp: run_simps split: option.splits\<close>)
  then show ?thesis by (simp add: op_extract_value_def k(1,2))
qed

lemma run_insert_value [run_intros]:
  assumes "good b c0 cx" "room 2 cx" "field_in_range cx x i" "vval cx y"
    "\<And>v cx'. grown 2 cx cx' \<Longrightarrow> good b c0 cx' \<Longrightarrow> vval cx' v \<Longrightarrow> Q v cx'"
  shows "run b c0 (op_insert_value b x y i cx) Q"
proof -
  from assms(3) obtain t k where k: "type_of_value cx x = Some t" "kind_of cx t = Some k"
    "\<forall>fs p n. k = TStruct fs p n \<longrightarrow> i < length fs" by (auto simp: field_in_range_def)
  note wf = good_wf [OF assms(1)]
  have refs: "\<forall>c \<in> set (kind_refs k). tval cx c" using kind_refs_tval [OF wf k(2)] by blast
  have "run b c0 (do { t \<leftarrow> Some t; k \<leftarrow> Some k; field_ty \<leftarrow> struct_field_type k i;
      (elt, cx) \<leftarrow> (case field_ty of Some ft \<Rightarrow> coerce_ptr_int b y ft cx | None \<Rightarrow> Some (y, cx));
      let (result, cx) = new_temp t cx;
      result_name \<leftarrow> render_value cx result;
      e \<leftarrow> render_value cx elt;
      ty \<leftarrow> render_type cx t;
      let cx = declare_var b ty result_name cx;
      info \<leftarrow> vs_get (cx_values cx) x;
      cx \<leftarrow> (if v_kind info = Undef \<or> v_kind info = Poison then
            Some (emit b (Expr (Call (Var ''memset'')
                    [AddrOf (Var result_name), Lit ''0'', Sizeof (Var result_name)])) cx)
          else do { agg \<leftarrow> render_value cx x;
                    Some (emit b (Assign (Var result_name) (Var agg)) cx) });
      let cx = emit b (Assign (Field (Var result_name) (field_name i)) (Var e)) cx;
      Some (result, cx) }) Q"
    unfolding Let_def declare_var_def
    using refs type_tval [OF wf k(1)] type_vval [OF k(1)]
    by (intro run_intros assms(5); use assms k in \<open>simp add: run_simps\<close>)
  then show ?thesis by (simp add: op_insert_value_def k(1,2))
qed

section \<open>Layouts\<close>

text \<open>Float scalars have one of the widths C has; fields that are asked for exist.\<close>

definition scalar_ok :: "Scalar \<Rightarrow> bool" where
  "scalar_ok s = (case sc_primitive s of PFloat bits \<Rightarrow> bits \<in> {16, 32, 64, 128} | _ \<Rightarrow> True)"

definition pair_fields_ok :: "Layout \<Rightarrow> bool" where
  "pair_fields_ok l = (l_single_variant l \<longrightarrow> (\<forall>i < l_field_count l. l_field l i \<noteq> None))"

definition layout_ok :: "Layout \<Rightarrow> bool" where
  "layout_ok l =
     (case l_repr l of BScalar s \<Rightarrow> scalar_ok s
      | BScalarPair x y \<Rightarrow> scalar_ok x \<and> scalar_ok y \<and> pair_fields_ok l
      | BSimdVector e n \<Rightarrow> scalar_ok e | BMemory \<Rightarrow> True)"

definition scalar_kind :: "Scalar \<Rightarrow> CTypeKind" where
  "scalar_kind s =
     (if sc_is_bool s then TBool
      else case sc_primitive s of
        PInt bytes signed \<Rightarrow> TInt (c_bits (as_u32 (8 * bytes))) signed
      | PFloat bits \<Rightarrow> TFloat (as_u32 bits) | PPointer \<Rightarrow> TPtr)"

lemma scalar_to_c_type_kind: "scalar_to_c_type s cx = intern_type (scalar_kind s) cx"
  by (simp add: scalar_to_c_type_def scalar_kind_def split: Primitive.split)

lemma scalar_kind_ok: "scalar_ok s \<Longrightarrow> kind_ok (scalar_kind s)" "kind_refs (scalar_kind s) = []"
  by (auto simp: scalar_kind_def scalar_ok_def split: Primitive.splits)

lemma run_to_immediate_scalar [run_intros]:
  assumes "good b c0 cx" "room 2 cx" "vval cx x" "scalar_ok s"
    "\<And>v cx'. grown 2 cx cx' \<Longrightarrow> good b c0 cx' \<Longrightarrow> vval cx' v \<Longrightarrow> Q v cx'"
  shows "run b c0 (to_immediate_scalar b x s cx) Q"
  unfolding to_immediate_scalar_def scalar_to_c_type_kind Let_def
  by (intro run_intros assms(5); use assms in \<open>simp add: run_simps scalar_kind_ok\<close>)

definition field_kind :: "Scalar \<Rightarrow> TyClass \<Rightarrow> CTypeKind" where
  "field_kind s c = (case c of TyUsize \<Rightarrow> TPtrWidth False | TyIsize \<Rightarrow> TPtrWidth True
                     | TyOther \<Rightarrow> scalar_kind s)"

lemma field_kind_ok: "scalar_ok s \<Longrightarrow> kind_ok (field_kind s c)" "kind_refs (field_kind s c) = []"
  using scalar_kind_ok [of s] by (auto simp: field_kind_def split: TyClass.split)

lemma scalar_field_kind:
  assumes "pair_fields_ok l"
  shows "\<exists>c. scalar_field_to_c_type s l i cx = Some (intern_type (field_kind s c) cx)"
proof (cases "l_single_variant l \<and> i < l_field_count l")
  case True
  then obtain f where "l_field l i = Some f" using assms by (auto simp: pair_fields_ok_def)
  then have "scalar_field_to_c_type s l i cx = Some (intern_type (field_kind s (l_ty f)) cx)"
    using True by (cases "l_ty f")
      (simp_all add: scalar_field_to_c_type_def field_kind_def scalar_to_c_type_kind)
  then show ?thesis by blast
next
  case False
  then have "scalar_field_to_c_type s l i cx = Some (intern_type (field_kind s TyOther) cx)"
    by (auto simp: scalar_field_to_c_type_def field_kind_def scalar_to_c_type_kind)
  then show ?thesis by blast
qed

lemma run_scalar_field [run_intros]:
  assumes "good b c0 cx" "room 1 cx" "scalar_ok s" "pair_fields_ok l"
    "\<And>t cx'. grown 1 cx cx' \<Longrightarrow> good b c0 cx' \<Longrightarrow> tval cx' t \<Longrightarrow> Q t cx'"
  shows "run b c0 (scalar_field_to_c_type s l i cx) Q"
proof -
  obtain c where "scalar_field_to_c_type s l i cx = Some (intern_type (field_kind s c) cx)"
    using scalar_field_kind [OF assms(4)] by blast
  moreover have "run b c0 (Some (intern_type (field_kind s c) cx)) Q"
    by (intro run_intros assms(5); use assms in \<open>simp add: run_simps field_kind_ok\<close>)
  ultimately show ?thesis by simp
qed

lemma run_layout [run_intros]:
  assumes "good b c0 cx" "room 3 cx" "layout_ok l"
    "\<And>t cx'. grown 3 cx cx' \<Longrightarrow> good b c0 cx' \<Longrightarrow> tval cx' t \<Longrightarrow> Q t cx'"
  shows "run b c0 (layout_to_c_type l cx) Q"
proof -
  have unit: "run b c0 (Some (intern_type (TStruct [] False None) cx)) Q"
    by (intro run_intros assms(4); use assms in \<open>simp add: run_simps\<close>)
  have bytes: "run b c0 (case intern_type (TInt 8 True) cx of (byte_ty, cx) \<Rightarrow>
      case intern_type (TArray byte_ty n) cx of (arr_ty, cx) \<Rightarrow>
      Some (intern_type (TStruct [arr_ty] False None) cx)) Q" for n
    by (intro run_intros assms(4); use assms in \<open>simp add: run_simps\<close>)
  show ?thesis
  proof (cases "l_repr l")
    case (BScalar s)
    then have "layout_to_c_type l cx = Some (intern_type (field_kind s (l_ty l)) cx) \<or>
        layout_to_c_type l cx = Some (intern_type (TStruct [] False None) cx)"
      by (cases "l_ty l") (auto simp: layout_to_c_type_def field_kind_def scalar_to_c_type_kind)
    moreover have "run b c0 (Some (intern_type (field_kind s (l_ty l)) cx)) Q"
      by (intro run_intros assms(4);
          use assms BScalar in \<open>simp add: run_simps field_kind_ok layout_ok_def\<close>)
    ultimately show ?thesis using unit by metis
  next
    case (BScalarPair x y)
    have "run b c0 (do { (a_ty, cx) \<leftarrow> scalar_field_to_c_type x l 0 cx;
        (b_ty, cx) \<leftarrow> scalar_field_to_c_type y l 1 cx;
        Some (intern_type (TStruct [a_ty, b_ty] False None) cx) }) Q"
      by (intro run_intros assms(4);
          use assms BScalarPair in \<open>simp add: run_simps layout_ok_def\<close>)
    then show ?thesis using unit BScalarPair by (auto simp: layout_to_c_type_def)
  next
    case (BSimdVector e n)
    have "run b c0 (case intern_type (scalar_kind e) cx of (t, cx) \<Rightarrow>
        Some (intern_type (TVector t n) cx)) Q"
      by (intro run_intros assms(4);
          use assms BSimdVector in \<open>simp add: run_simps layout_ok_def scalar_kind_ok\<close>)
    then show ?thesis
      using unit BSimdVector by (auto simp: layout_to_c_type_def scalar_to_c_type_kind Let_def)
  next
    case BMemory
    then show ?thesis using unit bytes by (auto simp: layout_to_c_type_def Let_def)
  qed
qed

section \<open>Calls\<close>

lemma run_coerce_arg [run_intros]:
  assumes "good b c0 cx" "room 1 cx" "vval cx (snd ia)" "\<forall>t \<in> set ps. tval cx t"
    "\<And>v cx'. grown 1 cx cx' \<Longrightarrow> good b c0 cx' \<Longrightarrow> vval cx' v \<Longrightarrow> Q v cx'"
  shows "run b c0 (coerce_arg b ps ia cx) Q"
  unfolding coerce_arg_def Let_def case_prod_beta [of _ ia]
  by (intro run_intros assms(5); use assms in \<open>simp add: run_simps\<close>)

lemma run_coerce_args [run_intros]:
  assumes "good b c0 cx" "room (length ias) cx" "\<forall>ia \<in> set ias. vval cx (snd ia)"
    "\<forall>t \<in> set ps. tval cx t"
    "\<And>vs cx'. grown (length ias) cx cx' \<Longrightarrow> good b c0 cx' \<Longrightarrow> (\<forall>v \<in> set vs. vval cx' v) \<Longrightarrow> Q vs cx'"
  shows "run b c0 (opt_map_state (coerce_arg b ps) ias cx) Q"
  using assms
proof (induction ias arbitrary: cx Q)
  case Nil
  then show ?case by (auto intro!: run_Some simp: grown_def)
next
  case (Cons ia ias)
  show ?case
    unfolding opt_map_state.simps
    by (intro run_intros Cons.IH Cons.prems(5); use Cons.prems(1-4) in \<open>auto simp: run_simps\<close>)
qed

text \<open>
  The callee of a call can be called: the type of its declared signature, or the given type
  for a callee without one, is a function type.
\<close>

definition callable :: "CodegenCx \<Rightarrow> TypeRef \<Rightarrow> ValueRef \<Rightarrow> bool" where
  "callable cx llty f =
     (\<exists>s r ps variadic. get_fn_sig (cx_values cx) f = Some s \<and>
        kind_of cx (case s of Some sig \<Rightarrow> sig | None \<Rightarrow> llty) = Some (TFunction r ps variadic))"

lemma callable_grown: "grown n cx cx' \<Longrightarrow> callable cx llty f \<Longrightarrow> callable cx' llty f"
  by (auto simp: callable_def grown_def get_fn_sig_def)

lemma callable_vval: "callable cx llty f \<Longrightarrow> vval cx f"
  by (auto simp: callable_def get_fn_sig_def dest: vs_get_valid)

lemma run_callee [run_intros]:
  assumes g: "good b c0 cx" and c: "callable cx llty f"
    and Q: "\<And>r s. tval cx r \<Longrightarrow> run b c0 (F r s) Q"
  shows "run b c0 (Option.bind (callee llty f cx) (\<lambda>(r, s). F r s)) Q"
proof -
  from c obtain s r ps variadic where s: "get_fn_sig (cx_values cx) f = Some s"
    and k: "kind_of cx (case s of Some sig \<Rightarrow> sig | None \<Rightarrow> llty) = Some (TFunction r ps variadic)"
    by (auto simp: callable_def)
  have r: "tval cx r" using kind_refs_tval [OF good_wf [OF g] k] by simp
  obtain x where x: "render_value cx f = Some x"
    using text_total [OF good_wf [OF g] callable_vval [OF c]] by blast
  have "\<exists>y. callee llty f cx = Some (r, y)"
  proof (cases s)
    case None
    then obtain t where "render_type cx llty = Some t"
      using type_text_total [OF good_wf [OF g] kind_tval] k by force
    then show ?thesis using None s k x by (simp add: callee_def)
  qed (use s k x in \<open>simp add: callee_def\<close>)
  then show ?thesis using Q [OF r] by auto
qed

lemma run_void_result [run_intros]:
  assumes "good b c0 cx" "room 4 cx"
    "\<forall>abi. fn_abi = Some abi \<longrightarrow> layout_ok (arg_layout (fa_ret abi))"
    "\<And>v cx'. grown 4 cx cx' \<Longrightarrow> good b c0 cx' \<Longrightarrow> vval cx' v \<Longrightarrow> Q v cx'"
  shows "run b c0 (void_result fn_abi cx) Q"
proof -
  have null: "run b c0 (case type_ptr cx of (t, cx) \<Rightarrow> Some (const_null t cx)) Q"
    unfolding type_ptr_def const_null_def
    by (intro run_intros assms(4); use assms in \<open>simp add: run_simps\<close>)
  have undef: "run b c0 (do { (t, cx) \<leftarrow> layout_to_c_type l cx; Some (const_undef t cx) }) Q"
    if "layout_ok l" for l
    unfolding const_undef_def
    by (intro run_intros assms(4); use assms that in \<open>simp add: run_simps\<close>)
  show ?thesis
    using assms(3) null undef
    by (cases fn_abi) (auto simp: void_result_def returns_indirect_def Let_def)
qed

lemma opt_map_text_total:
  assumes "cx_wf cx" "\<forall>v \<in> set vs. vval cx v"
  shows "\<exists>ss. opt_map (render_value cx) vs = Some ss"
  by (rule opt_map_total) (use text_total assms in blast)

lemma run_texts [run_intros]:
  assumes "good b c0 cx" "\<forall>v \<in> set vs. vval cx v" "\<And>ss. run b c0 (f ss) Q"
  shows "run b c0 (Option.bind (opt_map (render_value cx) vs) f) Q"
  using opt_map_text_total [OF good_wf [OF assms(1)] assms(2)] assms(3) by auto

text \<open>What a call does once the callee and the argument texts are known.\<close>

lemma run_call_emit [run_intros]:
  assumes "good b c0 cx" "room 4 cx" "tval cx r"
    "\<forall>abi. fn_abi = Some abi \<longrightarrow> layout_ok (arg_layout (fa_ret abi))"
    "\<forall>v. sret = Some v \<longrightarrow> vval cx v"
    "\<And>v cx'. grown 4 cx cx' \<Longrightarrow> good b c0 cx' \<Longrightarrow> vval cx' v \<Longrightarrow> Q v cx'"
  shows "run b c0 (do { ret_kind \<leftarrow> kind_of cx r;
          if ret_kind = TVoid then void_result fn_abi (emit b (Expr (Call (Var f) (map Var ts))) cx)
          else
            do { (result, cx) \<leftarrow> new_temp_with_stmt b r (Call (Var f) (map Var ts)) cx;
                 case sret of
                   Some sret \<Rightarrow>
                     do { x \<leftarrow> render_value cx result;
                          s \<leftarrow> render_value cx sret;
                          t \<leftarrow> render_type cx r;
                          Some (sret, emit b (Assign (Deref (t @ '' *'') (Var s)) (Var x)) cx) }
                 | None \<Rightarrow>
                     (if returns_bool fn_abi then
                        case intern_type TBool cx of (bool_ty, cx) \<Rightarrow>
                          do { v \<leftarrow> render_value cx result;
                               new_temp_with_stmt b bool_ty (Cast ''_Bool'' (Paren (Var v))) cx }
                      else Some (result, cx)) } }) Q"
  by (intro run_intros assms(6); use assms in \<open>simp add: run_simps\<close>)

lemma run_call [run_intros]:
  assumes g: "good b c0 cx" and rm: "room (length args + 4) cx"
    and args: "\<forall>a \<in> set args. vval cx a" and f: "callable cx llty f"
    and abi: "\<forall>abi. fn_abi = Some abi \<longrightarrow> layout_ok (arg_layout (fa_ret abi))"
    and Q: "\<And>v cx'. grown (length args + 4) cx cx' \<Longrightarrow> good b c0 cx' \<Longrightarrow> vval cx' v \<Longrightarrow> Q v cx'"
  shows "run b c0 (op_call b llty fn_abi f args cx) Q"
proof -
  obtain sret as where sa: "(if returns_indirect fn_abi \<and> args \<noteq> [] then (Some (hd args), tl args)
      else (None, args)) = (sret, as)" by fastforce
  then have as: "length as \<le> length args" "\<forall>a \<in> set as. vval cx a" "\<forall>v. sret = Some v \<longrightarrow> vval cx v"
    using args by (cases args; auto split: if_splits)+
  from f obtain s r ps variadic where s: "get_fn_sig (cx_values cx) f = Some s"
    and k: "kind_of cx (case s of Some sig \<Rightarrow> sig | None \<Rightarrow> llty) = Some (TFunction r ps variadic)"
    by (auto simp: callable_def)
  have ps: "\<forall>t \<in> set ps. tval cx t" using kind_refs_tval [OF good_wf [OF g] k] by simp
  have "snd ` set (enumerate 0 as) = set as"
    by (metis list.set_map map_snd_enumerate)
  then have ias: "\<forall>ia \<in> set (enumerate 0 as). vval cx (snd ia)" using as(2) by auto
  have rm': "room (length (enumerate 0 as) + 4) cx" using rm as(1) by (auto simp: room_def)
  have "run b c0 (do { (vs, cx) \<leftarrow> opt_map_state (coerce_arg b ps) (enumerate 0 as) cx;
      ts \<leftarrow> opt_map (render_value cx) vs;
      (r, f) \<leftarrow> callee llty f cx;
      ret_kind \<leftarrow> kind_of cx r;
          if ret_kind = TVoid then void_result fn_abi (emit b (Expr (Call (Var f) (map Var ts))) cx)
          else
            do { (result, cx) \<leftarrow> new_temp_with_stmt b r (Call (Var f) (map Var ts)) cx;
                 case sret of
                   Some sret \<Rightarrow>
                     do { x \<leftarrow> render_value cx result;
                          s \<leftarrow> render_value cx sret;
                          t \<leftarrow> render_type cx r;
                          Some (sret, emit b (Assign (Deref (t @ '' *'') (Var s)) (Var x)) cx) }
                 | None \<Rightarrow>
                     (if returns_bool fn_abi then
                        case intern_type TBool cx of (bool_ty, cx) \<Rightarrow>
                          do { v \<leftarrow> render_value cx result;
                               new_temp_with_stmt b bool_ty (Cast ''_Bool'' (Paren (Var v))) cx }
                      else Some (result, cx)) } }) Q"
    by (rule run_bind, rule run_coerce_args [OF g _ ias ps], use rm' in \<open>simp add: room_def\<close>,
        rule run_texts, assumption, blast, rule run_callee, assumption,
        erule callable_grown [OF _ f], rule run_call_emit, assumption)
      (use rm' abi as Q in \<open>auto simp: run_simps\<close>)
  then show ?thesis unfolding op_call_def Let_def by (simp add: sa s k)
qed

end
