(* ===== verification/BuilderSound.thy ===== *)
theory BuilderSound
  imports BuilderRun
begin

text \<open>
  The builder as a machine: its instructions as data, one step of it on a builder and a
  context, and the executions it can go through. Every instruction on valid operands
  succeeds and keeps the context well formed; every label a statement jumps to is the label
  of a block of the same function.
\<close>

section \<open>Instructions\<close>

datatype BinName =
    IAdd | IFadd | IFaddFast | IFaddAlgebraic | ISub | IFsub | IFsubFast | IFsubAlgebraic
  | IMul | IFmul | IFmulFast | IFmulAlgebraic | IUdiv | IExactudiv | ISdiv | IExactsdiv
  | IFdiv | IFdivFast | IFdivAlgebraic | IUrem | ISrem | IFrem | IFremFast | IFremAlgebraic
  | IShl | ILshr | IAshr | IAnd | IOr | IXor

fun exec_bin :: "BinName \<Rightarrow> Builder \<Rightarrow> ValueRef \<Rightarrow> ValueRef \<Rightarrow> value_op" where
  "exec_bin IAdd = op_add" | "exec_bin IFadd = op_fadd"
| "exec_bin IFaddFast = op_fadd_fast" | "exec_bin IFaddAlgebraic = op_fadd_algebraic"
| "exec_bin ISub = op_sub" | "exec_bin IFsub = op_fsub"
| "exec_bin IFsubFast = op_fsub_fast" | "exec_bin IFsubAlgebraic = op_fsub_algebraic"
| "exec_bin IMul = op_mul" | "exec_bin IFmul = op_fmul"
| "exec_bin IFmulFast = op_fmul_fast" | "exec_bin IFmulAlgebraic = op_fmul_algebraic"
| "exec_bin IUdiv = op_udiv" | "exec_bin IExactudiv = op_exactudiv"
| "exec_bin ISdiv = op_sdiv" | "exec_bin IExactsdiv = op_exactsdiv"
| "exec_bin IFdiv = op_fdiv" | "exec_bin IFdivFast = op_fdiv_fast"
| "exec_bin IFdivAlgebraic = op_fdiv_algebraic" | "exec_bin IUrem = op_urem"
| "exec_bin ISrem = op_srem" | "exec_bin IFrem = op_frem"
| "exec_bin IFremFast = op_frem_fast" | "exec_bin IFremAlgebraic = op_frem_algebraic"
| "exec_bin IShl = op_shl" | "exec_bin ILshr = op_lshr" | "exec_bin IAshr = op_ashr"
| "exec_bin IAnd = op_and" | "exec_bin IOr = op_or" | "exec_bin IXor = op_xor"

datatype CastName =
    ITrunc | ISext | IZext | IFptosi | IFptoui | IFptosiSat | IFptouiSat | ISitofp | IUitofp
  | IFptrunc | IFpext | IPtrtoint | IInttoptr | IPointercast | IBitcast

fun exec_cast :: "CastName \<Rightarrow> Builder \<Rightarrow> ValueRef \<Rightarrow> TypeRef \<Rightarrow> value_op" where
  "exec_cast ITrunc = op_trunc" | "exec_cast ISext = op_sext" | "exec_cast IZext = op_zext"
| "exec_cast IFptosi = op_fptosi" | "exec_cast IFptoui = op_fptoui"
| "exec_cast IFptosiSat = op_fptosi_sat" | "exec_cast IFptouiSat = op_fptoui_sat"
| "exec_cast ISitofp = op_sitofp" | "exec_cast IUitofp = op_uitofp"
| "exec_cast IFptrunc = op_fptrunc" | "exec_cast IFpext = op_fpext"
| "exec_cast IPtrtoint = op_ptrtoint" | "exec_cast IInttoptr = op_inttoptr"
| "exec_cast IPointercast = op_pointercast" | "exec_cast IBitcast = op_bitcast"

datatype Instr =
    IBin BinName ValueRef ValueRef
  | INeg ValueRef
  | INot ValueRef
  | IChecked OverflowOp ValueRef ValueRef
  | IFromImmediate ValueRef
  | IToImmediate ValueRef Scalar
  | IAlloca nat nat
  | ILoad TypeRef ValueRef
  | IVolatileLoad TypeRef ValueRef
  | IAtomicLoad TypeRef ValueRef AtomicOrdering nat
  | IStore ValueRef ValueRef
  | IAtomicStore ValueRef ValueRef AtomicOrdering nat
  | IGep TypeRef ValueRef "ValueRef list"
  | ICast CastName ValueRef TypeRef
  | IIntcast ValueRef TypeRef bool
  | IIcmp IntPredicate ValueRef ValueRef
  | IFcmp RealPredicate ValueRef ValueRef
  | IMemcpy ValueRef ValueRef ValueRef
  | IMemmove ValueRef ValueRef ValueRef
  | IMemset ValueRef ValueRef ValueRef
  | ISelect ValueRef ValueRef ValueRef
  | IVaArg ValueRef TypeRef
  | IExtractElement ValueRef ValueRef
  | IVectorSplat nat ValueRef
  | IExtractValue ValueRef nat
  | IInsertValue ValueRef ValueRef nat
  | ICmpxchg ValueRef ValueRef ValueRef AtomicOrdering AtomicOrdering bool
  | IRmw AtomicRmwBinOp ValueRef ValueRef AtomicOrdering bool
  | IFence AtomicOrdering SynchronizationScope
  | ICall TypeRef "FnAbi option" ValueRef "ValueRef list"

abbreviation one_value :: "(ValueRef \<times> CodegenCx) option \<Rightarrow> (ValueRef list \<times> CodegenCx) option" where
  "one_value m \<equiv> map_option (\<lambda>(v, cx). ([v], cx)) m"

abbreviation two_values ::
  "((ValueRef \<times> ValueRef) \<times> CodegenCx) option \<Rightarrow> (ValueRef list \<times> CodegenCx) option" where
  "two_values m \<equiv> map_option (\<lambda>((x, y), cx). ([x, y], cx)) m"

abbreviation no_value :: "CodegenCx option \<Rightarrow> (ValueRef list \<times> CodegenCx) option" where
  "no_value m \<equiv> map_option (\<lambda>cx. ([], cx)) m"

fun exec_instr :: "Builder \<Rightarrow> Instr \<Rightarrow> CodegenCx \<Rightarrow> (ValueRef list \<times> CodegenCx) option" where
  "exec_instr b (IBin op x y) cx = one_value (exec_bin op b x y cx)"
| "exec_instr b (INeg x) cx = one_value (op_neg b x cx)"
| "exec_instr b (INot x) cx = one_value (op_not b x cx)"
| "exec_instr b (IChecked oop x y) cx = two_values (checked_binop b oop x y cx)"
| "exec_instr b (IFromImmediate x) cx = one_value (from_immediate b x cx)"
| "exec_instr b (IToImmediate x s) cx = one_value (to_immediate_scalar b x s cx)"
| "exec_instr b (IAlloca bytes align) cx = one_value (alloca b bytes align cx)"
| "exec_instr b (ILoad ty p) cx = one_value (op_load b ty p cx)"
| "exec_instr b (IVolatileLoad ty p) cx = one_value (volatile_load b ty p cx)"
| "exec_instr b (IAtomicLoad ty p ord n) cx = one_value (op_atomic_load b ty p ord n cx)"
| "exec_instr b (IStore x p) cx = one_value (op_store b x p cx)"
| "exec_instr b (IAtomicStore x p ord n) cx = no_value (op_atomic_store b x p ord n cx)"
| "exec_instr b (IGep ty p ixs) cx = one_value (op_gep b ty p ixs cx)"
| "exec_instr b (ICast c x ty) cx = one_value (exec_cast c b x ty cx)"
| "exec_instr b (IIntcast x ty s) cx = one_value (op_intcast b x ty s cx)"
| "exec_instr b (IIcmp p x y) cx = one_value (op_icmp b p x y cx)"
| "exec_instr b (IFcmp p x y) cx = one_value (op_fcmp b p x y cx)"
| "exec_instr b (IMemcpy d s n) cx = no_value (op_memcpy b d s n cx)"
| "exec_instr b (IMemmove d s n) cx = no_value (op_memmove b d s n cx)"
| "exec_instr b (IMemset d x n) cx = no_value (op_memset b d x n cx)"
| "exec_instr b (ISelect c x y) cx = one_value (op_select b c x y cx)"
| "exec_instr b (IVaArg l ty) cx = one_value (op_va_arg b l ty cx)"
| "exec_instr b (IExtractElement x i) cx = one_value (op_extract_element b x i cx)"
| "exec_instr b (IVectorSplat n x) cx = one_value (op_vector_splat b n x cx)"
| "exec_instr b (IExtractValue x i) cx = one_value (op_extract_value b x i cx)"
| "exec_instr b (IInsertValue x y i) cx = one_value (op_insert_value b x y i cx)"
| "exec_instr b (ICmpxchg d c s o1 o2 w) cx = two_values (op_atomic_cmpxchg b d c s o1 o2 w cx)"
| "exec_instr b (IRmw op d s ord rp) cx = one_value (op_atomic_rmw b op d s ord rp cx)"
| "exec_instr b (IFence ord scope) cx = Some ([], op_atomic_fence b ord scope cx)"
| "exec_instr b (ICall ty abi f args) cx = one_value (op_call b ty abi f args cx)"

section \<open>Valid instructions\<close>

fun instr_values :: "Instr \<Rightarrow> ValueRef list" where
  "instr_values (IBin op x y) = [x, y]"
| "instr_values (INeg x) = [x]"
| "instr_values (INot x) = [x]"
| "instr_values (IChecked oop x y) = [x, y]"
| "instr_values (IFromImmediate x) = [x]"
| "instr_values (IToImmediate x s) = [x]"
| "instr_values (ILoad ty p) = [p]"
| "instr_values (IVolatileLoad ty p) = [p]"
| "instr_values (IAtomicLoad ty p ord n) = [p]"
| "instr_values (IStore x p) = [x, p]"
| "instr_values (IAtomicStore x p ord n) = [x, p]"
| "instr_values (IGep ty p ixs) = p # ixs"
| "instr_values (ICast c x ty) = [x]"
| "instr_values (IIntcast x ty s) = [x]"
| "instr_values (IIcmp p x y) = [x, y]"
| "instr_values (IFcmp p x y) = [x, y]"
| "instr_values (IMemcpy d s n) = [d, s, n]"
| "instr_values (IMemmove d s n) = [d, s, n]"
| "instr_values (IMemset d x n) = [d, x, n]"
| "instr_values (ISelect c x y) = [c, x, y]"
| "instr_values (IVaArg l ty) = [l]"
| "instr_values (IExtractElement x i) = [x, i]"
| "instr_values (IVectorSplat n x) = [x]"
| "instr_values (IExtractValue x i) = [x]"
| "instr_values (IInsertValue x y i) = [x, y]"
| "instr_values (ICmpxchg d c s o1 o2 w) = [d, c, s]"
| "instr_values (IRmw op d s ord rp) = [d, s]"
| "instr_values (ICall ty abi f args) = f # args"
| "instr_values _ = []"

fun instr_types :: "Instr \<Rightarrow> TypeRef list" where
  "instr_types (ILoad ty p) = [ty]"
| "instr_types (IVolatileLoad ty p) = [ty]"
| "instr_types (IAtomicLoad ty p ord n) = [ty]"
| "instr_types (IGep ty p ixs) = [ty]"
| "instr_types (ICast c x ty) = [ty]"
| "instr_types (IIntcast x ty s) = [ty]"
| "instr_types (IVaArg l ty) = [ty]"
| "instr_types _ = []"

definition is_sequence :: "CTypeKind \<Rightarrow> bool" where
  "is_sequence k = (case k of TArray e n \<Rightarrow> True | TVector e n \<Rightarrow> True | _ \<Rightarrow> False)"

text \<open>The conditions under which the code does not panic, beyond valid references.\<close>

fun instr_extra :: "CodegenCx \<Rightarrow> Instr \<Rightarrow> bool" where
  "instr_extra cx (IToImmediate x s) = scalar_ok s"
| "instr_extra cx (IGep ty p ixs) = (ixs \<noteq> [])"
| "instr_extra cx (IExtractElement x i) =
     (case Option.bind (type_of_value cx x) (kind_of cx) of Some k \<Rightarrow> is_sequence k | None \<Rightarrow> False)"
| "instr_extra cx (IExtractValue x i) =
     (case Option.bind (type_of_value cx x) (kind_of cx) of
        Some (TStruct fs p n) \<Rightarrow> i < length fs | _ \<Rightarrow> True)"
| "instr_extra cx (IInsertValue x y i) =
     (case Option.bind (type_of_value cx x) (kind_of cx) of
        Some (TStruct fs p n) \<Rightarrow> i < length fs | _ \<Rightarrow> True)"
| "instr_extra cx (ICall ty abi f args) =
     (callable cx ty f \<and> (case abi of Some a \<Rightarrow> layout_ok (arg_layout (fa_ret a)) | None \<Rightarrow> True))"
| "instr_extra cx _ = True"

definition instr_ok :: "CodegenCx \<Rightarrow> Instr \<Rightarrow> bool" where
  "instr_ok cx i =
     (list_all (vval cx) (instr_values i) \<and> list_all (tval cx) (instr_types i) \<and> instr_extra cx i)"

text \<open>Entries an instruction may add to each store.\<close>

fun instr_room :: "Instr \<Rightarrow> nat" where
  "instr_room (ICall ty abi f args) = length args + 4"
| "instr_room _ = 4"

section \<open>Every instruction succeeds\<close>

lemmas bin_defs = op_add_def op_fadd_def op_fadd_fast_def op_fadd_algebraic_def
  op_sub_def op_fsub_def op_fsub_fast_def op_fsub_algebraic_def
  op_mul_def op_fmul_def op_fmul_fast_def op_fmul_algebraic_def
  op_udiv_def op_exactudiv_def op_sdiv_def op_exactsdiv_def
  op_fdiv_def op_fdiv_fast_def op_fdiv_algebraic_def op_urem_def op_srem_def
  op_frem_fast_def op_frem_algebraic_def op_and_def op_or_def op_xor_def

lemmas cast_defs = op_trunc_def op_sext_def op_fptosi_def op_sitofp_def op_fptrunc_def
  op_fpext_def op_ptrtoint_def op_inttoptr_def op_pointercast_def

definition some_values :: "ValueRef list \<Rightarrow> CodegenCx \<Rightarrow> bool" where
  "some_values vs cx = (\<forall>v \<in> set vs. vval cx v)"

lemma run_one_value [run_intros]:
  "run b c0 m (\<lambda>v cx. Q [v] cx) \<Longrightarrow> run b c0 (one_value m) Q"
  by (auto simp: run_def)

lemma run_two_values [run_intros]:
  "run b c0 m (\<lambda>p cx. Q [fst p, snd p] cx) \<Longrightarrow> run b c0 (two_values m) Q"
  by (auto simp: run_def)

lemma run_no_value [run_intros]:
  "run b c0 (unit_op m) (\<lambda>_ cx. Q [] cx) \<Longrightarrow> run b c0 (no_value m) Q"
  by (auto simp: run_def)

lemma field_in_rangeI:
  assumes "cx_wf cx" "vval cx x"
    "case Option.bind (type_of_value cx x) (kind_of cx) of
       Some (TStruct fs p n) \<Rightarrow> i < length fs | _ \<Rightarrow> True"
  shows "field_in_range cx x i"
proof -
  from type_total [OF assms(1,2)] obtain t k where k: "type_of_value cx x = Some t" "kind_of cx t = Some k"
    by blast
  show ?thesis
    unfolding field_in_range_def by (rule exI [of _ t], rule exI [of _ k]) (use assms(3) k in auto)
qed

lemma exec_bin_run:
  assumes "good b c0 cx" "room 4 cx" "vval cx x" "vval cx y"
    "\<And>v cx'. good b c0 cx' \<Longrightarrow> vval cx' v \<Longrightarrow> Q v cx'"
  shows "run b c0 (exec_bin op b x y cx) Q"
  by (cases op; simp add: bin_defs; intro run_intros assms(5); use assms in \<open>simp add: run_simps\<close>)

lemma exec_cast_run:
  assumes "good b c0 cx" "room 4 cx" "vval cx x" "tval cx ty"
    "\<And>v cx'. good b c0 cx' \<Longrightarrow> vval cx' v \<Longrightarrow> Q v cx'"
  shows "run b c0 (exec_cast op b x ty cx) Q"
  by (cases op; simp add: cast_defs; intro run_intros assms(5); use assms in \<open>simp add: run_simps\<close>)

text \<open>
  An instruction on valid operands succeeds: its results are values of the new context, which
  is well formed and differs from the old one by what \<open>good\<close> allows.
\<close>

lemma exec_instr_run:
  assumes wf: "cx_wf cx" and rm: "room (instr_room i) cx" and ok: "instr_ok cx i"
  shows "run b cx (exec_instr b i cx) some_values"
proof -
  note g = good_refl [OF wf, of b]
  have r4: "room 4 cx" using rm by (cases i) (auto intro: room_mono)
  have vals: "\<forall>v \<in> set (instr_values i). vval cx v" and tys: "\<forall>t \<in> set (instr_types i). tval cx t"
    and ex: "instr_extra cx i" using ok by (auto simp: instr_ok_def list_all_iff)
  note facts = g r4 vals tys ex
  show ?thesis
  proof (cases i)
    case (IExtractElement x j)
    with facts type_total [OF wf, of x] have
      "\<exists>t k. type_of_value cx x = Some t \<and> kind_of cx t = Some k \<and> (\<exists>e n. k = TArray e n \<or> k = TVector e n)"
      by (auto simp: is_sequence_def split: CTypeKind.splits)
    then show ?thesis
      unfolding IExtractElement exec_instr.simps
      by (intro run_intros; use facts IExtractElement in \<open>simp add: run_simps some_values_def\<close>)
  next
    case (IExtractValue x j)
    then have "field_in_range cx x j" using facts by (intro field_in_rangeI wf) auto
    then show ?thesis
      unfolding IExtractValue exec_instr.simps
      by (intro run_intros; use facts IExtractValue in \<open>simp add: run_simps some_values_def\<close>)
  next
    case (IInsertValue x y j)
    then have "field_in_range cx x j" using facts by (intro field_in_rangeI wf) auto
    then show ?thesis
      unfolding IInsertValue exec_instr.simps
      by (intro run_intros; use facts IInsertValue in \<open>simp add: run_simps some_values_def\<close>)
  next
    case (ICall ty abi f args)
    then show ?thesis
      unfolding ICall exec_instr.simps
      by (intro run_intros; use facts rm ICall in \<open>auto simp: run_simps some_values_def split: option.splits\<close>)
  next
    case (IFence ord scope)
    have "good b cx (op_atomic_fence b ord scope cx)"
      unfolding op_atomic_fence_def by (rule good_emit [OF g]) simp
    then show ?thesis by (simp add: IFence run_def some_values_def)
  next
    case (IBin op x y)
    then show ?thesis
      by (simp, intro run_intros exec_bin_run; use facts in \<open>simp add: run_simps some_values_def\<close>)
  next
    case (ICast op x ty)
    then show ?thesis
      by (simp, intro run_intros exec_cast_run; use facts in \<open>simp add: run_simps some_values_def\<close>)
  qed (simp only: exec_instr.simps op_memcpy_def op_memmove_def op_memset_def, intro run_intros;
       use facts in \<open>simp add: run_simps some_values_def\<close>)+
qed

end
