(* ===== verification/IntrinsicRun.thy ===== *)
theory IntrinsicRun
  imports Intrinsics BuilderSound
begin

text \<open>
  Every intrinsic succeeds on valid operands: with immediate arguments, a destination of a
  sound layout and, where the code asks for a width, an integer type. The rules extend those
  of \<open>BuilderRun\<close>; the dispatch is one good step of the builder, like its instructions.
\<close>

section \<open>Arguments\<close>

definition imm_ok :: "CodegenCx \<Rightarrow> Operand list \<Rightarrow> nat \<Rightarrow> bool" where
  "imm_ok cx args i = (\<exists>v. immediate_arg args i = Some v \<and> vval cx v)"

lemma run_immediate [run_intros]:
  "imm_ok cx args i \<Longrightarrow> (\<And>v. immediate_arg args i = Some v \<Longrightarrow> vval cx v \<Longrightarrow> run b c0 (f v) Q) \<Longrightarrow>
   run b c0 (Option.bind (immediate_arg args i) f) Q"
  by (auto simp: imm_ok_def)

lemma run_arg_text [run_intros]:
  "good b c0 cx \<Longrightarrow> imm_ok cx args i \<Longrightarrow> (\<And>s. run b c0 (f s) Q) \<Longrightarrow>
   run b c0 (Option.bind (arg_text args i cx) f) Q"
  using text_total [OF good_wf, of b c0 cx] by (force simp: imm_ok_def arg_text_def)

lemma grown_imm: "grown n cx cx' \<Longrightarrow> imm_ok cx args i \<Longrightarrow> imm_ok cx' args i"
  by (auto simp: imm_ok_def grown_def)

definition width_ok :: "CodegenCx \<Rightarrow> TypeRef \<Rightarrow> bool" where
  "width_ok cx ty = (int_width cx ty \<noteq> None)"

lemma run_int_width [run_intros]:
  "width_ok cx ty \<Longrightarrow> (\<And>n. int_width cx ty = Some n \<Longrightarrow> run b c0 (f n) Q) \<Longrightarrow>
   run b c0 (Option.bind (int_width cx ty) f) Q"
  by (auto simp: width_ok_def)

lemma run_map_of [run_intros]:
  "k \<in> fst ` set xs \<Longrightarrow> (\<And>v. run b c0 (f v) Q) \<Longrightarrow> run b c0 (Option.bind (map_of xs k) f) Q"
  by (cases "map_of xs k") (auto simp: map_of_eq_None_iff)

lemma run_store_result [run_intros]:
  assumes "good b c0 cx" "room 1 cx" "vval cx v" "vval cx (pl_llval dest)"
    "\<And>u cx'. grown 1 cx cx' \<Longrightarrow> good b c0 cx' \<Longrightarrow> Q u cx'"
  shows "run b c0 (unit_op (store_result b v dest cx)) Q"
proof -
  have "run b c0 (op_store b v (pl_llval dest) cx) (\<lambda>_. Q ())"
    by (rule run_store) (use assms in auto)
  then show ?thesis by (auto simp: run_def store_result_def)
qed

lemma run_unit_bind_prod [run_intros]:
  "run b c0 (Option.bind m (\<lambda>(x, cx'). unit_op (f x cx'))) Q \<Longrightarrow>
   run b c0 (unit_op (Option.bind m (\<lambda>(x, cx'). f x cx'))) Q"
  by (cases m) (auto simp: case_prod_beta)

lemma run_unit_intern_type [run_intros]:
  "run b c0 (case intern_type k cx of (v, cx') \<Rightarrow> unit_op (f v cx')) Q \<Longrightarrow>
   run b c0 (unit_op (case intern_type k cx of (v, cx') \<Rightarrow> f v cx')) Q"
  by (simp add: case_prod_beta)

lemma run_pair [run_intros]:
  "run b c0 (unit_op (f x y)) Q \<Longrightarrow> run b c0 (unit_op (case (x, y) of (u, v) \<Rightarrow> f u v)) Q"
  "run b c0 (g x y) P \<Longrightarrow> run b c0 (case (x, y) of (u, v) \<Rightarrow> g u v) P"
  "run b c0 (unit_op (h x y z)) R \<Longrightarrow> run b c0 (unit_op ((case (x, y) of (u, v) \<Rightarrow> h u v) z)) R"
  by simp_all

text \<open>What the destination and the first argument must be.\<close>

definition first_type_ok :: "CodegenCx \<Rightarrow> Operand list \<Rightarrow> bool" where
  "first_type_ok cx args =
     (\<forall>v ty. immediate_arg args 0 = Some v \<and> type_of_value cx v = Some ty \<longrightarrow> width_ok cx ty)"

section \<open>Numbers\<close>

lemma run_unary_math [run_intros]:
  assumes "good b c0 cx" "room 2 cx" "imm_ok cx args 0" "vval cx (pl_llval dest)"
    "name \<in> fst ` set unary_math_names" "\<And>u cx'. grown 2 cx cx' \<Longrightarrow> good b c0 cx' \<Longrightarrow> Q u cx'"
  shows "run b c0 (unit_op (codegen_unary_math b name args dest cx)) Q"
  unfolding codegen_unary_math_def
  by (intro run_intros assms(6); use assms in \<open>simp add: run_simps\<close>)


lemma run_binary_math [run_intros]:
  assumes "good b c0 cx" "room 2 cx" "imm_ok cx args 0" "imm_ok cx args 1" "vval cx (pl_llval dest)" "name \<in> fst ` set binary_math_names"
    "\<And>u cx'. grown 2 cx cx' \<Longrightarrow> good b c0 cx' \<Longrightarrow> Q u cx'"
  shows "run b c0 (unit_op (codegen_binary_math b name args dest cx)) Q"
  unfolding codegen_binary_math_def
  by (intro run_intros assms(7); use assms in \<open>simp add: run_simps\<close>)

section \<open>Integers\<close>

lemma first_width:
  "first_type_ok cx args \<Longrightarrow> immediate_arg args 0 = Some v \<Longrightarrow> type_of_value cx v = Some ty \<Longrightarrow> width_ok cx ty"
  by (simp add: first_type_ok_def)

lemma run_unsigned_text [run_intros]:
  assumes "good b c0 cx" "room 1 cx" "tval cx ty"
    "\<And>u cx'. grown 1 cx cx' \<Longrightarrow> good b c0 cx' \<Longrightarrow> Q u cx'"
  shows "run b c0 (unsigned_text ty cx) Q"
proof -
  have *: "run b c0 (unsigned_type ty cx) (\<lambda>u cx'. run b c0 (do { s \<leftarrow> render_type cx'
      (case u of Some uty \<Rightarrow> uty | None \<Rightarrow> ty); Some (s, cx') }) Q)"
    by (rule run_unsigned_type [OF assms(1-3)]; rule run_type_text)
      (use assms in \<open>auto intro!: run_Some assms(4) simp: run_simps split: option.splits\<close>)
  show ?thesis unfolding unsigned_text_def by (rule run_bind [OF *])
qed

lemma run_count [run_intros]:
  assumes "good b c0 cx" "room 3 cx" "imm_ok cx args 0" "vval cx (pl_llval dest)" "first_type_ok cx args"
    "\<And>u cx'. grown 3 cx cx' \<Longrightarrow> good b c0 cx' \<Longrightarrow> Q u cx'"
  shows "run b c0 (unit_op (count_intrinsic text b args dest cx)) Q"
  unfolding count_intrinsic_def Let_def type_i32_def
  by (intro run_intros assms(6); use assms first_width [OF assms(5)] in \<open>simp add: run_simps\<close>)

lemma run_bswap [run_intros]:
  assumes "good b c0 cx" "room 2 cx" "imm_ok cx args 0" "vval cx (pl_llval dest)" "first_type_ok cx args"
    "\<And>u cx'. grown 2 cx cx' \<Longrightarrow> good b c0 cx' \<Longrightarrow> Q u cx'"
  shows "run b c0 (unit_op (codegen_bswap b args dest cx)) Q"
  unfolding codegen_bswap_def
  by (intro run_intros assms(6); use assms first_width [OF assms(5)] in \<open>simp add: run_simps\<close>)

lemma run_bitreverse [run_intros]:
  assumes "good b c0 cx" "room 5 cx" "imm_ok cx args 0" "vval cx (pl_llval dest)" "first_type_ok cx args"
    "\<And>u cx'. grown 5 cx cx' \<Longrightarrow> good b c0 cx' \<Longrightarrow> Q u cx'"
  shows "run b c0 (unit_op (codegen_bitreverse b args dest cx)) Q"
  unfolding codegen_bitreverse_def Let_def type_i32_def
  by (intro run_intros assms(6); use assms first_width [OF assms(5)] in \<open>simp add: run_simps\<close>)

lemma run_saturating [run_intros]:
  assumes "good b c0 cx" "room 3 cx" "imm_ok cx args 0" "imm_ok cx args 1" "vval cx (pl_llval dest)" "first_type_ok cx args"
    "\<And>u cx'. grown 3 cx cx' \<Longrightarrow> good b c0 cx' \<Longrightarrow> Q u cx'"
  shows "run b c0 (unit_op (codegen_saturating b name args dest cx)) Q"
  unfolding codegen_saturating_def Let_def
  by (intro run_intros assms(7); use assms first_width [OF assms(6)] in \<open>simp add: run_simps\<close>)

lemma run_rotate [run_intros]:
  assumes "good b c0 cx" "room 3 cx" "imm_ok cx args 0" "imm_ok cx args 1" "vval cx (pl_llval dest)" "first_type_ok cx args"
    "\<And>u cx'. grown 3 cx cx' \<Longrightarrow> good b c0 cx' \<Longrightarrow> Q u cx'"
  shows "run b c0 (unit_op (codegen_rotate b name args dest cx)) Q"
  unfolding codegen_rotate_def
  by (intro run_intros assms(7); use assms first_width [OF assms(6)] in \<open>simp add: run_simps\<close>)

lemma run_funnel [run_intros]:
  assumes "good b c0 cx" "room 3 cx" "imm_ok cx args 0" "imm_ok cx args 1" "imm_ok cx args 2" "vval cx (pl_llval dest)" "first_type_ok cx args"
    "\<And>u cx'. grown 3 cx cx' \<Longrightarrow> good b c0 cx' \<Longrightarrow> Q u cx'"
  shows "run b c0 (unit_op (codegen_funnel_shift b name args dest cx)) Q"
  unfolding codegen_funnel_shift_def
  by (intro run_intros assms(8); use assms first_width [OF assms(7)] in \<open>simp add: run_simps\<close>)


lemma good_raws [run_intros]: "good b c0 cx \<Longrightarrow> good b c0 (fold (\<lambda>l cx. emit b (RawStmt l) cx) ls cx)"
  by (induction ls arbitrary: cx) (simp_all add: good_emit)

lemma run_carrying_mul_add [run_intros]:
  assumes "good b c0 cx" "room 5 cx" "imm_ok cx args 0" "imm_ok cx args 1" "imm_ok cx args 2" "imm_ok cx args 3"
    "vval cx (pl_llval dest)"
    "\<And>u cx'. good b c0 cx' \<Longrightarrow> Q u cx'"
  shows "run b c0 (unit_op (codegen_carrying_mul_add b n sg args dest cx)) Q"
  unfolding codegen_carrying_mul_add_def Let_def
  by (intro run_intros assms(8); use assms in \<open>simp add: run_simps good_raws\<close>)

section \<open>Vectors\<close>

lemma run_vector_lanes [run_intros]:
  assumes "good b c0 cx" "tval cx ty" "\<And>e n. tval cx e \<Longrightarrow> run b c0 (f (e, n)) Q"
  shows "run b c0 (Option.bind (vector_lanes cx ty) f) Q"
proof -
  obtain k where k: "kind_of cx ty = Some k" using tval_kind [OF assms(2)] ..
  have "tval cx (fst (vector_parts k ty))"
    using assms(2) kind_refs_tval [OF good_wf [OF assms(1)] k] by (cases k) auto
  then show ?thesis
    using assms(3) [of "fst (vector_parts k ty)" "snd (vector_parts k ty)"] k
    by (simp add: vector_lanes_def)
qed

lemma run_declared_temp [run_intros]:
  assumes "good b c0 cx" "room 1 cx" "tval cx ty"
    "\<And>v rn cx'. grown 1 cx cx' \<Longrightarrow> good b c0 cx' \<Longrightarrow> vval cx' v \<Longrightarrow> run b c0 (f ((v, rn), cx')) Q"
  shows "run b c0 (Option.bind (declared_temp b ty cx) f) Q"
proof -
  have "run b c0 (declared_temp b ty cx) (\<lambda>x cx'. run b c0 (f (x, cx')) Q)"
    unfolding declared_temp_def Let_def
    by (intro run_intros; use assms in \<open>simp add: run_simps\<close>)
  then show ?thesis by (auto simp: run_def)
qed

lemma good_lanes [run_intros]:
  assumes "good b c0 cx" "\<And>i. stmt_labels (g i) = []"
  shows "good b c0 (emit_lanes b g n cx)"
proof -
  have "good b c0 (fold (\<lambda>i cx. emit b (g i) cx) xs cx)" if "good b c0 cx" for xs cx
    using that by (induction xs arbitrary: cx) (simp_all add: good_emit assms(2))
  then show ?thesis using assms(1) by (simp add: emit_lanes_def)
qed

lemma fold_emit_simps [cx_simps]:
  "cx_types (fold (\<lambda>x cx. emit b (g x) cx) xs cx) = cx_types cx"
  "cx_values (fold (\<lambda>x cx. emit b (g x) cx) xs cx) = cx_values cx"
  "kind_of (fold (\<lambda>x cx. emit b (g x) cx) xs cx) = kind_of cx"
  "room n (fold (\<lambda>x cx. emit b (g x) cx) xs cx) = room n cx"
  by (induction xs arbitrary: cx) (simp_all add: cx_simps)

lemma emit_lanes_simps [cx_simps]:
  "cx_types (emit_lanes b g n cx) = cx_types cx" "cx_values (emit_lanes b g n cx) = cx_values cx"
  "kind_of (emit_lanes b g n cx) = kind_of cx" "room m (emit_lanes b g n cx) = room m cx"
  by (simp_all add: emit_lanes_def cx_simps)

lemma run_backend_type [run_intros]:
  assumes "good b c0 cx" "room 3 cx" "layout_ok l"
    "\<And>t cx'. grown 3 cx cx' \<Longrightarrow> good b c0 cx' \<Longrightarrow> tval cx' t \<Longrightarrow> run b c0 (f (t, cx')) Q"
  shows "run b c0 (Option.bind (backend_type l cx) f) Q"
proof -
  have "run b c0 (backend_type l cx) (\<lambda>t cx'. run b c0 (f (t, cx')) Q)"
    unfolding backend_type_def by (rule run_layout [OF assms])
  then show ?thesis by (auto simp: run_def)
qed

lemma run_simd_extract [run_intros]:
  assumes "good b c0 cx" "room 2 cx" "imm_ok cx args 0" "imm_ok cx args 1" "vval cx (pl_llval dest)"
    "\<And>u cx'. good b c0 cx' \<Longrightarrow> Q u cx'"
  shows "run b c0 (unit_op (codegen_simd_extract b args dest cx)) Q"
  unfolding codegen_simd_extract_def
  by (intro run_intros assms(6); use assms in \<open>simp add: run_simps cx_simps good_lanes\<close>)

lemma run_simd_cmp [run_intros]:
  assumes "good b c0 cx" "room 6 cx" "imm_ok cx args 0" "imm_ok cx args 1" "vval cx (pl_llval dest)" "layout_ok (pl_layout dest)" "name \<in> fst ` set simd_cmp_names"
    "\<And>u cx'. good b c0 cx' \<Longrightarrow> Q u cx'"
  shows "run b c0 (unit_op (codegen_simd_cmp b name args dest cx)) Q"
  unfolding codegen_simd_cmp_def Let_def
  by (intro run_intros assms(8); use assms in \<open>simp add: run_simps cx_simps good_lanes\<close>)

lemma run_lanewise [run_intros]:
  assumes "good b c0 cx" "room 3 cx" "imm_ok cx args 0" "imm_ok cx args 1" "vval cx (pl_llval dest)"
    "\<And>u cx'. good b c0 cx' \<Longrightarrow> Q u cx'"
  shows "run b c0 (unit_op (lanewise b c_op args dest cx)) Q"
  unfolding lanewise_def Let_def
  by (intro run_intros assms(6); use assms in \<open>simp add: run_simps cx_simps good_lanes\<close>)

lemma run_simd_bitwise [run_intros]:
  assumes "good b c0 cx" "room 3 cx" "imm_ok cx args 0" "imm_ok cx args 1" "vval cx (pl_llval dest)" "name \<in> fst ` set simd_bitwise_names"
    "\<And>u cx'. good b c0 cx' \<Longrightarrow> Q u cx'"
  shows "run b c0 (unit_op (codegen_simd_bitwise b name args dest cx)) Q"
  unfolding codegen_simd_bitwise_def
  by (intro run_intros assms(7); use assms in \<open>simp add: run_simps cx_simps good_lanes\<close>)

lemma run_simd_shift [run_intros]:
  assumes "good b c0 cx" "room 3 cx" "imm_ok cx args 0" "imm_ok cx args 1" "vval cx (pl_llval dest)"
    "\<And>u cx'. good b c0 cx' \<Longrightarrow> Q u cx'"
  shows "run b c0 (unit_op (codegen_simd_shift b name args dest cx)) Q"
  unfolding codegen_simd_shift_def
  by (intro run_intros assms(6); use assms in \<open>simp add: run_simps cx_simps good_lanes\<close>)

lemma run_simd_insert [run_intros]:
  assumes "good b c0 cx" "room 3 cx" "imm_ok cx args 0" "imm_ok cx args 1" "imm_ok cx args 2" "vval cx (pl_llval dest)"
    "\<And>u cx'. good b c0 cx' \<Longrightarrow> Q u cx'"
  shows "run b c0 (unit_op (codegen_simd_insert b args dest cx)) Q"
  unfolding codegen_simd_insert_def Let_def
  by (intro run_intros assms(7); use assms in \<open>simp add: run_simps cx_simps good_lanes\<close>)

lemma run_simd_cast [run_intros]:
  assumes "good b c0 cx" "room 6 cx" "imm_ok cx args 0" "vval cx (pl_llval dest)" "layout_ok (pl_layout dest)"
    "\<And>u cx'. good b c0 cx' \<Longrightarrow> Q u cx'"
  shows "run b c0 (unit_op (codegen_simd_cast b args dest cx)) Q"
  unfolding codegen_simd_cast_def Let_def
  by (intro run_intros assms(6); use assms in \<open>simp add: run_simps cx_simps good_lanes\<close>)


lemma run_shuffle_indices [run_intros]:
  assumes "good b c0 cx" "vval cx v" "\<And>ns. run b c0 (f ns) Q"
  shows "run b c0 (Option.bind (shuffle_indices cx v n) f) Q"
proof -
  obtain i where i: "vs_get (cx_values cx) v = Some i" using assms(2) by (auto simp: vs_get_def)
  have "\<exists>ns. opt_map (\<lambda>e. map_option (\<lambda>x. case x of Some n \<Rightarrow> n | None \<Rightarrow> 0) (as_u64_opt (cx_values cx) e)) es =
      Some ns" if "v_kind i = VectorConst es t" for es t
  proof (rule opt_map_total)
    fix e assume "e \<in> set es"
    then have "vval cx e"
      using vs_wf_refs [OF _ i, of e] good_wf [OF assms(1)] that assms(2) by (auto simp: cx_wf_def)
    then show "\<exists>y. map_option (\<lambda>x. case x of Some n \<Rightarrow> n | None \<Rightarrow> 0) (as_u64_opt (cx_values cx) e) = Some y"
      by (auto simp: as_u64_opt_def vs_get_def)
  qed
  then have "\<exists>ns. shuffle_indices cx v n = Some ns"
    by (auto simp: shuffle_indices_def i split: CValueKind.splits)
  then show ?thesis using assms(3) by auto
qed

lemma good_fold_emit [run_intros]:
  assumes "good b c0 cx" "\<And>x. stmt_labels (g x) = []"
  shows "good b c0 (fold (\<lambda>x cx. emit b (g x) cx) xs cx)"
  using assms(1) by (induction xs arbitrary: cx) (simp_all add: good_emit assms(2))

lemma run_shuffle_array [run_intros]:
  assumes "good b c0 cx" "room 1 cx" "tval cx ty" "\<And>u cx'. grown 1 cx cx' \<Longrightarrow> good b c0 cx' \<Longrightarrow> Q u cx'"
  shows "run b c0 (shuffle_array b ty t n v1 v2 cx) Q"
  unfolding shuffle_array_def Let_def
  by (intro run_intros assms(4); use assms in \<open>simp add: run_simps cx_simps\<close>)

lemma run_shuffle_end:
  assumes "good b c0 cx" "room 3 cx" "vval cx i" "tval cx rt" "tval cx et" "vval cx (pl_llval dest)"
    "\<And>u cx'. good b c0 cx' \<Longrightarrow> Q u cx'"
  shows "run b c0 (Option.bind (shuffle_array b et t n v1 v2 cx) (\<lambda>(arr_name, cx).
      unit_op (do { index_vals \<leftarrow> shuffle_indices cx i m;
          ((result, rn), cx) \<leftarrow> declared_temp b rt cx;
          let cx = fold (\<lambda>ik cx. emit b (Assign (Raw (lane rn (fst ik)))
                     (Index (Var arr_name) (Lit (nat_str (snd ik))))) cx) (enumerate 0 index_vals) cx;
          store_result b result dest cx }))) Q"
  unfolding Let_def
  by (intro run_intros assms(7); use assms in \<open>simp add: run_simps cx_simps good_fold_emit\<close>)

lemma run_simd_shuffle [run_intros]:
  assumes "good b c0 cx" "room 6 cx" "imm_ok cx args 0" "imm_ok cx args 1" "imm_ok cx args 2"
    "vval cx (pl_llval dest)" "layout_ok (pl_layout dest)"
    "\<And>u cx'. good b c0 cx' \<Longrightarrow> Q u cx'"
  shows "run b c0 (unit_op (codegen_simd_shuffle b args dest cx)) Q"
proof -
  note fin = run_shuffle_end [unfolded Let_def]
  obtain v0 v1 v2 where v: "immediate_arg args 0 = Some v0" "immediate_arg args 1 = Some v1"
    "immediate_arg args 2 = Some v2" "vval cx v0" "vval cx v1" "vval cx v2"
    using assms(3-5) by (auto simp: imm_ok_def)
  show ?thesis
    unfolding codegen_simd_shuffle_def Let_def v(1-3)
    by (intro fin run_intros assms(8); use assms v in \<open>simp add: run_simps cx_simps\<close>)
qed

section \<open>Memory and calls\<close>

lemma run_typed_swap [run_intros]:
  assumes "good b c0 cx" "imm_ok cx args 0" "imm_ok cx args 1" "\<And>u cx'. good b c0 cx' \<Longrightarrow> Q u cx'"
  shows "run b c0 (unit_op (codegen_typed_swap b l args cx)) Q"
  unfolding codegen_typed_swap_def Let_def
  by (intro run_intros assms(4); use assms in \<open>simp add: run_simps cx_simps\<close>)

lemma run_call_result [run_intros]:
  assumes "good b c0 cx" "room 2 cx" "tval cx ty" "vval cx (pl_llval dest)"
    "\<And>u cx'. grown 2 cx cx' \<Longrightarrow> good b c0 cx' \<Longrightarrow> Q u cx'"
  shows "run b c0 (unit_op (call_result b ty e dest cx)) Q"
  unfolding call_result_def
  by (intro run_intros assms(5); use assms in \<open>simp add: run_simps cx_simps\<close>)

lemma run_powi [run_intros]:
  assumes "good b c0 cx" "room 2 cx" "imm_ok cx args 0" "imm_ok cx args 1" "vval cx (pl_llval dest)"
    "\<And>u cx'. good b c0 cx' \<Longrightarrow> Q u cx'"
  shows "run b c0 (unit_op (codegen_powi b f ct args dest cx)) Q"
  unfolding codegen_powi_def
  by (intro run_intros assms(6); use assms in \<open>simp add: run_simps cx_simps\<close>)

lemma run_fma [run_intros]:
  assumes "good b c0 cx" "room 2 cx" "imm_ok cx args 0" "imm_ok cx args 1" "imm_ok cx args 2" "vval cx (pl_llval dest)"
    "\<And>u cx'. good b c0 cx' \<Longrightarrow> Q u cx'"
  shows "run b c0 (unit_op (codegen_fma b f args dest cx)) Q"
  unfolding codegen_fma_def
  by (intro run_intros assms(7); use assms in \<open>simp add: run_simps cx_simps\<close>)

lemma run_raw_eq [run_intros]:
  assumes "good b c0 cx" "room 3 cx" "imm_ok cx args 0" "imm_ok cx args 1" "vval cx (pl_llval dest)"
    "\<And>u cx'. good b c0 cx' \<Longrightarrow> Q u cx'"
  shows "run b c0 (unit_op (codegen_raw_eq b l args dest cx)) Q"
  unfolding codegen_raw_eq_def Let_def type_i8_def
  by (intro run_intros assms(6); use assms in \<open>simp add: run_simps cx_simps\<close>)

lemma run_compare_bytes [run_intros]:
  assumes "good b c0 cx" "room 3 cx" "imm_ok cx args 0" "imm_ok cx args 1" "imm_ok cx args 2" "vval cx (pl_llval dest)"
    "\<And>u cx'. good b c0 cx' \<Longrightarrow> Q u cx'"
  shows "run b c0 (unit_op (codegen_compare_bytes b args dest cx)) Q"
  unfolding codegen_compare_bytes_def Let_def type_i32_def
  by (intro run_intros assms(7); use assms in \<open>simp add: run_simps cx_simps\<close>)

lemma run_catch_unwind [run_intros]:
  assumes "good b c0 cx" "room 3 cx" "imm_ok cx args 0" "imm_ok cx args 1" "imm_ok cx args 2" "vval cx (pl_llval dest)"
    "\<And>u cx'. good b c0 cx' \<Longrightarrow> Q u cx'"
  shows "run b c0 (unit_op (codegen_catch_unwind b args dest cx)) Q"
  unfolding codegen_catch_unwind_def Let_def type_i32_def
  by (intro run_intros assms(7); use assms in \<open>simp add: run_simps cx_simps\<close>)

lemma run_volatile_store [run_intros]:
  assumes "good b c0 cx" "room 1 cx" "imm_ok cx args 0" "imm_ok cx args 1"
    "\<And>u cx'. good b c0 cx' \<Longrightarrow> Q u cx'"
  shows "run b c0 (unit_op (codegen_volatile_store b args cx)) Q"
  unfolding codegen_volatile_store_def
  by (intro run_intros assms(5); use assms in \<open>simp add: run_simps cx_simps\<close>)

lemma run_va_copy [run_intros]:
  assumes "good b c0 cx" "room 1 cx" "imm_ok cx args 0" "imm_ok cx args 1"
    "\<And>u cx'. good b c0 cx' \<Longrightarrow> Q u cx'"
  shows "run b c0 (unit_op (codegen_va_copy b args cx)) Q"
  unfolding codegen_va_copy_def
  by (intro run_intros assms(5); use assms in \<open>simp add: run_simps cx_simps\<close>)

lemma run_va_arg_intrinsic [run_intros]:
  assumes "good b c0 cx" "room 6 cx" "imm_ok cx args 0" "vval cx (pl_llval dest)" "layout_ok l"
    "\<And>u cx'. good b c0 cx' \<Longrightarrow> Q u cx'"
  shows "run b c0 (unit_op (codegen_va_arg b l args dest cx)) Q"
  unfolding codegen_va_arg_def
  by (intro run_intros assms(6); use assms in \<open>force simp: run_simps cx_simps imm_ok_def\<close>)

lemma run_simd_fallback [run_intros]:
  assumes "good b c0 cx" "room 1 cx" "vval cx (pl_llval dest)"
    "\<And>u cx'. good b c0 cx' \<Longrightarrow> Q u cx'"
  shows "run b c0 (unit_op (codegen_simd_fallback b dest cx)) Q"
  unfolding codegen_simd_fallback_def
  by (intro run_intros assms(4); use assms in \<open>simp add: run_simps cx_simps\<close>)


lemma run_volatile_load_intrinsic [run_intros]:
  assumes "good b c0 cx" "room 5 cx" "imm_ok cx args 0" "vval cx (pl_llval dest)" "layout_ok l"
    "\<And>u cx'. good b c0 cx' \<Longrightarrow> Q u cx'"
  shows "run b c0 (unit_op (codegen_volatile_load b l args dest cx)) Q"
proof -
  obtain v where v: "immediate_arg args 0 = Some v" "vval cx v" using assms(3) by (auto simp: imm_ok_def)
  show ?thesis
    unfolding codegen_volatile_load_def v(1)
    by (intro run_intros assms(6); use assms v in \<open>simp add: run_simps cx_simps\<close>)
qed

lemma run_statically_known [run_intros]:
  assumes "good b c0 cx" "room 3 cx" "vval cx (pl_llval dest)" "\<And>u cx'. good b c0 cx' \<Longrightarrow> Q u cx'"
  shows "run b c0 (unit_op (codegen_statically_known b dest cx)) Q"
proof -
  have "run b c0 (Some (const_bool False cx)) (\<lambda>v cx'. run b c0 (unit_op (store_result b v dest cx')) Q)"
    unfolding const_bool_def Let_def
    by (intro run_intros assms(4); use assms in \<open>simp add: run_simps cx_simps\<close>)
  then show ?thesis by (auto simp: run_def codegen_statically_known_def case_prod_beta)
qed

lemma run_select_unpredictable [run_intros]:
  assumes "good b c0 cx" "room 3 cx" "imm_ok cx args 0" "imm_ok cx args 1" "imm_ok cx args 2"
    "vval cx (pl_llval dest)" "\<And>u cx'. good b c0 cx' \<Longrightarrow> Q u cx'"
  shows "run b c0 (unit_op (codegen_select_unpredictable b args dest cx)) Q"
proof -
  obtain v0 v1 v2 where v: "immediate_arg args 0 = Some v0" "immediate_arg args 1 = Some v1"
    "immediate_arg args 2 = Some v2" "vval cx v0" "vval cx v1" "vval cx v2"
    using assms(3-5) by (auto simp: imm_ok_def)
  show ?thesis
    unfolding codegen_select_unpredictable_def v(1-3)
    by (intro run_intros assms(7); use assms v in \<open>simp add: run_simps cx_simps\<close>)
qed

section \<open>The dispatch\<close>

definition intrinsic_args :: "(string \<times> nat) list" where
  "intrinsic_args =
     [(''carrying_mul_add'', 4), (''catch_unwind'', 3), (''select_unpredictable'', 3),
      (''compare_bytes'', 3), (''fmaf32'', 3), (''fmuladdf32'', 3), (''fmaf64'', 3),
      (''fmuladdf64'', 3), (''unchecked_funnel_shl'', 3), (''unchecked_funnel_shr'', 3),
      (''simd_insert'', 3), (''simd_shuffle'', 3), (''simd_shuffle_const_generic'', 3),
      (''volatile_store'', 2), (''va_copy'', 2), (''saturating_add'', 2), (''saturating_sub'', 2),
      (''powif32'', 2), (''powif64'', 2), (''raw_eq'', 2), (''rotate_left'', 2),
      (''rotate_right'', 2), (''simd_extract'', 2), (''simd_shl'', 2), (''simd_shr'', 2),
      (''typed_swap_nonoverlapping'', 2), (''volatile_load'', 1), (''unaligned_volatile_load'', 1),
      (''va_arg'', 1), (''ctlz'', 1), (''ctlz_nonzero'', 1), (''cttz'', 1), (''cttz_nonzero'', 1),
      (''ctpop'', 1), (''bswap'', 1), (''bitreverse'', 1), (''simd_cast'', 1), (''simd_as'', 1)]
     @ map (\<lambda>(n, c). (n, 1)) unary_math_names
     @ map (\<lambda>(n, c). (n, 2)) (binary_math_names @ simd_cmp_names @ simd_bitwise_names)"

definition intrinsic_arity :: "string \<Rightarrow> nat" where
  "intrinsic_arity name = (case map_of intrinsic_args name of Some n \<Rightarrow> n | None \<Rightarrow> 0)"

definition integer_intrinsic :: "string \<Rightarrow> bool" where
  "integer_intrinsic name =
     (name \<in> {''ctlz'', ''ctlz_nonzero'', ''cttz'', ''cttz_nonzero'', ''ctpop'', ''bswap'', ''bitreverse'',
       ''saturating_add'', ''saturating_sub'', ''rotate_left'', ''rotate_right'', ''unchecked_funnel_shl'',
       ''unchecked_funnel_shr''})"

lemma arity_simps:
  "intrinsic_arity ''carrying_mul_add'' = 4"
  "intrinsic_arity ''catch_unwind'' = 3"
  "intrinsic_arity ''select_unpredictable'' = 3"
  "intrinsic_arity ''compare_bytes'' = 3"
  "intrinsic_arity ''fmaf32'' = 3"
  "intrinsic_arity ''fmuladdf32'' = 3"
  "intrinsic_arity ''fmaf64'' = 3"
  "intrinsic_arity ''fmuladdf64'' = 3"
  "intrinsic_arity ''unchecked_funnel_shl'' = 3"
  "intrinsic_arity ''unchecked_funnel_shr'' = 3"
  "intrinsic_arity ''simd_insert'' = 3"
  "intrinsic_arity ''simd_shuffle'' = 3"
  "intrinsic_arity ''simd_shuffle_const_generic'' = 3"
  "intrinsic_arity ''volatile_store'' = 2"
  "intrinsic_arity ''va_copy'' = 2"
  "intrinsic_arity ''saturating_add'' = 2"
  "intrinsic_arity ''saturating_sub'' = 2"
  "intrinsic_arity ''powif32'' = 2"
  "intrinsic_arity ''powif64'' = 2"
  "intrinsic_arity ''raw_eq'' = 2"
  "intrinsic_arity ''rotate_left'' = 2"
  "intrinsic_arity ''rotate_right'' = 2"
  "intrinsic_arity ''simd_extract'' = 2"
  "intrinsic_arity ''simd_shl'' = 2"
  "intrinsic_arity ''simd_shr'' = 2"
  "intrinsic_arity ''typed_swap_nonoverlapping'' = 2"
  "intrinsic_arity ''volatile_load'' = 1"
  "intrinsic_arity ''unaligned_volatile_load'' = 1"
  "intrinsic_arity ''va_arg'' = 1"
  "intrinsic_arity ''ctlz'' = 1"
  "intrinsic_arity ''ctlz_nonzero'' = 1"
  "intrinsic_arity ''cttz'' = 1"
  "intrinsic_arity ''cttz_nonzero'' = 1"
  "intrinsic_arity ''ctpop'' = 1"
  "intrinsic_arity ''bswap'' = 1"
  "intrinsic_arity ''bitreverse'' = 1"
  "intrinsic_arity ''simd_cast'' = 1"
  "intrinsic_arity ''simd_as'' = 1"
  by code_simp+

lemma integer_simps:
  "integer_intrinsic ''ctlz''"
  "integer_intrinsic ''ctlz_nonzero''"
  "integer_intrinsic ''cttz''"
  "integer_intrinsic ''cttz_nonzero''"
  "integer_intrinsic ''ctpop''"
  "integer_intrinsic ''bswap''"
  "integer_intrinsic ''bitreverse''"
  "integer_intrinsic ''saturating_add''"
  "integer_intrinsic ''saturating_sub''"
  "integer_intrinsic ''rotate_left''"
  "integer_intrinsic ''rotate_right''"
  "integer_intrinsic ''unchecked_funnel_shl''"
  "integer_intrinsic ''unchecked_funnel_shr''"
  by (simp_all add: integer_intrinsic_def)

text \<open>
  The arguments are there and immediate, the destination is sound, and so is the first type
  argument; for the integer intrinsics the first argument has a width. \<open>black_box\<close> passes its
  operand to the compiler's own store, which is taken to work on the destination.
\<close>

definition intrinsic_ok ::
  "SsaLib \<Rightarrow> Builder \<Rightarrow> CodegenCx \<Rightarrow> Instance \<Rightarrow> Operand list \<Rightarrow> Place \<Rightarrow> bool" where
  "intrinsic_ok lib b cx inst args dest =
     (vval cx (pl_llval dest) \<and> layout_ok (pl_layout dest) \<and> layout_ok (i_type0 inst) \<and>
      (\<forall>i < intrinsic_arity (i_name inst). imm_ok cx args i) \<and>
      (integer_intrinsic (i_name inst) \<longrightarrow> first_type_ok cx args) \<and>
      (i_name inst = ''black_box'' \<longrightarrow>
        (\<exists>x cx'. idx args 0 = Some x \<and> ssa_store_operand lib b x dest cx = Some cx' \<and> good b cx cx')))"

lemma arity_names:
  "name \<in> fst ` set unary_math_names \<Longrightarrow> intrinsic_arity name = 1"
  "name \<in> fst ` set binary_math_names \<Longrightarrow> intrinsic_arity name = 2"
  "name \<in> fst ` set simd_cmp_names \<Longrightarrow> intrinsic_arity name = 2"
  "name \<in> fst ` set simd_bitwise_names \<Longrightarrow> intrinsic_arity name = 2"
proof -
  have "list_all (\<lambda>n. intrinsic_arity n = 1) (map fst unary_math_names)"
    "list_all (\<lambda>n. intrinsic_arity n = 2) (map fst (binary_math_names @ simd_cmp_names @ simd_bitwise_names))"
    by code_simp+
  then show "name \<in> fst ` set unary_math_names \<Longrightarrow> intrinsic_arity name = 1"
    "name \<in> fst ` set binary_math_names \<Longrightarrow> intrinsic_arity name = 2"
    "name \<in> fst ` set simd_cmp_names \<Longrightarrow> intrinsic_arity name = 2"
    "name \<in> fst ` set simd_bitwise_names \<Longrightarrow> intrinsic_arity name = 2"
    by (auto simp: list_all_iff)
qed

lemma branch:
  "(c \<Longrightarrow> run b c0 x Q) \<Longrightarrow> run b c0 y Q \<Longrightarrow> run b c0 (if c then x else y) Q"
  by simp

lemma run_handled [run_intros]:
  "run b c0 (unit_op m) (\<lambda>_ cx'. Q True cx') \<Longrightarrow> run b c0 (map_option (Pair True) m) Q"
  by (auto simp: run_def)

lemma run_black_box:
  assumes "cx_wf cx" "vval cx (pl_llval dest)"
    "\<exists>x cx'. idx args 0 = Some x \<and> ssa_store_operand lib b x dest cx = Some cx' \<and> good b cx cx'"
  shows "run b cx (unit_op (codegen_black_box lib b args dest cx)) (\<lambda>_ _. True)"
proof -
  from assms(3) obtain x cx' where x: "idx args 0 = Some x" "ssa_store_operand lib b x dest cx = Some cx'"
    and g: "good b cx cx'" by blast
  then obtain ds ss n where r: "reach b (appends b ds ss) n cx cx'" by (auto simp: good_def)
  then have "vval cx' (pl_llval dest)"
    using assms(2) by (auto simp: reach_def keeps_def dest!: vs_le_length)
  then obtain s where "render_value cx' (pl_llval dest) = Some s"
    using text_total [OF good_wf [OF g]] by blast
  then show ?thesis using x g by (auto simp: codegen_black_box_def run_def intro!: good_emit)
qed

text \<open>An intrinsic on valid operands is generated without a panic, by one good step.\<close>

lemma intrinsic_run:
  assumes wf: "cx_wf cx" and rm: "room 8 cx" and ok: "intrinsic_ok lib b cx inst args dest"
  shows "run b cx (codegen_intrinsic_call lib b inst args dest cx) (\<lambda>_ _. True)"
proof -
  note g = good_refl [OF wf, of b]
  have rms: "room 1 cx" "room 2 cx" "room 3 cx" "room 5 cx" "room 6 cx" using rm by (auto simp: room_def)
  have d: "vval cx (pl_llval dest)" "layout_ok (pl_layout dest)" "layout_ok (i_type0 inst)"
    and ar: "\<And>i. i < intrinsic_arity (i_name inst) \<Longrightarrow> imm_ok cx args i"
    and ft: "integer_intrinsic (i_name inst) \<Longrightarrow> first_type_ok cx args"
    and bb: "i_name inst = ''black_box'' \<Longrightarrow>
      \<exists>x cx'. idx args 0 = Some x \<and> ssa_store_operand lib b x dest cx = Some cx' \<and> good b cx cx'"
    using ok by (auto simp: intrinsic_ok_def)
  show ?thesis
    unfolding codegen_intrinsic_call_def Let_def codegen_ctlz_def codegen_cttz_def codegen_ctpop_def
    by (intro branch run_handled; (rule run_black_box [OF wf d(1) bb], assumption)?;
        (intro run_intros TrueI)?; (elim insertE emptyE)?;
        (frule arity_names)?; simp add: g rms rms(1) [unfolded One_nat_def] d ar ft arity_simps integer_simps)
qed

end
