(* ===== verification/BuilderMachine.thy ===== *)
theory BuilderMachine
  imports IntrinsicRun
begin

text \<open>
  Executions of the builder: straight-line instructions, intrinsics, terminators, inline
  assembly, new blocks and switching blocks, in any order. In every context that can be reached, each open function
  is well formed, its labels are distinct and every jump goes to one of them.
\<close>

section \<open>Terminators\<close>

datatype Terminator =
    TRetVoid
  | TRet ValueRef
  | TBr BasicBlockId
  | TCondBr ValueRef BasicBlockId BasicBlockId
  | TSwitch ValueRef BasicBlockId "(nat \<times> BasicBlockId) list"
  | TUnreachable
  | TResume ValueRef ValueRef
  | TCleanupRet "BasicBlockId option"

fun exec_term :: "Builder \<Rightarrow> Terminator \<Rightarrow> CodegenCx \<Rightarrow> CodegenCx option" where
  "exec_term b TRetVoid cx = Some (ret_void b cx)"
| "exec_term b (TRet v) cx = ret b v cx"
| "exec_term b (TBr dest) cx = Some (br b dest cx)"
| "exec_term b (TCondBr c t e) cx = cond_br b c t e cx"
| "exec_term b (TSwitch v d cases) cx = switch b v d cases cx"
| "exec_term b TUnreachable cx = Some (unreachable b cx)"
| "exec_term b (TResume x y) cx = op_resume b x y cx"
| "exec_term b (TCleanupRet u) cx = Some (cleanup_ret b u cx)"

fun term_values :: "Terminator \<Rightarrow> ValueRef list" where
  "term_values (TRet v) = [v]"
| "term_values (TCondBr c t e) = [c]"
| "term_values (TSwitch v d cases) = [v]"
| "term_values (TResume x y) = [x, y]"
| "term_values _ = []"

fun term_blocks :: "Terminator \<Rightarrow> BasicBlockId list" where
  "term_blocks (TBr dest) = [dest]"
| "term_blocks (TCondBr c t e) = [t, e]"
| "term_blocks (TSwitch v d cases) = d # map snd cases"
| "term_blocks (TCleanupRet (Some dest)) = [dest]"
| "term_blocks _ = []"

text \<open>The block is one of the current function.\<close>

definition block_defined :: "Builder \<Rightarrow> CodegenCx \<Rightarrow> BasicBlockId \<Rightarrow> bool" where
  "block_defined b cx bb =
     (case lookup_current_fn b cx of
        Some f \<Rightarrow> bt_get (fd_blocks f) (bid bb) \<noteq> None | None \<Rightarrow> False)"

definition term_ok :: "Builder \<Rightarrow> CodegenCx \<Rightarrow> Terminator \<Rightarrow> bool" where
  "term_ok b cx t =
     (list_all (vval cx) (term_values t) \<and> list_all (block_defined b cx) (term_blocks t))"

section \<open>Jumps\<close>

definition fn_labels :: "FunctionDef \<Rightarrow> string set" where
  "fn_labels f = set (map (\<lambda>e. bb_label (snd e)) (fd_blocks f))"

definition fn_closed :: "FunctionDef \<Rightarrow> bool" where
  "fn_closed f =
     (\<forall>e \<in> set (fd_blocks f). \<forall>s \<in> set (bb_statements (snd e)). set (stmt_labels s) \<subseteq> fn_labels f)"

definition machine_inv :: "CodegenCx \<Rightarrow> bool" where
  "machine_inv cx =
     (cx_wf cx \<and> (\<forall>(n, f) \<in> set (open_functions (cx_module cx)). fn_closed f))"

lemma bt_get_in: "bt_get m k = Some v \<Longrightarrow> (k, v) \<in> set m"
  by (simp add: bt_get_def map_of_SomeD)

lemma bt_in_get: "bt_inv m \<Longrightarrow> (k, v) \<in> set m \<Longrightarrow> bt_get m k = Some v"
  by (simp add: bt_get_def bt_inv_def)

lemma block_label_defined:
  assumes "block_defined b cx bb" "lookup_current_fn b cx = Some f"
  shows "block_label b cx bb \<in> fn_labels f"
proof -
  obtain blk where "bt_get (fd_blocks f) (bid bb) = Some blk"
    using assms by (auto simp: block_defined_def)
  then show ?thesis
    using assms(2) by (force simp: block_label_def fn_labels_def dest: bt_get_in)
qed

lemma bt_adjust_labels:
  "(\<And>blk. bb_label (g blk) = bb_label blk) \<Longrightarrow>
   map (\<lambda>e. bb_label (snd e)) (bt_adjust k g m) = map (\<lambda>e. bb_label (snd e)) m"
  by (auto simp: bt_adjust_def)

lemma fn_labels_appends [simp]: "fn_labels (appends b ds ss f) = fn_labels f"
  by (simp add: fn_labels_def appends_def bt_adjust_labels)

lemma fn_labels_terminated [simp]: "fn_labels (fd_set_terminated bb f) = fn_labels f"
  by (simp add: fn_labels_def fd_set_terminated_def bt_adjust_labels)

lemma fn_closed_appends:
  assumes "fn_closed f" "\<forall>s \<in> set ss. set (stmt_labels s) \<subseteq> fn_labels f"
  shows "fn_closed (appends b ds ss f)"
  unfolding fn_closed_def fn_labels_appends
  using assms by (fastforce simp: fn_closed_def appends_def bt_adjust_def)

lemma fn_closed_terminated: "fn_closed f \<Longrightarrow> fn_closed (fd_set_terminated bb f)"
  unfolding fn_closed_def fn_labels_terminated
  by (fastforce simp: fd_set_terminated_def bt_adjust_def)

text \<open>The functions of a context after a step that updates the current one.\<close>

lemma reach_closed:
  assumes r: "reach b g n cx cx'" and inv: "machine_inv cx"
    and g: "\<And>f. lookup_current_fn b cx = Some f \<Longrightarrow> fn_closed f \<Longrightarrow> fn_closed (g f)"
  shows "machine_inv cx'"
proof -
  have "fn_closed f'"
    if "(m, f') \<in> set (bt_adjust (current_fn b) g (open_functions (cx_module cx)))" for m f'
  proof -
    from that obtain f where f: "(m, f) \<in> set (open_functions (cx_module cx))"
      and f': "f' = (if m = current_fn b then g f else f)"
      by (auto simp: bt_adjust_set)
    have "fn_closed f" using inv f by (auto simp: machine_inv_def)
    moreover have "lookup_current_fn b cx = Some f" if "m = current_fn b"
      using inv f that by (auto simp: lookup_current_fn_def machine_inv_def cx_wf_def intro: bt_in_get)
    ultimately show ?thesis using f' g by auto
  qed
  then show ?thesis using r by (auto simp: machine_inv_def reach_def)
qed

lemma good_machine_inv: "good b cx cx' \<Longrightarrow> machine_inv cx \<Longrightarrow> machine_inv cx'"
  unfolding good_def straight_def
  by (elim exE conjE, erule reach_closed, assumption, rule fn_closed_appends) auto

text \<open>A statement that ends the current block, with jumps to defined blocks only.\<close>

lemma end_block_inv:
  assumes inv: "machine_inv cx"
    and l: "\<And>f. lookup_current_fn b cx = Some f \<Longrightarrow> set (stmt_labels s) \<subseteq> fn_labels f"
  shows "machine_inv (set_terminated b (emit b s cx))"
proof -
  have wf: "cx_wf cx" using inv by (simp add: machine_inv_def)
  note r1 = reach_emit [OF wf, of b s]
  note r2 = reach_set_terminated [OF reach_wf [OF r1], of b]
  show ?thesis
    by (rule reach_closed [OF reach_trans [OF r1 r2] inv])
      (use l in \<open>auto intro!: fn_closed_terminated fn_closed_appends\<close>)
qed

lemma lookup_current_typed:
  "cx_wf cx \<Longrightarrow> lookup_current_fn b cx = Some f \<Longrightarrow> fn_typed (cx_types cx) f"
  by (auto simp: lookup_current_fn_def cx_wf_def dest!: bt_get_in)

lemma exec_term_ok:
  assumes inv: "machine_inv cx" and ok: "term_ok b cx t"
  shows "\<exists>cx'. exec_term b t cx = Some cx' \<and> machine_inv cx' \<and>
    cx_types cx' = cx_types cx \<and> cx_values cx' = cx_values cx"
proof -
  have wf: "cx_wf cx" using inv by (simp add: machine_inv_def)
  have tx: "\<exists>s. render_value cx v = Some s" if "v \<in> set (term_values t)" for v
    using that ok by (intro text_total wf) (auto simp: term_ok_def list_all_iff)
  have lbl: "block_label b cx bb \<in> fn_labels f"
    if "bb \<in> set (term_blocks t)" "lookup_current_fn b cx = Some f" for bb f
    using that ok by (intro block_label_defined) (auto simp: term_ok_def list_all_iff)
  define fin where "fin m = (\<exists>cx'. m = Some cx' \<and> machine_inv cx' \<and>
      cx_types cx' = cx_types cx \<and> cx_values cx' = cx_values cx)" for m
  have ends: "fin (Some (set_terminated b (emit b s cx)))"
    if "\<And>f. lookup_current_fn b cx = Some f \<Longrightarrow> set (stmt_labels s) \<subseteq> fn_labels f" for s
    using end_block_inv [OF inv that]
    by (auto simp: fin_def set_terminated_def emit_def with_current_fn_def Let_def)
  have "fin (exec_term b t cx)"
  proof (cases t)
    case TRetVoid
    then show ?thesis
      by (cases "Option.bind (lookup_current_fn b cx) fd_retbuf_name")
        (simp_all add: ret_void_def ends)
  next
    case (TRet v)
    obtain x where x: "render_value cx v = Some x" using tx TRet by auto
    have "\<exists>k. kind_of cx (fd_return_type f) = Some k" if "lookup_current_fn b cx = Some f" for f
      using lookup_current_typed [OF wf that] by (intro tval_kind) (simp add: fn_typed_def)
    then obtain v where "(case lookup_current_fn b cx of
        Some f \<Rightarrow> map_option (\<lambda>k. k = TVoid) (kind_of cx (fd_return_type f)) | None \<Rightarrow> Some False) = Some v"
      by (cases "lookup_current_fn b cx") auto
    then show ?thesis using x TRet by (cases v) (simp_all add: ret_def ends)
  next
    case (TBr dest)
    then show ?thesis by (simp add: br_def Let_def ends lbl)
  next
    case (TCondBr c d e)
    obtain x where "render_value cx c = Some x" using tx TCondBr by auto
    then show ?thesis using TCondBr by (simp add: cond_br_def ends lbl)
  next
    case (TSwitch v d cases)
    obtain x where x: "render_value cx v = Some x" using tx TSwitch by auto
    obtain ty k where k: "type_of_value cx v = Some ty" "kind_of cx ty = Some k"
      using type_total [OF wf, of v] ok TSwitch by (auto simp: term_ok_def)
    have "set (map snd (map (\<lambda>(constant, bb). (case_expr constant, block_label b cx bb)) cases)
        @ [block_label b cx d]) \<subseteq> fn_labels f" if "lookup_current_fn b cx = Some f" for f
      using lbl [OF _ that] TSwitch by (auto simp: rev_image_eqI)
    then show ?thesis using TSwitch x k by (simp add: switch_def ends)
  next
    case TUnreachable
    then show ?thesis by (simp add: unreachable_def ends)
  next
    case (TResume x y)
    obtain s where "render_value cx x = Some s" using tx TResume by auto
    then show ?thesis using TResume by (simp add: op_resume_def ends)
  next
    case (TCleanupRet u)
    then show ?thesis by (cases u) (simp_all add: cleanup_ret_def Let_def ends lbl)
  qed
  then show ?thesis by (simp add: fin_def)
qed

section \<open>Blocks\<close>

lemma set_bt_insert_fresh: "k \<notin> fst ` set m \<Longrightarrow> set (bt_insert k v m) = insert (k, v) (set m)"
  by (induction m) (auto split: if_splits)

text \<open>Appending a block keeps every label and jump, and its label is new.\<close>

lemma new_block_closed:
  assumes wf: "fd_wf f" and cl: "fn_closed f" and nb: "new_block l f = (bb, f')"
  shows "fn_closed f'" "fn_labels f' = insert l (fn_labels f)" "bt_get (fd_blocks f') (bid bb) \<noteq> None"
proof -
  have new: "fd_block_counter f \<notin> fst ` set (fd_blocks f)" using wf by (auto simp: fd_wf_def)
  have bl: "set (fd_blocks f') = insert (fd_block_counter f,
      \<lparr>bb_label = l, bb_statements = [], bb_terminated = False\<rparr>) (set (fd_blocks f))"
    using nb set_bt_insert_fresh [OF new] by (auto simp: new_block_def Let_def)
  show lab: "fn_labels f' = insert l (fn_labels f)" by (simp add: fn_labels_def bl)
  show "fn_closed f'" using cl unfolding fn_closed_def lab bl by auto
  show "bt_get (fd_blocks f') (bid bb) \<noteq> None" using nb by (auto simp: new_block_def Let_def)
qed

lemma fn_typed_new_block: "new_block l f = (bb, f') \<Longrightarrow> fn_typed ts f' = fn_typed ts f"
  by (auto simp: new_block_def Let_def fn_typed_def)

lemma new_block_keeps:
  "new_block l f = (bb, f') \<Longrightarrow> bt_get (fd_blocks f) i \<noteq> None \<Longrightarrow> bt_get (fd_blocks f') i \<noteq> None"
  by (auto simp: new_block_def Let_def)

lemma push_block_inv:
  assumes inv: "machine_inv cx" and f: "bt_get (open_functions (cx_module cx)) n = Some f"
    and l: "label_number l = Some (fd_block_counter f)" and rm: "fd_block_counter f + 1 < 2 ^ 32"
    and pb: "push_block n f l cx = (bb, cx')"
  shows "machine_inv cx'"
    and "\<exists>f'. bt_get (open_functions (cx_module cx')) n = Some f' \<and> bt_get (fd_blocks f') (bid bb) \<noteq> None \<and>
      (\<forall>i. bt_get (fd_blocks f) i \<noteq> None \<longrightarrow> bt_get (fd_blocks f') i \<noteq> None) \<and>
      fn_labels f' = insert l (fn_labels f)"
    and "cx_types cx' = cx_types cx \<and> cx_values cx' = cx_values cx"
proof -
  obtain f' where nb: "new_block l f = (bb, f')"
    using pb by (auto simp: push_block_def Let_def split: prod.splits)
  have cx': "cx' = cx\<lparr>cx_module := (cx_module cx)
      \<lparr>open_functions := bt_adjust n (\<lambda>_. f') (open_functions (cx_module cx)),
       block_to_function := bt_insert (bid bb) n (block_to_function (cx_module cx))\<rparr>\<rparr>"
    using pb nb by (auto simp: push_block_def Let_def)
  have fin: "(n, f) \<in> set (open_functions (cx_module cx))" using f by (rule bt_get_in)
  then have fw: "fd_wf f" "fn_typed (cx_types cx) f" "fn_closed f"
    using inv by (auto simp: machine_inv_def cx_wf_def)
  have f'w: "fd_wf f'" "fn_typed (cx_types cx) f'" "fn_closed f'"
    using new_block_wf [OF fw(1) l rm nb] fn_typed_new_block [OF nb] fw new_block_closed [OF fw(1,3) nb]
    by auto
  show "machine_inv cx'"
    using inv f'w by (fastforce simp: machine_inv_def cx_wf_def cx' bt_adjust_set)
  show "\<exists>f'. bt_get (open_functions (cx_module cx')) n = Some f' \<and> bt_get (fd_blocks f') (bid bb) \<noteq> None \<and>
      (\<forall>i. bt_get (fd_blocks f) i \<noteq> None \<longrightarrow> bt_get (fd_blocks f') i \<noteq> None) \<and>
      fn_labels f' = insert l (fn_labels f)"
    using f new_block_closed [OF fw(1,3) nb] new_block_keeps [OF nb] by (auto simp: cx')
  show "cx_types cx' = cx_types cx \<and> cx_values cx' = cx_values cx" by (simp add: cx')
qed

definition counter_room :: "Builder \<Rightarrow> CodegenCx \<Rightarrow> bool" where
  "counter_room b cx =
     (case lookup_current_fn b cx of Some f \<Rightarrow> fd_block_counter f + 1 < 2 ^ 32 | None \<Rightarrow> False)"

lemma append_sibling_block_ok:
  assumes inv: "machine_inv cx" and rm: "counter_room b cx"
    and a: "append_sibling_block b name cx = (bb, cx')"
  shows "machine_inv cx' \<and> block_defined b cx' bb \<and>
    (\<forall>i. block_defined b cx i \<longrightarrow> block_defined b cx' i) \<and>
    cx_types cx' = cx_types cx \<and> cx_values cx' = cx_values cx"
proof -
  obtain f where f: "lookup_current_fn b cx = Some f" "fd_block_counter f + 1 < 2 ^ 32"
    using rm by (auto simp: counter_room_def split: option.splits)
  let ?l = "''bb_'' @ nat_str (fd_block_counter f) @ ''_'' @ sanitize_name name"
  have "push_block (current_fn b) f ?l cx = (bb, cx')"
    using a f by (simp add: append_sibling_block_def)
  from push_block_inv [OF inv f(1) [unfolded lookup_current_fn_def] label_number_named f(2) this] f(1)
  show ?thesis by (auto simp: block_defined_def lookup_current_fn_def)
qed

text \<open>The same for a block appended to a function given as a value.\<close>

definition fn_counter_room :: "ValueRef \<Rightarrow> CodegenCx \<Rightarrow> bool" where
  "fn_counter_room llfn cx =
     (case Option.bind (render_value cx llfn) (bt_get (open_functions (cx_module cx))) of
        Some f \<Rightarrow> fd_block_counter f + 1 < 2 ^ 32 | None \<Rightarrow> False)"

lemma append_block_ok:
  assumes inv: "machine_inv cx" and rm: "fn_counter_room llfn cx"
    and a: "append_block llfn name cx = Some (bb, cx')"
  shows "machine_inv cx'"
proof -
  obtain n f where n: "render_value cx llfn = Some n" "bt_get (open_functions (cx_module cx)) n = Some f"
    and r: "fd_block_counter f + 1 < 2 ^ 32"
    using rm by (auto simp: fn_counter_room_def bind_Some_iff split: option.splits)
  let ?l = "if name = [] then ''bb'' @ nat_str (fd_block_counter f)
    else ''bb_'' @ nat_str (fd_block_counter f) @ ''_'' @ sanitize_name name"
  have "push_block n f ?l cx = (bb, cx')" using a n by (simp add: append_block_def)
  moreover have "label_number ?l = Some (fd_block_counter f)"
    using label_number_named [of "fd_block_counter f" "sanitize_name name"]
      label_number_plain [of "fd_block_counter f"] by simp
  ultimately show ?thesis using push_block_inv(1) [OF inv n(2) _ r] by blast
qed

text \<open>Inline assembly leaves a remark and a jump to its destination.\<close>

lemma inline_asm_inv:
  assumes inv: "machine_inv cx" and d: "\<forall>bb. dest = Some bb \<longrightarrow> block_defined b cx bb"
  shows "machine_inv (codegen_inline_asm b dest cx)"
proof -
  have wf: "cx_wf cx" using inv by (simp add: machine_inv_def)
  let ?s = "RawStmt ''/* inline asm not supported */''"
  note r1 = reach_emit [OF wf, of b ?s]
  have i1: "machine_inv (emit b ?s cx)"
    by (rule reach_closed [OF r1 inv]) (auto intro!: fn_closed_appends)
  show ?thesis
  proof (cases dest)
    case None
    then show ?thesis using i1 by (simp add: codegen_inline_asm_def Let_def)
  next
    case (Some bb)
    let ?cx = "emit b ?s cx"
    have l: "lookup_current_fn b ?cx = map_option (appends b [] [?s]) (lookup_current_fn b cx)"
      by (simp add: emit_def with_current_fn_def lookup_current_fn_def Let_def fd_emit_appends)
    have "block_label b ?cx bb \<in> fn_labels f" if f: "lookup_current_fn b ?cx = Some f" for f
    proof -
      obtain f0 where f0: "lookup_current_fn b cx = Some f0" "f = appends b [] [?s] f0" using f l by auto
      have "block_defined b ?cx bb"
        using d Some f0 l by (auto simp: block_defined_def appends_def bt_get_adjust)
      from block_label_defined [OF this f] show ?thesis .
    qed
    then have "machine_inv (emit b (Goto (block_label b ?cx bb)) ?cx)"
      by (intro reach_closed [OF reach_emit [OF reach_wf [OF r1]] i1] fn_closed_appends) auto
    then show ?thesis using Some by (simp add: codegen_inline_asm_def Let_def)
  qed
qed

section \<open>Executions\<close>

text \<open>
  One step of building a function: an instruction, an intrinsic, a terminator, inline
  assembly, a new block, or moving to another block. The builder is the same throughout but
  for its current block.
\<close>

inductive build_step :: "Builder \<times> CodegenCx \<Rightarrow> Builder \<times> CodegenCx \<Rightarrow> bool" where
  instr: "instr_ok cx i \<Longrightarrow> room (instr_room i) cx \<Longrightarrow> exec_instr b i cx = Some (vs, cx') \<Longrightarrow>
    build_step (b, cx) (b, cx')"
| terminate: "term_ok b cx t \<Longrightarrow> exec_term b t cx = Some cx' \<Longrightarrow> build_step (b, cx) (b, cx')"
| append: "counter_room b cx \<Longrightarrow> append_sibling_block b name cx = (bb, cx') \<Longrightarrow>
    build_step (b, cx) (b, cx')"
| intrinsic_call: "intrinsic_ok lib b cx inst args dest \<Longrightarrow> room 8 cx \<Longrightarrow>
    codegen_intrinsic_call lib b inst args dest cx = Some (h, cx') \<Longrightarrow> build_step (b, cx) (b, cx')"
| inline_asm: "(\<forall>bb. dest = Some bb \<longrightarrow> block_defined b cx bb) \<Longrightarrow>
    build_step (b, cx) (b, codegen_inline_asm b dest cx)"
| append_to: "fn_counter_room llfn cx \<Longrightarrow> append_block llfn name cx = Some (bb, cx') \<Longrightarrow>
    build_step (b, cx) (b, cx')"
| switch_to: "build_step (b, cx) (switch_to_block bb b, cx)"

inductive_cases build_stepE: "build_step (b, cx) (b', cx')"

lemma build_step_inv:
  assumes "build_step s s'" "machine_inv (snd s)" shows "machine_inv (snd s')"
  using assms
proof (induction rule: build_step.induct)
  case (instr cx i b vs cx')
  then have "run b cx (exec_instr b i cx) some_values"
    by (intro exec_instr_run) (auto simp: machine_inv_def)
  with instr show ?case by (auto simp: run_def intro: good_machine_inv)
next
  case (terminate b cx t cx')
  then show ?case using exec_term_ok [of cx b t] by auto
next
  case (append b cx name bb cx')
  then show ?case using append_sibling_block_ok [of cx b name bb cx'] by simp
next
  case (intrinsic_call lib b cx inst args dest h cx')
  then have "run b cx (codegen_intrinsic_call lib b inst args dest cx) (\<lambda>_ _. True)"
    by (intro intrinsic_run) (auto simp: machine_inv_def)
  with intrinsic_call show ?case by (auto simp: run_def intro: good_machine_inv)
next
  case (inline_asm dest b cx)
  then show ?case using inline_asm_inv [of cx dest b] by simp
next
  case (append_to llfn cx name bb cx')
  then show ?case using append_block_ok [of cx llfn name bb cx'] by simp
qed simp

definition builds :: "Builder \<times> CodegenCx \<Rightarrow> Builder \<times> CodegenCx \<Rightarrow> bool" where
  "builds = build_step\<^sup>*\<^sup>*"

lemma builds_inv: "builds s s' \<Longrightarrow> machine_inv (snd s) \<Longrightarrow> machine_inv (snd s')"
  unfolding builds_def by (induction rule: rtranclp_induct) (auto intro: build_step_inv)

text \<open>The jumps of a function go to labels of its own, which are distinct.\<close>

definition jumps_ok :: "FunctionDef \<Rightarrow> bool" where
  "jumps_ok f =
     (distinct (map (\<lambda>e. bb_label (snd e)) (fd_blocks f)) \<and>
      (\<forall>e \<in> set (fd_blocks f). \<forall>s \<in> set (bb_statements (snd e)). \<forall>l \<in> set (stmt_labels s).
         \<exists>!i. \<exists>blk. (i, blk) \<in> set (fd_blocks f) \<and> bb_label blk = l))"

lemma distinct_unique:
  assumes "distinct (map h xs)" "l \<in> set (map h xs)" shows "\<exists>!x. x \<in> set xs \<and> h x = l"
  using assms by (auto simp: distinct_map inj_on_def)

lemma machine_inv_jumps:
  assumes inv: "machine_inv cx" and f: "bt_get (open_functions (cx_module cx)) n = Some f"
  shows "jumps_ok f"
proof -
  have f': "(n, f) \<in> set (open_functions (cx_module cx))" using f by (rule bt_get_in)
  then have wf: "fd_wf f" and cl: "fn_closed f" using inv by (auto simp: machine_inv_def cx_wf_def)
  note d = fd_wf_labels_distinct [OF wf]
  have uniq: "\<exists>!i. \<exists>blk. (i, blk) \<in> set (fd_blocks f) \<and> bb_label blk = l" if "l \<in> fn_labels f" for l
  proof -
    from distinct_unique [OF d that [unfolded fn_labels_def]] obtain i blk where
      "(i, blk) \<in> set (fd_blocks f)" "bb_label blk = l"
      and u: "\<And>x. x \<in> set (fd_blocks f) \<Longrightarrow> bb_label (snd x) = l \<Longrightarrow> x = (i, blk)" by (metis surj_pair snd_conv)
    then show ?thesis by (intro ex1I [of _ i]) auto
  qed
  have "l \<in> fn_labels f"
    if "e \<in> set (fd_blocks f)" "s \<in> set (bb_statements (snd e))" "l \<in> set (stmt_labels s)" for e s l
    using cl that by (auto simp: fn_closed_def)
  then show ?thesis unfolding jumps_ok_def using d uniq by blast
qed

end
