(* ===== verification/Sample.thy ===== *)
theory Sample
  imports BuilderMachine
begin

text \<open>
  A concrete context: a module for a 64-bit target with the open function
  \<open>int32_t f(int32_t _arg0, int32_t _arg1)\<close>, which has one empty block. The witnesses of the
  properties use it.
\<close>

definition sample_fn :: FunctionDef where
  "sample_fn = snd (new_block ''bb0''
     (FunctionDef_new ''f'' (TypeRef 1) [(TypeRef 1, ''_arg0''), (TypeRef 1, ''_arg1'')]))"

text \<open>
  Types: 0 \<open>void\<close>, 1 \<open>int32_t\<close>, 2 \<open>int64_t\<close>, 3 \<open>uint32_t\<close>, 4 \<open>void *\<close>, 5 \<open>_Bool\<close>.
  Values: the arguments 0 and 1, a boolean 2, an unsigned 3 and a pointer 4.
\<close>

definition sample_types :: TypeStore where
  "sample_types = snd (types.adds
     [TVoid, TInt 32 True, TInt 64 True, TInt 32 False, TPtr, TBool] TypeStore_new)"

definition sample_values :: ValueStore where
  "sample_values = snd (arena.adds
     [\<lparr>v_kind = Param 0, v_ty = TypeRef 1\<rparr>, \<lparr>v_kind = Param 1, v_ty = TypeRef 1\<rparr>,
      \<lparr>v_kind = BoolConst True, v_ty = TypeRef 5\<rparr>, \<lparr>v_kind = UintConst 7, v_ty = TypeRef 3\<rparr>,
      \<lparr>v_kind = NullPtr, v_ty = TypeRef 4\<rparr>] ValueStore_new)"

definition sample_cx :: CodegenCx where
  "sample_cx = (CodegenCx_new 64 (\<lambda>_. []) ''m'')\<lparr>cx_types := sample_types,
     cx_values := sample_values,
     cx_module := (CModule_new ''m'')\<lparr>open_functions := [(''f'', sample_fn)],
                                      block_to_function := [(0, ''f'')]\<rparr>\<rparr>"

definition sample_b :: Builder where
  "sample_b = \<lparr>current_bb = BasicBlockId 0, current_fn = ''f''\<rparr>"

lemma sample_types_list:
  "ts_types sample_types = [TVoid, TInt 32 True, TInt 64 True, TInt 32 False, TPtr, TBool]"
  by (simp add: sample_types_def types.adds.simps intern_def TypeStore_new_def Let_def)

lemma sample_types_wf: "ts_wf sample_types"
proof -
  have "types.all_admitted [TVoid, TInt 32 True, TInt 64 True, TInt 32 False, TPtr, TBool] TypeStore_new"
    by (simp add: types.all_admitted.simps ts_admits_def intern_def TypeStore_new_def Let_def)
  then show ?thesis
    unfolding sample_types_def by (rule types.adds_inv [OF surjective_pairing ts_wf_new])
qed

lemma sample_values_wf: "vs_wf sample_values"
  unfolding sample_values_def
  by (rule arena.adds_inv [OF surjective_pairing vs_wf_new])
    (simp add: arena.all_admitted.simps vs_admits_def alloc_info_def alloc_def ValueStore_new_def Let_def)

lemma sample_values_list:
  "vs_values sample_values =
    [\<lparr>v_kind = Param 0, v_ty = TypeRef 1\<rparr>, \<lparr>v_kind = Param 1, v_ty = TypeRef 1\<rparr>,
     \<lparr>v_kind = BoolConst True, v_ty = TypeRef 5\<rparr>, \<lparr>v_kind = UintConst 7, v_ty = TypeRef 3\<rparr>,
     \<lparr>v_kind = NullPtr, v_ty = TypeRef 4\<rparr>]"
  by (simp add: sample_values_def arena.adds.simps alloc_info_def alloc_def ValueStore_new_def Let_def)

lemma sample_fields [simp]:
  "pointer_bits sample_cx = 64" "cx_types sample_cx = sample_types" "cx_values sample_cx = sample_values"
  "open_functions (cx_module sample_cx) = [(''f'', sample_fn)]"
  "current_bb sample_b = BasicBlockId 0" "current_fn sample_b = ''f''"
  by (simp_all add: sample_cx_def sample_b_def CodegenCx_new_def)

lemma sample_fn_eq:
  "sample_fn = (FunctionDef_new ''f'' (TypeRef 1) [(TypeRef 1, ''_arg0''), (TypeRef 1, ''_arg1'')])
     \<lparr>fd_block_counter := 1,
      fd_blocks := [(0, \<lparr>bb_label = ''bb0'', bb_statements = [], bb_terminated = False\<rparr>)]\<rparr>"
  by (simp add: sample_fn_def new_block_def FunctionDef_new_def Let_def as_u32_def)

lemma sample_fn_wf: "fd_wf sample_fn"
proof -
  have "label_number ''bb0'' = Some 0" using label_number_plain [of 0] by (simp add: nat_str.simps digit_def)
  then show ?thesis by (simp add: sample_fn_eq fd_wf_def bt_inv_def)
qed

lemma sample_wf: "cx_wf sample_cx"
  using sample_types_wf sample_values_wf sample_fn_wf
  by (simp add: cx_wf_def sample_values_list sample_types_list value_typed_def bt_inv_def fn_typed_def
      sample_fn_eq FunctionDef_new_def)

lemma sample_inv: "machine_inv sample_cx"
  using sample_wf by (simp add: machine_inv_def sample_fn_eq fn_closed_def)

lemma sample_room: "n \<le> 1000 \<Longrightarrow> room n sample_cx"
  by (simp add: room_def sample_types_list sample_values_list)

lemma sample_lookup:
  "kind_of sample_cx (TypeRef n) = idx [TVoid, TInt 32 True, TInt 64 True, TInt 32 False, TPtr, TBool] n"
  "type_of_value sample_cx (ValueRef m) = map_option TypeRef (idx [1, 1, 5, 3, 4] m)"
  by (simp_all add: kind_of_def ts_get_def sample_types_list type_of_value_def get_type_def vs_get_def
      sample_values_list idx_def less_Suc_eq numeral_eq_Suc nth_Cons' split: if_splits)

lemma sample_texts:
  "render_value sample_cx (ValueRef 0) = Some ''_arg0''"
  "render_value sample_cx (ValueRef 1) = Some ''_arg1''"
  "render_value sample_cx (ValueRef (Suc 0)) = Some ''_arg1''"
  "render_value sample_cx (ValueRef 2) = Some ''1''"
  "render_value sample_cx (ValueRef 3) = Some ''7ULL''"
  "render_value sample_cx (ValueRef 4) = Some ''0''"
  by (simp_all add: render_value_def vrender_def vs_get_def sample_values_list idx_def nat_str.simps
      digit_def uint_const_text_def u64_MAX_def)

end
