(* ===== verification/Functions.thy ===== *)
theory Functions
  imports Consts
begin

text \<open>
  Functions of the codegen context (\<open>context.rs\<close>): the value and the declaration of a callee,
  \<open>get_fn\<close>, and the definition a codegen unit announces, \<open>predefine_fn\<close>. What the compiler
  answers about an instance, a static or an allocation is a record; instances, definitions and
  allocations are numbers.
\<close>

section \<open>Answers of the compiler\<close>

text \<open>The linkages the source tells apart.\<close>

datatype Linkage = LInternal | LAvailableExternally | LExternalWeak | LOtherLinkage

text \<open>
  An allocation: its bytes, its relocations, each an offset with the allocation it points to,
  in the order of the offsets, and its alignment.
\<close>

record Allocation =
  al_bytes :: "nat list"
  al_ptrs :: "(nat \<times> nat) list"
  al_align :: nat

text \<open>What an allocation id stands for; a vtable with the allocation the compiler lays out for it.\<close>

datatype GlobalAlloc =
  GaFunction nat | GaStatic nat | GaMemory Allocation | GaVTable Allocation | GaTypeId

text \<open>The attributes of a static that the source reads.\<close>

record StaticAttrs =
  sa_import_linkage :: "Linkage option"
  sa_link_section :: "string option"
  sa_alignment :: "nat option"
  sa_used :: bool

record Tcx =
  symbol_name :: "nat \<Rightarrow> string"
  fn_abi_of_instance :: "nat \<Rightarrow> FnAbi"
  static_symbol_name :: "nat \<Rightarrow> string"
  codegen_fn_attrs :: "nat \<Rightarrow> StaticAttrs"
  is_thread_local_static :: "nat \<Rightarrow> bool"
  is_foreign_item :: "nat \<Rightarrow> bool"
  eval_static_initializer :: "nat \<Rightarrow> Allocation option"
  static_layout :: "nat \<Rightarrow> Layout"
  global_alloc :: "nat \<Rightarrow> GlobalAlloc"

section \<open>Callees\<close>

text \<open>The parameter list of the declaration of a callee.\<close>

definition fn_params_text :: "string list \<Rightarrow> bool \<Rightarrow> string" where
  "fn_params_text params is_variadic =
     (let s = (if params = [] then ''void'' else join '', '' params)
      in if is_variadic then (if params = [] then ''...'' else s @ '', ...'') else s)"

definition declare_fn :: "string \<Rightarrow> string \<Rightarrow> CodegenCx \<Rightarrow> CodegenCx" where
  "declare_fn c_name decl cx = cx\<lparr>cx_module := add_function_decl c_name decl (cx_module cx)\<rparr>"

definition get_fn :: "Tcx \<Rightarrow> nat \<Rightarrow> CodegenCx \<Rightarrow> (ValueRef \<times> CodegenCx) option" where
  "get_fn tcx inst cx =
     (case cx_instances cx inst of
        Some v \<Rightarrow> Some (v, cx)
      | None \<Rightarrow>
          do { let sym = symbol_name tcx inst;
               let fn_abi = fn_abi_of_instance tcx inst;
               (fn_ty, cx) \<leftarrow> fn_abi_to_c_type fn_abi cx;
               let c_name = sanitize_name sym;
               let (ptr_ty, cx) = type_ptr cx;
               let (val, cx) = intern_value (FunctionVal c_name fn_ty) ptr_ty cx;
               let cx = cx\<lparr>cx_instances := (cx_instances cx)(inst \<mapsto> val)\<rparr>;
               (ret_ty, cx) \<leftarrow> fn_abi_ret_type fn_abi cx;
               ret_str \<leftarrow> render_type cx ret_ty;
               let asm = asm_label sym c_name;
               k \<leftarrow> kind_of cx fn_ty;
               (params, is_variadic) \<leftarrow> (case k of
                   TFunction ret args variadic \<Rightarrow>
                     map_option (\<lambda>ps. (ps, variadic)) (opt_map (render_type cx) args)
                 | _ \<Rightarrow> Some ([], False));
               let params_str = fn_params_text params is_variadic;
               let decl = ret_str @ '' '' @ c_name @ ''('' @ params_str @ '')'' @ asm @ '';'';
               Some (val, declare_fn c_name decl cx) })"

definition get_fn_addr :: "Tcx \<Rightarrow> nat \<Rightarrow> CodegenCx \<Rightarrow> (ValueRef \<times> CodegenCx) option" where
  "get_fn_addr tcx inst cx = get_fn tcx inst cx"

section \<open>Definitions\<close>

text \<open>The parameters so far, the next argument number and the numbers passed on the stack.\<close>

type_synonym params_state = "(TypeRef \<times> string) list \<times> nat \<times> nat set"

definition push_param :: "TypeRef \<Rightarrow> params_state \<Rightarrow> params_state" where
  "push_param ty st =
     (case st of (param_types, arg_idx, on_stack) \<Rightarrow>
        (param_types @ [(ty, ''_arg'' @ nat_str arg_idx)], arg_idx + 1, on_stack))"

definition mark_on_stack :: "params_state \<Rightarrow> params_state" where
  "mark_on_stack st =
     (case st of (param_types, arg_idx, on_stack) \<Rightarrow> (param_types, arg_idx, insert arg_idx on_stack))"

definition predefine_arg :: "ArgAbi \<Rightarrow> params_state \<Rightarrow> CodegenCx \<Rightarrow> (params_state \<times> CodegenCx) option" where
  "predefine_arg arg st cx =
     (case arg_mode arg of
        PMIgnore \<Rightarrow> Some (st, cx)
      | PMPair \<Rightarrow>
          (case l_repr (arg_layout arg) of
             BScalarPair a b \<Rightarrow>
               do { (a_ty, cx) \<leftarrow> scalar_field_to_c_type a (arg_layout arg) 0 cx;
                    (b_ty, cx) \<leftarrow> scalar_field_to_c_type b (arg_layout arg) 1 cx;
                    Some (push_param b_ty (push_param a_ty st), cx) }
           | _ \<Rightarrow> do { (ty, cx) \<leftarrow> fn_abi_arg_type arg cx; Some (push_param ty st, cx) })
      | PMIndirect a True on_stack \<Rightarrow>
          (let (ptr_ty, cx) = type_ptr cx in Some (push_param ptr_ty (push_param ptr_ty st), cx))
      | PMIndirect a False True \<Rightarrow>
          do { (ty, cx) \<leftarrow> fn_abi_arg_type arg cx; Some (push_param ty (mark_on_stack st), cx) }
      | _ \<Rightarrow> do { (ty, cx) \<leftarrow> fn_abi_arg_type arg cx; Some (push_param ty st, cx) })"

fun predefine_args :: "ArgAbi list \<Rightarrow> params_state \<Rightarrow> CodegenCx \<Rightarrow> (params_state \<times> CodegenCx) option" where
  "predefine_args [] st cx = Some (st, cx)"
| "predefine_args (arg # args) st cx =
     do { (st, cx) \<leftarrow> predefine_arg arg st cx; predefine_args args st cx }"

definition open_function :: "string \<Rightarrow> FunctionDef \<Rightarrow> CodegenCx \<Rightarrow> CodegenCx" where
  "open_function c_name func_def cx =
     (let m = cx_module cx
      in cx\<lparr>cx_module := m\<lparr>open_functions := bt_insert c_name func_def (open_functions m)\<rparr>\<rparr>)"

definition predefine_fn :: "Tcx \<Rightarrow> nat \<Rightarrow> Linkage \<Rightarrow> string \<Rightarrow> CodegenCx \<Rightarrow> CodegenCx option" where
  "predefine_fn tcx inst linkage symbol cx =
     do { let c_name = sanitize_name symbol;
          let fn_abi = fn_abi_of_instance tcx inst;
          (fn_ty, cx) \<leftarrow> fn_abi_to_c_type fn_abi cx;
          let (ptr_ty, cx) = type_ptr cx;
          let (val, cx) = intern_value (FunctionVal c_name fn_ty) ptr_ty cx;
          let cx = cx\<lparr>cx_instances := (cx_instances cx)(inst \<mapsto> val)\<rparr>;
          (ret_ty, cx) \<leftarrow> fn_abi_ret_type fn_abi cx;
          ((param_types, _, on_stack_params), cx) \<leftarrow> predefine_args (fa_args fn_abi) ([], 0, {}) cx;
          params_str \<leftarrow> opt_map (render_type cx) (map fst param_types);
          let is_variadic = fa_c_variadic fn_abi;
          ret_str \<leftarrow> render_type cx ret_ty;
          let linkage_prefix = (if linkage = LInternal \<or> linkage = LAvailableExternally then ''static '' else []);
          let asm = asm_label symbol c_name;
          let decl = linkage_prefix @ ret_str @ '' '' @ c_name @ ''('' @ params_joined params_str is_variadic
                       @ '')'' @ asm @ '';'';
          let cx = declare_fn c_name decl cx;
          let func_def = (FunctionDef_new c_name ret_ty param_types)
            \<lparr>fd_linkage_prefix := linkage_prefix, fd_is_variadic := is_variadic,
             fd_on_stack_params := on_stack_params, fd_has_indirect_ret := is_indirect (arg_mode (fa_ret fn_abi))\<rparr>;
          (func_def, cx) \<leftarrow> (if is_indirect (arg_mode (fa_ret fn_abi)) then
              do { (t, cx) \<leftarrow> layout_to_c_type (arg_layout (fa_ret fn_abi)) cx;
                   Some (func_def\<lparr>fd_ret_data_type := Some t\<rparr>, cx) }
            else Some (func_def, cx));
          Some (open_function c_name func_def cx) }"

text \<open>The parameter lists of both declarations and of the definition are built alike.\<close>

lemma join_nonempty: "\<forall>p \<in> set ps. p \<noteq> [] \<Longrightarrow> ps \<noteq> [] \<Longrightarrow> join s ps \<noteq> []"
  by (induction s ps rule: join.induct) auto

lemma fn_params_text_joined: "\<forall>p \<in> set ps. p \<noteq> [] \<Longrightarrow> fn_params_text ps v = params_joined ps v"
  using join_nonempty [of ps "'', ''"] by (auto simp: fn_params_text_def params_joined_def Let_def)

end
