(* ===== verification/Statics.thy ===== *)
theory Statics
  imports Functions
begin

text \<open>
  Constant data and statics (\<open>context.rs\<close>, \<open>consts.rs\<close>): the declarations of foreign statics,
  the byte arrays and structs an allocation becomes, the pointers into allocations, and the
  definitions of statics. An allocation may point to allocations; the translation of one
  follows them, with fuel for the depth.
\<close>

section \<open>Declarations of statics\<close>

text \<open>The Rust slice \<open>xs[a..b]\<close>, which panics out of range.\<close>

definition slice :: "nat \<Rightarrow> nat \<Rightarrow> 'a list \<Rightarrow> 'a list option" where
  "slice a b xs = (if a \<le> b \<and> b \<le> length xs then Some (take (b - a) (drop a xs)) else None)"

definition pointer_bytes :: "CodegenCx \<Rightarrow> nat" where
  "pointer_bytes cx = pointer_bits cx div 8"

definition is_extern_weak :: "Tcx \<Rightarrow> nat \<Rightarrow> bool" where
  "is_extern_weak tcx def_id = (sa_import_linkage (codegen_fn_attrs tcx def_id) = Some LExternalWeak)"

definition tls_text :: "Tcx \<Rightarrow> nat \<Rightarrow> string" where
  "tls_text tcx def_id = (if is_thread_local_static tcx def_id then ''_Thread_local '' else [])"

definition byte_field :: "nat \<Rightarrow> nat \<Rightarrow> string" where
  "byte_field i n = ''unsigned char f'' @ nat_str i @ ''['' @ nat_str n @ '']''"

definition pointer_field :: "nat \<Rightarrow> string" where
  "pointer_field i = ''void *f'' @ nat_str i"

text \<open>The field types of a static with relocations: the fields so far, the position, the number.\<close>

fun fwd_fields :: "nat \<Rightarrow> (nat \<times> nat) list \<Rightarrow> string list \<times> nat \<times> nat \<Rightarrow> string list \<times> nat \<times> nat" where
  "fwd_fields pointer_size [] st = st"
| "fwd_fields pointer_size ((reloc_off, prov) # rs) (flds, pos, field_idx) =
     (let (flds, field_idx) =
        (if reloc_off > pos then (flds @ [byte_field field_idx (reloc_off - pos)], field_idx + 1)
         else (flds, field_idx))
      in fwd_fields pointer_size rs (flds @ [pointer_field field_idx], reloc_off + pointer_size, field_idx + 1))"

definition global_decl :: "string \<Rightarrow> string \<Rightarrow> CodegenCx \<Rightarrow> CodegenCx" where
  "global_decl name decl cx = cx\<lparr>cx_module := add_global_decl name decl (cx_module cx)\<rparr>"

definition emit_static_struct_fwd_decl ::
  "Tcx \<Rightarrow> string \<Rightarrow> string \<Rightarrow> nat \<Rightarrow> string \<Rightarrow> CodegenCx \<Rightarrow> CodegenCx" where
  "emit_static_struct_fwd_decl tcx c_name original_name def_id tls cx =
     (case eval_static_initializer tcx def_id of
        None \<Rightarrow> cx
      | Some init \<Rightarrow>
          (let alloc_len = length (al_bytes init);
               (flds, pos, field_idx) = fwd_fields (pointer_bytes cx) (al_ptrs init) ([], 0, 0);
               flds = (if pos < alloc_len then flds @ [byte_field field_idx (alloc_len - pos)] else flds);
               struct_name = ''_gs_'' @ c_name;
               fields_str = join '' '' (map (\<lambda>f. f @ '';'') flds);
               m = cx_module cx
           in if c_name \<in> declared_extern_globals m then cx
              else
                (let m = m\<lparr>struct_defs := struct_defs m @
                       [''#pragma pack(push, 1)'' @ [nl] @ ''struct '' @ struct_name @ '' { '' @ fields_str
                        @ '' };'' @ [nl] @ ''#pragma pack(pop)'']\<rparr>;
                     asm = asm_label original_name c_name
                 in cx\<lparr>cx_module := add_global_decl c_name
                      (''extern '' @ tls @ ''struct '' @ struct_name @ '' '' @ c_name @ asm @ '';'') m\<rparr>)))"

definition emit_extern_static_decl ::
  "Tcx \<Rightarrow> string \<Rightarrow> string \<Rightarrow> nat \<Rightarrow> CodegenCx \<Rightarrow> CodegenCx" where
  "emit_extern_static_decl tcx c_name original_name def_id cx =
     (let is_weak = is_extern_weak tcx def_id;
          tls = tls_text tcx def_id;
          asm = asm_label original_name c_name
      in if is_weak then
           global_decl c_name (''#pragma weak '' @ c_name @ [nl] @ ''void '' @ c_name @ ''(void)'' @ asm @ '';'') cx
         else
           (let is_same_cgu = (c_name \<in> declared_globals (cx_module cx));
                has_relocs = (is_same_cgu \<and> \<not> is_foreign_item tcx def_id \<and>
                  (case eval_static_initializer tcx def_id of
                     Some init \<Rightarrow> al_ptrs init \<noteq> [] | None \<Rightarrow> False))
            in if has_relocs then emit_static_struct_fwd_decl tcx c_name original_name def_id tls cx
               else global_decl c_name (''extern '' @ tls @ ''uint8_t '' @ c_name @ ''[]'' @ asm @ '';'') cx))"

section \<open>Data of an allocation\<close>

text \<open>\<open>u32::from_le_bytes\<close> and \<open>u64::from_le_bytes\<close>; other pointer sizes panic.\<close>

fun le_number :: "nat list \<Rightarrow> nat" where
  "le_number [] = 0"
| "le_number (x # xs) = x + 256 * le_number xs"

definition ptr_offset_of :: "nat \<Rightarrow> nat list \<Rightarrow> nat option" where
  "ptr_offset_of pointer_size ptr_bytes = (if pointer_size \<in> {4, 8} then Some (le_number ptr_bytes) else None)"

definition hex_list :: "nat list \<Rightarrow> string" where
  "hex_list bs = join '', '' (map hex_byte bs)"

type_synonym data_op = "Allocation \<Rightarrow> CodegenCx \<Rightarrow> (ValueRef \<times> CodegenCx) option"

text \<open>The text of a relocated pointer; \<open>data\<close> translates the allocations pointed to.\<close>

definition data_target :: "data_op \<Rightarrow> Allocation \<Rightarrow> nat \<Rightarrow> CodegenCx \<Rightarrow> (string \<times> CodegenCx) option" where
  "data_target data inner ptr_offset cx =
     do { (inner_val, cx) \<leftarrow> data inner cx;
          inner_name \<leftarrow> render_value cx inner_val;
          Some (if ptr_offset \<noteq> 0 then ''(void *)((char *)'' @ inner_name @ '' + '' @ nat_str ptr_offset @ '')''
                else ''(void *)'' @ inner_name, cx) }"

definition reloc_target :: "data_op \<Rightarrow> Tcx \<Rightarrow> nat \<Rightarrow> nat \<Rightarrow> CodegenCx \<Rightarrow> (string \<times> CodegenCx) option" where
  "reloc_target data tcx prov ptr_offset cx =
     (case global_alloc tcx prov of
        GaFunction inst \<Rightarrow>
          do { let c_name = sanitize_name (symbol_name tcx inst);
               (_, cx) \<leftarrow> get_fn tcx inst cx;
               Some (if ptr_offset \<noteq> 0
                     then ''(void *)((char *)(void (*)(void))'' @ c_name @ '' + '' @ nat_str ptr_offset @ '')''
                     else ''(void *)(void (*)(void))'' @ c_name, cx) }
      | GaStatic def_id \<Rightarrow>
          (let symbol = static_symbol_name tcx def_id;
               c_name = sanitize_name symbol;
               cx = emit_extern_static_decl tcx c_name symbol def_id cx
           in Some (if is_extern_weak tcx def_id then ''(void *)'' @ c_name
                    else if ptr_offset \<noteq> 0 then ''(void *)((char *)&'' @ c_name @ '' + '' @ nat_str ptr_offset @ '')''
                    else ''(void *)&'' @ c_name, cx))
      | GaMemory inner \<Rightarrow> data_target data inner ptr_offset cx
      | GaVTable vtable \<Rightarrow> data_target data vtable ptr_offset cx
      | GaTypeId \<Rightarrow> Some (''(void *)(__rustc_usize)'' @ nat_str ptr_offset @ ''ULL'', cx))"

text \<open>
  The loop over the relocations: fields, initialisers, position and field number. The two
  places that run it indent and end their fields differently.
\<close>

type_synonym layout_state = "string list \<times> string list \<times> nat \<times> nat"

definition push_bytes :: "string \<Rightarrow> string \<Rightarrow> nat list \<Rightarrow> nat \<Rightarrow> layout_state \<Rightarrow> layout_state option" where
  "push_bytes ind semi bytes lim st =
     (case st of (flds, inits, pos, field_idx) \<Rightarrow>
        if lim > pos then
          do { pad \<leftarrow> slice pos lim bytes;
               Some (flds @ [ind @ byte_field field_idx (lim - pos) @ semi],
                     inits @ [ind @ ''.f'' @ nat_str field_idx @ '' = { '' @ hex_list pad @ '' }''],
                     lim, field_idx + 1) }
        else Some st)"

fun reloc_fields ::
  "data_op \<Rightarrow> Tcx \<Rightarrow> string \<Rightarrow> string \<Rightarrow> nat \<Rightarrow> nat list \<Rightarrow> (nat \<times> nat) list \<Rightarrow> layout_state \<Rightarrow> CodegenCx
   \<Rightarrow> (layout_state \<times> CodegenCx) option" where
  "reloc_fields data tcx ind semi pointer_size bytes [] st cx = Some (st, cx)"
| "reloc_fields data tcx ind semi pointer_size bytes ((reloc_off, prov) # rs) st cx =
     do { (flds, inits, pos, field_idx) \<leftarrow> push_bytes ind semi bytes reloc_off st;
          ptr_bytes \<leftarrow> slice reloc_off (reloc_off + pointer_size) bytes;
          ptr_offset \<leftarrow> ptr_offset_of pointer_size ptr_bytes;
          (target, cx) \<leftarrow> reloc_target data tcx prov ptr_offset cx;
          reloc_fields data tcx ind semi pointer_size bytes rs
            (flds @ [ind @ pointer_field field_idx @ semi],
             inits @ [ind @ ''.f'' @ nat_str field_idx @ '' = '' @ target],
             reloc_off + pointer_size, field_idx + 1) cx }"

text \<open>The value of the data, its C name and its declaration.\<close>

definition data_value :: "Allocation \<Rightarrow> CodegenCx \<Rightarrow> (ValueRef \<times> string) \<times> CodegenCx" where
  "data_value init cx =
     (let (ptr_ty, cx) = type_ptr cx;
          bs_id = byte_string_counter (cx_values cx);
          (v, vs) = next_byte_string [] ptr_ty (cx_values cx);
          cx = cx\<lparr>cx_values := vs\<rparr>;
          (val, cx) = (if al_ptrs init \<noteq> [] then intern_value (Global (''&_bytes'' @ nat_str bs_id)) ptr_ty cx
                       else (v, cx));
          raw_id = as_u32 (byte_string_counter (cx_values cx) + u32_MAX)
      in ((val, ''_bytes'' @ nat_str raw_id), cx))"

fun const_data_from_alloc :: "nat \<Rightarrow> Tcx \<Rightarrow> data_op" where
  "const_data_from_alloc 0 tcx init cx = None"
| "const_data_from_alloc (Suc fuel) tcx init cx =
     (let ((val, name), cx) = data_value init cx;
          pointer_size = pointer_bytes cx;
          alloc_len = length (al_bytes init)
      in if al_ptrs init = [] then
           (let align_attr = (if al_align init > 1 then ''_Alignas('' @ nat_str (al_align init) @ '') '' else []);
                decl = align_attr @ ''static const unsigned char '' @ name @ ''[] = { '' @ hex_list (al_bytes init) @ '' };''
            in Some (val, push_data_section decl cx))
         else
           do { (st, cx) \<leftarrow> reloc_fields (const_data_from_alloc fuel tcx) tcx ''  '' '';'' pointer_size (al_bytes init)
                  (al_ptrs init) ([], [], 0, 0) cx;
                (flds, inits, _, _) \<leftarrow> push_bytes ''  '' '';'' (al_bytes init) alloc_len st;
                let decl = ''#pragma pack(push, 1)'' @ [nl] @ ''static const struct { '' @ join '' '' flds @ '' } ''
                     @ name @ '' = { '' @ join '', '' inits @ '' };'' @ [nl] @ ''#pragma pack(pop)'';
                Some (val, push_data_section decl cx) })"


section \<open>Scalars of the compiler\<close>

text \<open>An integer scalar by its bits, a pointer by its allocation and offset.\<close>

datatype InterpScalar = IsInt nat | IsPtr nat nat

text \<open>A pointer value moved by an offset in bytes.\<close>

definition offset_value :: "ValueRef \<Rightarrow> nat \<Rightarrow> CodegenCx \<Rightarrow> ValueRef \<times> CodegenCx" where
  "offset_value val offset_bytes cx =
     (if offset_bytes \<noteq> 0 then
        (let (ptr_ty, cx) = type_ptr cx in intern_value (PtrOffset val offset_bytes) ptr_ty cx)
      else (val, cx))"

definition data_pointer :: "nat \<Rightarrow> Tcx \<Rightarrow> Allocation \<Rightarrow> nat \<Rightarrow> CodegenCx \<Rightarrow> (ValueRef \<times> CodegenCx) option" where
  "data_pointer fuel tcx init offset_bytes cx =
     do { (val, cx) \<leftarrow> const_data_from_alloc fuel tcx init cx; Some (offset_value val offset_bytes cx) }"

text \<open>The value of a pointer, or the expression of a type id.\<close>

definition ptr_value ::
  "nat \<Rightarrow> Tcx \<Rightarrow> nat \<Rightarrow> nat \<Rightarrow> CodegenCx \<Rightarrow> ((ValueRef + string) \<times> CodegenCx) option" where
  "ptr_value fuel tcx alloc_id offset_bytes cx =
     (case global_alloc tcx alloc_id of
        GaFunction inst \<Rightarrow> map_option (map_prod Inl id) (get_fn_addr tcx inst cx)
      | GaStatic def_id \<Rightarrow>
          (let symbol = static_symbol_name tcx def_id;
               c_name = sanitize_name symbol;
               cx = emit_extern_static_decl tcx c_name symbol def_id cx;
               addr = (if is_extern_weak tcx def_id then ''&(void *){(void *)'' @ c_name @ ''}''
                       else ''&'' @ c_name);
               (ptr_ty, cx) = type_ptr cx;
               (val, cx) = intern_value (Global addr) ptr_ty cx
           in Some (map_prod Inl id (offset_value val offset_bytes cx)))
      | GaMemory init \<Rightarrow> map_option (map_prod Inl id) (data_pointer fuel tcx init offset_bytes cx)
      | GaVTable vtable \<Rightarrow> map_option (map_prod Inl id) (data_pointer fuel tcx vtable offset_bytes cx)
      | GaTypeId \<Rightarrow> Some (Inr (''(void *)(__rustc_usize)'' @ nat_str offset_bytes @ ''ULL''), cx))"

definition scalar_to_backend ::
  "nat \<Rightarrow> Tcx \<Rightarrow> InterpScalar \<Rightarrow> Scalar \<Rightarrow> TypeRef \<Rightarrow> CodegenCx \<Rightarrow> (ValueRef \<times> CodegenCx) option" where
  "scalar_to_backend fuel tcx cv layout llty cx =
     (case cv of
        IsInt data \<Rightarrow> scalar_int_to_backend data layout llty cx
      | IsPtr alloc_id offset_bytes \<Rightarrow>
          do { (r, cx) \<leftarrow> ptr_value fuel tcx alloc_id offset_bytes cx;
               case r of
                 Inr expr \<Rightarrow> Some (intern_value (InlineExpr expr) llty cx)
               | Inl ptr_val \<Rightarrow>
                   (let (ptr_ty, cx) = type_ptr cx
                    in if llty \<noteq> ptr_ty then
                         do { expr \<leftarrow> render_value cx ptr_val;
                              t \<leftarrow> render_type cx llty;
                              Some (intern_value (InlineExpr (''('' @ t @ '')'' @ expr)) llty cx) }
                       else Some (ptr_val, cx)) })"

section \<open>Definitions of statics\<close>

definition static_addr_of :: "ValueRef \<Rightarrow> ValueRef" where
  "static_addr_of cv = cv"

text \<open>The declaration of a static with the given initial value.\<close>

definition static_init_decl ::
  "nat \<Rightarrow> Tcx \<Rightarrow> nat \<Rightarrow> Allocation \<Rightarrow> CodegenCx \<Rightarrow> (string \<times> CodegenCx) option" where
  "static_init_decl fuel tcx def_id init cx =
     (let symbol = static_symbol_name tcx def_id;
          c_name = sanitize_name symbol;
          asm = asm_label symbol c_name;
          tls = tls_text tcx def_id;
          pointer_size = pointer_bytes cx;
          alloc_len = length (al_bytes init);
          actual_align = max (al_align init) pointer_size
      in if alloc_len = 0 then Some (tls @ ''uint8_t '' @ c_name @ ''[0]'' @ asm @ '';'', cx)
         else if al_ptrs init = [] then
           Some (''_Alignas('' @ nat_str actual_align @ '') '' @ tls @ ''uint8_t '' @ c_name @ ''['' @ nat_str alloc_len
             @ '']'' @ asm @ '' = { '' @ hex_list (al_bytes init) @ '' };'', cx)
         else
           do { (st, cx) \<leftarrow> reloc_fields (const_data_from_alloc fuel tcx) tcx [] [] pointer_size (al_bytes init)
                  (al_ptrs init) ([], [], 0, 0) cx;
                (_, inits, _, _) \<leftarrow> push_bytes [] [] (al_bytes init) alloc_len st;
                let cx = (if c_name \<notin> declared_extern_globals (cx_module cx)
                          then emit_static_struct_fwd_decl tcx c_name symbol def_id tls cx else cx);
                Some (tls @ ''struct _gs_'' @ c_name @ '' '' @ c_name @ asm @ '' = { '' @ join '', '' inits @ '' };'', cx) })"

text \<open>Section, alignment and use attributes, in the order they are put in front.\<close>

definition with_attrs :: "StaticAttrs \<Rightarrow> string \<Rightarrow> string" where
  "with_attrs attrs decl =
     (let decl = (case sa_link_section attrs of
            Some sect \<Rightarrow> ''__attribute__((section('' @ [dquote] @ sect @ [dquote] @ ''))) '' @ decl | None \<Rightarrow> decl);
          decl = (case sa_alignment attrs of
            Some align \<Rightarrow> ''_Alignas('' @ nat_str align @ '') '' @ decl | None \<Rightarrow> decl)
      in if sa_used attrs then ''__attribute__((used)) '' @ decl else decl)"

definition codegen_static :: "nat \<Rightarrow> Tcx \<Rightarrow> nat \<Rightarrow> CodegenCx \<Rightarrow> CodegenCx option" where
  "codegen_static fuel tcx def_id cx =
     do { let symbol = static_symbol_name tcx def_id;
          let c_name = sanitize_name symbol;
          (decl, cx) \<leftarrow> (case eval_static_initializer tcx def_id of
              Some init \<Rightarrow> static_init_decl fuel tcx def_id init cx
            | None \<Rightarrow>
                do { (c_ty, cx) \<leftarrow> layout_to_c_type (static_layout tcx def_id) cx;
                     type_decl \<leftarrow> render_type_decl cx c_ty c_name;
                     Some (tls_text tcx def_id @ type_decl @ asm_label symbol c_name @ '';'', cx) });
          let decl = with_attrs (codegen_fn_attrs tcx def_id) decl;
          let m = cx_module cx;
          let cx = cx\<lparr>cx_module := m\<lparr>declared_globals := insert c_name (declared_globals m),
                                      global_decls := global_decls m @ [decl]\<rparr>\<rparr>;
          let (ptr_ty, cx) = type_ptr cx;
          let (val, cx) = intern_value (Global (''&'' @ c_name)) ptr_ty cx;
          Some (cx\<lparr>cx_statics_cache := (cx_statics_cache cx)(def_id \<mapsto> val)\<rparr>) }"

end
