(* ===== verification/FunctionsSound.thy ===== *)
theory FunctionsSound
  imports Functions BuilderRun
begin

text \<open>
  The types of a calling convention, and the callees and definitions built from them. An
  operation that only interns types is repeatable: run again in any later context it interns
  nothing and gives the same references. So the function type, the declaration and the
  parameters of the definition, each computed from the convention anew, agree.
\<close>

section \<open>Operations that intern types\<close>

type_synonym 'a cx_op = "CodegenCx \<Rightarrow> ('a \<times> CodegenCx) option"

definition later :: "CodegenCx \<Rightarrow> CodegenCx \<Rightarrow> bool" where
  "later cx cx' = (cx_wf cx' \<and> ts_le (cx_types cx) (cx_types cx'))"

definition typing :: "nat \<Rightarrow> CodegenCx \<Rightarrow> 'a cx_op \<Rightarrow> ('a \<Rightarrow> CodegenCx \<Rightarrow> bool) \<Rightarrow> bool" where
  "typing n cx m Q =
     (\<exists>x cx'. m cx = Some (x, cx') \<and> (\<forall>b. reach b id n cx cx') \<and> cx_values cx' = cx_values cx \<and>
        Q x cx' \<and> (\<forall>cx2. later cx' cx2 \<longrightarrow> m cx2 = Some (x, cx2)))"

lemma reach_later: "reach b g n cx cx' \<Longrightarrow> later cx cx'"
  by (simp add: reach_def keeps_def later_def)

lemma later_trans: "later a b \<Longrightarrow> later b c \<Longrightarrow> later a c"
  by (auto simp: later_def intro: ts_le_trans)

lemma later_kind: "later cx cx' \<Longrightarrow> kind_of cx t = Some k \<Longrightarrow> kind_of cx' t = Some k"
  by (auto simp: later_def kind_of_def intro: ts_le_get)

lemma later_tval: "later cx cx' \<Longrightarrow> tval cx t \<Longrightarrow> tval cx' t"
  by (auto simp: later_def intro: ts_le_valid)

lemma intern_again: "later cx cx2 \<Longrightarrow> kind_of cx t = Some k \<Longrightarrow> intern_type k cx2 = (t, cx2)"
  using later_kind [of cx cx2 t k] intern_idem [of "cx_types cx2" t k]
  by (simp add: later_def cx_wf_def intern_type_def kind_of_def)

lemma typing_intern:
  assumes "cx_wf cx" "room 1 cx" "kind_ok k" "\<forall>c \<in> set (kind_refs k). tval cx c"
  shows "typing 1 cx (\<lambda>cx. Some (intern_type k cx)) (\<lambda>t cx'. kind_of cx' t = Some k \<and> tval cx' t)"
proof -
  obtain t cx' where i: "intern_type k cx = (t, cx')" by (cases "intern_type k cx")
  have r: "reach b id 1 cx cx' \<and> kind_of cx' t = Some k \<and> tval cx' t \<and> cx_values cx' = cx_values cx" for b
    using intern_type_reach [OF assms i] .
  then show ?thesis using i by (auto simp: typing_def intro: intern_again)
qed

lemma typing_return: "cx_wf cx \<Longrightarrow> Q x cx \<Longrightarrow> typing 0 cx (\<lambda>cx. Some (x, cx)) Q"
  by (auto simp: typing_def intro: reach_refl)

lemma typing_bind:
  assumes m: "typing n cx m Q"
    and f: "\<And>x cx'. later cx cx' \<Longrightarrow> (\<And>k. room (n + k) cx \<Longrightarrow> room k cx') \<Longrightarrow> Q x cx' \<Longrightarrow> typing n' cx' (f x) R"
  shows "typing (n + n') cx (\<lambda>cx. do { (x, cx) \<leftarrow> m cx; f x cx }) R"
proof -
  obtain x cx1 where 1: "m cx = Some (x, cx1)" "\<forall>b. reach b id n cx cx1" "cx_values cx1 = cx_values cx" "Q x cx1"
    "\<forall>cx2. later cx1 cx2 \<longrightarrow> m cx2 = Some (x, cx2)" using m by (auto simp: typing_def)
  have "typing n' cx1 (f x) R"
    using f [of cx1 x] 1 reach_later [of _ id n cx cx1] reach_room [of _ id n cx cx1] by blast
  then obtain y cx2 where 2: "f x cx1 = Some (y, cx2)" "\<forall>b. reach b id n' cx1 cx2" "cx_values cx2 = cx_values cx1" "R y cx2"
    "\<forall>cx3. later cx2 cx3 \<longrightarrow> f x cx3 = Some (y, cx3)" by (auto simp: typing_def)
  have "reach b id (n + n') cx cx2" for b
    using reach_trans [of b id n cx cx1 id n' cx2] 1(2) 2(2) by simp
  moreover have "later cx1 cx2" using 2(2) reach_later by blast
  ultimately show ?thesis
    using 1 2 later_trans [of cx1 cx2] unfolding typing_def by auto
qed

lemma typing_mono:
  assumes "typing n cx m Q" "n \<le> n'" "\<And>x cx'. later cx cx' \<Longrightarrow> Q x cx' \<Longrightarrow> R x cx'"
  shows "typing n' cx m R"
proof -
  obtain x cx' where m: "m cx = Some (x, cx')" "\<forall>b. reach b id n cx cx'" "cx_values cx' = cx_values cx" "Q x cx'"
    "\<forall>cx2. later cx' cx2 \<longrightarrow> m cx2 = Some (x, cx2)" using assms(1) by (auto simp: typing_def)
  have "later cx cx'" using m(2) reach_later by blast
  moreover have "\<forall>b. reach b id n' cx cx'" using m(2) assms(2) reach_more by blast
  ultimately show ?thesis using m assms(3) unfolding typing_def by blast
qed

lemma typing_again: "typing n cx m Q \<Longrightarrow> m cx = Some (x, cx') \<Longrightarrow> later cx' cx2 \<Longrightarrow> m cx2 = Some (x, cx2)"
  by (auto simp: typing_def)

section \<open>Types of layouts and conventions\<close>

lemma typing_scalar:
  "cx_wf cx \<Longrightarrow> room 1 cx \<Longrightarrow> scalar_ok s \<Longrightarrow>
   typing 1 cx (\<lambda>cx. Some (scalar_to_c_type s cx)) (\<lambda>t cx'. kind_of cx' t = Some (scalar_kind s) \<and> tval cx' t)"
  unfolding scalar_to_c_type_kind by (rule typing_intern) (simp_all add: scalar_kind_ok)

lemma scalar_field_uniform:
  assumes "pair_fields_ok l"
  shows "\<exists>c. \<forall>cx. scalar_field_to_c_type s l i cx = Some (intern_type (field_kind s c) cx)"
proof (cases "l_single_variant l \<and> i < l_field_count l")
  case True
  then obtain f where f: "l_field l i = Some f" using assms by (auto simp: pair_fields_ok_def)
  have "scalar_field_to_c_type s l i cx = Some (intern_type (field_kind s (l_ty f)) cx)" for cx
    using True f by (cases "l_ty f") (simp_all add: scalar_field_to_c_type_def field_kind_def scalar_to_c_type_kind)
  then show ?thesis by blast
next
  case False
  have "scalar_field_to_c_type s l i cx = Some (intern_type (field_kind s TyOther) cx)" for cx
    using False by (auto simp: scalar_field_to_c_type_def field_kind_def scalar_to_c_type_kind)
  then show ?thesis by blast
qed

lemma typing_scalar_field:
  assumes "cx_wf cx" "room 1 cx" "scalar_ok s" "pair_fields_ok l"
  shows "typing 1 cx (scalar_field_to_c_type s l i) (\<lambda>t cx'. tval cx' t)"
proof -
  obtain c where c: "\<forall>cx. scalar_field_to_c_type s l i cx = Some (intern_type (field_kind s c) cx)"
    using scalar_field_uniform [OF assms(4)] by blast
  then have "scalar_field_to_c_type s l i = (\<lambda>cx. Some (intern_type (field_kind s c) cx))" by blast
  then show ?thesis
    using typing_mono [OF typing_intern [OF assms(1,2) field_kind_ok(1) [OF assms(3)]], of c 1]
    by (simp add: field_kind_ok(2))
qed


lemma later_wf: "later cx cx' \<Longrightarrow> cx_wf cx'"
  by (simp add: later_def)

text \<open>The rules in the form the code has, a step at a time.\<close>

lemma typing_type:
  assumes "cx_wf cx" "room (Suc n) cx" "kind_ok k" "\<forall>c \<in> set (kind_refs k). tval cx c"
  shows "typing (Suc n) cx (\<lambda>cx. Some (intern_type k cx)) (\<lambda>t cx'. tval cx' t)"
proof -
  have "room 1 cx" using assms(2) by (rule room_mono) simp
  from typing_intern [OF assms(1) this assms(3,4)] show ?thesis by (rule typing_mono) auto
qed

lemma typing_let:
  assumes "cx_wf cx" "room (Suc n) cx" "kind_ok k" "\<forall>c \<in> set (kind_refs k). tval cx c"
    and f: "\<And>t cx'. later cx cx' \<Longrightarrow> room n cx' \<Longrightarrow> kind_of cx' t = Some k \<Longrightarrow> tval cx' t \<Longrightarrow> typing n cx' (f t) R"
  shows "typing (Suc n) cx (\<lambda>cx. case intern_type k cx of (t, cx) \<Rightarrow> f t cx) R"
proof -
  have "room 1 cx" using assms(2) by (rule room_mono) simp
  from typing_bind [OF typing_intern [OF assms(1) this assms(3,4)], of n f R] f assms(2) show ?thesis by simp
qed

lemma typing_field:
  assumes "cx_wf cx" "room (Suc n) cx" "scalar_ok s" "pair_fields_ok l"
    and f: "\<And>t cx'. later cx cx' \<Longrightarrow> room n cx' \<Longrightarrow> tval cx' t \<Longrightarrow> typing n cx' (f t) R"
  shows "typing (Suc n) cx (\<lambda>cx. do { (t, cx) \<leftarrow> scalar_field_to_c_type s l i cx; f t cx }) R"
proof -
  have "room 1 cx" using assms(2) by (rule room_mono) simp
  from typing_bind [OF typing_scalar_field [OF assms(1) this assms(3,4)], of n f R] f assms(2) show ?thesis by simp
qed

lemma typing_layout:
  assumes "cx_wf cx" "room 3 cx" "layout_ok l"
  shows "typing 3 cx (layout_to_c_type l) (\<lambda>t cx'. tval cx' t)"
proof -
  have rm: "room (Suc (Suc (Suc 0))) cx" using assms(2) by (simp add: numeral_3_eq_3)
  have one: "typing 3 cx (\<lambda>cx. Some (intern_type k cx)) (\<lambda>t cx'. tval cx' t)" if "kind_ok k" "kind_refs k = []" for k
    using typing_type [OF assms(1) rm that(1)] that(2) by (simp add: numeral_3_eq_3)
  have unit: "typing 3 cx (\<lambda>cx. Some (intern_type (TStruct [] False None) cx)) (\<lambda>t cx'. tval cx' t)"
    by (rule one) simp_all
  show ?thesis
  proof (cases "l_is_zst l")
    case True
    then show ?thesis using unit by (simp add: layout_to_c_type_def [abs_def])
  next
    case nz: False
    show ?thesis
    proof (cases "l_repr l")
      case (BScalar s)
      then have "layout_to_c_type l = (\<lambda>cx. Some (intern_type (field_kind s (l_ty l)) cx))"
        using nz by (cases "l_ty l") (auto simp: layout_to_c_type_def fun_eq_iff field_kind_def scalar_to_c_type_kind)
      then show ?thesis using one field_kind_ok assms(3) BScalar by (simp add: layout_ok_def)
    next
      case (BScalarPair a b)
      have "typing (Suc (Suc (Suc 0))) cx (\<lambda>cx. do { (x, cx) \<leftarrow> scalar_field_to_c_type a l 0 cx;
          (y, cx) \<leftarrow> scalar_field_to_c_type b l 1 cx; Some (intern_type (TStruct [x, y] False None) cx) }) (\<lambda>t cx'. tval cx' t)"
        by (rule typing_field typing_type | use assms rm BScalarPair in \<open>auto simp: layout_ok_def dest: later_wf later_tval\<close>)+
      then show ?thesis using nz BScalarPair by (simp add: layout_to_c_type_def [abs_def] numeral_3_eq_3)
    next
      case (BSimdVector e n)
      have "typing (Suc (Suc (Suc 0))) cx (\<lambda>cx. case intern_type (scalar_kind e) cx of (t, cx) \<Rightarrow>
          Some (intern_type (TVector t n) cx)) (\<lambda>t cx'. tval cx' t)"
        by (rule typing_let typing_type | use assms rm BSimdVector in
          \<open>auto simp: layout_ok_def scalar_kind_ok dest: later_wf\<close>)+
      then show ?thesis
        using nz BSimdVector by (simp add: layout_to_c_type_def [abs_def] scalar_to_c_type_kind Let_def numeral_3_eq_3)
    next
      case BMemory
      have "typing (Suc (Suc (Suc 0))) cx (\<lambda>cx. case intern_type (TInt 8 True) cx of (byte_ty, cx) \<Rightarrow>
          case intern_type (TArray byte_ty (l_size l)) cx of (arr_ty, cx) \<Rightarrow>
          Some (intern_type (TStruct [arr_ty] False None) cx)) (\<lambda>t cx'. tval cx' t)"
        by (rule typing_let typing_type | use assms rm in \<open>auto dest: later_wf\<close>)+
      then show ?thesis using nz BMemory unit
        by (cases "l_size l = 0") (simp_all add: layout_to_c_type_def [abs_def] Let_def numeral_3_eq_3)
    qed
  qed
qed


text \<open>
  A cast target divides by the size of its unit when it has a prefix and a rest; every prefix
  register takes one type.
\<close>

definition cast_ok :: "CastTarget \<Rightarrow> bool" where
  "cast_ok ct = (list_all (\<lambda>x. x = None) (ct_prefix ct) \<or> ct_rest_total ct = 0 \<or> ct_rest_unit ct \<noteq> 0)"

fun mode_ok :: "PassMode \<Rightarrow> bool" where
  "mode_ok (PMCast ct) = cast_ok ct"
| "mode_ok _ = True"

fun mode_types :: "PassMode \<Rightarrow> nat" where
  "mode_types (PMCast ct) = length (ct_prefix ct) + 2"
| "mode_types _ = 3"

definition arg_ok :: "ArgAbi \<Rightarrow> bool" where
  "arg_ok arg = (layout_ok (arg_layout arg) \<and> mode_ok (arg_mode arg))"

definition abi_ok :: "FnAbi \<Rightarrow> bool" where
  "abi_ok abi = (arg_ok (fa_ret abi) \<and> list_all arg_ok (fa_args abi))"

definition args_types :: "ArgAbi list \<Rightarrow> nat" where
  "args_types args = sum_list (map (mode_types \<circ> arg_mode) args)"

lemma typing_cong: "typing n cx m Q \<Longrightarrow> (\<And>cx. m cx = m' cx) \<Longrightarrow> typing n cx m' Q"
  by (simp add: typing_def)

lemma typing_prefix:
  "cx_wf cx \<Longrightarrow> room (length ps) cx \<Longrightarrow>
   typing (length ps) cx (\<lambda>cx. Some (push_prefix_types ps cx)) (\<lambda>ts cx'. \<forall>t \<in> set ts. tval cx' t)"
proof (induction ps arbitrary: cx)
  case Nil
  then show ?case using typing_return [of cx "\<lambda>ts cx'. \<forall>t \<in> set ts. tval cx' t" "[]"] by simp
next
  case (Cons p ps)
  show ?case
  proof (cases p)
    case None
    have "room (length ps) cx" using Cons.prems(2) by (rule room_mono) simp
    from Cons.IH [OF Cons.prems(1) this] show ?thesis
      using None by (auto intro: typing_mono)
  next
    case (Some r)
    have "typing (Suc (length ps + 0)) cx (\<lambda>cx. case intern_type (TInt (as_u32 (r * 8)) True) cx of (t, cx) \<Rightarrow>
        do { (ts, cx) \<leftarrow> Some (push_prefix_types ps cx); Some (t # ts, cx) }) (\<lambda>ts cx'. \<forall>t \<in> set ts. tval cx' t)"
    proof (rule typing_let)
      fix t cx1
      assume 1: "later cx cx1" "room (length ps + 0) cx1" "tval cx1 t"
      show "typing (length ps + 0) cx1 (\<lambda>cx. do { (ts, cx) \<leftarrow> Some (push_prefix_types ps cx); Some (t # ts, cx) })
          (\<lambda>ts cx'. \<forall>t \<in> set ts. tval cx' t)"
        by (rule typing_bind [OF Cons.IH]) (use 1 in \<open>auto intro!: typing_return dest: later_wf later_tval\<close>)
    qed (use Cons.prems in simp_all)
    then show ?thesis using Some by (simp add: case_prod_beta Let_def)
  qed
qed

lemma typing_cast:
  assumes "cx_wf cx" "cast_ok ct" and rm: "room (length (ct_prefix ct) + 2) cx"
  shows "typing (length (ct_prefix ct) + 2) cx (cast_target_to_c_type ct) (\<lambda>t cx'. tval cx' t)"
proof (cases "list_all (\<lambda>x. x = None) (ct_prefix ct)")
  case True
  have "typing (Suc (length (ct_prefix ct) + 1)) cx (\<lambda>cx. Some (intern_type k cx)) (\<lambda>t cx'. tval cx' t)"
    if "kind_ok k" "kind_refs k = []" for k
    by (rule typing_type) (use assms that in simp_all)
  from this [of TVoid] this [of "TInt (c_bits (as_u32 (ct_size ct * 8))) True"] show ?thesis
    using True by (cases "ct_size ct = 0") (simp_all add: cast_target_to_c_type_def [abs_def] Let_def)
next
  case False
  have "\<exists>n. (if ct_rest_total ct = 0 then Some 0 else div_ceil (ct_rest_total ct) (ct_rest_unit ct)) = Some n"
    using assms(2) False by (auto simp: cast_ok_def div_ceil_def)
  then obtain n where n: "(if ct_rest_total ct = 0 then Some 0 else div_ceil (ct_rest_total ct) (ct_rest_unit ct)) = Some n" ..
  let ?l = "length (ct_prefix ct)" and ?fs = "push_prefix_types (ct_prefix ct)"
  have "typing (Suc (?l + Suc 0)) cx (\<lambda>cx. case intern_type (TInt (as_u32 (ct_rest_unit ct * 8)) True) cx of (u, cx) \<Rightarrow>
      do { (ts, cx) \<leftarrow> Some (?fs cx); Some (intern_type (TStruct (ts @ replicate n u) False None) cx) }) (\<lambda>t cx'. tval cx' t)"
  proof (rule typing_let)
    fix u cx1
    assume 1: "later cx cx1" "room (?l + Suc 0) cx1" "tval cx1 u"
    show "typing (?l + Suc 0) cx1 (\<lambda>cx. do { (ts, cx) \<leftarrow> Some (?fs cx);
        Some (intern_type (TStruct (ts @ replicate n u) False None) cx) }) (\<lambda>t cx'. tval cx' t)"
    proof (rule typing_bind [OF typing_prefix])
      show "room ?l cx1" using 1(2) by (rule room_mono) simp
      fix ts cx2
      assume 2: "later cx1 cx2" "\<And>k. room (?l + k) cx1 \<Longrightarrow> room k cx2" "\<forall>t \<in> set ts. tval cx2 t"
      show "typing (Suc 0) cx2 (\<lambda>cx. Some (intern_type (TStruct (ts @ replicate n u) False None) cx)) (\<lambda>t cx'. tval cx' t)"
        by (rule typing_type) (use 1 2 in \<open>auto dest: later_wf later_tval\<close>)
    qed (use 1 in \<open>auto dest: later_wf\<close>)
  qed (use assms in simp_all)
  then show ?thesis using False n
    by (simp add: cast_target_to_c_type_def [abs_def] Let_def case_prod_beta)
qed


lemma typing_void:
  "cx_wf cx \<Longrightarrow> room (Suc n) cx \<Longrightarrow> typing (Suc n) cx (\<lambda>cx. Some (intern_type TVoid cx)) (\<lambda>t cx'. tval cx' t)"
  by (rule typing_type) simp_all

lemma typing_ret:
  assumes "cx_wf cx" "arg_ok (fa_ret abi)" "room (mode_types (arg_mode (fa_ret abi))) cx"
  shows "typing (mode_types (arg_mode (fa_ret abi))) cx (fn_abi_ret_type abi) (\<lambda>t cx'. tval cx' t)"
  using assms typing_void [of cx 2]
  by (cases "arg_mode (fa_ret abi)")
    (auto simp: fn_abi_ret_type_def [abs_def] arg_ok_def numeral_3_eq_3 [symmetric] simp flip: eval_nat_numeral(3)
      intro: typing_layout typing_cast simp del: add_2_eq_Suc add_2_eq_Suc')

lemma typing_arg:
  assumes "cx_wf cx" "arg_ok arg" "room (mode_types (arg_mode arg)) cx"
  shows "typing (mode_types (arg_mode arg)) cx (fn_abi_arg_type arg) (\<lambda>t cx'. tval cx' t)"
proof (cases "arg_mode arg")
  case (PMIndirect a m s)
  have "typing (Suc 2) cx (\<lambda>cx. Some (intern_type TPtr cx)) (\<lambda>t cx'. tval cx' t)"
    by (rule typing_type) (use assms PMIndirect in \<open>simp_all add: numeral_3_eq_3\<close>)
  then show ?thesis
    using PMIndirect assms typing_layout [of cx "arg_layout arg"]
    by (cases s) (simp_all add: fn_abi_arg_type_def [abs_def] arg_ok_def numeral_3_eq_3)
qed (use assms typing_void [of cx 2] in \<open>auto simp: fn_abi_arg_type_def [abs_def] arg_ok_def
      intro: typing_layout typing_cast simp del: add_2_eq_Suc add_2_eq_Suc'\<close>)


lemma typing_one:
  assumes "typing n cx m (\<lambda>t cx'. tval cx' t)"
  shows "typing n cx (\<lambda>cx. do { (t, cx) \<leftarrow> m cx; Some ([t], cx) }) (\<lambda>ts cx'. \<forall>t \<in> set ts. tval cx' t)"
proof -
  have "typing (n + 0) cx (\<lambda>cx. do { (t, cx) \<leftarrow> m cx; Some ([t], cx) }) (\<lambda>ts cx'. \<forall>t \<in> set ts. tval cx' t)"
    by (rule typing_bind [OF assms]) (auto intro: typing_return dest: later_wf)
  then show ?thesis by simp
qed

lemma typing_arg_types:
  assumes "cx_wf cx" "arg_ok arg" "room (mode_types (arg_mode arg)) cx"
  shows "typing (mode_types (arg_mode arg)) cx (fn_abi_arg_types arg) (\<lambda>ts cx'. \<forall>t \<in> set ts. tval cx' t)"
proof (cases "arg_mode arg")
  case PMIgnore
  have "typing 0 cx (\<lambda>cx. Some ([] :: TypeRef list, cx)) (\<lambda>ts cx'. \<forall>t \<in> set ts. tval cx' t)"
    by (rule typing_return) (use assms in simp_all)
  then show ?thesis using PMIgnore by (auto simp: fn_abi_arg_types_def [abs_def] intro: typing_mono)
next
  case PMPair
  have rm: "room 3 cx" "room (Suc (Suc (Suc 0))) cx" using assms(3) PMPair by (simp_all add: numeral_3_eq_3)
  show ?thesis
  proof (cases "\<exists>a b. l_repr (arg_layout arg) = BScalarPair a b")
    case True
    then obtain a b where ab: "l_repr (arg_layout arg) = BScalarPair a b" by blast
    have "typing (Suc (Suc 0)) cx (\<lambda>cx. do { (x, cx) \<leftarrow> scalar_field_to_c_type a (arg_layout arg) 0 cx;
        (y, cx) \<leftarrow> scalar_field_to_c_type b (arg_layout arg) 1 cx; Some ([x, y], cx) }) (\<lambda>ts cx'. \<forall>t \<in> set ts. tval cx' t)"
      by (rule typing_field typing_return | use assms rm ab in
        \<open>auto simp: arg_ok_def layout_ok_def dest: later_wf later_tval intro: room_mono\<close>)+
    then have "typing 3 cx (\<lambda>cx. do { (x, cx) \<leftarrow> scalar_field_to_c_type a (arg_layout arg) 0 cx;
        (y, cx) \<leftarrow> scalar_field_to_c_type b (arg_layout arg) 1 cx; Some ([x, y], cx) }) (\<lambda>ts cx'. \<forall>t \<in> set ts. tval cx' t)"
      by (rule typing_mono) auto
    then show ?thesis using PMPair ab by (simp add: fn_abi_arg_types_def [abs_def])
  next
    case False
    have "typing 3 cx (\<lambda>cx. do { (t, cx) \<leftarrow> layout_to_c_type (arg_layout arg) cx; Some ([t], cx) })
        (\<lambda>ts cx'. \<forall>t \<in> set ts. tval cx' t)"
      by (rule typing_one [OF typing_layout]) (use assms rm in \<open>simp_all add: arg_ok_def\<close>)
    then show ?thesis
      using PMPair False by (cases "l_repr (arg_layout arg)") (simp_all add: fn_abi_arg_types_def [abs_def])
  qed
next
  case (PMIndirect a m s)
  have "typing (Suc 2) cx (\<lambda>cx. case intern_type TPtr cx of (p, cx) \<Rightarrow> Some ([p, p], cx)) (\<lambda>ts cx'. \<forall>t \<in> set ts. tval cx' t)"
  proof (rule typing_let)
    fix t cx1
    assume 1: "later cx cx1" "tval cx1 t"
    have "typing 0 cx1 (\<lambda>cx. Some ([t, t], cx)) (\<lambda>ts cx'. \<forall>t \<in> set ts. tval cx' t)"
      by (rule typing_return) (use 1 in \<open>auto dest: later_wf\<close>)
    then show "typing 2 cx1 (\<lambda>cx. Some ([t, t], cx)) (\<lambda>ts cx'. \<forall>t \<in> set ts. tval cx' t)" by (rule typing_mono) auto
  qed (use assms PMIndirect in \<open>simp_all add: numeral_3_eq_3\<close>)
  then show ?thesis using PMIndirect typing_one [OF typing_arg [OF assms]]
    by (cases m) (simp_all add: fn_abi_arg_types_def [abs_def] Let_def numeral_3_eq_3)
qed (use typing_one [OF typing_arg [OF assms]] in \<open>simp_all add: fn_abi_arg_types_def [abs_def]\<close>)

lemma typing_args:
  "cx_wf cx \<Longrightarrow> list_all arg_ok args \<Longrightarrow> room (args_types args) cx \<Longrightarrow>
   typing (args_types args) cx (opt_map_state fn_abi_arg_types args) (\<lambda>tss cx'. \<forall>ts \<in> set tss. \<forall>t \<in> set ts. tval cx' t)"
proof (induction args arbitrary: cx)
  case Nil
  then show ?case by (simp add: args_types_def typing_return)
next
  case (Cons a args)
  have at: "args_types (a # args) = mode_types (arg_mode a) + args_types args" by (simp add: args_types_def)
  have rm: "room (mode_types (arg_mode a)) cx" using Cons.prems(3) by (rule room_mono) (simp add: at)
  have "typing (mode_types (arg_mode a) + (args_types args + 0)) cx (\<lambda>cx. do { (ts, cx) \<leftarrow> fn_abi_arg_types a cx;
      (tss, cx) \<leftarrow> opt_map_state fn_abi_arg_types args cx; Some (ts # tss, cx) })
      (\<lambda>tss cx'. \<forall>ts \<in> set tss. \<forall>t \<in> set ts. tval cx' t)"
  proof (rule typing_bind [OF typing_arg_types])
    fix ts cx1
    assume 1: "later cx cx1" "\<And>k. room (mode_types (arg_mode a) + k) cx \<Longrightarrow> room k cx1" "\<forall>t \<in> set ts. tval cx1 t"
    have "room (args_types args) cx1" using 1(2) Cons.prems(3) by (simp add: at)
    then show "typing (args_types args + 0) cx1 (\<lambda>cx. do { (tss, cx) \<leftarrow> opt_map_state fn_abi_arg_types args cx;
        Some (ts # tss, cx) }) (\<lambda>tss cx'. \<forall>ts \<in> set tss. \<forall>t \<in> set ts. tval cx' t)"
      by (intro typing_bind [OF Cons.IH] typing_return) (use 1 Cons.prems in \<open>auto dest: later_wf later_tval\<close>)
  qed (use Cons.prems rm in simp_all)
  then show ?case by (simp add: at)
qed


text \<open>The function type of a convention: what the convention gives again in any later context.\<close>

definition abi_types :: "FnAbi \<Rightarrow> nat" where
  "abi_types abi = mode_types (arg_mode (fa_ret abi)) + args_types (fa_args abi) + 1"

definition convention :: "FnAbi \<Rightarrow> CodegenCx \<Rightarrow> TypeRef \<Rightarrow> TypeRef \<Rightarrow> TypeRef list list \<Rightarrow> bool" where
  "convention abi cx fn_ty rt tss =
     (kind_of cx fn_ty = Some (TFunction rt (concat tss) (fa_c_variadic abi)) \<and>
      tval cx fn_ty \<and> tval cx rt \<and> (\<forall>ts \<in> set tss. \<forall>t \<in> set ts. tval cx t) \<and>
      (\<forall>cx2. later cx cx2 \<longrightarrow> fn_abi_ret_type abi cx2 = Some (rt, cx2) \<and>
         opt_map_state fn_abi_arg_types (fa_args abi) cx2 = Some (tss, cx2) \<and>
         fn_abi_to_c_type abi cx2 = Some (fn_ty, cx2)))"

lemma convention_later: "convention abi cx f r tss \<Longrightarrow> later cx cx' \<Longrightarrow> convention abi cx' f r tss"
  by (auto simp: convention_def intro: later_trans later_kind later_tval)

lemma convention_types:
  assumes wf: "cx_wf cx" and ok: "abi_ok abi" and rm: "room (abi_types abi) cx"
  shows "\<exists>fn_ty cx1 rt tss. fn_abi_to_c_type abi cx = Some (fn_ty, cx1) \<and> convention abi cx1 fn_ty rt tss \<and>
    (\<forall>b. reach b id (abi_types abi) cx cx1) \<and> cx_values cx1 = cx_values cx"
proof -
  let ?r = "mode_types (arg_mode (fa_ret abi))" and ?a = "args_types (fa_args abi)"
  have rt: "typing ?r cx (fn_abi_ret_type abi) (\<lambda>t cx'. tval cx' t)"
    by (rule typing_ret) (use wf ok room_mono [OF rm] in \<open>auto simp: abi_ok_def abi_types_def\<close>)
  then obtain rt cx1 where 1: "fn_abi_ret_type abi cx = Some (rt, cx1)" "tval cx1 rt" "\<forall>b. reach b id ?r cx cx1"
    "\<forall>cx2. later cx1 cx2 \<longrightarrow> fn_abi_ret_type abi cx2 = Some (rt, cx2)" "cx_values cx1 = cx_values cx"
    by (auto simp: typing_def)
  have rm1: "room (?a + 1) cx1" using 1(3) rm reach_room [of _ id ?r cx cx1 "?a + 1"] by (simp add: abi_types_def add.assoc)
  have "typing ?a cx1 (opt_map_state fn_abi_arg_types (fa_args abi)) (\<lambda>tss cx'. \<forall>ts \<in> set tss. \<forall>t \<in> set ts. tval cx' t)"
    by (rule typing_args) (use 1(3) ok rm1 in \<open>auto simp: abi_ok_def dest: reach_wf intro: room_mono\<close>)
  then obtain tss cx2 where 2: "opt_map_state fn_abi_arg_types (fa_args abi) cx1 = Some (tss, cx2)"
    "\<forall>ts \<in> set tss. \<forall>t \<in> set ts. tval cx2 t" "\<forall>b. reach b id ?a cx1 cx2" "cx_values cx2 = cx_values cx1"
    "\<forall>cx3. later cx2 cx3 \<longrightarrow> opt_map_state fn_abi_arg_types (fa_args abi) cx3 = Some (tss, cx3)"
    by (auto simp: typing_def)
  let ?k = "TFunction rt (concat tss) (fa_c_variadic abi)"
  have l12: "later cx1 cx2" using 2(3) reach_later by blast
  obtain f cx3 where i: "intern_type ?k cx2 = (f, cx3)" by (cases "intern_type ?k cx2")
  have rm2: "room 1 cx2" using 2(3) rm1 reach_room by blast
  have refs: "\<forall>c \<in> set (kind_refs ?k). tval cx2 c" using 2(2) later_tval [OF l12 1(2)] by auto
  have 3: "reach b id 1 cx2 cx3 \<and> kind_of cx3 f = Some ?k \<and> tval cx3 f \<and> cx_values cx3 = cx_values cx2" for b
    by (rule intern_type_reach [OF later_wf [OF l12] rm2 _ refs i]) simp
  have l23: "later cx2 cx3" using 3 reach_later by blast
  have again: "fn_abi_to_c_type abi c = Some (f, c)" if "later cx3 c" for c
    using 1(4) 2(5) that later_trans [OF l23 that] later_trans [OF l12] 3 intern_again [OF that]
    by (auto simp: fn_abi_to_c_type_def)
  have "convention abi cx3 f rt tss"
    using 3 1(2,4) 2(2,5) again later_tval [OF l23] later_tval [OF l12] later_trans [OF l23] later_trans [OF l12]
    unfolding convention_def by blast
  moreover have "reach b id (abi_types abi) cx cx3" for b
    using reach_trans [OF reach_trans [OF 1(3) [rule_format] 2(3) [rule_format]] 3 [THEN conjunct1], of b] by (simp add: abi_types_def)
  moreover have "fn_abi_to_c_type abi cx = Some (f, cx3)" using 1(1) 2(1) i by (simp add: fn_abi_to_c_type_def)
  ultimately show ?thesis using 1(5) 2(4) 3 by auto
qed

section \<open>Callees\<close>

text \<open>The declaration of a function as its type gives it.\<close>

definition prototype :: "CodegenCx \<Rightarrow> string \<Rightarrow> TypeRef \<Rightarrow> string option" where
  "prototype cx symbol fn_ty =
     do { k \<leftarrow> kind_of cx fn_ty;
          case k of
            TFunction rt args variadic \<Rightarrow>
              do { r \<leftarrow> render_type cx rt;
                   ps \<leftarrow> opt_map (render_type cx) args;
                   Some (r @ '' '' @ sanitize_name symbol @ ''('' @ params_joined ps variadic @ '')''
                     @ asm_label symbol (sanitize_name symbol) @ '';'') }
          | _ \<Rightarrow> None }"

lemma render_nonempty:
  assumes "render_type cx t = Some s" shows "s \<noteq> []"
proof -
  obtain k where "ts_get (cx_types cx) t = Some k"
    using assms by (auto simp: render_type_def render_def bind_eq_Some_conv)
  then show ?thesis using assms
    by (cases k) (auto simp: render_type_def render_def bind_eq_Some_conv split: if_splits option.splits)
qed

lemma opt_map_all: "opt_map f xs = Some ys \<Longrightarrow> (\<And>x y. f x = Some y \<Longrightarrow> P y) \<Longrightarrow> \<forall>y \<in> set ys. P y"
  by (induction xs arbitrary: ys) (auto simp: bind_eq_Some_conv)

lemma args_text_total:
  "cx_wf cx \<Longrightarrow> \<forall>t \<in> set ts. tval cx t \<Longrightarrow> \<exists>ps. opt_map (render_type cx) ts = Some ps \<and> (\<forall>p \<in> set ps. p \<noteq> [])"
  using opt_map_total [of ts "render_type cx"] type_text_total [of cx] opt_map_all [of "render_type cx" ts _ "\<lambda>p. p \<noteq> []"]
    render_nonempty by metis

lemma convention_prototype:
  assumes "cx_wf cx" "convention abi cx f r tss"
  obtains rs ps where "render_type cx r = Some rs" "opt_map (render_type cx) (concat tss) = Some ps" "\<forall>p \<in> set ps. p \<noteq> []"
    "prototype cx symbol f = Some (rs @ '' '' @ sanitize_name symbol @ ''('' @ params_joined ps (fa_c_variadic abi) @ '')''
       @ asm_label symbol (sanitize_name symbol) @ '';'')"
proof -
  have "tval cx r" "\<forall>t \<in> set (concat tss). tval cx t" using assms(2) by (auto simp: convention_def)
  then obtain rs ps where "render_type cx r = Some rs" "opt_map (render_type cx) (concat tss) = Some ps" "\<forall>p \<in> set ps. p \<noteq> []"
    using type_text_total [OF assms(1)] args_text_total [OF assms(1)] by blast
  then show thesis using that assms(2) by (simp add: prototype_def convention_def)
qed


text \<open>The value of a function, and what of the context its declaration leaves alone.\<close>

lemma function_value:
  assumes wf: "cx_wf cx" and rm: "room 2 cx" and f: "tval cx f"
  shows "\<exists>p cx1 v cx2. type_ptr cx = (p, cx1) \<and> intern_value (FunctionVal n f) p cx1 = (v, cx2) \<and>
    (\<forall>b. reach b id 2 cx cx2) \<and> vs_get (cx_values cx2) v = Some \<lparr>v_kind = FunctionVal n f, v_ty = p\<rparr> \<and>
    kind_of cx2 p = Some TPtr"
proof -
  have rm1: "room 1 cx" using rm by (rule room_mono) simp
  obtain p cx1 where i: "intern_type TPtr cx = (p, cx1)" by (cases "intern_type TPtr cx")
  have 1: "reach b id 1 cx cx1 \<and> kind_of cx1 p = Some TPtr \<and> tval cx1 p \<and> cx_values cx1 = cx_values cx" for b
    by (rule intern_type_reach [OF wf rm1 _ _ i]) simp_all
  have r1: "reach b id 1 cx cx1" for b using 1 by blast
  obtain v cx2 where v: "intern_value (FunctionVal n f) p cx1 = (v, cx2)" by (cases "intern_value (FunctionVal n f) p cx1")
  have "room 1 cx1" using reach_room [OF r1, of 1] rm by (simp add: numeral_2_eq_2)
  then have 2: "reach b id 1 cx1 cx2 \<and> vs_get (cx_values cx2) v = Some \<lparr>v_kind = FunctionVal n f, v_ty = p\<rparr>" for b
    using 1 reach_tval [OF r1 f] by (intro intern_value_reach [OF reach_wf [OF r1] _ _ _ _ _ v]) auto
  have "reach b id 2 cx cx2" for b using reach_trans [OF r1 2 [THEN conjunct1], of b] by (simp add: numeral_2_eq_2)
  moreover have "kind_of cx2 p = Some TPtr" using 1 2 reach_kind by blast
  ultimately show ?thesis using i v 2 by (auto simp: type_ptr_def)
qed

lemma declare_fn_fields [simp]:
  "cx_types (declare_fn n d cx) = cx_types cx" "cx_values (declare_fn n d cx) = cx_values cx"
  "cx_instances (declare_fn n d cx) = cx_instances cx" "cx_statics_cache (declare_fn n d cx) = cx_statics_cache cx"
  "pointer_bits (declare_fn n d cx) = pointer_bits cx" "fmt_f64 (declare_fn n d cx) = fmt_f64 cx"
  "cx_wf (declare_fn n d cx) = cx_wf cx" "render_type (declare_fn n d cx) = render_type cx"
  "kind_of (declare_fn n d cx) = kind_of cx" "later cx (declare_fn n d cx) = cx_wf cx"
  by (auto simp: declare_fn_def cx_wf_def add_function_decl_def render_type_def fun_eq_iff kind_of_def later_def)

lemma instances_fields [simp]:
  "cx_wf (cx\<lparr>cx_instances := i\<rparr>) = cx_wf cx" "render_type (cx\<lparr>cx_instances := i\<rparr>) = render_type cx"
  "kind_of (cx\<lparr>cx_instances := i\<rparr>) = kind_of cx" "later cx (cx\<lparr>cx_instances := i\<rparr>) = cx_wf cx"
  by (auto simp: cx_wf_def render_type_def fun_eq_iff kind_of_def later_def)

lemma prototype_fields [simp]:
  "prototype (declare_fn n d cx) = prototype cx" "prototype (cx\<lparr>cx_instances := i\<rparr>) = prototype cx"
  by (intro ext; unfold prototype_def declare_fn_fields instances_fields; rule refl)+

lemma get_fn_cached: "cx_instances cx i = Some v \<Longrightarrow> get_fn tcx i cx = Some (v, cx)"
  by (simp add: get_fn_def)

text \<open>The steps a callee and a definition share: its type and its value.\<close>

lemma function_announced:
  assumes wf: "cx_wf cx" and ok: "abi_ok abi" and rm: "room (abi_types abi + 2) cx"
  obtains f cx1 p cx2 v cx3 rt tss rs ps where "fn_abi_to_c_type abi cx = Some (f, cx1)" "type_ptr cx1 = (p, cx2)"
    "intern_value (FunctionVal (sanitize_name s) f) p cx2 = (v, cx3)" "\<forall>b. reach b id (abi_types abi + 2) cx cx3"
    "cx_wf cx3" "cx_instances cx3 = cx_instances cx"
    "vs_get (cx_values cx3) v = Some \<lparr>v_kind = FunctionVal (sanitize_name s) f, v_ty = p\<rparr>"
    "\<And>m. convention abi (cx3\<lparr>cx_instances := m\<rparr>) f rt tss" "\<And>m. later (cx3\<lparr>cx_instances := m\<rparr>) (cx3\<lparr>cx_instances := m\<rparr>)"
    "kind_of cx3 f = Some (TFunction rt (concat tss) (fa_c_variadic abi))"
    "render_type cx3 rt = Some rs" "opt_map (render_type cx3) (concat tss) = Some ps" "\<forall>q \<in> set ps. q \<noteq> []"
    "prototype cx3 s f = Some (rs @ '' '' @ sanitize_name s @ ''('' @ params_joined ps (fa_c_variadic abi) @ '')''
       @ asm_label s (sanitize_name s) @ '';'')"
proof -
  have rm0: "room (abi_types abi) cx" using rm by (rule room_mono) simp
  obtain f cx1 rt tss where 1: "fn_abi_to_c_type abi cx = Some (f, cx1)" "convention abi cx1 f rt tss"
    "\<forall>b. reach b id (abi_types abi) cx cx1" using convention_types [OF wf ok rm0] by blast
  have r1: "reach b id (abi_types abi) cx cx1" for b using 1(3) by blast
  have "tval cx1 f" using 1(2) by (simp add: convention_def)
  from function_value [OF reach_wf [OF r1] reach_room [OF r1 rm] this, of "sanitize_name s"] obtain p cx2 v cx3 where
    2: "type_ptr cx1 = (p, cx2)" "intern_value (FunctionVal (sanitize_name s) f) p cx2 = (v, cx3)" "\<forall>b. reach b id 2 cx1 cx3"
    "vs_get (cx_values cx3) v = Some \<lparr>v_kind = FunctionVal (sanitize_name s) f, v_ty = p\<rparr>" by blast
  have r3: "reach b id (abi_types abi + 2) cx cx3" for b using reach_trans [OF r1 2(3) [rule_format], of b] by simp
  have wf3: "cx_wf cx3" using r3 reach_wf by blast
  have conv: "convention abi cx3 f rt tss" using convention_later [OF 1(2) reach_later [OF 2(3) [rule_format]]] .
  obtain rs ps where t: "render_type cx3 rt = Some rs" "opt_map (render_type cx3) (concat tss) = Some ps"
    "\<forall>q \<in> set ps. q \<noteq> []" "prototype cx3 s f = Some (rs @ '' '' @ sanitize_name s @
       ''('' @ params_joined ps (fa_c_variadic abi) @ '')'' @ asm_label s (sanitize_name s) @ '';'')"
    using convention_prototype [OF wf3 conv] by metis
  have m: "convention abi (cx3\<lparr>cx_instances := m\<rparr>) f rt tss" "later (cx3\<lparr>cx_instances := m\<rparr>) (cx3\<lparr>cx_instances := m\<rparr>)" for m
    using convention_later [OF conv, of "cx3\<lparr>cx_instances := m\<rparr>"] wf3 by (simp_all add: later_def)
  have "cx_instances cx3 = cx_instances cx" using r3 by (auto simp: reach_def keeps_def)
  moreover have "kind_of cx3 f = Some (TFunction rt (concat tss) (fa_c_variadic abi))" using conv by (simp add: convention_def)
  ultimately show thesis using that [of f cx1 p cx2 v cx3 rt tss rs ps] 1(1) 2(1,2,4) r3 wf3 m t by blast
qed

lemma get_fn_ok:
  fixes tcx i
  defines "abi \<equiv> fn_abi_of_instance tcx i" and "s \<equiv> symbol_name tcx i"
  assumes wf: "cx_wf cx" and ok: "abi_ok abi" and rm: "room (abi_types abi + 2) cx" and new: "cx_instances cx i = None"
  shows "\<exists>v cx1 cx' f rt tss p d. get_fn tcx i cx = Some (v, cx') \<and> (\<forall>b. reach b id (abi_types abi + 2) cx cx1) \<and>
    cx' = declare_fn (sanitize_name s) d (cx1\<lparr>cx_instances := (cx_instances cx)(i \<mapsto> v)\<rparr>) \<and> convention abi cx' f rt tss \<and>
    prototype cx' s f = Some d \<and> vs_get (cx_values cx') v = Some \<lparr>v_kind = FunctionVal (sanitize_name s) f, v_ty = p\<rparr>"
proof (rule function_announced [OF wf ok rm, of s])
  fix f cx1 p cx2 v cx3 rt tss rs ps
  assume f: "fn_abi_to_c_type abi cx = Some (f, cx1)" "type_ptr cx1 = (p, cx2)"
    "intern_value (FunctionVal (sanitize_name s) f) p cx2 = (v, cx3)" "\<forall>b. reach b id (abi_types abi + 2) cx cx3"
    "cx_wf cx3" "cx_instances cx3 = cx_instances cx"
    "vs_get (cx_values cx3) v = Some \<lparr>v_kind = FunctionVal (sanitize_name s) f, v_ty = p\<rparr>"
    "kind_of cx3 f = Some (TFunction rt (concat tss) (fa_c_variadic abi))"
    "render_type cx3 rt = Some rs" "opt_map (render_type cx3) (concat tss) = Some ps" "\<forall>q \<in> set ps. q \<noteq> []"
    and conv: "\<And>m. convention abi (cx3\<lparr>cx_instances := m\<rparr>) f rt tss"
    and l: "\<And>m. later (cx3\<lparr>cx_instances := m\<rparr>) (cx3\<lparr>cx_instances := m\<rparr>)"
    and d: "prototype cx3 s f = Some (rs @ '' '' @ sanitize_name s @ ''('' @ params_joined ps (fa_c_variadic abi) @ '')''
       @ asm_label s (sanitize_name s) @ '';'')"
  let ?d = "the (prototype cx3 s f)" and ?m = "(cx_instances cx)(i \<mapsto> v)"
  have ret: "fn_abi_ret_type abi (cx3\<lparr>cx_instances := ?m\<rparr>) = Some (rt, cx3\<lparr>cx_instances := ?m\<rparr>)"
    using conv [of ?m] l [of ?m] by (simp add: convention_def)
  define cx5 where "cx5 = declare_fn (sanitize_name s) ?d (cx3\<lparr>cx_instances := ?m\<rparr>)"
  have "get_fn tcx i cx = Some (v, cx5)"
    using new f ret d
    by (simp add: get_fn_def Let_def abi_def [symmetric] s_def [symmetric] fn_params_text_joined cx5_def)
  moreover have "convention abi cx5 f rt tss"
    using convention_later [OF conv, of ?m cx5] f(5) by (simp add: cx5_def)
  moreover have "prototype cx5 s f = Some ?d"
    "vs_get (cx_values cx5) v = Some \<lparr>v_kind = FunctionVal (sanitize_name s) f, v_ty = p\<rparr>"
    using d f(7) by (simp_all add: cx5_def)
  ultimately show ?thesis using f(4) cx5_def by blast
qed

section \<open>Definitions\<close>

text \<open>The parameters an argument adds are those of the function type, numbered on.\<close>

definition arg_names :: "nat \<Rightarrow> nat \<Rightarrow> string list" where
  "arg_names i n = map (\<lambda>j. ''_arg'' @ nat_str j) [i..<i + n]"

fun passed_on_stack :: "PassMode \<Rightarrow> bool" where
  "passed_on_stack (PMIndirect a m s) = (\<not> m \<and> s)"
| "passed_on_stack _ = False"

lemma arg_names_add: "arg_names i m @ arg_names (i + m) n = arg_names i (m + n)"
  using upt_add_eq_append [of i "i + m" n] by (simp add: arg_names_def add.assoc)

lemma predefine_arg_types:
  "predefine_arg arg (ps, i, on) cx =
   map_option (\<lambda>(ts, cx). ((ps @ zip ts (arg_names i (length ts)), i + length ts,
       if passed_on_stack (arg_mode arg) then insert i on else on), cx)) (fn_abi_arg_types arg cx)"
proof -
  have one: "do { (t, cx) \<leftarrow> m; Some (push_param t (ps, i, s), cx) } =
      map_option (\<lambda>(ts, cx). ((ps @ zip ts (arg_names i (length ts)), i + length ts, s), cx))
        (do { (t, cx) \<leftarrow> m; Some ([t], cx) })" for m :: "(TypeRef \<times> CodegenCx) option" and s
    by (cases m) (auto simp: push_param_def arg_names_def)
  have two: "arg_names i 2 = [''_arg'' @ nat_str i, ''_arg'' @ nat_str (Suc i)]"
    by (simp add: arg_names_def numeral_2_eq_2)
  show ?thesis
  proof (cases "arg_mode arg")
    case PMPair
    show ?thesis
    proof (cases "l_repr (arg_layout arg)")
      case (BScalarPair a b)
      show ?thesis
        using PMPair BScalarPair two
        by (auto simp: predefine_arg_def fn_abi_arg_types_def push_param_def numeral_2_eq_2 split: bind_splits)
    qed (use PMPair one in \<open>simp_all add: predefine_arg_def fn_abi_arg_types_def fn_abi_arg_type_def\<close>)
  next
    case (PMIndirect a m s)
    show ?thesis
      using PMIndirect two one by (cases m; cases s)
        (auto simp: predefine_arg_def fn_abi_arg_types_def mark_on_stack_def push_param_def type_ptr_def
          numeral_2_eq_2 split: prod.split)
  qed (use one in \<open>auto simp: predefine_arg_def fn_abi_arg_types_def arg_names_def\<close>)
qed

lemma predefine_args_types:
  "\<exists>on'. predefine_args args (ps, i, on) cx =
     map_option (\<lambda>(tss, cx). ((ps @ zip (concat tss) (arg_names i (length (concat tss))), i + length (concat tss), on'), cx))
       (opt_map_state fn_abi_arg_types args cx)"
proof (induction args arbitrary: ps i on cx)
  case Nil
  then show ?case by (simp add: arg_names_def)
next
  case (Cons a args)
  show ?case
  proof (cases "fn_abi_arg_types a cx")
    case None
    then show ?thesis by (simp add: predefine_arg_types)
  next
    case (Some r)
    obtain ts cx1 where r: "r = (ts, cx1)" by (cases r)
    let ?on = "if passed_on_stack (arg_mode a) then insert i on else on"
    obtain on' where ih: "predefine_args args (ps @ zip ts (arg_names i (length ts)), i + length ts, ?on) cx1 =
       map_option (\<lambda>(tss, cx). (((ps @ zip ts (arg_names i (length ts))) @
           zip (concat tss) (arg_names (i + length ts) (length (concat tss))), i + length ts + length (concat tss), on'), cx))
         (opt_map_state fn_abi_arg_types args cx1)"
      using Cons.IH by blast
    have "zip ts (arg_names i (length ts)) @ zip us (arg_names (i + length ts) (length us)) =
        zip (ts @ us) (arg_names i (length ts + length us))" for us
      by (subst zip_append [symmetric]) (simp_all add: arg_names_add, simp add: arg_names_def)
    then show ?thesis using ih Some r
      by (intro exI [of _ on']) (cases "opt_map_state fn_abi_arg_types args cx1", auto simp: predefine_arg_types add.assoc)
  qed
qed


definition linkage_text :: "Linkage \<Rightarrow> string" where
  "linkage_text l = (if l = LInternal \<or> l = LAvailableExternally then ''static '' else [])"

text \<open>The definition a function type gives, before it has blocks.\<close>

definition definition_of :: "FnAbi \<Rightarrow> Linkage \<Rightarrow> string \<Rightarrow> TypeRef \<Rightarrow> TypeRef list \<Rightarrow> FunctionDef \<Rightarrow> bool" where
  "definition_of abi linkage n rt ts fd =
     (fd_name fd = n \<and> fd_return_type fd = rt \<and> fd_params fd = zip ts (arg_names 0 (length ts)) \<and>
      fd_blocks fd = [] \<and> fd_linkage_prefix fd = linkage_text linkage \<and> fd_is_variadic fd = fa_c_variadic abi \<and>
      fd_has_indirect_ret fd = is_indirect (arg_mode (fa_ret abi)) \<and>
      fd_ret_data_type fd = (if is_indirect (arg_mode (fa_ret abi)) then Some rt else None))"

lemma convention_ret_layout:
  assumes "convention abi cx f rt tss" "is_indirect (arg_mode (fa_ret abi))" "later cx cx2"
  shows "layout_to_c_type (arg_layout (fa_ret abi)) cx2 = Some (rt, cx2)"
  using assms by (cases "arg_mode (fa_ret abi)") (auto simp: convention_def fn_abi_ret_type_def)

lemma open_function_fields [simp]:
  "cx_types (open_function n fd cx) = cx_types cx" "cx_values (open_function n fd cx) = cx_values cx"
  "cx_instances (open_function n fd cx) = cx_instances cx"
  by (simp_all add: open_function_def Let_def)

lemma prototype_open: "prototype (open_function n fd cx) = prototype cx"
proof -
  have "render_type (open_function n fd cx) = render_type cx" "kind_of (open_function n fd cx) = kind_of cx"
    by (simp_all add: render_type_def kind_of_def fun_eq_iff)
  then show ?thesis by (intro ext) (unfold prototype_def, simp only:)
qed

lemma open_function_wf:
  assumes "cx_wf cx" "fd_wf fd" "fn_typed (cx_types cx) fd"
  shows "cx_wf (open_function n fd cx)"
proof -
  let ?m = "open_functions (cx_module cx)"
  have "bt_inv (bt_insert n fd ?m)" using assms(1) by (intro bt_inv_insert) (simp add: cx_wf_def)
  moreover have "\<forall>(k, f) \<in> set (bt_insert n fd ?m). fd_wf f \<and> fn_typed (cx_types cx) f"
    using set_bt_insert [of n fd ?m] assms by (fastforce simp: cx_wf_def)
  ultimately show ?thesis using assms(1) by (simp add: cx_wf_def open_function_def Let_def)
qed

lemma predefine_fn_ok:
  fixes tcx i
  defines "abi \<equiv> fn_abi_of_instance tcx i"
  assumes wf: "cx_wf cx" and ok: "abi_ok abi" and rm: "room (abi_types abi + 2) cx"
  shows "\<exists>v cx1 cx' f rt tss p d fd. predefine_fn tcx i lk symbol cx = Some cx' \<and>
    (\<forall>b. reach b id (abi_types abi + 2) cx cx1) \<and>
    cx' = open_function (sanitize_name symbol) fd (declare_fn (sanitize_name symbol) (linkage_text lk @ d)
            (cx1\<lparr>cx_instances := (cx_instances cx)(i \<mapsto> v)\<rparr>)) \<and>
    cx_wf cx' \<and> convention abi cx' f rt tss \<and> prototype cx' symbol f = Some d \<and>
    definition_of abi lk (sanitize_name symbol) rt (concat tss) fd \<and>
    vs_get (cx_values cx') v = Some \<lparr>v_kind = FunctionVal (sanitize_name symbol) f, v_ty = p\<rparr>"
proof (rule function_announced [OF wf ok rm, of symbol])
  let ?c = "sanitize_name symbol"
  fix f cx1 p cx2 v cx3 rt tss rs ps
  assume f: "fn_abi_to_c_type abi cx = Some (f, cx1)" "type_ptr cx1 = (p, cx2)"
    "intern_value (FunctionVal ?c f) p cx2 = (v, cx3)" "\<forall>b. reach b id (abi_types abi + 2) cx cx3"
    "cx_wf cx3" "cx_instances cx3 = cx_instances cx" "vs_get (cx_values cx3) v = Some \<lparr>v_kind = FunctionVal ?c f, v_ty = p\<rparr>"
    "kind_of cx3 f = Some (TFunction rt (concat tss) (fa_c_variadic abi))"
    "render_type cx3 rt = Some rs" "opt_map (render_type cx3) (concat tss) = Some ps"
    and conv: "\<And>m. convention abi (cx3\<lparr>cx_instances := m\<rparr>) f rt tss"
    and l: "\<And>m. later (cx3\<lparr>cx_instances := m\<rparr>) (cx3\<lparr>cx_instances := m\<rparr>)"
    and d: "prototype cx3 symbol f = Some (rs @ '' '' @ ?c @ ''('' @ params_joined ps (fa_c_variadic abi) @ '')''
       @ asm_label symbol ?c @ '';'')"
  let ?d = "the (prototype cx3 symbol f)" and ?cx4 = "cx3\<lparr>cx_instances := (cx_instances cx)(i \<mapsto> v)\<rparr>"
  have ret: "fn_abi_ret_type abi ?cx4 = Some (rt, ?cx4)"
    and args4: "opt_map_state fn_abi_arg_types (fa_args abi) ?cx4 = Some (tss, ?cx4)"
    using conv [of "(cx_instances cx)(i \<mapsto> v)"] l [of "(cx_instances cx)(i \<mapsto> v)"] by (simp_all add: convention_def)
  let ?ts = "concat tss"
  obtain on where on: "predefine_args (fa_args abi) ([], 0, {}) ?cx4 =
      Some ((zip ?ts (arg_names 0 (length ?ts)), length ?ts, on), ?cx4)"
    using predefine_args_types [of "fa_args abi" "[]" 0 "{}" ?cx4] args4 by auto
  have ml: "map fst (zip ?ts (arg_names 0 (length ?ts))) = ?ts" by (simp add: arg_names_def)
  define cx5 where "cx5 = declare_fn ?c (linkage_text lk @ ?d) ?cx4"
  have l5: "later ?cx4 cx5" using f(5) by (simp add: cx5_def)
  define fd where "fd = (FunctionDef_new ?c rt (zip ?ts (arg_names 0 (length ?ts))))
    \<lparr>fd_linkage_prefix := linkage_text lk, fd_is_variadic := fa_c_variadic abi, fd_on_stack_params := on,
     fd_has_indirect_ret := is_indirect (arg_mode (fa_ret abi)),
     fd_ret_data_type := (if is_indirect (arg_mode (fa_ret abi)) then Some rt else None)\<rparr>"
  define cx6 where "cx6 = open_function ?c fd cx5"
  have "predefine_fn tcx i lk symbol cx = Some cx6"
    using f ret on d convention_ret_layout [OF conv _ l5] ml
    by (simp add: predefine_fn_def Let_def abi_def [symmetric] linkage_text_def cx5_def cx6_def fd_def FunctionDef_new_def)
  moreover have "cx_wf cx6"
  proof -
    have "tval cx3 rt" "\<forall>t \<in> set ?ts. tval cx3 t" using conv [of "cx_instances cx3"] by (auto simp: convention_def)
    then have "fn_typed (cx_types cx5) fd"
      by (auto simp: fn_typed_def fd_def FunctionDef_new_def cx5_def dest!: set_zip_leftD)
    then show ?thesis unfolding cx6_def
      by (intro open_function_wf) (simp_all add: cx5_def f(5) fd_def fd_wf_def FunctionDef_new_def)
  qed
  moreover have "convention abi cx6 f rt tss"
    using convention_later [OF conv, of _ cx6] \<open>cx_wf cx6\<close> by (simp add: cx6_def cx5_def later_def)
  moreover have "prototype cx6 symbol f = Some ?d"
    using d by (simp add: cx6_def cx5_def prototype_open)
  moreover have "definition_of abi lk ?c rt ?ts fd" by (simp add: definition_of_def fd_def FunctionDef_new_def)
  moreover have "vs_get (cx_values cx6) v = Some \<lparr>v_kind = FunctionVal ?c f, v_ty = p\<rparr>"
    using f(7) by (simp add: cx6_def cx5_def)
  ultimately show ?thesis using f(4) cx6_def cx5_def by blast
qed

end
