(* ===== verification/StaticsSound.thy ===== *)
theory StaticsSound
  imports Statics FunctionsSound
begin

text \<open>
  Constant data and statics: an allocation is the sequence of its byte runs and pointers, the
  struct that is declared ahead and the initialiser that is written later have its fields, the
  bytes of the fields are those of the allocation, and the translation of an allocation ends.
\<close>

section \<open>Pieces of an allocation\<close>

text \<open>A run of bytes, or a pointer with what it points to and its addend.\<close>

datatype piece = Bytes "nat list" | Pointer nat nat

fun pieces :: "nat \<Rightarrow> nat list \<Rightarrow> nat \<Rightarrow> (nat \<times> nat) list \<Rightarrow> piece list" where
  "pieces psize bytes pos [] = (if pos < length bytes then [Bytes (drop pos bytes)] else [])"
| "pieces psize bytes pos ((off, prov) # rs) =
     (if off > pos then [Bytes (take (off - pos) (drop pos bytes))] else []) @
     Pointer prov (le_number (take psize (drop off bytes))) # pieces psize bytes (off + psize) rs"

text \<open>Relocations in order, apart, and inside the allocation.\<close>

fun relocs_ok :: "nat \<Rightarrow> nat list \<Rightarrow> nat \<Rightarrow> (nat \<times> nat) list \<Rightarrow> bool" where
  "relocs_ok psize bytes pos [] = (pos \<le> length bytes)"
| "relocs_ok psize bytes pos ((off, prov) # rs) =
     (pos \<le> off \<and> relocs_ok psize bytes (off + psize) rs)"

lemma relocs_ok_bound: "relocs_ok psize bytes pos rs \<Longrightarrow> pos \<le> length bytes"
  by (induction psize bytes pos rs rule: relocs_ok.induct) auto

text \<open>The bytes of a piece; a pointer holds its addend, least significant byte first.\<close>

fun le_bytes :: "nat \<Rightarrow> nat \<Rightarrow> nat list" where
  "le_bytes 0 n = []"
| "le_bytes (Suc k) n = n mod 256 # le_bytes k (n div 256)"

fun piece_bytes :: "nat \<Rightarrow> piece \<Rightarrow> nat list" where
  "piece_bytes psize (Bytes bs) = bs"
| "piece_bytes psize (Pointer prov addend) = le_bytes psize addend"

lemma le_bytes_number: "\<forall>x \<in> set xs. x < 256 \<Longrightarrow> le_bytes (length xs) (le_number xs) = xs"
  by (induction xs) auto

lemma pieces_bytes:
  assumes "relocs_ok psize bytes pos rs" "\<forall>x \<in> set bytes. x < 256"
  shows "concat (map (piece_bytes psize) (pieces psize bytes pos rs)) = drop pos bytes"
  using assms
proof (induction psize bytes pos rs rule: relocs_ok.induct)
  case (2 psize bytes pos off prov rs)
  have b: "off + psize \<le> length bytes" using 2(2) relocs_ok_bound by auto
  let ?p = "take psize (drop off bytes)"
  have "le_bytes (length ?p) (le_number ?p) = ?p"
    using 2(3) by (intro le_bytes_number) (auto dest!: in_set_takeD in_set_dropD)
  then have p: "le_bytes psize (le_number ?p) = ?p" using b by simp
  have "take (off - pos) (drop pos bytes) @ drop off bytes = drop pos bytes"
    using 2(2) append_take_drop_id [of "off - pos" "drop pos bytes"] by simp
  moreover have "?p @ drop (off + psize) bytes = drop off bytes"
    using append_take_drop_id [of psize "drop off bytes"] by (simp add: add.commute)
  ultimately show ?case using 2 p by auto
qed simp

lemma pieces_pointers: "List.map_filter (\<lambda>p. case p of Pointer q a \<Rightarrow> Some q | _ \<Rightarrow> None) (pieces psize bytes pos rs) = map snd rs"
  by (induction psize bytes pos rs rule: pieces.induct) (auto simp: List.map_filter_def)

section \<open>Fields\<close>

text \<open>The declaration of a piece, and the initialiser of one given the text of its pointer.\<close>

fun piece_field :: "nat \<Rightarrow> piece \<Rightarrow> string" where
  "piece_field i (Bytes bs) = byte_field i (length bs)"
| "piece_field i (Pointer prov addend) = pointer_field i"

definition piece_fields :: "nat \<Rightarrow> piece list \<Rightarrow> string list" where
  "piece_fields i ps = map (\<lambda>(j, p). piece_field j p) (enumerate i ps)"

fun piece_inits :: "nat \<Rightarrow> piece list \<Rightarrow> string list \<Rightarrow> string list" where
  "piece_inits i (Bytes bs # ps) ts =
     (''.f'' @ nat_str i @ '' = { '' @ hex_list bs @ '' }'') # piece_inits (i + 1) ps ts"
| "piece_inits i (Pointer prov addend # ps) (t # ts) =
     (''.f'' @ nat_str i @ '' = '' @ t) # piece_inits (i + 1) ps ts"
| "piece_inits i _ _ = []"

lemma piece_fields_Nil [simp]: "piece_fields i [] = []"
  by (simp add: piece_fields_def)

lemma piece_fields_Cons [simp]: "piece_fields i (p # ps) = piece_field i p # piece_fields (Suc i) ps"
  by (simp add: piece_fields_def)

text \<open>The fields declared ahead are those of the pieces.\<close>

lemma fwd_fields_pieces:
  assumes "relocs_ok psize bytes pos rs" "fwd_fields psize rs (fs, pos, i) = (fs', pos', i')"
  shows "fs @ piece_fields i (pieces psize bytes pos rs) =
    fs' @ (if pos' < length bytes then [byte_field i' (length bytes - pos')] else [])"
  using assms
proof (induction psize bytes pos rs arbitrary: fs i rule: relocs_ok.induct)
  case (2 psize bytes pos off prov rs)
  have b: "off + psize \<le> length bytes" using 2(2) relocs_ok_bound by auto
  show ?case
  proof (cases "off > pos")
    case True
    then have "min (off - pos) (length bytes - pos) = off - pos" using b by simp
    then show ?thesis
      using 2(1) [of "fs @ [byte_field i (off - pos), pointer_field (i + 1)]" "i + 2"] 2(2,3) True b
      by (simp add: Let_def)
  next
    case False
    then show ?thesis
      using 2(1) [of "fs @ [pointer_field i]" "i + 1"] 2(2,3) by (simp add: Let_def)
  qed
qed auto


text \<open>
  The loop over the relocations writes the fields and the initialisers of the pieces, with the
  texts of the pointers it visits in order.
\<close>

definition target_at :: "data_op \<Rightarrow> Tcx \<Rightarrow> nat \<Rightarrow> nat list \<Rightarrow> nat \<times> nat \<Rightarrow> CodegenCx \<Rightarrow> (string \<times> CodegenCx) option" where
  "target_at data tcx psize bytes r = reloc_target data tcx (snd r) (le_number (take psize (drop (fst r) bytes)))"

definition struct_texts ::
  "data_op \<Rightarrow> Tcx \<Rightarrow> string \<Rightarrow> string \<Rightarrow> nat \<Rightarrow> nat list \<Rightarrow> (nat \<times> nat) list \<Rightarrow> layout_state \<Rightarrow> CodegenCx
   \<Rightarrow> ((string list \<times> string list) \<times> CodegenCx) option" where
  "struct_texts data tcx ind semi psize bytes rs st cx =
     do { (st, cx) \<leftarrow> reloc_fields data tcx ind semi psize bytes rs st cx;
          (fs, inits, _, _) \<leftarrow> push_bytes ind semi bytes (length bytes) st;
          Some ((fs, inits), cx) }"

lemma push_bytes_ok:
  "pos \<le> n \<Longrightarrow> n \<le> length bytes \<Longrightarrow> push_bytes ind semi bytes n (fs, ns, pos, i) =
   (let bs = take (n - pos) (drop pos bytes) in
    Some (if pos < n then (fs @ [ind @ byte_field i (n - pos) @ semi],
            ns @ [ind @ ''.f'' @ nat_str i @ '' = { '' @ hex_list bs @ '' }''], n, i + 1) else (fs, ns, pos, i)))"
  by (simp add: push_bytes_def slice_def)

lemma struct_texts_pieces:
  assumes "relocs_ok psize bytes pos rs" "psize \<in> {4, 8}"
  shows "struct_texts data tcx ind semi psize bytes rs (fs, ns, pos, i) cx =
    do { (ts, cx) \<leftarrow> opt_map_state (target_at data tcx psize bytes) rs cx;
         Some ((fs @ map (\<lambda>f. ind @ f @ semi) (piece_fields i (pieces psize bytes pos rs)),
                ns @ map (\<lambda>s. ind @ s) (piece_inits i (pieces psize bytes pos rs) ts)), cx) }"
  using assms
proof (induction psize bytes pos rs arbitrary: fs ns i cx rule: relocs_ok.induct)
  case (1 psize bytes pos)
  then show ?case
    by (cases "pos < length bytes") (simp_all add: struct_texts_def push_bytes_ok)
next
  case (2 psize bytes pos off prov rs)
  have b: "pos \<le> off" "off + psize \<le> length bytes" using 2(2) relocs_ok_bound by auto
  have m: "min (off - pos) (length bytes - pos) = off - pos" using b by simp
  let ?a = "le_number (take psize (drop off bytes))"
  have sl: "slice off (off + psize) bytes = Some (take psize (drop off bytes))" using b by (simp add: slice_def)
  have po: "ptr_offset_of psize (take psize (drop off bytes)) = Some ?a" using 2(3) by (simp add: ptr_offset_of_def)
  show ?case
  proof (cases "reloc_target data tcx prov ?a cx")
    case None
    have "struct_texts data tcx ind semi psize bytes ((off, prov) # rs) (fs, ns, pos, i) cx = None"
      using b None sl po by (simp add: struct_texts_def push_bytes_ok Let_def)
    then show ?thesis using None by (simp add: target_at_def)
  next
    case (Some r)
    obtain t cx1 where r: "r = (t, cx1)" by (cases r)
    have "target_at data tcx psize bytes (off, prov) cx = Some (t, cx1)" using Some r by (simp add: target_at_def)
    let ?bs = "take (off - pos) (drop pos bytes)"
    let ?fs = "if pos < off then fs @ [ind @ byte_field i (off - pos) @ semi] else fs"
    let ?ns = "if pos < off then ns @ [ind @ ''.f'' @ nat_str i @ '' = { '' @ hex_list ?bs @ '' }''] else ns"
    let ?i = "if pos < off then i + 1 else i"
    have "struct_texts data tcx ind semi psize bytes ((off, prov) # rs) (fs, ns, pos, i) cx =
        struct_texts data tcx ind semi psize bytes rs (?fs @ [ind @ pointer_field ?i @ semi],
          ?ns @ [ind @ ''.f'' @ nat_str ?i @ '' = '' @ t], off + psize, ?i + 1) cx1"
      using b Some sl po r by (simp add: struct_texts_def push_bytes_ok Let_def)
    also have "\<dots> = do { (ts, cx) \<leftarrow> opt_map_state (target_at data tcx psize bytes) rs cx1;
         Some (((?fs @ [ind @ pointer_field ?i @ semi]) @ map (\<lambda>f. ind @ f @ semi) (piece_fields (?i + 1) (pieces psize bytes (off + psize) rs)),
                (?ns @ [ind @ ''.f'' @ nat_str ?i @ '' = '' @ t]) @ map (\<lambda>s. ind @ s) (piece_inits (?i + 1) (pieces psize bytes (off + psize) rs) ts)), cx) }"
      by (rule 2(1)) (use 2(2,3) in auto)
    finally show ?thesis
      using m \<open>target_at data tcx psize bytes (off, prov) cx = Some (t, cx1)\<close>
      by (cases "pos < off"; cases "opt_map_state (target_at data tcx psize bytes) rs cx1") auto
  qed
qed


section \<open>More fuel, the same result\<close>

definition data_le :: "data_op \<Rightarrow> data_op \<Rightarrow> bool" where
  "data_le d d' = (\<forall>a cx r. d a cx = Some r \<longrightarrow> d' a cx = Some r)"

lemma data_target_le: "data_le d d' \<Longrightarrow> data_target d a off cx = Some r \<Longrightarrow> data_target d' a off cx = Some r"
  unfolding data_target_def data_le_def by (cases "d a cx") auto

lemma reloc_target_le: "data_le d d' \<Longrightarrow> reloc_target d tcx q off cx = Some r \<Longrightarrow> reloc_target d' tcx q off cx = Some r"
  by (cases "global_alloc tcx q") (auto simp: reloc_target_def dest: data_target_le)

lemma bind_SomeE:
  "Option.bind m f = Some r \<Longrightarrow> (\<And>x. m = Some x \<Longrightarrow> f x = Some r \<Longrightarrow> P) \<Longrightarrow> P"
  by (cases m) auto

lemma reloc_fields_le:
  assumes d: "data_le d d'"
  shows "reloc_fields d tcx ind semi ps bytes rs st cx = Some r \<Longrightarrow> reloc_fields d' tcx ind semi ps bytes rs st cx = Some r"
proof (induction rs arbitrary: st cx)
  case (Cons x rs)
  obtain off q where x: "x = (off, q)" by (cases x)
  obtain fs ns pos i pb po t cx1 where
    1: "push_bytes ind semi bytes off st = Some (fs, ns, pos, i)" "slice off (off + ps) bytes = Some pb"
      "ptr_offset_of ps pb = Some po" "reloc_target d tcx q po cx = Some (t, cx1)"
    and 2: "reloc_fields d tcx ind semi ps bytes rs (fs @ [ind @ pointer_field i @ semi],
      ns @ [ind @ ''.f'' @ nat_str i @ '' = '' @ t], off + ps, i + 1) cx1 = Some r"
    using Cons.prems unfolding x reloc_fields.simps
    by - (erule bind_SomeE | clarsimp simp del: reloc_fields.simps)+
  show ?case
    by (simp only: x reloc_fields.simps 1(1-3) reloc_target_le [OF d 1(4)] bind.bind_lunit prod.case Cons.IH [OF 2])
qed simp

lemma const_data_more_fuel:
  "const_data_from_alloc n tcx a cx = Some r \<Longrightarrow> n \<le> m \<Longrightarrow> const_data_from_alloc m tcx a cx = Some r"
proof (induction n arbitrary: m a cx r)
  case (Suc n)
  obtain k where m: "m = Suc k" "n \<le> k" using Suc.prems(2) by (cases m) auto
  have d: "data_le (const_data_from_alloc n tcx) (const_data_from_alloc k tcx)"
    unfolding data_le_def using Suc.IH m(2) by blast
  obtain v nm cx1 where dv: "data_value a cx = ((v, nm), cx1)" by (cases "data_value a cx") auto
  show ?case
  proof (cases "al_ptrs a = []")
    case True
    then show ?thesis using Suc.prems(1) by (simp add: m(1) dv)
  next
    case False
    let ?m = "reloc_fields (const_data_from_alloc n tcx) tcx ''  '' '';'' (pointer_bytes cx1) (al_bytes a)
        (al_ptrs a) ([], [], 0, 0) cx1"
    have "?m \<noteq> None" using Suc.prems(1) False by (cases ?m) (simp_all add: dv Let_def)
    then obtain y where st: "?m = Some y" by blast
    show ?thesis using Suc.prems(1) False by (simp add: m(1) dv Let_def st reloc_fields_le [OF d st])
  qed
qed simp

section \<open>What the translation changes\<close>

text \<open>The stores grow, the open functions stay, and no name gets a second declaration.\<close>

definition grows :: "nat \<Rightarrow> CodegenCx \<Rightarrow> CodegenCx \<Rightarrow> bool" where
  "grows n cx cx' =
     (cx_wf cx' \<and> ts_le (cx_types cx) (cx_types cx') \<and> vs_le (cx_values cx) (cx_values cx') \<and>
      length (ts_types (cx_types cx')) \<le> length (ts_types (cx_types cx)) + n \<and>
      length (vs_values (cx_values cx')) \<le> length (vs_values (cx_values cx)) + n \<and>
      pointer_bits cx' = pointer_bits cx \<and> fmt_f64 cx' = fmt_f64 cx \<and>
      open_functions (cx_module cx') = open_functions (cx_module cx) \<and>
      (decls_once (cx_module cx) \<longrightarrow> decls_once (cx_module cx')))"

lemma grows_refl: "cx_wf cx \<Longrightarrow> grows n cx cx"
  by (simp add: grows_def)

lemma grows_trans: "grows m cx cx1 \<Longrightarrow> grows n cx1 cx2 \<Longrightarrow> grows (m + n) cx cx2"
  by (auto simp: grows_def intro: ts_le_trans vs_le_trans)

lemma grows_mono: "grows m cx cx' \<Longrightarrow> m \<le> n \<Longrightarrow> grows n cx cx'"
  by (auto simp: grows_def)

lemma grows_wf: "grows n cx cx' \<Longrightarrow> cx_wf cx'"
  by (simp add: grows_def)

lemma grows_room: "grows n cx cx' \<Longrightarrow> room (n + k) cx \<Longrightarrow> room k cx'"
  by (auto simp: grows_def room_def)

lemma grows_pointer: "grows n cx cx' \<Longrightarrow> pointer_bytes cx' = pointer_bytes cx"
  by (simp add: grows_def pointer_bytes_def)

lemma grows_vval: "grows n cx cx' \<Longrightarrow> vval cx v \<Longrightarrow> vval cx' v"
  by (auto simp: grows_def dest: vs_le_valid)

lemma grows_tval: "grows n cx cx' \<Longrightarrow> tval cx t \<Longrightarrow> tval cx' t"
  by (auto simp: grows_def dest: ts_le_valid)

lemma reach_grows: "reach b id n cx cx' \<Longrightarrow> grows n cx cx'"
  by (auto simp: reach_def keeps_def grows_def)

lemma get_fn_grows:
  assumes "cx_wf cx" "abi_ok (fn_abi_of_instance tcx i)" "room (abi_types (fn_abi_of_instance tcx i) + 2) cx"
  shows "\<exists>v cx'. get_fn tcx i cx = Some (v, cx') \<and> grows (abi_types (fn_abi_of_instance tcx i) + 2) cx cx'"
proof (cases "cx_instances cx i")
  case (Some v)
  then show ?thesis using get_fn_cached grows_refl [OF assms(1)] by blast
next
  case None
  from get_fn_ok [OF assms None] obtain v cx1 cx' d n m where
    g: "get_fn tcx i cx = Some (v, cx')" and r: "\<forall>b. reach b id (abi_types (fn_abi_of_instance tcx i) + 2) cx cx1"
    and cx': "cx' = declare_fn n d (cx1\<lparr>cx_instances := m\<rparr>)" by blast
  have "grows 0 cx1 cx'" using r decls_once_add_function [of "cx_module cx1" n d]
    by (auto simp: cx' grows_def dest: reach_wf) (auto simp: declare_fn_def add_function_decl_def)
  from grows_trans [OF reach_grows [OF r [rule_format]] this] show ?thesis using g by auto
qed

lemma module_only_grows:
  assumes "cx_wf cx" "open_functions m = open_functions (cx_module cx)" "decls_once (cx_module cx) \<longrightarrow> decls_once m"
  shows "grows 0 cx (cx\<lparr>cx_module := m\<rparr>)"
  using assms by (auto simp: grows_def cx_wf_def)

lemma add_global_open [simp]: "open_functions (add_global_decl n d m) = open_functions m"
  by (simp add: add_global_decl_def)

lemma fwd_decl_grows:
  assumes wf: "cx_wf cx" shows "grows 0 cx (emit_static_struct_fwd_decl tcx c s i t cx)"
proof -
  have "grows 0 cx (cx\<lparr>cx_module := add_global_decl n d ((cx_module cx)\<lparr>struct_defs := x\<rparr>)\<rparr>)" for n d x
    by (rule module_only_grows) (use wf decls_once_add_global [of "(cx_module cx)\<lparr>struct_defs := x\<rparr>"] in \<open>auto simp: decls_once_def\<close>)
  then show ?thesis
    using grows_refl [OF wf] by (auto simp: emit_static_struct_fwd_decl_def Let_def split: option.split prod.split)
qed

lemma static_decl_grows: "cx_wf cx \<Longrightarrow> grows 0 cx (emit_extern_static_decl tcx c s i cx)"
proof -
  assume wf: "cx_wf cx"
  have "grows 0 cx (global_decl n d cx)" for n d
    unfolding global_decl_def by (rule module_only_grows) (use wf decls_once_add_global in auto)
  then show ?thesis using fwd_decl_grows [OF wf] by (simp add: emit_extern_static_decl_def Let_def)
qed

section \<open>The translation ends\<close>

text \<open>
  An allocation whose pointers lead at most \<open>n\<close> allocations deep, all well laid out; and the
  entries its translation adds to the stores.
\<close>

definition target_ok :: "(Allocation \<Rightarrow> bool) \<Rightarrow> Tcx \<Rightarrow> nat \<times> nat \<Rightarrow> bool" where
  "target_ok ok tcx r =
     (case global_alloc tcx (snd r) of
        GaFunction i \<Rightarrow> abi_ok (fn_abi_of_instance tcx i)
      | GaMemory b \<Rightarrow> ok b
      | GaVTable b \<Rightarrow> ok b
      | _ \<Rightarrow> True)"

definition target_cost :: "(Allocation \<Rightarrow> nat) \<Rightarrow> Tcx \<Rightarrow> nat \<times> nat \<Rightarrow> nat" where
  "target_cost cost tcx r =
     (case global_alloc tcx (snd r) of
        GaFunction i \<Rightarrow> abi_types (fn_abi_of_instance tcx i) + 2
      | GaMemory b \<Rightarrow> cost b
      | GaVTable b \<Rightarrow> cost b
      | _ \<Rightarrow> 0)"

fun nests :: "nat \<Rightarrow> nat \<Rightarrow> Tcx \<Rightarrow> Allocation \<Rightarrow> bool" where
  "nests 0 psize tcx a = False"
| "nests (Suc n) psize tcx a =
     (relocs_ok psize (al_bytes a) 0 (al_ptrs a) \<and> list_all (target_ok (nests n psize tcx) tcx) (al_ptrs a))"

fun data_cost :: "nat \<Rightarrow> Tcx \<Rightarrow> Allocation \<Rightarrow> nat" where
  "data_cost 0 tcx a = 0"
| "data_cost (Suc n) tcx a = 3 + sum_list (map (target_cost (data_cost n tcx) tcx) (al_ptrs a))"

lemma byte_counter_grows:
  assumes "cx_wf cx" shows "grows 0 cx (cx\<lparr>cx_values := (cx_values cx)\<lparr>byte_string_counter := c\<rparr>\<rparr>)"
proof -
  have "vs_wf ((cx_values cx)\<lparr>byte_string_counter := c\<rparr>) = vs_wf (cx_values cx)"
    by (simp add: vs_wf_def vs_temps_def)
  then show ?thesis using assms by (auto simp: grows_def cx_wf_def vs_le_def)
qed

lemma new_value_grows:
  assumes "cx_wf cx" "room 1 cx" "tval cx t" "kind_temp k = None" "value_refs k = []" "kind_types k = []"
    and i: "intern_value k t cx = (v, cx')"
  shows "grows 1 cx cx'" "vval cx' v"
proof -
  have r: "reach b id 1 cx cx' \<and> vs_get (cx_values cx') v = Some \<lparr>v_kind = k, v_ty = t\<rparr>" for b
    by (rule intern_value_reach [OF assms(1-4) _ _ i]) (simp_all add: assms)
  then show "grows 1 cx cx'" using reach_grows by blast
  show "vval cx' v" using r vs_get_valid by blast
qed

lemma data_value_ok:
  assumes wf: "cx_wf cx" and rm: "room 3 cx"
  shows "\<exists>v n cx'. data_value a cx = ((v, n), cx') \<and> grows 3 cx cx' \<and> vval cx' v"
proof -
  obtain p cx1 where i: "intern_type TPtr cx = (p, cx1)" by (cases "intern_type TPtr cx")
  have rm1: "room 1 cx" using rm by (rule room_mono) simp
  have 1: "reach b id 1 cx cx1 \<and> kind_of cx1 p = Some TPtr \<and> tval cx1 p \<and> cx_values cx1 = cx_values cx" for b
    by (rule intern_type_reach [OF wf rm1 _ _ i]) simp_all
  have g1: "grows 1 cx cx1" using 1 reach_grows by blast
  let ?c = "byte_string_counter (cx_values cx1)"
  define cx2 where "cx2 = cx1\<lparr>cx_values := (cx_values cx1)\<lparr>byte_string_counter := as_u32 (?c + 1)\<rparr>\<rparr>"
  have g2: "grows 0 cx1 cx2" unfolding cx2_def by (rule byte_counter_grows [OF grows_wf [OF g1]])
  have g12: "grows 1 cx cx2" using grows_trans [OF g1 g2] by simp
  obtain v cx3 where v: "intern_value (ByteString [] ?c) p cx2 = (v, cx3)" by (cases "intern_value (ByteString [] ?c) p cx2")
  have rm2: "room (1 + 1) cx2" using grows_room [OF g12] rm by (simp add: numeral_3_eq_3)
  have p2: "tval cx2 p" using 1 grows_tval [OF g2] by blast
  have 3: "grows 1 cx2 cx3" "vval cx3 v"
    using new_value_grows [OF grows_wf [OF g2] room_mono [OF rm2] p2 _ _ _ v] by simp_all
  have nb: "next_byte_string [] p (cx_values cx1) = (v, cx_values cx3)" "cx1\<lparr>cx_values := cx_values cx3\<rparr> = cx3"
    using v by (auto simp: next_byte_string_def intern_value_def cx2_def Let_def split: prod.splits)
  show ?thesis
  proof (cases "al_ptrs a = []")
    case True
    have "grows (1 + 1) cx cx3" by (rule grows_trans [OF g12 3(1)])
    then have "grows 3 cx cx3" by (rule grows_mono) simp
    then show ?thesis using True i nb 3(2) by (simp add: data_value_def type_ptr_def Let_def)
  next
    case False
    obtain w cx4 where w: "intern_value (Global (''&_bytes'' @ nat_str ?c)) p cx3 = (w, cx4)"
      by (cases "intern_value (Global (''&_bytes'' @ nat_str ?c)) p cx3")
    have 4: "grows 1 cx3 cx4" "vval cx4 w"
      using new_value_grows [OF grows_wf [OF 3(1)] grows_room [OF 3(1) rm2] grows_tval [OF 3(1) p2] _ _ _ w] by simp_all
    have "grows (1 + 1 + 1) cx cx4" by (rule grows_trans [OF grows_trans [OF g12 3(1)] 4(1)])
    then show ?thesis using False i nb w 4(2) by (simp add: data_value_def type_ptr_def Let_def numeral_3_eq_3)
  qed
qed


text \<open>The declaration of data with pointers, from its pieces and the texts of the pointers.\<close>

definition data_struct :: "string \<Rightarrow> piece list \<Rightarrow> string list \<Rightarrow> string" where
  "data_struct name ps ts =
     ''#pragma pack(push, 1)'' @ [nl] @ ''static const struct { ''
     @ join '' '' (map (\<lambda>f. ''  '' @ f @ '';'') (piece_fields 0 ps)) @ '' } '' @ name @ '' = { ''
     @ join '', '' (map (\<lambda>s. ''  '' @ s) (piece_inits 0 ps ts)) @ '' };'' @ [nl] @ ''#pragma pack(pop)''"

lemma const_data_pieces:
  assumes "al_ptrs a \<noteq> []" "relocs_ok psize (al_bytes a) 0 (al_ptrs a)" "psize \<in> {4, 8}"
    and dv: "data_value a cx = ((v, name), cx1)" "pointer_bytes cx1 = psize"
  shows "const_data_from_alloc (Suc n) tcx a cx =
    do { (ts, cx) \<leftarrow> opt_map_state (target_at (const_data_from_alloc n tcx) tcx psize (al_bytes a)) (al_ptrs a) cx1;
         Some (v, push_data_section (data_struct name (pieces psize (al_bytes a) 0 (al_ptrs a)) ts) cx) }"
proof -
  let ?m = "reloc_fields (const_data_from_alloc n tcx) tcx ''  '' '';'' psize (al_bytes a) (al_ptrs a) ([], [], 0, 0) cx1"
  let ?d = "\<lambda>fs ns. ''#pragma pack(push, 1)'' @ [nl] @ ''static const struct { '' @ join '' '' fs @ '' } ''
      @ name @ '' = { '' @ join '', '' ns @ '' };'' @ [nl] @ ''#pragma pack(pop)''"
  have "const_data_from_alloc (Suc n) tcx a cx =
    do { ((fs, ns), cx) \<leftarrow> struct_texts (const_data_from_alloc n tcx) tcx ''  '' '';'' psize (al_bytes a) (al_ptrs a) ([], [], 0, 0) cx1;
         Some (v, push_data_section (?d fs ns) cx) }"
  proof (cases ?m)
    case (Some y)
    obtain st cx2 where "y = (st, cx2)" by (cases y)
    then show ?thesis using assms(1) Some
      by (cases "push_bytes ''  '' '';'' (al_bytes a) (length (al_bytes a)) st") (auto simp: dv Let_def struct_texts_def)
  qed (use assms(1) in \<open>simp add: dv Let_def struct_texts_def\<close>)
  also have "\<dots> = do { (ts, cx) \<leftarrow> opt_map_state (target_at (const_data_from_alloc n tcx) tcx psize (al_bytes a)) (al_ptrs a) cx1;
         Some (v, push_data_section (data_struct name (pieces psize (al_bytes a) 0 (al_ptrs a)) ts) cx) }"
    unfolding struct_texts_pieces [OF assms(2,3)] data_struct_def
    by (cases "opt_map_state (target_at (const_data_from_alloc n tcx) tcx psize (al_bytes a)) (al_ptrs a) cx1") auto
  finally show ?thesis .
qed

lemma push_section_grows: "cx_wf cx \<Longrightarrow> grows 0 cx (push_data_section d cx)"
  unfolding push_data_section_def Let_def by (rule module_only_grows) (auto simp: decls_once_def)

text \<open>Translations composed one after the other.\<close>

interpretation data: growing "\<lambda>cx. cx_wf cx \<and> pointer_bytes cx = psize" room grows
  by unfold_locales (auto intro: grows_refl grows_trans grows_room room_mono dest: grows_wf grows_pointer)

text \<open>A pointer is translated when the allocations it leads to are.\<close>

definition translates :: "data_op \<Rightarrow> nat \<Rightarrow> (Allocation \<Rightarrow> bool) \<Rightarrow> (Allocation \<Rightarrow> nat) \<Rightarrow> bool" where
  "translates data psize ok cost =
     (\<forall>a cx. ok a \<and> cx_wf cx \<and> pointer_bytes cx = psize \<and> room (cost a) cx \<longrightarrow>
        (\<exists>v cx'. data a cx = Some (v, cx') \<and> grows (cost a) cx cx' \<and> vval cx' v))"

lemma target_grows:
  assumes d: "translates data psize ok cost" and ok: "target_ok ok tcx r"
    and cx: "cx_wf cx" "pointer_bytes cx = psize" "room (target_cost cost tcx r) cx"
  shows "\<exists>t cx'. target_at data tcx psize bytes r cx = Some (t, cx') \<and> grows (target_cost cost tcx r) cx cx'"
proof -
  have data: "\<exists>t cx'. data_target data b off cx = Some (t, cx') \<and> grows (cost b) cx cx'"
    if b: "ok b" "room (cost b) cx" for b off
  proof -
    obtain u cx2 where u: "data b cx = Some (u, cx2)" "grows (cost b) cx cx2" "vval cx2 u"
      using d b cx(1,2) unfolding translates_def by blast
    then show ?thesis using text_total [OF grows_wf [OF u(2)] u(3)] by (auto simp: data_target_def)
  qed
  show ?thesis
  proof (cases "global_alloc tcx (snd r)")
    case (GaFunction i)
    have "\<exists>v cx'. get_fn tcx i cx = Some (v, cx') \<and> grows (abi_types (fn_abi_of_instance tcx i) + 2) cx cx'"
      by (rule get_fn_grows) (use GaFunction ok cx in \<open>auto simp: target_ok_def target_cost_def\<close>)
    then show ?thesis using GaFunction by (auto simp: target_at_def reloc_target_def target_cost_def Let_def)
  next
    case (GaStatic i)
    then show ?thesis using static_decl_grows [OF cx(1)] by (auto simp: target_at_def reloc_target_def target_cost_def Let_def)
  next
    case GaTypeId
    then show ?thesis using grows_refl [OF cx(1)] by (auto simp: target_at_def reloc_target_def target_cost_def)
  qed (use data ok cx(3) in \<open>auto simp: target_at_def reloc_target_def target_cost_def target_ok_def\<close>)
qed

lemma targets_grow:
  assumes "translates data psize ok cost" "list_all (target_ok ok tcx) rs"
    and "cx_wf cx" "pointer_bytes cx = psize" "room (sum_list (map (target_cost cost tcx) rs)) cx"
  shows "\<exists>ts cx'. opt_map_state (target_at data tcx psize bytes) rs cx = Some (ts, cx') \<and> length ts = length rs \<and>
    grows (sum_list (map (target_cost cost tcx) rs)) cx cx'"
  by (rule data.map_state [of _ psize]) (use assms(2-5) target_grows [OF assms(1)] in \<open>auto simp: list_all_iff\<close>)

lemma const_data_ok:
  assumes psize: "psize \<in> {4, 8}"
  shows "translates (const_data_from_alloc n tcx) psize (nests n psize tcx) (data_cost n tcx)"
proof (induction n)
  case (Suc n)
  have "\<exists>v cx'. const_data_from_alloc (Suc n) tcx a cx = Some (v, cx') \<and> grows (data_cost (Suc n) tcx a) cx cx' \<and> vval cx' v"
    if a: "nests (Suc n) psize tcx a" and cx: "cx_wf cx" "pointer_bytes cx = psize" and rm: "room (data_cost (Suc n) tcx a) cx" for a cx
  proof -
    have "room 3 cx" using rm by (rule room_mono) simp
    then obtain v name cx1 where dv: "data_value a cx = ((v, name), cx1)" "grows 3 cx cx1" "vval cx1 v"
      using data_value_ok [OF cx(1)] by blast
    have "\<exists>d cx2. const_data_from_alloc (Suc n) tcx a cx = Some (v, push_data_section d cx2) \<and>
        grows (sum_list (map (target_cost (data_cost n tcx) tcx) (al_ptrs a))) cx1 cx2"
    proof (cases "al_ptrs a = []")
      case True
      then show ?thesis using dv grows_refl [OF grows_wf [OF dv(2)]] by (simp add: Let_def) blast
    next
      case False
      have pb: "pointer_bytes cx1 = psize" using grows_pointer [OF dv(2)] cx(2) by simp
      obtain ts cx2 where ts: "opt_map_state (target_at (const_data_from_alloc n tcx) tcx psize (al_bytes a)) (al_ptrs a) cx1 =
          Some (ts, cx2)" "grows (sum_list (map (target_cost (data_cost n tcx) tcx) (al_ptrs a))) cx1 cx2"
        using targets_grow [OF Suc.IH _ grows_wf [OF dv(2)] pb, of tcx "al_ptrs a" "al_bytes a"] a grows_room [OF dv(2)] rm by auto
      show ?thesis
        using const_data_pieces [OF False _ psize dv(1) pb, of n tcx] a ts by (auto simp del: const_data_from_alloc.simps)
    qed
    then obtain d cx2 where r: "const_data_from_alloc (Suc n) tcx a cx = Some (v, push_data_section d cx2)"
      and g: "grows (sum_list (map (target_cost (data_cost n tcx) tcx) (al_ptrs a))) cx1 cx2" by blast
    note p = push_section_grows [OF grows_wf [OF g], of d]
    have "grows (data_cost (Suc n) tcx a) cx (push_data_section d cx2)"
      using grows_trans [OF grows_trans [OF dv(2) g] p] by simp
    then show ?thesis using r grows_vval [OF p grows_vval [OF g dv(3)]] by blast
  qed
  then show ?case unfolding translates_def by blast
qed (simp add: translates_def)


section \<open>Statics with pointers\<close>

definition static_struct :: "string \<Rightarrow> piece list \<Rightarrow> string" where
  "static_struct c_name ps =
     ''#pragma pack(push, 1)'' @ [nl] @ ''struct _gs_'' @ c_name @ '' { ''
     @ join '' '' (map (\<lambda>f. f @ '';'') (piece_fields 0 ps)) @ '' };'' @ [nl] @ ''#pragma pack(pop)''"

definition static_fwd :: "string \<Rightarrow> string \<Rightarrow> string \<Rightarrow> string" where
  "static_fwd tls c_name asm = ''extern '' @ tls @ ''struct _gs_'' @ c_name @ '' '' @ c_name @ asm @ '';''"

definition static_initialiser :: "string \<Rightarrow> string \<Rightarrow> string \<Rightarrow> piece list \<Rightarrow> string list \<Rightarrow> string" where
  "static_initialiser tls c_name asm ps ts =
     tls @ ''struct _gs_'' @ c_name @ '' '' @ c_name @ asm @ '' = { '' @ join '', '' (piece_inits 0 ps ts) @ '' };''"

lemma fwd_decl_pieces:
  assumes "eval_static_initializer tcx i = Some init" "relocs_ok (pointer_bytes cx) (al_bytes init) 0 (al_ptrs init)"
    and new: "c \<notin> declared_extern_globals (cx_module cx)"
  shows "emit_static_struct_fwd_decl tcx c s i tls cx =
    cx\<lparr>cx_module := add_global_decl c (static_fwd tls c (asm_label s c))
      ((cx_module cx)\<lparr>struct_defs := struct_defs (cx_module cx) @
        [static_struct c (pieces (pointer_bytes cx) (al_bytes init) 0 (al_ptrs init))]\<rparr>)\<rparr>"
proof -
  obtain fs pos k where f: "fwd_fields (pointer_bytes cx) (al_ptrs init) ([], 0, 0) = (fs, pos, k)"
    by (cases "fwd_fields (pointer_bytes cx) (al_ptrs init) ([], 0, 0)") auto
  have "piece_fields 0 (pieces (pointer_bytes cx) (al_bytes init) 0 (al_ptrs init)) =
      (if pos < length (al_bytes init) then fs @ [byte_field k (length (al_bytes init) - pos)] else fs)"
    using fwd_fields_pieces [OF assms(2) f] by simp
  then show ?thesis
    using assms(1) new by (simp add: emit_static_struct_fwd_decl_def f Let_def static_struct_def static_fwd_def)
qed

text \<open>The initialiser of a static: the pointers are translated, and their texts put into the pieces.\<close>

lemma static_init_pieces:
  assumes a: "al_ptrs init \<noteq> []" "al_bytes init \<noteq> []"
    and ok: "relocs_ok psize (al_bytes init) 0 (al_ptrs init)" "psize \<in> {4, 8}" "pointer_bytes cx = psize"
    and t: "opt_map_state (target_at (const_data_from_alloc n tcx) tcx psize (al_bytes init)) (al_ptrs init) cx = Some (ts, cx1)"
  shows "\<exists>cx'. static_init_decl n tcx i init cx =
      Some (static_initialiser (tls_text tcx i) (sanitize_name (static_symbol_name tcx i))
        (asm_label (static_symbol_name tcx i) (sanitize_name (static_symbol_name tcx i)))
        (pieces psize (al_bytes init) 0 (al_ptrs init)) ts, cx') \<and>
    cx' = (if sanitize_name (static_symbol_name tcx i) \<in> declared_extern_globals (cx_module cx1) then cx1
      else emit_static_struct_fwd_decl tcx (sanitize_name (static_symbol_name tcx i)) (static_symbol_name tcx i) i (tls_text tcx i) cx1)"
proof -
  let ?m = "reloc_fields (const_data_from_alloc n tcx) tcx [] [] psize (al_bytes init) (al_ptrs init) ([], [], 0, 0) cx"
  let ?ps = "pieces psize (al_bytes init) 0 (al_ptrs init)"
  have "struct_texts (const_data_from_alloc n tcx) tcx [] [] psize (al_bytes init) (al_ptrs init) ([], [], 0, 0) cx =
      Some ((piece_fields 0 ?ps, piece_inits 0 ?ps ts), cx1)"
    unfolding struct_texts_pieces [OF ok(1,2)] t by (simp add: append_Nil [abs_def])
  then obtain st z where "?m = Some (st, cx1)"
    "push_bytes [] [] (al_bytes init) (length (al_bytes init)) st = Some (piece_fields 0 ?ps, piece_inits 0 ?ps ts, z)"
    unfolding struct_texts_def by - (erule bind_SomeE | clarsimp)+
  then show ?thesis
    using a ok(3) by (cases z) (simp add: static_init_decl_def Let_def static_initialiser_def)
qed

end
