(* ===== verification/BuilderOps.thy ===== *)
theory BuilderOps
  imports BuilderInv
begin

text \<open>
  For each operation: in a well-formed context with room, on valid operands, it succeeds, and
  \<open>assigns\<close> or \<open>reach\<close> says exactly which declarations and statements it adds and
  which value it returns.
\<close>

section \<open>A fresh temporary with its value\<close>

text \<open>
  \<open>v\<close> is a new temporary of type \<open>ty\<close>; one declaration of it and one assignment of \<open>e\<close> to
  it were added, and nothing else.
\<close>

definition assigns ::
  "Builder \<Rightarrow> nat \<Rightarrow> TypeRef \<Rightarrow> CExpr \<Rightarrow> CodegenCx \<Rightarrow> ValueRef \<Rightarrow> CodegenCx \<Rightarrow> bool" where
  "assigns b n ty e cx v cx' =
     (\<exists>i d. fresh_temp cx i \<and>
        vs_get (cx_values cx') v = Some \<lparr>v_kind = Temp i, v_ty = ty\<rparr> \<and>
        render_type_decl cx' ty (temp_name i) = Some d \<and>
        reach b (appends b [d @ '';''] [Assign (Var (temp_name i)) e]) n cx cx')"

lemma assigns_reach:
  "reach b id n cx cx1 \<Longrightarrow> assigns b m ty e cx1 v cx' \<Longrightarrow> assigns b (n + m) ty e cx v cx'"
  unfolding assigns_def
  by (metis (no_types, lifting) comp_id fresh_temp_reach reach_trans)

lemma assigns_type: "assigns b n ty e cx v cx' \<Longrightarrow> type_of_value cx' v = Some ty"
  by (auto simp: assigns_def type_of_value_def get_type_def)

lemma assigns_vval: "assigns b n ty e cx v cx' \<Longrightarrow> vval cx' v"
  by (auto simp: assigns_def dest: vs_get_valid)

lemma assigns_step:
  "assigns b n ty e cx v cx' \<Longrightarrow>
   \<exists>d s. reach b (appends b [d] [s]) n cx cx' \<and> vval cx' v \<and> type_of_value cx' v = Some ty"
  using assigns_type assigns_vval by (auto simp: assigns_def)

lemma new_temp_with_stmt_ok:
  assumes wf: "cx_wf cx" and rm: "room 1 cx" and t: "tval cx ty"
  shows "\<exists>v cx'. new_temp_with_stmt b ty e cx = Some (v, cx') \<and> assigns b 1 ty e cx v cx'"
proof -
  obtain v cx1 where nt: "new_temp ty cx = (v, cx1)" by (cases "new_temp ty cx")
  from new_temp_reach [OF wf rm t nt, of b] obtain i where r1: "reach b id 1 cx cx1"
    and fresh: "fresh_temp cx i"
    and g: "vs_get (cx_values cx1) v = Some \<lparr>v_kind = Temp i, v_ty = ty\<rparr>"
    and nm: "render_value cx1 v = Some (temp_name i)" by blast
  from decl_text_total [OF reach_wf [OF r1] reach_tval [OF r1 t]]
  obtain d where d: "render_type_decl cx1 ty (temp_name i) = Some d" by blast
  let ?cx2 = "local_decl b (d @ '';'') cx1"
  let ?cx3 = "emit b (Assign (Var (temp_name i)) e) ?cx2"
  have r2: "reach b (appends b [d @ '';''] []) 0 cx1 ?cx2"
    by (rule reach_local_decl [OF reach_wf [OF r1]])
  have r3: "reach b (appends b [] [Assign (Var (temp_name i)) e]) 0 ?cx2 ?cx3"
    by (rule reach_emit [OF reach_wf [OF r2]])
  have r: "reach b (appends b [d @ '';''] [Assign (Var (temp_name i)) e]) 1 cx ?cx3"
    using reach_trans [OF reach_trans [OF r1 r2] r3] by simp
  have "new_temp_with_stmt b ty e cx = Some (v, ?cx3)"
    using nt nm d by (simp add: new_temp_with_stmt_def)
  moreover have "assigns b 1 ty e cx v ?cx3"
    unfolding assigns_def
    using fresh r reach_get [OF r3 reach_get [OF r2 g]]
      reach_decl_text [OF r3 reach_decl_text [OF r2 d]]
    by (intro exI [of _ i] exI [of _ d] conjI)
  ultimately show ?thesis by blast
qed

section \<open>The shared helpers\<close>

lemma binop_ok:
  assumes "cx_wf cx" "room 1 cx" "type_of_value cx lhs = Some ty"
    "render_value cx lhs = Some l" "render_value cx rhs = Some r"
  shows "\<exists>v cx'. binop b op lhs rhs cx = Some (v, cx') \<and>
           assigns b 1 ty (BinOp (Var l) op (Var r)) cx v cx'"
  using new_temp_with_stmt_ok [OF assms(1,2) type_tval [OF assms(1,3)]] assms
  by (simp add: binop_def)

lemma cast_ok:
  assumes "cx_wf cx" "room 1 cx" "render_value cx val = Some v" "render_type cx dest_ty = Some t"
    "tval cx dest_ty"
  shows "\<exists>r cx'. cast_op b val dest_ty cx = Some (r, cx') \<and>
           assigns b 1 dest_ty (Cast t (Var v)) cx r cx'"
  using new_temp_with_stmt_ok [OF assms(1,2,5)] assms by (simp add: cast_op_def)

text \<open>The unsigned kind of a signed integer kind.\<close>

fun unsigned_kind :: "CTypeKind \<Rightarrow> CTypeKind option" where
  "unsigned_kind (TInt bits signed) = (if signed then Some (TInt bits False) else None)"
| "unsigned_kind (TPtrWidth signed) = (if signed then Some (TPtrWidth False) else None)"
| "unsigned_kind _ = None"

lemma unsigned_type_ok:
  assumes wf: "cx_wf cx" and rm: "room 1 cx" and k: "kind_of cx ty = Some k"
  shows "\<exists>u cx'. unsigned_type ty cx = Some (u, cx') \<and> reach b id 1 cx cx' \<and>
    (case unsigned_kind k of None \<Rightarrow> u = None
     | Some uk \<Rightarrow> \<exists>t. u = Some t \<and> kind_of cx' t = Some uk \<and> tval cx' t)"
proof (cases "unsigned_kind k")
  case None
  then have "unsigned_type ty cx = Some (None, cx)"
    using k by (cases k) (auto simp: unsigned_type_def split: if_splits)
  then show ?thesis using reach_more [OF reach_refl [OF wf, of b], of 1] None by auto
next
  case (Some uk)
  obtain t cx' where i: "intern_type uk cx = (t, cx')" by (cases "intern_type uk cx")
  have "kind_ok uk" "kind_refs uk = []" using Some by (cases k; auto split: if_splits)+
  then have "reach b id 1 cx cx' \<and> kind_of cx' t = Some uk \<and> tval cx' t"
    using intern_type_reach [OF wf rm _ _ i, of b] by simp
  moreover have "unsigned_type ty cx = Some (Some t, cx')"
    using Some k i by (cases k) (auto simp: unsigned_type_def split: if_splits)
  ultimately show ?thesis using Some by auto
qed

lemma unsigned_binop_ok:
  assumes wf: "cx_wf cx" and rm: "room 2 cx" and ty: "type_of_value cx lhs = Some ty"
    and k: "kind_of cx ty = Some k"
    and tx: "render_value cx lhs = Some l" "render_value cx rhs = Some r"
  shows "\<exists>v cx'. unsigned_binop b op lhs rhs cx = Some (v, cx') \<and>
    (case unsigned_kind k of
       None \<Rightarrow> assigns b 2 ty (BinOp (Var l) op (Var r)) cx v cx'
     | Some uk \<Rightarrow> \<exists>u ut t. kind_of cx' u = Some uk \<and> render_type cx' u = Some ut \<and>
         render_type cx ty = Some t \<and>
         assigns b 2 ty (Cast t (Paren (BinOp (Cast ut (Var l)) op (Cast ut (Var r))))) cx v cx')"
proof -
  have rm1: "room (1 + 1) cx" using rm by (simp add: numeral_2_eq_2)
  then have "room 1 cx" by (rule room_mono) simp
  from unsigned_type_ok [OF wf this k, of b] obtain u cx1 where u: "unsigned_type ty cx = Some (u, cx1)"
    and r1: "reach b id 1 cx cx1"
    and uk: "case unsigned_kind k of None \<Rightarrow> u = None
       | Some uk \<Rightarrow> \<exists>t. u = Some t \<and> kind_of cx1 t = Some uk \<and> tval cx1 t" by blast
  note wf1 = reach_wf [OF r1] and room1 = reach_room [OF r1 rm1] and st1 = reach_stable [OF r1]
  obtain t where t: "render_type cx ty = Some t" using type_text_total [OF wf type_tval [OF wf ty]] ..
  show ?thesis
  proof (cases "unsigned_kind k")
    case None
    from binop_ok [OF wf1 room1 st1(5) [OF ty] st1(6) [OF tx(1)] st1(6) [OF tx(2)], of b op]
    show ?thesis using None uk assigns_reach [OF r1] ty u
      by (fastforce simp: unsigned_binop_def numeral_2_eq_2)
  next
    case (Some uk')
    with uk obtain ur where ur: "u = Some ur" "kind_of cx1 ur = Some uk'" "tval cx1 ur" by auto
    obtain ut where ut: "render_type cx1 ur = Some ut" using type_text_total [OF wf1 ur(3)] ..
    let ?e = "Cast t (Paren (BinOp (Cast ut (Var l)) op (Cast ut (Var r))))"
    obtain v cx' where n: "new_temp_with_stmt b ty ?e cx1 = Some (v, cx')"
      and a: "assigns b 1 ty ?e cx1 v cx'"
      using new_temp_with_stmt_ok [OF wf1 room1 st1(1) [OF type_tval [OF wf ty]]] by blast
    from a obtain g where r2: "reach b g 1 cx1 cx'" by (auto simp: assigns_def)
    have "unsigned_binop b op lhs rhs cx = Some (v, cx')"
      using u ur ty tx ut t n st1 by (simp add: unsigned_binop_def)
    then show ?thesis
      using Some assigns_reach [OF r1 a] reach_kind [OF r2 ur(2)] reach_type_text [OF r2 ut] t
      by (auto simp: numeral_2_eq_2 intro!: exI [of _ ur] exI [of _ ut])
  qed
qed

section \<open>Shifts and negations\<close>

lemma shl_ok:
  assumes wf: "cx_wf cx" "room 1 cx" and ty: "type_of_value cx lhs = Some ty"
    and tx: "render_value cx lhs = Some l" "render_value cx rhs = Some r"
  shows "\<exists>v cx' t. op_shl b lhs rhs cx = Some (v, cx') \<and> render_type cx ty = Some t \<and>
    assigns b 1 ty (BinOp (Cast t (Paren (Var l))) Shl (Paren (Var r))) cx v cx'"
proof -
  obtain t where "render_type cx ty = Some t"
    using type_text_total [OF wf(1) type_tval [OF wf(1) ty]] ..
  then show ?thesis
    using new_temp_with_stmt_ok [OF wf type_tval [OF wf(1) ty]] ty tx by (simp add: op_shl_def)
qed

lemma ashr_ok:
  assumes wf: "cx_wf cx" "room 1 cx" and ty: "type_of_value cx lhs = Some ty"
    and tx: "render_value cx lhs = Some l" "render_value cx rhs = Some r"
  shows "\<exists>v cx' t. op_ashr b lhs rhs cx = Some (v, cx') \<and> render_type cx ty = Some t \<and>
    assigns b 1 ty (BinOp (Cast t (Paren (Var l))) Shr (Paren (Var r))) cx v cx'"
proof -
  obtain t where "render_type cx ty = Some t"
    using type_text_total [OF wf(1) type_tval [OF wf(1) ty]] ..
  then show ?thesis
    using new_temp_with_stmt_ok [OF wf type_tval [OF wf(1) ty]] ty tx by (simp add: op_ashr_def)
qed

text \<open>
  Operations that go through the unsigned variant of a type: after it has been interned, a
  temporary with an expression over the names of both types.
\<close>

lemma via_unsigned:
  assumes wf: "cx_wf cx" and rm: "room 2 cx" and k: "kind_of cx uty = Some k"
    and d: "tval cx dty"
  shows "\<exists>u cx1 t. unsigned_type uty cx = Some (u, cx1) \<and> reach b id 1 cx cx1 \<and>
    render_type cx dty = Some t \<and> render_type cx1 dty = Some t \<and>
    (case unsigned_kind k of
       None \<Rightarrow> u = None
     | Some uk \<Rightarrow> \<exists>ur ut. u = Some ur \<and> kind_of cx1 ur = Some uk \<and> render_type cx1 ur = Some ut) \<and>
    (\<forall>e. \<exists>v cx'. new_temp_with_stmt b dty e cx1 = Some (v, cx') \<and> assigns b 2 dty e cx v cx')"
proof -
  have rm1: "room (1 + 1) cx" using rm by (simp add: numeral_2_eq_2)
  then have "room 1 cx" by (rule room_mono) simp
  from unsigned_type_ok [OF wf this k, of b] obtain u cx1 where u: "unsigned_type uty cx = Some (u, cx1)"
    and r1: "reach b id 1 cx cx1"
    and uk: "case unsigned_kind k of None \<Rightarrow> u = None
       | Some uk \<Rightarrow> \<exists>t. u = Some t \<and> kind_of cx1 t = Some uk \<and> tval cx1 t" by blast
  note wf1 = reach_wf [OF r1] and room1 = reach_room [OF r1 rm1]
  obtain t where t: "render_type cx dty = Some t" using type_text_total [OF wf d] ..
  have "\<exists>v cx'. new_temp_with_stmt b dty e cx1 = Some (v, cx') \<and> assigns b 2 dty e cx v cx'" for e
    using new_temp_with_stmt_ok [OF wf1 room1 reach_tval [OF r1 d], of b e] assigns_reach [OF r1]
    by (fastforce simp: numeral_2_eq_2)
  moreover have "case unsigned_kind k of None \<Rightarrow> u = None
     | Some uk \<Rightarrow> \<exists>ur ut. u = Some ur \<and> kind_of cx1 ur = Some uk \<and> render_type cx1 ur = Some ut"
    using uk type_text_total [OF wf1] by (fastforce split: option.splits)
  ultimately show ?thesis using u r1 t reach_type_text [OF r1 t] by auto
qed

lemma lshr_ok:
  assumes wf: "cx_wf cx" "room 2 cx" and ty: "type_of_value cx lhs = Some ty" "kind_of cx ty = Some k"
    and tx: "render_value cx lhs = Some l" "render_value cx rhs = Some r"
  shows "\<exists>v cx' t. op_lshr b lhs rhs cx = Some (v, cx') \<and> render_type cx ty = Some t \<and>
    (case unsigned_kind k of
       None \<Rightarrow> assigns b 2 ty (BinOp (Cast t (Paren (Var l))) Shr (Paren (Var r))) cx v cx'
     | Some uk \<Rightarrow> \<exists>cx1 u ut. reach b id 1 cx cx1 \<and> kind_of cx1 u = Some uk \<and> render_type cx1 u = Some ut \<and>
         assigns b 2 ty (Cast t (Paren (BinOp (Cast ut (Paren (Var l))) Shr (Paren (Var r))))) cx v cx')"
  using via_unsigned [OF wf ty(2) type_tval [OF wf(1) ty(1)], of b] ty tx
  by (fastforce simp: op_lshr_def split: option.splits)

lemma zext_ok:
  assumes wf: "cx_wf cx" "room 2 cx" and ty: "type_of_value cx x = Some ty" "kind_of cx ty = Some k"
    and tx: "render_value cx x = Some s" and d: "tval cx dty"
  shows "\<exists>v cx' t. op_zext b x dty cx = Some (v, cx') \<and> render_type cx dty = Some t \<and>
    (case unsigned_kind k of
       None \<Rightarrow> assigns b 2 dty (Cast t (Var s)) cx v cx'
     | Some uk \<Rightarrow> \<exists>cx1 u ut. reach b id 1 cx cx1 \<and> kind_of cx1 u = Some uk \<and> render_type cx1 u = Some ut \<and>
         assigns b 2 dty (Cast t (Cast ut (Var s))) cx v cx')"
proof -
  from via_unsigned [OF wf ty(2) d, of b] obtain u cx1 t where
    u: "unsigned_type ty cx = Some (u, cx1)" "reach b id 1 cx cx1"
    "render_type cx dty = Some t" "render_type cx1 dty = Some t"
    "case unsigned_kind k of None \<Rightarrow> u = None
     | Some uk \<Rightarrow> \<exists>ur ut. u = Some ur \<and> kind_of cx1 ur = Some uk \<and> render_type cx1 ur = Some ut"
    and n: "\<And>e. \<exists>v cx'. new_temp_with_stmt b dty e cx1 = Some (v, cx') \<and> assigns b 2 dty e cx v cx'"
    by blast
  have s: "render_value cx1 x = Some s" by (rule reach_text [OF u(2) tx])
  show ?thesis
  proof (cases "unsigned_kind k")
    case None
    then show ?thesis using u s ty n [of "Cast t (Var s)"] by (auto simp: op_zext_def cast_op_def)
  next
    case (Some uk)
    then obtain ur ut where "u = Some ur" "kind_of cx1 ur = Some uk" "render_type cx1 ur = Some ut"
      using u(5) by auto
    then show ?thesis using Some u s ty n [of "Cast t (Cast ut (Var s))"]
      by (fastforce simp: op_zext_def)
  qed
qed

lemma neg_ok:
  assumes wf: "cx_wf cx" "room 1 cx" and ty: "type_of_value cx x = Some ty"
    and tx: "render_value cx x = Some s"
  shows "\<exists>v cx'. op_neg b x cx = Some (v, cx') \<and> assigns b 1 ty (UnaryOp Neg (Var s)) cx v cx'"
  using new_temp_with_stmt_ok [OF wf type_tval [OF wf(1) ty]] ty tx by (simp add: op_neg_def)

lemma not_ok:
  assumes wf: "cx_wf cx" "room 1 cx" and ty: "type_of_value cx x = Some ty" "kind_of cx ty = Some k"
    and tx: "render_value cx x = Some s"
  shows "\<exists>v cx'. op_not b x cx = Some (v, cx') \<and>
    assigns b 1 ty (UnaryOp (if is_bool_kind k then LogNot else BitNot) (Var s)) cx v cx'"
  using new_temp_with_stmt_ok [OF wf type_tval [OF wf(1) ty(1)]] ty tx by (simp add: op_not_def)

lemma select_ok:
  assumes wf: "cx_wf cx" "room 1 cx" and ty: "type_of_value cx x = Some ty"
    and tx: "render_value cx c = Some s" "render_value cx x = Some l" "render_value cx y = Some r"
  shows "\<exists>v cx'. op_select b c x y cx = Some (v, cx') \<and>
    assigns b 1 ty (Ternary (Var s) (Var l) (Var r)) cx v cx'"
  using new_temp_with_stmt_ok [OF wf type_tval [OF wf(1) ty]] ty tx by (simp add: op_select_def)

section \<open>Comparisons\<close>

lemma icmp_cast_kind_plain:
  assumes "icmp_cast_kind p kl kr = Some kd" shows "kind_ok kd" "kind_refs kd = []"
  using assms by (auto simp: icmp_cast_kind_def Let_def split: if_splits)

lemma icmp_ok:
  assumes wf: "cx_wf cx" and rm: "room 3 cx"
    and ty: "type_of_value cx x = Some tx" "type_of_value cx y = Some ty"
    and kd: "kind_of cx tx = Some kl" "kind_of cx ty = Some kr"
    and ck: "icmp_cast_kind p kl kr = Some ck"
    and s: "render_value cx x = Some l" "render_value cx y = Some r"
  shows "\<exists>v cx' bt cx1 t ct. op_icmp b p x y cx = Some (v, cx') \<and> kind_of cx' bt = Some TBool \<and>
    pointer_bits cx1 = pointer_bits cx \<and> kind_of cx1 t = Some ck \<and> render_type cx1 t = Some ct \<and>
    assigns b 3 bt (BinOp (Cast ct (Var l)) (icmp_op p) (Cast ct (Var r))) cx v cx'"
proof -
  obtain bt cx1 where i1: "intern_type TBool cx = (bt, cx1)" by (cases "intern_type TBool cx")
  have r12: "room (1 + 2) cx" using rm by (simp add: room_def)
  from intern_type_reach [OF wf room_mono [OF rm] _ _ i1, of b]
  have r1: "reach b id 1 cx cx1" "kind_of cx1 bt = Some TBool" "tval cx1 bt" by auto
  note wf1 = reach_wf [OF r1(1)] and room1 = reach_room [OF r1(1) r12]
  obtain ct cx2 where i2: "intern_type ck cx1 = (ct, cx2)" by (cases "intern_type ck cx1")
  have r21: "room (1 + 1) cx1" using room1 by (simp add: room_def)
  from intern_type_reach [OF wf1 room_mono [OF r21] _ _ i2, of b] icmp_cast_kind_plain [OF ck]
  have r2: "reach b id 1 cx1 cx2" "kind_of cx2 ct = Some ck" "tval cx2 ct" by auto
  note wf2 = reach_wf [OF r2(1)] and room2 = reach_room [OF r2(1) r21]
  obtain cs where cs: "render_type cx2 ct = Some cs" using type_text_total [OF wf2 r2(3)] ..
  let ?e = "BinOp (Cast cs (Var l)) (icmp_op p) (Cast cs (Var r))"
  obtain v cx' where n: "new_temp_with_stmt b bt ?e cx2 = Some (v, cx')" "assigns b 1 bt ?e cx2 v cx'"
    using new_temp_with_stmt_ok [OF wf2 room2 reach_tval [OF r2(1) r1(3)]] by blast
  have a: "assigns b 3 bt ?e cx v cx'"
    using assigns_reach [OF r1(1) assigns_reach [OF r2(1) n(2)]] by (simp add: numeral_3_eq_3)
  from n(2) obtain g where r3: "reach b g 1 cx2 cx'" by (auto simp: assigns_def)
  have "op_icmp b p x y cx = Some (v, cx')"
    using i1 i2 ck cs n(1) reach_text [OF r1(1) s(1)] reach_text [OF r1(1) s(2)]
      reach_type [OF r1(1) ty(1)] reach_type [OF r1(1) ty(2)]
      reach_kind [OF r1(1) kd(1)] reach_kind [OF r1(1) kd(2)]
    by (simp add: op_icmp_def)
  moreover have "kind_of cx' bt = Some TBool"
    by (rule reach_kind [OF r3 reach_kind [OF r2(1) r1(2)]])
  moreover have "pointer_bits cx2 = pointer_bits cx"
    using r1(1) r2(1) by (simp add: reach_def keeps_def)
  ultimately show ?thesis using a r2(2) cs by blast
qed

end
