(* ===== verification/CTypes.thy ===== *)
theory CTypes
  imports Prelude "HOL-Library.Signed_Division"
begin

text \<open>
  The integer types of the printed C code and their conversions, as \<open>gcc -std=c11 -fwrapv\<close>
  gives them: \<open>int\<close> has 32 bits, conversions to a signed type wrap, narrow types promote to
  \<open>int\<close>. A value is a mathematical integer with its type.
\<close>

section \<open>Types and conversions\<close>

datatype ctype = CBoolT | CIntT nat bool

type_synonym cval = "ctype \<times> int"
type_synonym cenv = "string \<Rightarrow> cval option"

text \<open>Conversion to a type: truth value, low bits, low bits as two's complement.\<close>

fun wrap :: "ctype \<Rightarrow> int \<Rightarrow> int" where
  "wrap CBoolT v = (if v = 0 then 0 else 1)"
| "wrap (CIntT n False) v = take_bit n v"
| "wrap (CIntT n True) v = signed_take_bit (n - 1) v"

fun promote :: "ctype \<Rightarrow> ctype" where
  "promote CBoolT = CIntT 32 True"
| "promote (CIntT n s) = (if n < 32 then CIntT 32 True else CIntT n s)"

text \<open>The usual arithmetic conversions of two promoted types.\<close>

fun common :: "ctype \<Rightarrow> ctype \<Rightarrow> ctype" where
  "common (CIntT m s) (CIntT n t) =
     (if s = t then CIntT (max m n) s
      else if s then (if m > n then CIntT m True else CIntT n False)
      else (if n > m then CIntT n True else CIntT m False))"
| "common _ t = t"

definition arith_type :: "ctype \<Rightarrow> ctype \<Rightarrow> ctype" where
  "arith_type s t = common (promote s) (promote t)"

text \<open>The type names, with the pointer width of the target.\<close>

definition int_types :: "nat \<Rightarrow> (string \<times> ctype) list" where
  "int_types pb =
     [(''_Bool'', CBoolT),
      (''int8_t'', CIntT 8 True), (''int16_t'', CIntT 16 True), (''int32_t'', CIntT 32 True),
      (''int64_t'', CIntT 64 True), (''int128_t'', CIntT 128 True),
      (''uint8_t'', CIntT 8 False), (''uint16_t'', CIntT 16 False), (''uint32_t'', CIntT 32 False),
      (''uint64_t'', CIntT 64 False), (''uint128_t'', CIntT 128 False),
      (''__rustc_isize'', CIntT pb True), (''__rustc_usize'', CIntT pb False)]"

definition type_name :: "nat \<Rightarrow> string \<Rightarrow> ctype option" where
  "type_name pb s = map_of (int_types pb) s"

fun ctype_bits :: "ctype \<Rightarrow> nat" where
  "ctype_bits CBoolT = 1"
| "ctype_bits (CIntT n s) = n"

section \<open>Conversion rank\<close>

text \<open>
  The usual arithmetic conversions choose the greater type: the wider one, and of two equally
  wide ones the unsigned.
\<close>

instantiation ctype :: linorder
begin

fun rank_ctype :: "ctype \<Rightarrow> nat" where
  "rank_ctype CBoolT = 0"
| "rank_ctype (CIntT n s) = Suc (2 * n + (if s then 0 else 1))"

definition "s \<le> t \<longleftrightarrow> rank_ctype s \<le> rank_ctype t"

definition "s < t \<longleftrightarrow> rank_ctype s < rank_ctype t"

instance
proof
  fix s t u :: ctype
  show "s < t \<longleftrightarrow> s \<le> t \<and> \<not> t \<le> s" by (auto simp: less_eq_ctype_def less_ctype_def)
  show "s \<le> s" by (simp add: less_eq_ctype_def)
  show "s \<le> t \<Longrightarrow> t \<le> u \<Longrightarrow> s \<le> u" by (simp add: less_eq_ctype_def)
  show "s \<le> t \<Longrightarrow> t \<le> s \<Longrightarrow> s = t"
    by (cases s; cases t) (auto simp: less_eq_ctype_def split: if_splits, presburger+)
  show "s \<le> t \<or> t \<le> s" by (auto simp: less_eq_ctype_def)
qed

end

lemma arith_type_max: "arith_type s t = max (promote s) (promote t)"
  by (cases "(promote s, promote t)" rule: common.cases; cases s; cases t)
    (auto simp: arith_type_def max_def less_eq_ctype_def split: if_splits)

section \<open>Low bits\<close>

text \<open>
  Conversions to a type of at least \<open>w\<close> bits do not change the low \<open>w\<close> bits, and wrapping
  arithmetic depends on those only.
\<close>

fun int_type :: "ctype \<Rightarrow> bool" where
  "int_type CBoolT = False"
| "int_type (CIntT n s) = (n > 0)"

lemma take_bit_wrap: "int_type t \<Longrightarrow> w \<le> ctype_bits t \<Longrightarrow> take_bit w (wrap t v) = take_bit w v"
  by (induction t v rule: wrap.induct) (auto simp: take_bit_signed_take_bit take_bit_take_bit min_def)

lemma promote_int [simp]: "(\<And>n s. t = CIntT n s \<Longrightarrow> n > 0) \<Longrightarrow> int_type (promote t)"
  by (cases t) auto

lemma common_int: "int_type s \<Longrightarrow> int_type t \<Longrightarrow> int_type (common s t)"
  by (cases s; cases t) auto

lemma common_bits: "int_type s \<Longrightarrow> int_type t \<Longrightarrow>
    ctype_bits (common s t) = max (ctype_bits s) (ctype_bits t)"
  by (cases s; cases t) auto

lemma wrap_take_bit: "w = ctype_bits t \<Longrightarrow> int_type t \<Longrightarrow> take_bit w x = take_bit w y \<Longrightarrow> wrap t x = wrap t y"
proof (induction t x rule: wrap.induct)
  case (3 n v)
  then have n: "n = Suc (n - 1)" by simp
  have "signed_take_bit (n - 1) (take_bit (Suc (n - 1)) v) = signed_take_bit (n - 1) (take_bit (Suc (n - 1)) y)"
    using 3 n by simp
  then show ?case by (simp add: signed_take_bit_take_bit)
qed auto

fun ctype_ok :: "ctype \<Rightarrow> bool" where
  "ctype_ok CBoolT = True"
| "ctype_ok (CIntT n s) = (n > 0)"

lemma promote_ok [simp]: "ctype_ok t \<Longrightarrow> int_type (promote t)"
  by (cases t) auto

lemma arith_type_ok [simp]: "ctype_ok s \<Longrightarrow> ctype_ok t \<Longrightarrow> int_type (arith_type s t)"
  unfolding arith_type_def by (rule common_int) auto

lemma int_type_ok: "int_type t \<Longrightarrow> ctype_ok t"
  by (cases t) auto

section \<open>Values that conversions keep\<close>

lemma wrap_wrap [simp]: "wrap t (wrap t x) = wrap t x"
  by (induction t x rule: wrap.induct) auto

lemma signed_take_bit_unsigned:
  fixes x :: int
  assumes "take_bit w x = x" "w < n" shows "signed_take_bit (n - 1) x = x"
proof -
  have "0 \<le> x" "x < 2 ^ w" using assms(1) take_bit_nonnegative [of w x] take_bit_int_less_exp [of w x] by auto
  moreover have "(2::int) ^ w \<le> 2 ^ (n - 1)" using assms(2) by (intro power_increasing) auto
  moreover have "- (2 ^ (n - 1)) \<le> (0::int)" by simp
  ultimately show ?thesis by (intro signed_take_bit_int_eq_self) linarith+
qed

lemma take_bit_more: "take_bit w x = (x::int) \<Longrightarrow> w \<le> n \<Longrightarrow> take_bit n x = x"
  by (metis min.absorb2 take_bit_take_bit)

lemma signed_take_bit_more:
  "signed_take_bit (w - 1) x = (x::int) \<Longrightarrow> w \<le> n \<Longrightarrow> signed_take_bit (n - 1) x = x"
  by (metis diff_le_mono min.absorb2 min.commute signed_take_bit_signed_take_bit)

lemma wrap_arith_unsigned:
  assumes "take_bit w x = x" "w \<le> m" "w \<le> n"
  shows "wrap (arith_type (CIntT m False) (CIntT n False)) x = x"
  using assms signed_take_bit_unsigned [of w x 32] take_bit_more [of w x]
  by (auto simp: arith_type_def)

lemma wrap_arith_signed:
  assumes "signed_take_bit (w - 1) x = x" "w \<le> m" "w \<le> n"
  shows "wrap (arith_type (CIntT m True) (CIntT n True)) x = x"
  using assms signed_take_bit_more [of w x m] signed_take_bit_more [of w x n]
    signed_take_bit_more [of w x 32]
  by (auto simp: arith_type_def max_def)

section \<open>Division\<close>

lemma quotient_le: "0 \<le> (x::int) \<Longrightarrow> 0 \<le> y \<Longrightarrow> x div y \<le> x"
  using zdiv_mono2 [of x 1 y] by (cases "y = 0") auto

lemma div_range:
  fixes x :: int
  assumes "take_bit w x = x" "take_bit w y = y"
  shows "x sdiv y = x div y" "x smod y = x mod y" "take_bit w (x div y) = x div y"
proof -
  have x: "0 \<le> x" "x < 2 ^ w" and y: "0 \<le> y"
    using assms take_bit_nonnegative [of w x] take_bit_int_less_exp [of w x] take_bit_nonnegative [of w y]
    by auto
  show "x sdiv y = x div y" using x y by (auto simp: signed_divide_int_def sgn_if)
  show "x smod y = x mod y" using x y by (cases "x = 0") (auto simp: signed_modulo_int_def)
  have "x div y \<le> x" "0 \<le> x div y"
    using x y quotient_le by (auto simp: div_int_pos_iff)
  then show "take_bit w (x div y) = x div y" using x by (simp add: take_bit_int_eq_self)
qed

lemma sdiv_range:
  fixes x :: int
  assumes "signed_take_bit (w - 1) x = x" "x \<noteq> - (2 ^ (w - 1)) \<or> y \<noteq> -1"
  shows "signed_take_bit (w - 1) (x sdiv y) = x sdiv y"
proof -
  have x: "- (2 ^ (w - 1)) \<le> x" "x < 2 ^ (w - 1)"
    using assms(1) signed_take_bit_int_greater_eq_minus_exp [of "w - 1" x]
      signed_take_bit_int_less_exp [of "w - 1" x] by auto
  have "\<bar>x\<bar> div \<bar>y\<bar> \<le> \<bar>x\<bar>" by (rule quotient_le) auto
  then have b: "\<bar>x sdiv y\<bar> \<le> \<bar>x\<bar>"
    by (auto simp: signed_divide_int_def abs_mult sgn_if pos_imp_zdiv_nonneg_iff)
  have "x sdiv y < 2 ^ (w - 1)"
  proof (cases "x = - (2 ^ (w - 1))")
    case False
    then show ?thesis using x b by linarith
  next
    case True
    then have "y \<noteq> -1" using assms(2) by simp
    show ?thesis
    proof (rule ccontr)
      assume "\<not> x sdiv y < 2 ^ (w - 1)"
      then have "x sdiv y = 2 ^ (w - 1)" using b True by simp
      then have e: "\<bar>x sdiv y\<bar> = \<bar>x\<bar>" "x sdiv y \<noteq> x" "x \<noteq> 0" using True by auto
      have "\<bar>x\<bar> div \<bar>y\<bar> = \<bar>x\<bar>"
        using e(1) by (auto simp: signed_divide_int_def abs_mult sgn_if pos_imp_zdiv_nonneg_iff
            split: if_splits)
      then have "\<not> 1 < \<bar>y\<bar>" using int_div_less_self [of "\<bar>x\<bar>" "\<bar>y\<bar>"] e(3) by auto
      moreover have "y \<noteq> 0" using e by auto
      ultimately have "\<bar>y\<bar> = 1" by arith
      then show False using e True \<open>y \<noteq> -1\<close> by (auto simp: signed_divide_int_def)
    qed
  qed
  then show ?thesis using x b by (simp add: signed_take_bit_int_eq_self)
qed

end
