(* ===== verification/BitHelpers.thy ===== *)
theory BitHelpers
  imports CTypes "HOL-Library.Word"
begin

unbundle bit_operations_syntax

text \<open>
  The bit-manipulation helpers of \<open>c/preamble.c\<close>, on machine words as the C code has them:
  counting leading and trailing zeros by halving, counting ones in parallel, and swapping
  bytes by masks. Each is shown to compute what its name says.
\<close>

section \<open>The helpers\<close>

text \<open>One line \<open>if ((x & mask) == 0) { n += s; x <<= s; }\<close>, and the same with \<open>>>=\<close>.\<close>

definition clz_step :: "'a::len word \<Rightarrow> nat \<Rightarrow> int \<times> 'a word \<Rightarrow> int \<times> 'a word" where
  "clz_step msk s st =
     (let (n, x) = st in if x AND msk = 0 then (n + int s, push_bit s x) else (n, x))"

definition ctz_step :: "'a::len word \<Rightarrow> nat \<Rightarrow> int \<times> 'a word \<Rightarrow> int \<times> 'a word" where
  "ctz_step msk s st =
     (let (n, x) = st in if x AND msk = 0 then (n + int s, drop_bit s x) else (n, x))"

definition rustc_clz32 :: "32 word \<Rightarrow> int" where
  "rustc_clz32 x =
     (let st = (0, x);
          st = clz_step 0xFFFF0000 16 st;
          st = clz_step 0xFF000000 8 st;
          st = clz_step 0xF0000000 4 st;
          st = clz_step 0xC0000000 2 st;
          (n, x) = st
      in if x AND 0x80000000 = 0 then n + 1 else n)"

definition rustc_clz64 :: "64 word \<Rightarrow> int" where
  "rustc_clz64 x =
     (let hi = ucast (drop_bit 32 x) :: 32 word in
      if hi \<noteq> 0 then rustc_clz32 hi else 32 + rustc_clz32 (ucast x))"

definition rustc_ctz32 :: "32 word \<Rightarrow> int" where
  "rustc_ctz32 x =
     (let st = (0, x);
          st = ctz_step 0x0000FFFF 16 st;
          st = ctz_step 0x000000FF 8 st;
          st = ctz_step 0x0000000F 4 st;
          st = ctz_step 0x00000003 2 st;
          (n, x) = st
      in if x AND 0x00000001 = 0 then n + 1 else n)"

definition rustc_ctz64 :: "64 word \<Rightarrow> int" where
  "rustc_ctz64 x =
     (let lo = ucast x :: 32 word in
      if lo \<noteq> 0 then rustc_ctz32 lo else 32 + rustc_ctz32 (ucast (drop_bit 32 x)))"

definition rustc_popcount32 :: "32 word \<Rightarrow> int" where
  "rustc_popcount32 x =
     (let x = x - (drop_bit 1 x AND 0x55555555);
          x = (x AND 0x33333333) + (drop_bit 2 x AND 0x33333333);
          x = (x + drop_bit 4 x) AND 0x0F0F0F0F
      in sint (drop_bit 24 (x * 0x01010101)))"

definition rustc_popcount64 :: "64 word \<Rightarrow> int" where
  "rustc_popcount64 x =
     (let x = x - (drop_bit 1 x AND 0x5555555555555555);
          x = (x AND 0x3333333333333333) + (drop_bit 2 x AND 0x3333333333333333);
          x = (x + drop_bit 4 x) AND 0x0F0F0F0F0F0F0F0F
      in sint (ucast (drop_bit 56 (x * 0x0101010101010101)) :: 32 word))"

definition rustc_bswap16 :: "16 word \<Rightarrow> 16 word" where
  "rustc_bswap16 x = drop_bit 8 x OR push_bit 8 x"

definition rustc_bswap32 :: "32 word \<Rightarrow> 32 word" where
  "rustc_bswap32 x =
     (let x = drop_bit 8 (x AND 0xFF00FF00) OR push_bit 8 (x AND 0x00FF00FF)
      in drop_bit 16 x OR push_bit 16 x)"

definition rustc_bswap64 :: "64 word \<Rightarrow> 64 word" where
  "rustc_bswap64 x =
     (let x = drop_bit 8 (x AND 0xFF00FF00FF00FF00) OR push_bit 8 (x AND 0x00FF00FF00FF00FF);
          x = drop_bit 16 (x AND 0xFFFF0000FFFF0000) OR push_bit 16 (x AND 0x0000FFFF0000FFFF)
      in drop_bit 32 x OR push_bit 32 x)"

text \<open>
  A call by name: the argument is converted to the parameter's type, the result has the
  declared return type.
\<close>

definition helper_type :: "string \<Rightarrow> ctype option" where
  "helper_type f =
     (if f \<in> {''__rustc_clz32'', ''__rustc_clz64'', ''__rustc_ctz32'', ''__rustc_ctz64'',
              ''__rustc_popcount32'', ''__rustc_popcount64''} then Some (CIntT 32 True)
      else if f = ''__rustc_bswap16'' then Some (CIntT 16 False)
      else if f = ''__rustc_bswap32'' then Some (CIntT 32 False)
      else if f = ''__rustc_bswap64'' then Some (CIntT 64 False)
      else None)"

definition helper_result :: "string \<Rightarrow> int \<Rightarrow> int" where
  "helper_result f v =
     (if f = ''__rustc_clz32'' then rustc_clz32 (word_of_int v)
      else if f = ''__rustc_clz64'' then rustc_clz64 (word_of_int v)
      else if f = ''__rustc_ctz32'' then rustc_ctz32 (word_of_int v)
      else if f = ''__rustc_ctz64'' then rustc_ctz64 (word_of_int v)
      else if f = ''__rustc_popcount32'' then rustc_popcount32 (word_of_int v)
      else if f = ''__rustc_popcount64'' then rustc_popcount64 (word_of_int v)
      else if f = ''__rustc_bswap16'' then uint (rustc_bswap16 (word_of_int v))
      else if f = ''__rustc_bswap32'' then uint (rustc_bswap32 (word_of_int v))
      else uint (rustc_bswap64 (word_of_int v)))"

definition helper_call :: "string \<Rightarrow> int list \<Rightarrow> cval option" where
  "helper_call f vs =
     (case (helper_type f, vs) of
        (Some t, [v]) \<Rightarrow> Some (t, helper_result f v) | _ \<Rightarrow> None)"

section \<open>Leading zeros\<close>

lemma unat_drop: "unat (drop_bit k x) = unat x div 2 ^ k"
  unfolding unsigned_drop_bit_eq
  by (simp add: drop_bit_eq_div [where 'a = nat] take_bit_nat_eq_self)

lemma and_high_zero:
  fixes x :: "'a::len word"
  assumes "msk = NOT (mask k)" shows "x AND msk = 0 \<longleftrightarrow> unat x < 2 ^ k"
proof -
  have "x AND msk = 0 \<longleftrightarrow> take_bit k x = x"
  proof
    assume *: "x AND msk = 0"
    show "take_bit k x = x"
    proof (rule bit_word_eqI)
      fix n assume "n < LENGTH('a)"
      then show "bit (take_bit k x) n = bit x n"
        using arg_cong [OF *, of "\<lambda>w. bit w n"] assms by (auto simp: bit_simps)
    qed
  next
    assume "take_bit k x = x"
    then have "x AND msk = take_bit k x AND msk" by simp
    also have "\<dots> = 0" by (rule bit_word_eqI) (auto simp: assms bit_simps)
    finally show "x AND msk = 0" .
  qed
  also have "\<dots> \<longleftrightarrow> unat x < 2 ^ k"
    by (simp add: unsigned_take_bit_eq [symmetric] flip: word_unat_eq_iff take_bit_nat_eq_self_iff)
  finally show ?thesis .
qed

text \<open>What holds between the steps, for a start value \<open>x0\<close>: no bit has been lost, and the
  next \<open>s\<close> bits from the top are not all zero.\<close>

definition clz_inv :: "nat \<Rightarrow> nat \<Rightarrow> nat \<times> int \<times> 'a::len word \<Rightarrow> bool" where
  "clz_inv x0 s st = (case st of (k, n, x) \<Rightarrow>
     n = int k \<and> unat x = x0 * 2 ^ k \<and> 2 ^ (LENGTH('a) - s) \<le> unat x)"

lemma clz_step_inv:
  fixes x :: "'a::len word"
  assumes i: "clz_inv x0 (2 * s) (k, n, x)" and m: "msk = NOT (mask (LENGTH('a) - s))"
    and s: "2 * s \<le> LENGTH('a)"
  shows "\<exists>k' n' x'. clz_step msk s (n, x) = (n', x') \<and> clz_inv x0 s (k', n', x')"
proof (cases "x AND msk = 0")
  case True
  let ?w = "LENGTH('a)"
  have lt: "unat x < 2 ^ (?w - s)" using True and_high_zero [OF m] by simp
  have "unat x * 2 ^ s < 2 ^ (?w - s) * 2 ^ s" using lt by (intro mult_strict_right_mono) auto
  also have "(2::nat) ^ (?w - s) * 2 ^ s = 2 ^ ?w" using s by (simp flip: power_add)
  finally have "unat (push_bit s x) = unat x * 2 ^ s"
    unfolding unsigned_push_bit_eq by (simp add: take_bit_nat_eq_self push_bit_eq_mult)
  moreover have "2 ^ (?w - 2 * s) * 2 ^ s \<le> unat x * 2 ^ s"
    using i by (intro mult_right_mono) (auto simp: clz_inv_def)
  then have "2 ^ (?w - s) \<le> unat x * 2 ^ s" using s by (simp flip: power_add)
  ultimately show ?thesis
    using True i by (auto simp: clz_step_def clz_inv_def power_add intro!: exI [of _ "k + s"])
next
  case False
  then show ?thesis using i and_high_zero [OF m, of x] by (auto simp: clz_step_def clz_inv_def)
qed

lemma rustc_clz32_correct:
  assumes "x \<noteq> 0"
  shows "\<exists>k. rustc_clz32 x = int k \<and> k \<le> 31 \<and> 2 ^ (31 - k) \<le> unat x \<and> unat x < 2 ^ (32 - k)"
proof -
  have x: "1 \<le> unat x" using assms by (simp add: Suc_le_eq unat_gt_0)
  then have i0: "clz_inv (unat x) (2 * 16) (0, 0, x)" by (simp add: clz_inv_def)
  have m: "0xFFFF0000 = NOT (mask (LENGTH(32) - 16) :: 32 word)"
    "0xFF000000 = NOT (mask (LENGTH(32) - 8) :: 32 word)"
    "0xF0000000 = NOT (mask (LENGTH(32) - 4) :: 32 word)"
    "0xC0000000 = NOT (mask (LENGTH(32) - 2) :: 32 word)"
    "0x80000000 = NOT (mask (LENGTH(32) - 1) :: 32 word)" by code_simp+
  obtain k1 n1 x1 where s1: "clz_step 0xFFFF0000 16 (0, x) = (n1, x1)" "clz_inv (unat x) (2 * 8) (k1, n1, x1)"
    using clz_step_inv [OF i0 m(1)] by auto
  obtain k2 n2 x2 where s2: "clz_step 0xFF000000 8 (n1, x1) = (n2, x2)" "clz_inv (unat x) (2 * 4) (k2, n2, x2)"
    using clz_step_inv [OF s1(2) m(2)] by auto
  obtain k3 n3 x3 where s3: "clz_step 0xF0000000 4 (n2, x2) = (n3, x3)" "clz_inv (unat x) (2 * 2) (k3, n3, x3)"
    using clz_step_inv [OF s2(2) m(3)] by auto
  obtain k4 n4 x4 where s4: "clz_step 0xC0000000 2 (n3, x3) = (n4, x4)" "clz_inv (unat x) (2 * 1) (k4, n4, x4)"
    using clz_step_inv [OF s3(2) m(4)] by auto
  obtain k n y where s5: "clz_step 0x80000000 1 (n4, x4) = (n, y)" "clz_inv (unat x) 1 (k, n, y)"
    using clz_step_inv [OF s4(2) m(5)] by auto
  have "rustc_clz32 x = n"
    using s1(1) s2(1) s3(1) s4(1) s5(1) by (auto simp: rustc_clz32_def Let_def clz_step_def split: if_splits)
  moreover have n: "n = int k" and y: "unat y = unat x * 2 ^ k" "2 ^ 31 \<le> unat y"
    using s5(2) by (auto simp: clz_inv_def)
  have lt: "unat y < 2 ^ 32" using unsigned_less [of y] by simp
  have k: "k \<le> 31"
  proof (rule ccontr)
    assume "\<not> k \<le> 31"
    then have "(2::nat) ^ 32 \<le> 2 ^ k" by (intro power_increasing) auto
    also have "\<dots> \<le> unat x * 2 ^ k" using x by simp
    finally show False using lt y by simp
  qed
  moreover have "2 ^ (31 - k) * 2 ^ k \<le> unat x * 2 ^ k" using y k by (simp flip: power_add)
  then have "2 ^ (31 - k) \<le> unat x" by simp
  moreover have "unat x * 2 ^ k < 2 ^ (32 - k) * 2 ^ k" using y lt k by (simp flip: power_add)
  then have "unat x < 2 ^ (32 - k)" by simp
  ultimately show ?thesis using n by blast
qed


lemma rustc_clz32_zero: "rustc_clz32 0 = 31"
  by code_simp

lemma rustc_clz64_correct:
  assumes "x \<noteq> 0"
  shows "\<exists>k. rustc_clz64 x = int k \<and> k \<le> 63 \<and> 2 ^ (63 - k) \<le> unat x \<and> unat x < 2 ^ (64 - k)"
proof -
  let ?hi = "ucast (drop_bit 32 x) :: 32 word" and ?lo = "ucast x :: 32 word"
  have lt: "unat x < 2 ^ 64" using unsigned_less [of x] by simp
  have hi: "unat ?hi = unat x div 2 ^ 32"
    using lt unfolding unsigned_ucast_eq unat_drop by (simp add: take_bit_nat_eq_self less_mult_imp_div_less)
  have lo: "unat ?lo = unat x mod 2 ^ 32" by (simp add: unsigned_ucast_eq take_bit_eq_mod)
  show ?thesis
  proof (cases "?hi = 0")
    case False
    then obtain k where k: "rustc_clz32 ?hi = int k" "k \<le> 31"
      and b: "2 ^ (31 - k) \<le> unat x div 2 ^ 32" "unat x div 2 ^ 32 < 2 ^ (32 - k)"
      using rustc_clz32_correct [of ?hi] unfolding hi by blast
    have "2 ^ (31 - k) * 2 ^ 32 \<le> unat x" using b(1) by (simp add: less_eq_div_iff_mult_less_eq)
    moreover have "unat x < 2 ^ (32 - k) * 2 ^ 32" using b(2) by (simp add: div_less_iff_less_mult)
    moreover have "31 - k + 32 = 63 - k" "32 - k + 32 = 64 - k" using k(2) by auto
    ultimately have "2 ^ (63 - k) \<le> unat x" "unat x < 2 ^ (64 - k)" by (metis power_add)+
    then show ?thesis using False k by (auto simp: rustc_clz64_def Let_def)
  next
    case True
    then have "unat x div 2 ^ 32 = 0" using hi by simp
    then have "unat x < 2 ^ 32" by (simp add: div_eq_0_iff)
    then have e: "unat ?lo = unat x" using lo by simp
    then have "?lo \<noteq> 0" using assms by (metis unat_eq_zero unsigned_0)
    then obtain k where "rustc_clz32 ?lo = int k" "k \<le> 31" "2 ^ (31 - k) \<le> unat x" "unat x < 2 ^ (32 - k)"
      using rustc_clz32_correct [of ?lo] unfolding e by blast
    then show ?thesis using True by (auto simp: rustc_clz64_def Let_def intro!: exI [of _ "32 + k"])
  qed
qed

section \<open>Trailing zeros\<close>

lemma and_low_zero:
  fixes x :: "'a::len word"
  assumes "msk = mask k" "k \<le> LENGTH('a)" shows "x AND msk = 0 \<longleftrightarrow> 2 ^ k dvd unat x"
proof -
  have "x AND msk = take_bit k x" by (simp add: assms(1) take_bit_eq_mask)
  then have "x AND msk = 0 \<longleftrightarrow> unat (take_bit k x) = 0" by (simp add: unsigned_eq_0_iff)
  also have "\<dots> \<longleftrightarrow> 2 ^ k dvd unat x"
    unfolding unsigned_take_bit_eq by (simp add: take_bit_eq_mod [where 'a = nat] dvd_eq_mod_eq_0)
  finally show ?thesis .
qed

definition ctz_inv :: "nat \<Rightarrow> nat \<Rightarrow> nat \<times> int \<times> 'a::len word \<Rightarrow> bool" where
  "ctz_inv x0 s st = (case st of (k, n, x) \<Rightarrow>
     n = int k \<and> x0 = unat x * 2 ^ k \<and> \<not> 2 ^ s dvd unat x)"

lemma ctz_step_inv:
  fixes x :: "'a::len word"
  assumes i: "ctz_inv x0 (2 * s) (k, n, x)" and m: "msk = mask s" and s: "s \<le> LENGTH('a)"
  shows "\<exists>k' n' x'. ctz_step msk s (n, x) = (n', x') \<and> ctz_inv x0 s (k', n', x')"
proof (cases "x AND msk = 0")
  case True
  then have d: "2 ^ s dvd unat x" using and_low_zero [OF m s] by simp
  let ?y = "unat x div 2 ^ s"
  have y: "unat (drop_bit s x) = ?y" by (rule unat_drop)
  have e: "unat x = ?y * 2 ^ s" using d by simp
  have "\<not> 2 ^ s dvd ?y"
  proof
    assume "2 ^ s dvd ?y"
    then have "2 ^ s * 2 ^ s dvd ?y * 2 ^ s" by simp
    then show False using i e by (simp add: ctz_inv_def mult_2 power_add)
  qed
  moreover have "x0 = ?y * 2 ^ (k + s)" using i e by (simp add: ctz_inv_def power_add)
  ultimately show ?thesis
    using True i y by (auto simp: ctz_step_def ctz_inv_def intro!: exI [of _ "k + s"])
next
  case False
  then show ?thesis using i and_low_zero [OF m s, of x] by (auto simp: ctz_step_def ctz_inv_def)
qed

lemma rustc_ctz32_correct:
  assumes "x \<noteq> 0"
  shows "\<exists>k. rustc_ctz32 x = int k \<and> 2 ^ k dvd unat x \<and> \<not> 2 ^ Suc k dvd unat x"
proof -
  have "1 \<le> unat x" "unat x < 2 ^ 32" using assms unsigned_less [of x] by (simp_all add: Suc_le_eq unat_gt_0)
  then have i0: "ctz_inv (unat x) (2 * 16) (0, 0, x)" by (auto simp: ctz_inv_def dest: dvd_imp_le)
  have m: "0x0000FFFF = (mask 16 :: 32 word)" "0x000000FF = (mask 8 :: 32 word)"
    "0x0000000F = (mask 4 :: 32 word)" "0x00000003 = (mask 2 :: 32 word)"
    "0x00000001 = (mask 1 :: 32 word)" by code_simp+
  obtain k1 n1 x1 where s1: "ctz_step 0x0000FFFF 16 (0, x) = (n1, x1)" "ctz_inv (unat x) (2 * 8) (k1, n1, x1)"
    using ctz_step_inv [OF i0 m(1)] by auto
  obtain k2 n2 x2 where s2: "ctz_step 0x000000FF 8 (n1, x1) = (n2, x2)" "ctz_inv (unat x) (2 * 4) (k2, n2, x2)"
    using ctz_step_inv [OF s1(2) m(2)] by auto
  obtain k3 n3 x3 where s3: "ctz_step 0x0000000F 4 (n2, x2) = (n3, x3)" "ctz_inv (unat x) (2 * 2) (k3, n3, x3)"
    using ctz_step_inv [OF s2(2) m(3)] by auto
  obtain k4 n4 x4 where s4: "ctz_step 0x00000003 2 (n3, x3) = (n4, x4)" "ctz_inv (unat x) (2 * 1) (k4, n4, x4)"
    using ctz_step_inv [OF s3(2) m(4)] by auto
  obtain k n y where s5: "ctz_step 0x00000001 1 (n4, x4) = (n, y)" "ctz_inv (unat x) 1 (k, n, y)"
    using ctz_step_inv [OF s4(2) m(5)] by auto
  have "rustc_ctz32 x = n"
    using s1(1) s2(1) s3(1) s4(1) s5(1) by (auto simp: rustc_ctz32_def Let_def ctz_step_def split: if_splits)
  then show ?thesis using s5(2) by (auto simp: ctz_inv_def)
qed

lemma rustc_ctz64_correct:
  assumes "x \<noteq> 0"
  shows "\<exists>k. rustc_ctz64 x = int k \<and> 2 ^ k dvd unat x \<and> \<not> 2 ^ Suc k dvd unat x"
proof -
  let ?hi = "ucast (drop_bit 32 x) :: 32 word" and ?lo = "ucast x :: 32 word"
  have lt: "unat x < 2 ^ 64" using unsigned_less [of x] by simp
  have hi: "unat ?hi = unat x div 2 ^ 32"
    using lt unfolding unsigned_ucast_eq unat_drop by (simp add: take_bit_nat_eq_self less_mult_imp_div_less)
  have lo: "unat ?lo = unat x mod 2 ^ 32" by (simp add: unsigned_ucast_eq take_bit_eq_mod)
  show ?thesis
  proof (cases "?lo = 0")
    case False
    then obtain k where k: "rustc_ctz32 ?lo = int k" and d: "2 ^ k dvd unat x mod 2 ^ 32"
      "\<not> 2 ^ Suc k dvd unat x mod 2 ^ 32" using rustc_ctz32_correct [of ?lo] unfolding lo by blast
    have nz: "0 < unat x mod 2 ^ 32" using False lo by (metis gr0I unat_eq_zero)
    have "2 ^ k \<le> unat x mod 2 ^ 32" using d(1) nz by (rule dvd_imp_le)
    also have "\<dots> < 2 ^ 32" by (rule mod_less_divisor) simp
    finally have "(2::nat) ^ k < 2 ^ 32" .
    then have "k < 32" by (simp only: power_strict_increasing_iff)
    then have "(2::nat) ^ k dvd 2 ^ 32" "(2::nat) ^ Suc k dvd 2 ^ 32"
      using le_imp_power_dvd [of k 32 "2::nat"] le_imp_power_dvd [of "Suc k" 32 "2::nat"] by simp_all
    then show ?thesis using False k d by (auto simp: rustc_ctz64_def Let_def dvd_mod_iff simp del: power_Suc)
  next
    case True
    then have z: "unat x mod 2 ^ 32 = 0" using lo by simp
    then have e: "unat x = unat x div 2 ^ 32 * 2 ^ 32" by auto
    have "?hi \<noteq> 0" using e hi assms by (metis mult_zero_left unat_eq_zero unsigned_0)
    then obtain k where k: "rustc_ctz32 ?hi = int k" and d: "2 ^ k dvd unat x div 2 ^ 32"
      "\<not> 2 ^ Suc k dvd unat x div 2 ^ 32" using rustc_ctz32_correct [of ?hi] unfolding hi by blast
    have "2 ^ k * 2 ^ 32 dvd unat x" by (subst e) (use d(1) in simp)
    moreover have "\<not> 2 ^ Suc k * 2 ^ 32 dvd unat x" by (subst e) (use d(2) in simp)
    ultimately show ?thesis
      using True k by (auto simp: rustc_ctz64_def Let_def power_add intro!: exI [of _ "32 + k"])
  qed
qed

section \<open>Byte swaps\<close>

text \<open>Bit \<open>n\<close> of the result is the bit at the same place of the mirrored byte.\<close>

definition swapped_bit :: "nat \<Rightarrow> nat \<Rightarrow> nat" where
  "swapped_bit bytes n = 8 * (bytes - 1 - n div 8) + n mod 8"

text \<open>Exchanging neighbouring groups of \<open>s\<close> bits moves a bit by \<open>s\<close>.\<close>

definition flip_group :: "nat \<Rightarrow> nat \<Rightarrow> nat" where
  "flip_group s n = (if even (n div s) then n + s else n - s)"

lemma swap_groups_bit:
  fixes x :: "'a::len word"
  assumes hi: "list_all (\<lambda>n. bit hi n = odd (n div s)) [0..<LENGTH('a)]"
    and lo: "list_all (\<lambda>n. bit lo n = even (n div s)) [0..<LENGTH('a)]"
    and s: "0 < s" and n: "n < LENGTH('a)" "flip_group s n < LENGTH('a)"
  shows "bit (drop_bit s (x AND hi) OR push_bit s (x AND lo)) n = bit x (flip_group s n)"
proof -
  have h: "bit hi n = odd (n div s)" "bit lo n = even (n div s)" if "n < LENGTH('a)" for n
    using hi lo that by (auto simp: list_all_iff)
  have b: "bit w m \<Longrightarrow> m < LENGTH('a)" for w :: "'a word" and m by (rule bit_imp_le_length)
  show ?thesis
  proof (cases "even (n div s)")
    case True
    have "even ((n - s) div s) \<Longrightarrow> s \<le> n \<Longrightarrow> False" using True s by (simp add: le_div_geq)
    moreover have "odd ((n + s) div s)" using True s by (simp add: le_div_geq)
    ultimately show ?thesis
      using True n h [of "n + s"] h [of "n - s"] s by (auto simp: flip_group_def bit_simps add.commute)
  next
    case False
    then have sn: "s \<le> n" using s by (metis div_less even_zero not_le)
    then have "even ((n - s) div s)" "s + n < LENGTH('a) \<Longrightarrow> even ((s + n) div s)"
      using False s by (auto simp: le_div_geq)
    then show ?thesis
      using False sn n h [of "s + n"] h [of "n - s"] s b [of hi "s + n"]
      by (auto simp: flip_group_def bit_simps)
  qed
qed

lemma swap_halves_bit:
  fixes x :: "'a::len word"
  assumes "LENGTH('a) = 2 * s" "n < LENGTH('a)"
  shows "bit (drop_bit s x OR push_bit s x) n = bit x (flip_group s n)"
proof (cases "n < s")
  case True
  then show ?thesis using assms by (simp add: flip_group_def bit_simps add.commute)
next
  case False
  then have "n div s = 1" using assms by (intro div_nat_eqI) auto
  then show ?thesis
    using False assms bit_imp_le_length [of x "s + n"] by (auto simp: flip_group_def bit_simps)
qed

lemma flip_lt:
  "list_all (\<lambda>n. flip_group 8 n < 16) [0..<16]"
  "list_all (\<lambda>n. flip_group 8 n < 32 \<and> flip_group 16 n < 32) [0..<32]"
  "list_all (\<lambda>n. flip_group 8 n < 64 \<and> flip_group 16 n < 64 \<and> flip_group 32 n < 64) [0..<64]"
  by code_simp+

lemma flip_swapped:
  "list_all (\<lambda>n. flip_group 8 n = swapped_bit 2 n) [0..<16]"
  "list_all (\<lambda>n. flip_group 8 (flip_group 16 n) = swapped_bit 4 n) [0..<32]"
  "list_all (\<lambda>n. flip_group 8 (flip_group 16 (flip_group 32 n)) = swapped_bit 8 n) [0..<64]"
  by code_simp+

lemma mask_groups32:
  "list_all (\<lambda>n. bit (0xFF00FF00 :: 32 word) n = odd (n div 8)) [0..<LENGTH(32)]"
  "list_all (\<lambda>n. bit (0x00FF00FF :: 32 word) n = even (n div 8)) [0..<LENGTH(32)]"
  by code_simp+

lemma mask_groups64:
  "list_all (\<lambda>n. bit (0xFF00FF00FF00FF00 :: 64 word) n = odd (n div 8)) [0..<LENGTH(64)]"
  "list_all (\<lambda>n. bit (0x00FF00FF00FF00FF :: 64 word) n = even (n div 8)) [0..<LENGTH(64)]"
  "list_all (\<lambda>n. bit (0xFFFF0000FFFF0000 :: 64 word) n = odd (n div 16)) [0..<LENGTH(64)]"
  "list_all (\<lambda>n. bit (0x0000FFFF0000FFFF :: 64 word) n = even (n div 16)) [0..<LENGTH(64)]"
  by code_simp+

lemma rustc_bswap16_bit: "n < 16 \<Longrightarrow> bit (rustc_bswap16 x) n = bit x (swapped_bit 2 n)"
  using swap_halves_bit [of 8 n x] flip_swapped(1) by (simp add: rustc_bswap16_def list_all_iff)

lemma rustc_bswap32_bit:
  assumes "n < 32" shows "bit (rustc_bswap32 x) n = bit x (swapped_bit 4 n)"
proof -
  let ?x = "drop_bit 8 (x AND 0xFF00FF00) OR push_bit 8 (x AND 0x00FF00FF)"
  have n: "flip_group 16 n < 32" "flip_group 8 (flip_group 16 n) < 32"
    using assms flip_lt(2) by (auto simp: list_all_iff)
  have "rustc_bswap32 x = drop_bit 16 ?x OR push_bit 16 ?x" by (simp only: rustc_bswap32_def Let_def)
  then have "bit (rustc_bswap32 x) n = bit ?x (flip_group 16 n)"
    using swap_halves_bit [of 16 n ?x] assms by (simp only:) simp
  also have "\<dots> = bit x (flip_group 8 (flip_group 16 n))"
    using n by (intro swap_groups_bit [OF mask_groups32]) auto
  finally show ?thesis using assms flip_swapped(2) by (simp add: list_all_iff)
qed

lemma rustc_bswap64_bit:
  assumes "n < 64" shows "bit (rustc_bswap64 x) n = bit x (swapped_bit 8 n)"
proof -
  let ?x = "drop_bit 8 (x AND 0xFF00FF00FF00FF00) OR push_bit 8 (x AND 0x00FF00FF00FF00FF)"
  let ?y = "drop_bit 16 (?x AND 0xFFFF0000FFFF0000) OR push_bit 16 (?x AND 0x0000FFFF0000FFFF)"
  let ?n = "flip_group 32 n"
  have n: "?n < 64" "flip_group 16 ?n < 64" "flip_group 8 (flip_group 16 ?n) < 64"
    using assms flip_lt(3) by (auto simp: list_all_iff)
  have "rustc_bswap64 x = drop_bit 32 ?y OR push_bit 32 ?y" by (simp only: rustc_bswap64_def Let_def)
  then have "bit (rustc_bswap64 x) n = bit ?y ?n"
    using swap_halves_bit [of 32 n ?y] assms by (simp only:) simp
  also have "\<dots> = bit ?x (flip_group 16 ?n)"
    using n by (intro swap_groups_bit [OF mask_groups64(3,4)]) auto
  also have "\<dots> = bit x (flip_group 8 (flip_group 16 ?n))"
    using n by (intro swap_groups_bit [OF mask_groups64(1,2)]) auto
  finally show ?thesis using assms flip_swapped(3) by (simp add: list_all_iff)
qed

end
