(* ===== verification/CSem.thy ===== *)
theory CSem
  imports CAst Types BitHelpers
begin

text \<open>
  The meaning of the integer C expressions the builder prints, as \<open>gcc -std=c11 -fwrapv\<close> gives
  it on the targets of the preamble: \<open>int\<close> has 32 bits, the types \<open>int8_t\<close> to \<open>uint128_t\<close>,
  \<open>_Bool\<close> and the two pointer-width names, integer promotion and the usual arithmetic
  conversions, wrapping signed arithmetic. What is undefined, division by zero or with an
  overflowing quotient and shifts by the width or more, has no value; neither have
  expressions outside the fragment. The functions of the preamble that return an integer are
  called by name.

  A value is a mathematical integer with its C type. An environment gives the value of an
  operand by its text; that may be a variable or a literal.
\<close>

section \<open>Expressions\<close>

definition of_bool_int :: "bool \<Rightarrow> cval option" where
  "of_bool_int p = Some (CIntT 32 True, if p then 1 else 0)"

text \<open>An arithmetic operator on operands already converted to their common type.\<close>

definition arith :: "CBinOp \<Rightarrow> ctype \<Rightarrow> int \<Rightarrow> int \<Rightarrow> cval option" where
  "arith op t x y =
     (case op of
        Add \<Rightarrow> Some (t, wrap t (x + y))
      | Sub \<Rightarrow> Some (t, wrap t (x - y))
      | Mul \<Rightarrow> Some (t, wrap t (x * y))
      | Div \<Rightarrow> if y = 0 \<or> wrap t (x sdiv y) \<noteq> x sdiv y then None else Some (t, x sdiv y)
      | Rem \<Rightarrow> if y = 0 \<or> wrap t (x sdiv y) \<noteq> x sdiv y then None else Some (t, x smod y)
      | BitAnd \<Rightarrow> Some (t, and x y)
      | BitOr \<Rightarrow> Some (t, or x y)
      | BitXor \<Rightarrow> Some (t, xor x y)
      | Eq \<Rightarrow> of_bool_int (x = y)
      | Ne \<Rightarrow> of_bool_int (x \<noteq> y)
      | Lt \<Rightarrow> of_bool_int (x < y)
      | Le \<Rightarrow> of_bool_int (x \<le> y)
      | Gt \<Rightarrow> of_bool_int (x > y)
      | Ge \<Rightarrow> of_bool_int (x \<ge> y)
      | _ \<Rightarrow> None)"

text \<open>Shifts: the result has the promoted type of the left operand.\<close>

definition shift :: "CBinOp \<Rightarrow> cval \<Rightarrow> cval \<Rightarrow> cval option" where
  "shift op a b =
     (let t = promote (fst a); x = snd a; y = snd b in
      if y < 0 \<or> y \<ge> int (ctype_bits t) then None
      else if op = Shl then Some (t, wrap t (push_bit (nat y) x))
      else Some (t, drop_bit (nat y) x))"

definition bin :: "CBinOp \<Rightarrow> cval \<Rightarrow> cval \<Rightarrow> cval option" where
  "bin op a b =
     (if op = Shl \<or> op = Shr then shift op a b
      else (let t = arith_type (fst a) (fst b) in arith op t (wrap t (snd a)) (wrap t (snd b))))"

fun unary :: "CUnaryOp \<Rightarrow> cval \<Rightarrow> cval option" where
  "unary Neg (t, x) = Some (promote t, wrap (promote t) (- x))"
| "unary BitNot (t, x) = Some (promote t, wrap (promote t) (not x))"
| "unary LogNot (t, x) = of_bool_int (x = 0)"

text \<open>
  Integer literals: decimal digits with the suffix \<open>ULL\<close>, \<open>LL\<close>, \<open>U\<close> or none. A value out of the
  range of its type makes no literal here.
\<close>

definition literal :: "string \<Rightarrow> cval option" where
  "literal s =
     (let ds = takeWhile is_digit s; suffix = dropWhile is_digit s;
          t = (if suffix = ''ULL'' then Some (CIntT 64 False)
               else if suffix = ''LL'' then Some (CIntT 64 True)
               else if suffix = ''U'' then Some (CIntT 32 False)
               else if suffix = [] then Some (CIntT 32 True) else None)
      in case (read_nat ds, t) of
           (Some n, Some t) \<Rightarrow> if wrap t (int n) = int n then Some (t, int n) else None
         | _ \<Rightarrow> None)"

text \<open>
  The type of an expression, which a conditional needs of the branch it does not take.
\<close>

fun expr_type :: "nat \<Rightarrow> cenv \<Rightarrow> CExpr \<Rightarrow> ctype option" where
  "expr_type pb env (Var s) = map_option fst (env s)"
| "expr_type pb env (Lit s) = map_option fst (literal s)"
| "expr_type pb env (Paren e) = expr_type pb env e"
| "expr_type pb env (Cast tn e) =
     (case expr_type pb env e of None \<Rightarrow> None | Some t \<Rightarrow> type_name pb tn)"
| "expr_type pb env (BinOp a op b) =
     (case (expr_type pb env a, expr_type pb env b) of
        (Some s, Some t) \<Rightarrow>
          Some (if op \<in> {Eq, Ne, Lt, Le, Gt, Ge, LogAnd, LogOr} then CIntT 32 True
                else if op \<in> {Shl, Shr} then promote s else arith_type s t)
      | _ \<Rightarrow> None)"
| "expr_type pb env (UnaryOp op a) =
     map_option (\<lambda>t. if op = LogNot then CIntT 32 True else promote t) (expr_type pb env a)"
| "expr_type pb env (Ternary c a b) =
     (case (expr_type pb env a, expr_type pb env b) of
        (Some s, Some t) \<Rightarrow> Some (arith_type s t) | _ \<Rightarrow> None)"
| "expr_type pb env (Call (Var f) args) =
     (case opt_map (expr_type pb env) args of None \<Rightarrow> None | Some ts \<Rightarrow> helper_type f)"
| "expr_type pb env _ = None"

fun eval :: "nat \<Rightarrow> cenv \<Rightarrow> CExpr \<Rightarrow> cval option" where
  "eval pb env (Var s) = env s"
| "eval pb env (Lit s) = literal s"
| "eval pb env (Paren e) = eval pb env e"
| "eval pb env (Cast tn e) =
     do { t \<leftarrow> type_name pb tn; (s, v) \<leftarrow> eval pb env e; Some (t, wrap t v) }"
| "eval pb env (BinOp a op b) =
     (if op = LogAnd then
        do { (s, v) \<leftarrow> eval pb env a;
             if v = 0 then of_bool_int False
             else do { (t, w) \<leftarrow> eval pb env b; of_bool_int (w \<noteq> 0) } }
      else if op = LogOr then
        do { (s, v) \<leftarrow> eval pb env a;
             if v \<noteq> 0 then of_bool_int True
             else do { (t, w) \<leftarrow> eval pb env b; of_bool_int (w \<noteq> 0) } }
      else do { x \<leftarrow> eval pb env a; y \<leftarrow> eval pb env b; bin op x y })"
| "eval pb env (UnaryOp op a) = do { x \<leftarrow> eval pb env a; unary op x }"
| "eval pb env (Ternary c a b) =
     do { s \<leftarrow> expr_type pb env a;
          t \<leftarrow> expr_type pb env b;
          (_, v) \<leftarrow> eval pb env c;
          (_, w) \<leftarrow> (if v \<noteq> 0 then eval pb env a else eval pb env b);
          Some (arith_type s t, wrap (arith_type s t) w) }"
| "eval pb env (Call (Var f) args) =
     do { vs \<leftarrow> opt_map (eval pb env) args; helper_call f (map snd vs) }"
| "eval pb env _ = None"

section \<open>Assignments\<close>

text \<open>
  The type of a variable is read off its declaration. An assignment converts to it.
\<close>

definition declared_type :: "nat \<Rightarrow> string list \<Rightarrow> string \<Rightarrow> ctype option" where
  "declared_type pb decls x =
     map_option snd (find (\<lambda>(tn, t). tn @ '' '' @ x @ '';'' \<in> set decls) (int_types pb))"

fun exec_stmt :: "nat \<Rightarrow> string list \<Rightarrow> CStmt \<Rightarrow> cenv \<Rightarrow> cenv option" where
  "exec_stmt pb decls (Assign (Var x) e) env =
     do { t \<leftarrow> declared_type pb decls x;
          (s, v) \<leftarrow> eval pb env e;
          Some (env(x \<mapsto> (t, wrap t v))) }"
| "exec_stmt pb decls _ env = None"

fun exec_stmts :: "nat \<Rightarrow> string list \<Rightarrow> CStmt list \<Rightarrow> cenv \<Rightarrow> cenv option" where
  "exec_stmts pb decls [] env = Some env"
| "exec_stmts pb decls (s # ss) env =
     do { env \<leftarrow> exec_stmt pb decls s env; exec_stmts pb decls ss env }"

text \<open>
  A switch jumps to the label of the first case whose constant, converted to the promoted type
  of the controlling expression, equals it.
\<close>

fun switch_target :: "nat \<Rightarrow> cenv \<Rightarrow> cval \<Rightarrow> (CExpr \<times> string) list \<Rightarrow> string \<Rightarrow> string option" where
  "switch_target pb env v [] d = Some d"
| "switch_target pb env v ((e, l) # cs) d =
     do { (_, k) \<leftarrow> eval pb env e;
          let t = promote (fst v);
          if wrap t k = snd v then Some l else switch_target pb env v cs d }"

fun jump_target :: "nat \<Rightarrow> cenv \<Rightarrow> CStmt \<Rightarrow> string option" where
  "jump_target pb env (Goto l) = Some l"
| "jump_target pb env (CondGoto c t e) = do { (_, v) \<leftarrow> eval pb env c; Some (if v \<noteq> 0 then t else e) }"
| "jump_target pb env (Switch e cs d) = do { v \<leftarrow> eval pb env e; switch_target pb env v cs d }"
| "jump_target pb env _ = None"

section \<open>Values and low bits\<close>

text \<open>Wrapping arithmetic on low bits.\<close>

fun wrap_op :: "CBinOp \<Rightarrow> int \<Rightarrow> int \<Rightarrow> int" where
  "wrap_op Add x y = x + y"
| "wrap_op Sub x y = x - y"
| "wrap_op Mul x y = x * y"
| "wrap_op BitAnd x y = and x y"
| "wrap_op BitOr x y = or x y"
| "wrap_op BitXor x y = xor x y"
| "wrap_op _ x y = 0"

definition wrapping :: "CBinOp \<Rightarrow> bool" where
  "wrapping op = (op \<in> {Add, Sub, Mul, BitAnd, BitOr, BitXor})"

lemma take_bit_wrap_op:
  assumes "wrapping op" "take_bit w x = take_bit w x'" "take_bit w y = take_bit w y'"
  shows "take_bit w (wrap_op op x y) = take_bit w (wrap_op op x' y')"
proof -
  have "take_bit w (wrap_op op x y) = take_bit w (wrap_op op (take_bit w x) (take_bit w y))" for x y
    using assms(1) by (auto simp: wrapping_def take_bit_add take_bit_diff take_bit_mult)
  then show ?thesis using assms(2,3) by metis
qed

lemma bin_wrapping:
  assumes op: "wrapping op" and ok: "ctype_ok s" "ctype_ok t" and w: "w \<le> ctype_bits (arith_type s t)"
  shows "\<exists>u v. bin op (s, x) (t, y) = Some (u, v) \<and> take_bit w v = take_bit w (wrap_op op x y)"
proof -
  let ?t = "arith_type s t"
  note it = arith_type_ok [OF ok]
  have tb: "take_bit w (wrap ?t z) = take_bit w z" for z by (rule take_bit_wrap [OF it w])
  have e: "take_bit w (wrap_op op (wrap ?t x) (wrap ?t y)) = take_bit w (wrap_op op x y)"
    using op by (rule take_bit_wrap_op) (simp_all add: tb)
  show ?thesis
    using op e tb by (auto simp: wrapping_def bin_def arith_def Let_def)
qed

section \<open>Division\<close>

text \<open>Division of unsigned values of at least \<open>w\<close> bits is the division of the patterns.\<close>

lemma bin_udiv:
  assumes x: "take_bit w x = x" and y: "take_bit w y = y" and w: "w \<le> m" "w \<le> n" and nz: "y \<noteq> 0"
  shows "\<exists>t. bin Div (CIntT m False, x) (CIntT n False, y) = Some (t, x div y)"
    and "\<exists>t. bin Rem (CIntT m False, x) (CIntT n False, y) = Some (t, x mod y)"
  using wrap_arith_unsigned [OF x w] wrap_arith_unsigned [OF y w]
    wrap_arith_unsigned [OF div_range(3) [OF x y] w] div_range(1,2) [OF x y] nz
  by (auto simp: bin_def arith_def Let_def)

end
