(* ===== verification/CGrammar.thy ===== *)
theory CGrammar
  imports CSem
begin

text \<open>
  The C grammar of the integer expressions and assignments the code generator prints: which
  tree a text is read as. The levels are the nonterminals of the standard (6.5), from postfix
  expressions to conditional ones; an operand's text is a unit, as an operand is printed as a
  name, a literal or in brackets. A printed expression is read as the expression itself when
  its operands bind tightly enough, and its value is then the value of the text.
\<close>

section \<open>Levels\<close>

fun op_level :: "CBinOp \<Rightarrow> nat" where
  "op_level Mul = 3" | "op_level Div = 3" | "op_level Rem = 3"
| "op_level Add = 4" | "op_level Sub = 4"
| "op_level Shl = 5" | "op_level Shr = 5"
| "op_level Lt = 6" | "op_level Le = 6" | "op_level Gt = 6" | "op_level Ge = 6"
| "op_level Eq = 7" | "op_level Ne = 7"
| "op_level BitAnd = 8" | "op_level BitXor = 9" | "op_level BitOr = 10"
| "op_level LogAnd = 11" | "op_level LogOr = 12"

definition int_type_name :: "string \<Rightarrow> bool" where
  "int_type_name s = (s \<in> fst ` set (int_types 0))"

lemma type_name_int: "type_name pb s = Some t \<Longrightarrow> int_type_name s"
  by (force simp: type_name_def int_type_name_def int_types_def split: if_splits)

text \<open>Identifiers that are not type names, and the literals of \<open>CSem\<close>.\<close>

definition ident_char :: "char \<Rightarrow> bool" where
  "ident_char c = (is_digit c \<or> c = CHR ''_'' \<or>
     (97 \<le> (of_char c :: nat) \<and> (of_char c :: nat) \<le> 122) \<or>
     (65 \<le> (of_char c :: nat) \<and> (of_char c :: nat) \<le> 90))"

definition c_identifier :: "string \<Rightarrow> bool" where
  "c_identifier s = (s \<noteq> [] \<and> \<not> is_digit (hd s) \<and> list_all ident_char s \<and> \<not> int_type_name s)"

section \<open>Reading\<close>

inductive reads :: "string set \<Rightarrow> nat \<Rightarrow> string \<Rightarrow> CExpr \<Rightarrow> bool" for ops where
  operand: "s \<in> ops \<Longrightarrow> 2 \<le> n \<Longrightarrow> reads ops n s (Var s)"
| name: "c_identifier s \<Longrightarrow> reads ops n s (Var s)"
| number: "literal s \<noteq> None \<Longrightarrow> reads ops n s (Lit s)"
| bracketed: "reads ops 13 s e \<Longrightarrow> reads ops n (''('' @ s @ '')'') (Paren e)"
| applied: "c_identifier f \<Longrightarrow> list_all2 (reads ops 13) ss es \<Longrightarrow>
    reads ops n (f @ ''('' @ join '', '' ss @ '')'') (Call (Var f) es)"
| prefixed: "reads ops 2 s e \<Longrightarrow> 1 \<le> n \<Longrightarrow> \<not> (op = Neg \<and> take 1 s = ''-'') \<Longrightarrow>
    reads ops n (CUnaryOp_fmt op @ s) (UnaryOp op e)"
| converted: "int_type_name t \<Longrightarrow> reads ops 2 s e \<Longrightarrow> 2 \<le> n \<Longrightarrow>
    reads ops n (''('' @ t @ '')'' @ s) (Cast t e)"
| infixed: "reads ops (op_level op) s1 e1 \<Longrightarrow> reads ops (op_level op - 1) s2 e2 \<Longrightarrow> op_level op \<le> n \<Longrightarrow>
    reads ops n (s1 @ '' '' @ CBinOp_fmt op @ '' '' @ s2) (BinOp e1 op e2)"
| conditional: "reads ops 12 s1 e1 \<Longrightarrow> reads ops 13 s2 e2 \<Longrightarrow> reads ops 13 s3 e3 \<Longrightarrow> 13 \<le> n \<Longrightarrow>
    reads ops n (s1 @ '' ? '' @ s2 @ '' : '' @ s3) (Ternary e1 e2 e3)"

lemma reads_eq: "reads ops n s e \<Longrightarrow> s = t \<Longrightarrow> reads ops n t e"
  by simp

section \<open>Printed expressions\<close>

text \<open>The expression with the brackets that its printer adds.\<close>

fun bracketed_expr :: "CExpr \<Rightarrow> CExpr" where
  "bracketed_expr (BinOp a op b) = BinOp (bracketed_expr a) op (bracketed_expr b)"
| "bracketed_expr (UnaryOp op e) = UnaryOp op (Paren (bracketed_expr e))"
| "bracketed_expr (Cast t e) = Cast t (bracketed_expr e)"
| "bracketed_expr (Paren e) = Paren (bracketed_expr e)"
| "bracketed_expr (Ternary c a b) =
     Ternary (Paren (bracketed_expr c)) (Paren (bracketed_expr a)) (Paren (bracketed_expr b))"
| "bracketed_expr e = e"

fun expr_level :: "CExpr \<Rightarrow> nat" where
  "expr_level (BinOp a op b) = op_level op"
| "expr_level (Ternary c a b) = 13"
| "expr_level (UnaryOp op e) = 1"
| "expr_level (Paren e) = 0"
| "expr_level (Lit s) = 0"
| "expr_level e = 2"

text \<open>Operands bind at least as tightly as their operator, and leaves are operands or literals.\<close>

fun nested :: "string set \<Rightarrow> CExpr \<Rightarrow> bool" where
  "nested ops (Var s) = (s \<in> ops)"
| "nested ops (Lit s) = (literal s \<noteq> None)"
| "nested ops (BinOp a op b) =
     (nested ops a \<and> nested ops b \<and> expr_level a \<le> op_level op \<and> expr_level b < op_level op)"
| "nested ops (UnaryOp op e) = nested ops e"
| "nested ops (Cast t e) = (int_type_name t \<and> nested ops e \<and> expr_level e \<le> 2)"
| "nested ops (Paren e) = nested ops e"
| "nested ops (Ternary c a b) = (nested ops c \<and> nested ops a \<and> nested ops b)"
| "nested ops _ = False"

lemma op_level_bounds: "3 \<le> op_level op" "op_level op \<le> 12"
  by (cases op; simp)+

lemma op_level_above [simp]: "2 < op_level op" "2 \<le> op_level op" "Suc 0 < op_level op" "Suc 0 \<le> op_level op"
    "0 < op_level op"
  using op_level_bounds(1) [of op] by simp_all

lemma expr_level_le: "expr_level e \<le> 13"
  using op_level_bounds(2) by (cases e rule: expr_level.cases) (auto intro: le_trans [of _ 12])

text \<open>The text of a tree that has its brackets, and when it is read as the tree.\<close>

fun tree_text :: "CExpr \<Rightarrow> string" where
  "tree_text (Paren e) = ''('' @ tree_text e @ '')''"
| "tree_text (Call f es) = tree_text f @ ''('' @ join '', '' (map tree_text es) @ '')''"
| "tree_text (UnaryOp op e) = CUnaryOp_fmt op @ tree_text e"
| "tree_text (Cast t e) = ''('' @ t @ '')'' @ tree_text e"
| "tree_text (BinOp a op b) = tree_text a @ '' '' @ CBinOp_fmt op @ '' '' @ tree_text b"
| "tree_text (Ternary c a b) = tree_text c @ '' ? '' @ tree_text a @ '' : '' @ tree_text b"
| "tree_text e = CExpr_fmt e"

fun fits :: "string set \<Rightarrow> nat \<Rightarrow> CExpr \<Rightarrow> bool" where
  "fits ops n (Var s) = (s \<in> ops \<and> 2 \<le> n \<or> c_identifier s)"
| "fits ops n (Lit s) = (literal s \<noteq> None)"
| "fits ops n (Paren e) = fits ops 13 e"
| "fits ops n (Call (Var f) es) = (c_identifier f \<and> list_all (fits ops 13) es)"
| "fits ops n (UnaryOp op e) =
     (fits ops 2 e \<and> 1 \<le> n \<and> \<not> (op = Neg \<and> take 1 (tree_text e) = ''-''))"
| "fits ops n (Cast t e) = (int_type_name t \<and> fits ops 2 e \<and> 2 \<le> n)"
| "fits ops n (BinOp a op b) =
     (fits ops (op_level op) a \<and> fits ops (op_level op - 1) b \<and> op_level op \<le> n)"
| "fits ops n (Ternary c a b) = (fits ops 12 c \<and> fits ops 13 a \<and> fits ops 13 b \<and> 13 \<le> n)"
| "fits ops n _ = False"

lemma tree_reads: "fits ops n e \<Longrightarrow> reads ops n (tree_text e) e"
proof (induction ops n e rule: fits.induct)
  case (4 ops n f es)
  then have "list_all2 (reads ops 13) (map tree_text es) es"
    by (simp add: list_all2_map1 list_all_iff list.rel_refl_strong)
  then show ?case using 4 reads.applied [of f ops "map tree_text es" es n] by simp
next
  case (3 ops n e)
  then show ?case using reads.bracketed [of ops "tree_text e"] by simp
next
  case (5 ops n op e)
  then show ?case using reads.prefixed [of ops "tree_text e" e n op] by simp
next
  case (6 ops n t e)
  then show ?case using reads.converted [of t ops "tree_text e"] by simp
next
  case (7 ops n a op b)
  then show ?case using reads.infixed [of ops op "tree_text a" a "tree_text b" b n] by simp
next
  case (8 ops n c a b)
  then show ?case
    using reads.conditional [of ops "tree_text c" c "tree_text a" a "tree_text b" b n] by simp
qed (auto intro: reads.intros)

lemma bracketed_text: "nested ops e \<Longrightarrow> tree_text (bracketed_expr e) = CExpr_fmt e"
  by (induction ops e rule: nested.induct) auto

lemma nested_fits: "nested ops e \<Longrightarrow> expr_level e \<le> n \<Longrightarrow> fits ops n (bracketed_expr e)"
proof (induction ops e arbitrary: n rule: nested.induct)
  case (3 ops a op b)
  then show ?case by auto
next
  case (4 ops op e)
  then show ?case using expr_level_le [of e] by simp
next
  case (6 ops e)
  then show ?case using expr_level_le [of e] by simp
next
  case (7 ops c a b)
  then show ?case using expr_level_le [of a] expr_level_le [of b] expr_level_le [of c] by simp
qed auto

lemma printed_reads:
  "nested ops e \<Longrightarrow> expr_level e \<le> n \<Longrightarrow> reads ops n (CExpr_fmt e) (bracketed_expr e)"
  using tree_reads [OF nested_fits] bracketed_text by simp

lemma expr_type_bracketed: "nested ops e \<Longrightarrow> expr_type pb env (bracketed_expr e) = expr_type pb env e"
  by (induction ops e rule: nested.induct) auto

lemma eval_bracketed: "nested ops e \<Longrightarrow> eval pb env (bracketed_expr e) = eval pb env e"
proof (induction ops e rule: nested.induct)
  case (7 ops c a b)
  then show ?case using expr_type_bracketed [of ops _ pb env] by (simp cong: if_cong)
qed (auto cong: if_cong)

section \<open>Printed assignments\<close>

text \<open>The tree of a printed assignment to a name.\<close>

definition reads_assign :: "string set \<Rightarrow> CStmt \<Rightarrow> CStmt \<Rightarrow> bool" where
  "reads_assign ops s s' =
     (case (s, s') of
        (Assign (Var x) e, Assign (Var y) e') \<Rightarrow> c_identifier x \<and> x = y \<and> reads ops 13 (CExpr_fmt e) e'
      | _ \<Rightarrow> False)"

lemma nested_assign:
  "nested ops e \<Longrightarrow> c_identifier x \<Longrightarrow>
    reads_assign ops (Assign (Var x) e) (Assign (Var x) (bracketed_expr e))"
  by (simp add: reads_assign_def printed_reads expr_level_le)

end
