(* ===== verification/BuilderSem.thy ===== *)
theory BuilderSem
  imports BuilderOps CGrammar
begin

text \<open>
  The C code the builder prints for an integer operation computes the operation. Operands are
  the bit patterns of LLVM integers: an environment gives each operand text a C value, whose
  type may be wider than the operand's (a literal is 64 bits wide), and whose low bits are the
  pattern. Where the C code reads more than the low bits, the value itself is required to be
  the signed or unsigned reading.
\<close>

section \<open>Types of kinds\<close>

definition kind_ctype :: "nat \<Rightarrow> CTypeKind \<Rightarrow> ctype option" where
  "kind_ctype pb k =
     (case k of TBool \<Rightarrow> Some CBoolT
      | TInt n s \<Rightarrow> Some (if n = 1 then CBoolT else CIntT (c_bits n) s)
      | TPtrWidth s \<Rightarrow> Some (CIntT pb s) | _ \<Rightarrow> None)"

lemma c_bits_cases: "c_bits n \<in> {8, 16, 32, 64, 128}"
  by (simp add: c_bits_def)

lemma int_type_names:
  assumes "w \<in> {8, 16, 32, 64, 128}"
  shows "type_name pb (''int'' @ nat_str w @ ''_t'') = Some (CIntT w True)"
    "type_name pb (''uint'' @ nat_str w @ ''_t'') = Some (CIntT w False)"
  using assms
  by (elim insertE emptyE; simp add: type_name_def int_types_def nat_str.simps digit_def)+

lemma other_type_names:
  "type_name pb ''_Bool'' = Some CBoolT"
  "type_name pb ''__rustc_isize'' = Some (CIntT pb True)"
  "type_name pb ''__rustc_usize'' = Some (CIntT pb False)"
  by (simp_all add: type_name_def int_types_def)

lemma type_name_of_kind:
  assumes "kind_of cx t = Some k" "render_type cx t = Some s" "kind_ctype pb k = Some c"
  shows "type_name pb s = Some c"
proof (cases k)
  case (TInt n b)
  then have "(n = 1 \<and> s = ''_Bool'' \<and> c = CBoolT) \<or>
      (b \<and> s = ''int'' @ nat_str (c_bits n) @ ''_t'' \<and> c = CIntT (c_bits n) True) \<or>
      (\<not> b \<and> s = ''uint'' @ nat_str (c_bits n) @ ''_t'' \<and> c = CIntT (c_bits n) False)"
    using assms by (auto simp: kind_ctype_def kind_of_def render_type_def render_def split: if_splits)
  then show ?thesis
    using int_type_names [OF c_bits_cases [of n], of pb] other_type_names [of pb] by auto
next
  case (TPtrWidth b)
  then have "(b \<and> s = ''__rustc_isize'' \<or> \<not> b \<and> s = ''__rustc_usize'') \<and> c = CIntT pb b"
    using assms by (auto simp: kind_ctype_def kind_of_def render_type_def render_def split: if_splits)
  then show ?thesis using other_type_names [of pb] by auto
next
  case TBool
  then have "s = ''_Bool'' \<and> c = CBoolT"
    using assms by (auto simp: kind_ctype_def kind_of_def render_type_def render_def)
  then show ?thesis using other_type_names [of pb] by auto
qed (use assms in \<open>auto simp: kind_ctype_def\<close>)

lemma decl_of_kind:
  assumes "kind_of cx t = Some k" "render_type_decl cx t x = Some d" "kind_ctype pb k = Some c"
  shows "\<exists>s. render_type cx t = Some s \<and> d = s @ '' '' @ x"
  using assms
  by (cases k) (auto simp: kind_ctype_def kind_of_def render_type_decl_def render_decl_def
      render_type_def bind_Some_iff)

lemma find_map_of: "map_option snd (find (\<lambda>(x, y). x = s) xs) = map_of xs s"
  by (induction xs) auto

lemma declared_type_single: "declared_type pb [s @ '' '' @ x @ '';''] x = type_name pb s"
  by (simp add: declared_type_def type_name_def find_map_of)

section \<open>Implementing an operation\<close>

text \<open>
  The operation \<open>m\<close> succeeds, adds declarations and statements to the current block and
  returns a new temporary; C reads the statements' texts as assignments, the texts of values
  being operands, and wherever \<open>P env c\<close> holds, running what is read in \<open>env\<close> sets the
  temporary to \<open>c\<close> and changes no other variable.
\<close>

definition operand_texts :: "CodegenCx \<Rightarrow> string set" where
  "operand_texts cx = {s. \<exists>v. render_value cx v = Some s}"

lemma operand_text [intro]: "render_value cx v = Some s \<Longrightarrow> s \<in> operand_texts cx"
  by (auto simp: operand_texts_def)

definition implements ::
  "Builder \<Rightarrow> CodegenCx \<Rightarrow> (ValueRef \<times> CodegenCx) option \<Rightarrow> (cenv \<Rightarrow> cval \<Rightarrow> bool) \<Rightarrow> bool" where
  "implements b cx m P =
     (\<exists>r cx' n i ds ss ss'. m = Some (r, cx') \<and> reach b (appends b ds ss) n cx cx' \<and> fresh_temp cx i \<and>
        render_value cx' r = Some (temp_name i) \<and>
        list_all2 (reads_assign (operand_texts cx)) ss ss' \<and>
        (\<forall>env c. P env c \<longrightarrow>
           exec_stmts (pointer_bits cx) ds ss' env = Some (env(temp_name i \<mapsto> c))))"

lemma temp_name_identifier: "c_identifier (temp_name i)"
proof -
  have d: "list_all ident_char (nat_str i)"
    using nat_str_digits [of _ i] by (auto simp: list_all_iff ident_char_def)
  then have "list_all ident_char (temp_name i)"
    by (simp add: temp_name_def ident_char_def)
  then show ?thesis
    by (auto simp: c_identifier_def temp_name_def int_type_name_def int_types_def digit_val_def)
qed

text \<open>An assignment whose right-hand side C reads as the tree \<open>e'\<close>.\<close>

lemma reads_implements:
  assumes a: "assigns b n ty e cx v cx'" and k': "kind_of cx' ty = Some k"
    and c: "kind_ctype (pointer_bits cx) k = Some c"
    and rd: "reads (operand_texts cx) 13 (CExpr_fmt e) e'"
    and P: "\<And>env d. P env d \<Longrightarrow>
      \<exists>s x. eval (pointer_bits cx) env e' = Some (s, x) \<and> d = (c, wrap c x)"
  shows "implements b cx (Some (v, cx')) P"
proof -
  from a obtain i d where fr: "fresh_temp cx i"
    and g: "vs_get (cx_values cx') v = Some \<lparr>v_kind = Temp i, v_ty = ty\<rparr>"
    and d: "render_type_decl cx' ty (temp_name i) = Some d"
    and r: "reach b (appends b [d @ '';''] [Assign (Var (temp_name i)) e]) n cx cx'"
    by (auto simp: assigns_def)
  obtain s where s: "render_type cx' ty = Some s" "d = s @ '' '' @ temp_name i"
    using decl_of_kind [OF k' d c] by blast
  have dt: "declared_type (pointer_bits cx) [d @ '';''] (temp_name i) = Some c"
    using declared_type_single type_name_of_kind [OF k' s(1) c] by (simp add: s(2))
  have "reads_assign (operand_texts cx) (Assign (Var (temp_name i)) e) (Assign (Var (temp_name i)) e')"
    using rd temp_name_identifier by (simp add: reads_assign_def)
  then show ?thesis
    unfolding implements_def
    by (intro exI [of _ v] exI [of _ cx'] exI [of _ n] exI [of _ i] exI [of _ "[d @ '';'']"]
        exI [of _ "[Assign (Var (temp_name i)) e]"] exI [of _ "[Assign (Var (temp_name i)) e']"])
      (use fr r temp_text [OF g] dt P in fastforce)
qed

lemma assigns_implements:
  assumes a: "assigns b n ty e cx v cx'" and k': "kind_of cx' ty = Some k"
    and c: "kind_ctype (pointer_bits cx) k = Some c"
    and P: "\<And>env d. P env d \<Longrightarrow>
      \<exists>s x. eval (pointer_bits cx) env e = Some (s, x) \<and> d = (c, wrap c x)"
    and ne: "nested (operand_texts cx) e"
  shows "implements b cx (Some (v, cx')) P"
  by (rule reads_implements [OF a k' c printed_reads [OF ne expr_level_le]])
    (use P eval_bracketed [OF ne] in auto)

lemma assigns_kind: "assigns b n ty e cx v cx' \<Longrightarrow> kind_of cx t = Some k \<Longrightarrow> kind_of cx' t = Some k"
  by (auto simp: assigns_def dest: reach_kind)

lemma assigns_type_text:
  "assigns b n ty e cx v cx' \<Longrightarrow> render_type cx t = Some s \<Longrightarrow> render_type cx' t = Some s"
  by (auto simp: assigns_def dest: reach_type_text)

lemma pointer_bits_reach: "reach b g n cx cx' \<Longrightarrow> pointer_bits cx' = pointer_bits cx"
  by (simp add: reach_def keeps_def)

section \<open>Operands\<close>

text \<open>The low \<open>w\<close> bits of the operand are \<open>x\<close>; its value is \<open>x\<close>, read as unsigned or signed.\<close>

definition low_bits :: "cenv \<Rightarrow> string \<Rightarrow> nat \<Rightarrow> int \<Rightarrow> ctype \<Rightarrow> bool" where
  "low_bits env l w x t = (\<exists>v. env l = Some (t, v) \<and> ctype_ok t \<and> take_bit w v = x)"

definition unsigned_value :: "cenv \<Rightarrow> string \<Rightarrow> nat \<Rightarrow> int \<Rightarrow> bool" where
  "unsigned_value env l w x =
     (\<exists>n. env l = Some (CIntT n False, x) \<and> w \<le> n \<and> take_bit w x = x)"

definition signed_value :: "cenv \<Rightarrow> string \<Rightarrow> nat \<Rightarrow> int \<Rightarrow> bool" where
  "signed_value env l w x =
     (\<exists>n. env l = Some (CIntT n True, x) \<and> w \<le> n \<and> signed_take_bit (w - 1) x = x)"

text \<open>A shift amount below the width.\<close>

definition shift_amount :: "cenv \<Rightarrow> string \<Rightarrow> nat \<Rightarrow> nat \<Rightarrow> bool" where
  "shift_amount env r w n = (\<exists>t. env r = Some (t, int n) \<and> n < w)"

section \<open>Wrapping arithmetic\<close>

lemma binop_implements:
  assumes wf: "cx_wf cx" "room 1 cx" and ty: "type_of_value cx lhs = Some ty" "kind_of cx ty = Some k"
    and tx: "render_value cx lhs = Some l" "render_value cx rhs = Some r"
    and c: "kind_ctype (pointer_bits cx) k = Some (CIntT w s)" and w: "0 < w"
    and op: "wrapping op"
  shows "implements b cx (binop b op lhs rhs cx)
    (\<lambda>env d. \<exists>x y t u. low_bits env l w x t \<and> low_bits env r w y u \<and>
       w \<le> ctype_bits (arith_type t u) \<and> d = (CIntT w s, wrap (CIntT w s) (wrap_op op x y)))"
    (is "implements b cx _ ?P")
proof -
  from binop_ok [OF wf ty(1) tx, of b op] obtain v cx' where
    b: "binop b op lhs rhs cx = Some (v, cx')"
    and a: "assigns b 1 ty (BinOp (Var l) op (Var r)) cx v cx'" by blast
  have "\<exists>s' x. eval (pointer_bits cx) env (BinOp (Var l) op (Var r)) = Some (s', x) \<and>
      d = (CIntT w s, wrap (CIntT w s) x)" if "?P env d" for env d
  proof -
    from that obtain x y t u x' y' where e: "env l = Some (t, x')" "env r = Some (u, y')"
      and ok: "ctype_ok t" "ctype_ok u" and bits: "w \<le> ctype_bits (arith_type t u)"
      and xy: "take_bit w x' = x" "take_bit w y' = y"
      and d: "d = (CIntT w s, wrap (CIntT w s) (wrap_op op x y))" by (auto simp: low_bits_def)
    from bin_wrapping [OF op ok bits, of x' y'] obtain u' v where
      bv: "bin op (t, x') (u, y') = Some (u', v)" "take_bit w v = take_bit w (wrap_op op x' y')" by blast
    have "take_bit w (wrap_op op x y) = take_bit w v"
      unfolding bv(2) using op by (rule take_bit_wrap_op) (auto simp: xy [symmetric])
    then have "wrap (CIntT w s) (wrap_op op x y) = wrap (CIntT w s) v"
      using w by (intro wrap_take_bit [of w]) auto
    then show ?thesis using op e bv(1) d by (auto simp: wrapping_def)
  qed
  then show ?thesis unfolding b
    by (rule assigns_implements [OF a assigns_kind [OF a ty(2)] c])
      (use tx in \<open>auto intro: type_name_int\<close>)
qed

section \<open>Division\<close>

lemma kind_ctype_signed:
  "kind_ctype pb k = Some (CIntT w True) \<Longrightarrow>
   \<exists>uk. unsigned_kind k = Some uk \<and> kind_ctype pb uk = Some (CIntT w False)"
  by (cases k) (auto simp: kind_ctype_def split: if_splits)

lemma kind_ctype_unsigned: "kind_ctype pb k = Some (CIntT w False) \<Longrightarrow> unsigned_kind k = None"
  by (cases k) (auto simp: kind_ctype_def split: if_splits)

text \<open>
  What an operand of an unsigned operation must be: its low bits are enough where the code
  casts, which it does for signed types.
\<close>

definition unsigned_operand :: "cenv \<Rightarrow> string \<Rightarrow> nat \<Rightarrow> bool \<Rightarrow> int \<Rightarrow> bool" where
  "unsigned_operand env l w s x =
     (if s then \<exists>t. low_bits env l w x t else unsigned_value env l w x)"

definition unsigned_div :: "CBinOp \<Rightarrow> int \<Rightarrow> int \<Rightarrow> int" where
  "unsigned_div op x y = (if op = Div then x div y else x mod y)"

lemma unsigned_div_implements:
  assumes wf: "cx_wf cx" "room 2 cx" and ty: "type_of_value cx lhs = Some ty" "kind_of cx ty = Some k"
    and tx: "render_value cx lhs = Some l" "render_value cx rhs = Some r"
    and c: "kind_ctype (pointer_bits cx) k = Some (CIntT w s)" and op: "op \<in> {Div, Rem}"
  shows "implements b cx (unsigned_binop b op lhs rhs cx)
    (\<lambda>env d. \<exists>x y. unsigned_operand env l w s x \<and> unsigned_operand env r w s y \<and> y \<noteq> 0 \<and>
       d = (CIntT w s, wrap (CIntT w s) (unsigned_div op x y)))"
    (is "implements b cx _ ?P")
proof -
  let ?pb = "pointer_bits cx"
  have udiv: "\<exists>t. bin op (CIntT m False, x) (CIntT n False, y) = Some (t, unsigned_div op x y)"
    if "take_bit w x = x" "take_bit w y = y" "w \<le> m" "w \<le> n" "y \<noteq> 0" for m n x y
    using bin_udiv [OF that] op by (auto simp: unsigned_div_def)
  from unsigned_binop_ok [OF wf ty tx, of b op] obtain v cx' where
    m: "unsigned_binop b op lhs rhs cx = Some (v, cx')"
    and a: "case unsigned_kind k of
       None \<Rightarrow> assigns b 2 ty (BinOp (Var l) op (Var r)) cx v cx'
     | Some uk \<Rightarrow> \<exists>u ut t. kind_of cx' u = Some uk \<and> render_type cx' u = Some ut \<and>
         render_type cx ty = Some t \<and>
         assigns b 2 ty (Cast t (Paren (BinOp (Cast ut (Var l)) op (Cast ut (Var r))))) cx v cx'"
    by blast
  show ?thesis
  proof (cases s)
    case True
    then obtain uk where uk: "unsigned_kind k = Some uk" "kind_ctype ?pb uk = Some (CIntT w False)"
      using kind_ctype_signed [of ?pb k w] c True by auto
    with a obtain u ut t where ut: "kind_of cx' u = Some uk" "render_type cx' u = Some ut"
      and t: "render_type cx ty = Some t"
      and as: "assigns b 2 ty (Cast t (Paren (BinOp (Cast ut (Var l)) op (Cast ut (Var r))))) cx v cx'"
      by auto
    have tn: "type_name ?pb ut = Some (CIntT w False)" "type_name ?pb t = Some (CIntT w s)"
      by (rule type_name_of_kind [OF ut uk(2)], rule type_name_of_kind [OF ty(2) t c])
    have "\<exists>s' x. eval ?pb env (Cast t (Paren (BinOp (Cast ut (Var l)) op (Cast ut (Var r))))) = Some (s', x) \<and>
        d = (CIntT w s, wrap (CIntT w s) x)" if "?P env d" for env d
    proof -
      from that True obtain x' y' x y t1 t2 where e: "env l = Some (t1, x')" "env r = Some (t2, y')"
        and xy: "take_bit w x' = x" "take_bit w y' = y" "y \<noteq> 0"
        and d: "d = (CIntT w s, wrap (CIntT w s) (unsigned_div op x y))"
        by (auto simp: unsigned_operand_def low_bits_def)
      from udiv [of x y w w] xy obtain t' where
        b: "bin op (CIntT w False, x) (CIntT w False, y) = Some (t', unsigned_div op x y)" by auto
      show ?thesis using e xy tn op b d by (auto simp: wrap_wrap)
    qed
    then show ?thesis unfolding m
      by (rule assigns_implements [OF as assigns_kind [OF as ty(2)] c])
        (use tx tn in \<open>auto intro: type_name_int\<close>)
  next
    case False
    then have "unsigned_kind k = None" using kind_ctype_unsigned c by auto
    then have as: "assigns b 2 ty (BinOp (Var l) op (Var r)) cx v cx'" using a by simp
    have "\<exists>s' x. eval ?pb env (BinOp (Var l) op (Var r)) = Some (s', x) \<and>
        d = (CIntT w s, wrap (CIntT w s) x)" if "?P env d" for env d
    proof -
      from that False obtain m n x y where e: "env l = Some (CIntT m False, x)" "env r = Some (CIntT n False, y)"
        and xy: "w \<le> m" "w \<le> n" "take_bit w x = x" "take_bit w y = y" "y \<noteq> 0"
        and d: "d = (CIntT w s, wrap (CIntT w s) (unsigned_div op x y))"
        by (auto simp: unsigned_operand_def unsigned_value_def)
      from udiv [OF xy(3,4,1,2,5)] obtain t' where
        b: "bin op (CIntT m False, x) (CIntT n False, y) = Some (t', unsigned_div op x y)" by auto
      show ?thesis using e op b d by auto
    qed
    then show ?thesis unfolding m
      by (rule assigns_implements [OF as assigns_kind [OF as ty(2)] c])
        (use tx in \<open>auto intro: type_name_int\<close>)
  qed
qed

definition signed_div :: "CBinOp \<Rightarrow> int \<Rightarrow> int \<Rightarrow> int" where
  "signed_div op x y = (if op = Div then x sdiv y else x smod y)"

lemma signed_div_implements:
  assumes wf: "cx_wf cx" "room 1 cx" and ty: "type_of_value cx lhs = Some ty" "kind_of cx ty = Some k"
    and tx: "render_value cx lhs = Some l" "render_value cx rhs = Some r"
    and c: "kind_ctype (pointer_bits cx) k = Some (CIntT w True)" and op: "op \<in> {Div, Rem}"
  shows "implements b cx (binop b op lhs rhs cx)
    (\<lambda>env d. \<exists>x y. signed_value env l w x \<and> signed_value env r w y \<and> y \<noteq> 0 \<and>
       (x \<noteq> - (2 ^ (w - 1)) \<or> y \<noteq> -1) \<and>
       d = (CIntT w True, wrap (CIntT w True) (signed_div op x y)))"
    (is "implements b cx _ ?P")
proof -
  let ?pb = "pointer_bits cx"
  from binop_ok [OF wf ty(1) tx, of b op] obtain v cx' where
    m: "binop b op lhs rhs cx = Some (v, cx')"
    and as: "assigns b 1 ty (BinOp (Var l) op (Var r)) cx v cx'" by blast
  have "\<exists>s' x. eval ?pb env (BinOp (Var l) op (Var r)) = Some (s', x) \<and>
      d = (CIntT w True, wrap (CIntT w True) x)" if "?P env d" for env d
  proof -
    from that obtain i j x y where e: "env l = Some (CIntT i True, x)" "env r = Some (CIntT j True, y)"
      and ij: "w \<le> i" "w \<le> j" and xy: "signed_take_bit (w - 1) x = x" "signed_take_bit (w - 1) y = y"
      and y: "y \<noteq> 0" and o: "x \<noteq> - (2 ^ (w - 1)) \<or> y \<noteq> -1"
      and d: "d = (CIntT w True, wrap (CIntT w True) (signed_div op x y))"
      by (auto simp: signed_value_def)
    show ?thesis
      using e y op d wrap_arith_signed [OF xy(1) ij] wrap_arith_signed [OF xy(2) ij]
        wrap_arith_signed [OF sdiv_range [OF xy(1) o] ij]
      by (auto simp: bin_def arith_def Let_def signed_div_def)
  qed
  then show ?thesis unfolding m
    by (rule assigns_implements [OF as assigns_kind [OF as ty(2)] c])
      (use tx in \<open>auto intro: type_name_int\<close>)
qed

end
