(* ===== verification/Emission.thy ===== *)
theory Emission
  imports Context
begin

text \<open>
  The end of a codegen unit (\<open>module_codegen\<close> in \<open>lib.rs\<close>): every open function is rendered
  into the module, the stores move into it, and the module is serialised. In a well-formed
  context none of these steps can fail.
\<close>

definition finish_unit :: "CodegenCx \<Rightarrow> CModule option" where
  "finish_unit cx =
     do { m \<leftarrow> finalize_open_functions (cx_types cx) (cx_module cx);
          Some (m\<lparr>m_types := cx_types cx, m_values := cx_values cx\<rparr>) }"

section \<open>Rendering a function\<close>

lemma enumerate_member: "p \<in> set (enumerate n xs) \<Longrightarrow> snd p \<in> set xs"
  using nth_mem [of "fst p - n" xs] by (auto simp: in_set_enumerate_eq)

lemma FunctionDef_render_total:
  assumes wf: "ts_wf ts" and f: "fn_typed ts f" shows "\<exists>s. FunctionDef_render f ts = Some s"
proof -
  have "\<exists>ps. opt_map (param_text f ts) (enumerate 0 (fd_params f)) = Some ps"
  proof (rule opt_map_total)
    fix p assume p: "p \<in> set (enumerate 0 (fd_params f))"
    obtain i ty name where e: "p = (i, ty, name)" by (cases p)
    then have "(ty, name) \<in> set (fd_params f)" using enumerate_member [OF p] by simp
    then have "ts_valid ts ty" using f by (auto simp: fn_typed_def)
    then show "\<exists>y. param_text f ts p = Some y"
      using render_decl_total [OF wf] by (auto simp: param_text_def e split: option.split)
  qed
  moreover have "\<exists>r. render ts (fd_return_type f) = Some r"
    using f by (intro render_total wf) (simp add: fn_typed_def)
  ultimately show ?thesis by (auto simp: FunctionDef_render_def)
qed

text \<open>The texts of the open functions, in the order of their names.\<close>

definition open_texts :: "TypeStore \<Rightarrow> CModule \<Rightarrow> string option list" where
  "open_texts ts m = map (\<lambda>e. FunctionDef_render (snd e) ts) (open_functions m)"

lemma bt_remove_head: "bt_inv ((k, v) # m) \<Longrightarrow> bt_remove k ((k, v) # m) = m"
  by (auto simp: bt_inv_def bt_remove_def intro!: filter_True)

lemma finalize_names_all:
  assumes wf: "ts_wf ts" and inv: "bt_inv (open_functions m)"
    and ok: "\<forall>(n, f) \<in> set (open_functions m). fn_typed ts f"
  shows "\<exists>m' ds. finalize_names (map fst (open_functions m)) ts m = Some m' \<and>
    m' = m\<lparr>open_functions := [], function_defs := function_defs m @ ds\<rparr> \<and>
    map Some ds = open_texts ts m"
  using inv ok
proof (induction "open_functions m" arbitrary: m)
  case Nil
  then show ?case by (auto simp: open_texts_def intro!: exI [of _ "[]"])
next
  case (Cons e es)
  obtain n f where e: "e = (n, f)" by (cases e)
  have op: "open_functions m = (n, f) # es" using Cons.hyps(2) e by simp
  obtain d where d: "FunctionDef_render f ts = Some d"
    using FunctionDef_render_total [OF wf, of f] Cons.prems(2) op by auto
  let ?m = "m\<lparr>open_functions := es, function_defs := function_defs m @ [d]\<rparr>"
  have rest: "bt_remove n (open_functions m) = es"
    using Cons.prems(1) bt_remove_head [of n f es] by (simp add: op)
  have g: "bt_get (open_functions m) n = Some f" by (simp add: op bt_get_def)
  have step: "finalize_function n ts m = Some ?m"
    using d rest by (simp add: finalize_function_def g)
  have "bt_inv es" using Cons.prems(1) by (auto simp: op bt_inv_def)
  then obtain m' ds where "finalize_names (map fst es) ts ?m = Some m'"
    "m' = ?m\<lparr>open_functions := [], function_defs := function_defs ?m @ ds\<rparr>"
    "map Some ds = open_texts ts ?m"
    using Cons.hyps(1) [of ?m] Cons.prems(2) op by auto
  then show ?case
    using step d by (auto simp: op open_texts_def intro!: exI [of _ "d # ds"])
qed

lemma render_struct_defs_total:
  assumes wf: "ts_wf ts" shows "\<exists>ds. render_struct_defs ts = Some ds"
proof -
  have "\<exists>ds. opt_map (\<lambda>(i, k). struct_def_of ts i k) (enumerate 0 (ts_types ts)) = Some ds"
  proof (rule opt_map_total)
    fix p assume p: "p \<in> set (enumerate 0 (ts_types ts))"
    obtain i k where e: "p = (i, k)" by (cases p)
    then have i: "i < length (ts_types ts)" "ts_types ts ! i = k"
      using p by (auto simp: in_set_enumerate_eq)
    have refs: "ts_valid ts c" if "c \<in> set (kind_refs k)" for c
      using wf i that by (fastforce simp: ts_wf_def)
    show "\<exists>y. (\<lambda>(i, k). struct_def_of ts i k) p = Some y"
    proof (cases k)
      case (TStruct fs pk nm)
      have "\<exists>ss. opt_map (\<lambda>(j, f). do { d \<leftarrow> render_decl ts f (''f'' @ nat_str j);
          Some (''  '' @ d @ '';'') }) (enumerate 0 fs) = Some ss"
      proof (rule opt_map_total)
        fix q assume "q \<in> set (enumerate 0 fs)"
        then have "snd q \<in> set fs" by (rule enumerate_member)
        then obtain j f where q: "q = (j, f)" "f \<in> set fs" by (cases q) auto
        then obtain d where "render_decl ts f (''f'' @ nat_str j) = Some d"
          using render_decl_total [OF wf refs, of f] TStruct by fastforce
        then show "\<exists>y. (\<lambda>(j, f). do { d \<leftarrow> render_decl ts f (''f'' @ nat_str j);
            Some (''  '' @ d @ '';'') }) q = Some y"
          using q by simp
      qed
      then show ?thesis using TStruct by (cases nm) (auto simp: e struct_def_of_def)
    next
      case (TVector el len)
      then have v: "ts_valid ts el" using refs by simp
      obtain ek where "ts_get ts el = Some ek" using ts_valid_get [OF v] ..
      then show ?thesis using TVector render_total [OF wf v]
        by (cases ek) (auto simp: e struct_def_of_def)
    qed (auto simp: e struct_def_of_def)
  qed
  then show ?thesis by (auto simp: render_struct_defs_def)
qed

text \<open>A well-formed context always ends in a C file with the text of each open function.\<close>

lemma finish_unit_ok:
  assumes wf: "cx_wf cx"
  shows "\<exists>m ds. finish_unit cx = Some m \<and> open_functions m = [] \<and>
    function_defs m = function_defs (cx_module cx) @ ds \<and>
    map Some ds = open_texts (cx_types cx) (cx_module cx) \<and>
    (\<exists>s. to_c_source preamble m = Some s)"
proof -
  have ts: "ts_wf (cx_types cx)" and inv: "bt_inv (open_functions (cx_module cx))"
    and ok: "\<forall>(n, f) \<in> set (open_functions (cx_module cx)). fn_typed (cx_types cx) f"
    using wf by (auto simp: cx_wf_def)
  obtain defs where "render_struct_defs (cx_types cx) = Some defs"
    using render_struct_defs_total [OF ts] ..
  then show ?thesis
    using finalize_names_all [OF ts inv ok]
    by (fastforce simp: finish_unit_def finalize_open_functions_def to_c_source_def Let_def
        split: option.split)
qed

end
