(* ===== verification/Shims.thy ===== *)
theory Shims
  imports CModule
begin

text \<open>
  The allocator module (\<open>allocator.rs\<close>) and the target helpers it pulls in
  (\<open>builtins.rs\<close>). Both push complete C definitions. The compiler's symbol mangling and the
  texts of the included C files are arguments. The module is shown to hold one definition per
  allocator method, in order, and the outline-atomics helpers under pairwise distinct names
  between their guards.
\<close>

section \<open>Outline atomics\<close>

definition push_def :: "string \<Rightarrow> CModule \<Rightarrow> CModule" where
  "push_def def m = m\<lparr>function_defs := function_defs m @ [def]\<rparr>"

text \<open>The C type for a size; the other sizes are the \<open>unreachable!\<close> arm.\<close>

definition sized_type :: "nat \<Rightarrow> string option" where
  "sized_type sz =
     (if sz = 1 then Some ''uint8_t'' else if sz = 2 then Some ''uint16_t''
      else if sz = 4 then Some ''uint32_t'' else if sz = 8 then Some ''uint64_t'' else None)"

definition orders :: "string list" where
  "orders = [''relax'', ''acq'', ''rel'', ''acq_rel'']"

definition helper_name :: "string \<Rightarrow> nat \<Rightarrow> string \<Rightarrow> string" where
  "helper_name op sz order = ''__aarch64_'' @ op @ nat_str sz @ ''_'' @ order"

definition cas_text :: "string \<Rightarrow> string \<Rightarrow> string" where
  "cas_text ty fn_name =
     ''#pragma weak '' @ fn_name @ [nl]
     @ ty @ '' '' @ fn_name @ ''('' @ ty @ '' expected, '' @ ty @ '' desired, '' @ ty @ '' *ptr) {'' @ [nl]
     @ ''  return __sync_val_compare_and_swap(ptr, expected, desired);'' @ [nl]
     @ ''}'' @ [nl]"

definition swp_text :: "string \<Rightarrow> string \<Rightarrow> string" where
  "swp_text ty fn_name =
     ''#pragma weak '' @ fn_name @ [nl]
     @ ty @ '' '' @ fn_name @ ''('' @ ty @ '' val, '' @ ty @ '' *ptr) {'' @ [nl]
     @ ''  '' @ ty @ '' old;'' @ [nl]
     @ ''  do { old = *ptr; } while (!__sync_bool_compare_and_swap(ptr, old, val));'' @ [nl]
     @ ''  return old;'' @ [nl]
     @ ''}'' @ [nl]"

text \<open>The four read-modify-write loops differ in the builtin they call and its operand.\<close>

definition fetch_text :: "string \<Rightarrow> string \<Rightarrow> string \<Rightarrow> string \<Rightarrow> string" where
  "fetch_text builtin operand ty fn_name =
     ''#pragma weak '' @ fn_name @ [nl]
     @ ty @ '' '' @ fn_name @ ''('' @ ty @ '' val, '' @ ty @ '' *ptr) {'' @ [nl]
     @ ''  return '' @ builtin @ ''(ptr, '' @ operand @ '');'' @ [nl]
     @ ''}'' @ [nl]"

fun push_orders :: "(string \<Rightarrow> string) \<Rightarrow> string list \<Rightarrow> CModule \<Rightarrow> CModule" where
  "push_orders text [] m = m"
| "push_orders text (ord # ords) m = push_orders text ords (push_def (text ord) m)"

fun push_sizes :: "string \<Rightarrow> (string \<Rightarrow> string \<Rightarrow> string) \<Rightarrow> nat list \<Rightarrow> CModule \<Rightarrow> CModule option" where
  "push_sizes op text [] m = Some m"
| "push_sizes op text (sz # sizes) m =
     do { ty \<leftarrow> sized_type sz;
          push_sizes op text sizes
            (push_orders (\<lambda>order. text ty (helper_name op sz order)) orders m) }"

definition push_helpers :: "string \<Rightarrow> (string \<Rightarrow> string \<Rightarrow> string) \<Rightarrow> CModule \<Rightarrow> CModule option" where
  "push_helpers op text m = push_sizes op text [1, 2, 4, 8] m"

definition emit_aarch64_outline_atomics :: "CModule \<Rightarrow> CModule option" where
  "emit_aarch64_outline_atomics m =
     do { let m = push_def (''#ifdef __aarch64__'' @ [nl]) m;
          m \<leftarrow> push_helpers ''cas'' cas_text m;
          let m = push_orders (\<lambda>order. cas_text ''uint128_t'' (helper_name ''cas'' 16 order)) orders m;
          m \<leftarrow> push_helpers ''swp'' swp_text m;
          m \<leftarrow> push_helpers ''ldadd'' (fetch_text ''__sync_fetch_and_add'' ''val'') m;
          m \<leftarrow> push_helpers ''ldclr'' (fetch_text ''__sync_fetch_and_and'' ''~val'') m;
          m \<leftarrow> push_helpers ''ldeor'' (fetch_text ''__sync_fetch_and_xor'' ''val'') m;
          m \<leftarrow> push_helpers ''ldset'' (fetch_text ''__sync_fetch_and_or'' ''val'') m;
          Some (push_def (''#endif /* __aarch64__ */'' @ [nl]) m) }"

text \<open>The argument is the text of \<open>c/int128_division.c\<close>.\<close>

definition emit_int128_division :: "string \<Rightarrow> CModule \<Rightarrow> CModule" where
  "emit_int128_division int128_c m = push_def int128_c m"

section \<open>The allocator module\<close>

text \<open>
  The texts of the included C files, the compiler's \<open>mangle_internal_symbol\<close> and
  \<open>global_fn_name\<close>, and its name for the shim marker.
\<close>

record ShimEnv =
  aligned_alloc_c :: string
  int128_division_c :: string
  mangle_internal_symbol :: "string \<Rightarrow> string"
  global_fn_name :: "string \<Rightarrow> string"
  no_alloc_shim_is_unstable :: string

definition emit_aligned_alloc_helpers :: "ShimEnv \<Rightarrow> CModule \<Rightarrow> CModule" where
  "emit_aligned_alloc_helpers env m = push_def (aligned_alloc_c env) m"

definition emit_unwind_infrastructure :: "CModule \<Rightarrow> CModule" where
  "emit_unwind_infrastructure m =
     push_def (''_Thread_local struct __rustc_unwind_context *__rustc_unwind_chain;'' @ [nl]) m"

text \<open>\<open>emit_rust_try\<close>, which nothing calls; the argument is the text of \<open>c/rust_try.c\<close>.\<close>

definition emit_rust_try :: "string \<Rightarrow> CModule \<Rightarrow> CModule" where
  "emit_rust_try rust_try_c m = push_def rust_try_c m"

definition method_text :: "string \<Rightarrow> string \<Rightarrow> string" where
  "method_text meth name =
     (if meth = ''alloc'' then
        ''void *'' @ name @ ''(size_t size, size_t align) {'' @ [nl]
        @ ''  return __rustc_aligned_alloc(size, align);'' @ [nl]
        @ ''}'' @ [nl]
      else if meth = ''dealloc'' then
        ''void '' @ name @ ''(void *ptr, size_t size, size_t align) {'' @ [nl]
        @ ''  (void)size; (void)align;'' @ [nl]
        @ ''  __rustc_aligned_free(ptr);'' @ [nl]
        @ ''}'' @ [nl]
      else if meth = ''realloc'' then
        ''void *'' @ name @ ''(void *ptr, size_t old_size, size_t align, size_t new_size) {'' @ [nl]
        @ ''  void *new_ptr = __rustc_aligned_alloc(new_size, align);'' @ [nl]
        @ ''  if (!new_ptr) return (void *)0;'' @ [nl]
        @ ''  memcpy(new_ptr, ptr, old_size < new_size ? old_size : new_size);'' @ [nl]
        @ ''  __rustc_aligned_free(ptr);'' @ [nl]
        @ ''  return new_ptr;'' @ [nl]
        @ ''}'' @ [nl]
      else if meth = ''alloc_zeroed'' then
        ''void *'' @ name @ ''(size_t size, size_t align) {'' @ [nl]
        @ ''  void *ptr = __rustc_aligned_alloc(size, align);'' @ [nl]
        @ ''  if (ptr) memset(ptr, 0, size);'' @ [nl]
        @ ''  return ptr;'' @ [nl]
        @ ''}'' @ [nl]
      else if meth = ''alloc_error_handler'' then
        ''void '' @ name @ ''(size_t size, size_t align) {'' @ [nl]
        @ ''  abort();'' @ [nl]
        @ ''}'' @ [nl]
      else ''/* unknown allocator method: '' @ meth @ '' */'' @ [nl])"

fun push_methods :: "ShimEnv \<Rightarrow> string list \<Rightarrow> CModule \<Rightarrow> CModule" where
  "push_methods env [] m = m"
| "push_methods env (meth # methods) m =
     (let name = mangle_internal_symbol env (global_fn_name env meth) in
      push_methods env methods (push_def (method_text meth name) m))"

definition allocator_codegen :: "ShimEnv \<Rightarrow> string list \<Rightarrow> CModule \<Rightarrow> CModule option" where
  "allocator_codegen env methods m =
     do { let m = emit_aligned_alloc_helpers env m;
          let m = push_methods env methods m;
          let shim_name = mangle_internal_symbol env (no_alloc_shim_is_unstable env);
          let m = push_def (''void '' @ shim_name @ ''(void) {}'' @ [nl]) m;
          let m = emit_unwind_infrastructure m;
          m \<leftarrow> emit_aarch64_outline_atomics m;
          Some (emit_int128_division (int128_division_c env) m) }"

text \<open>\<open>codegen_allocator\<close> of \<open>lib.rs\<close>.\<close>

definition codegen_allocator :: "ShimEnv \<Rightarrow> string \<Rightarrow> string list \<Rightarrow> CModule option" where
  "codegen_allocator env module_name methods =
     allocator_codegen env methods (CModule_new module_name)"

section \<open>What the module holds\<close>

text \<open>A module extended by a list of definitions and otherwise unchanged.\<close>

definition with_defs :: "string list \<Rightarrow> CModule \<Rightarrow> CModule" where
  "with_defs ds m = m\<lparr>function_defs := function_defs m @ ds\<rparr>"

lemma with_defs_nil [simp]: "with_defs [] m = m"
  by (simp add: with_defs_def)

lemma with_defs_append [simp]: "with_defs es (with_defs ds m) = with_defs (ds @ es) m"
  by (simp add: with_defs_def)

lemma push_def_with [simp]: "push_def d m = with_defs [d] m"
  by (simp add: with_defs_def push_def_def)

lemma push_orders_with [simp]: "push_orders f ords m = with_defs (map f ords) m"
  by (induction f ords m rule: push_orders.induct) simp_all

lemma push_methods_with [simp]:
  "push_methods env methods m =
     with_defs (map (\<lambda>k. method_text k (mangle_internal_symbol env (global_fn_name env k))) methods) m"
  by (induction env methods m rule: push_methods.induct) (simp_all add: Let_def)

text \<open>The reference: every operation at every size with every memory order.\<close>

definition type_of_size :: "nat \<Rightarrow> string" where
  "type_of_size sz = ''uint'' @ nat_str (8 * sz) @ ''_t''"

definition helper_texts :: "string \<Rightarrow> (string \<Rightarrow> string \<Rightarrow> string) \<Rightarrow> nat list \<Rightarrow> string list" where
  "helper_texts op text sizes =
     [text (type_of_size sz) (helper_name op sz order). sz \<leftarrow> sizes, order \<leftarrow> orders]"

definition atomic_ops :: "(string \<times> (string \<Rightarrow> string \<Rightarrow> string) \<times> nat list) list" where
  "atomic_ops =
     [(''cas'', cas_text, [1, 2, 4, 8, 16]),
      (''swp'', swp_text, [1, 2, 4, 8]),
      (''ldadd'', fetch_text ''__sync_fetch_and_add'' ''val'', [1, 2, 4, 8]),
      (''ldclr'', fetch_text ''__sync_fetch_and_and'' ''~val'', [1, 2, 4, 8]),
      (''ldeor'', fetch_text ''__sync_fetch_and_xor'' ''val'', [1, 2, 4, 8]),
      (''ldset'', fetch_text ''__sync_fetch_and_or'' ''val'', [1, 2, 4, 8])]"

definition atomic_names :: "string list" where
  "atomic_names =
     [helper_name op sz order. (op, text, sizes) \<leftarrow> atomic_ops, sz \<leftarrow> sizes, order \<leftarrow> orders]"

lemma sized_type_reference:
  "sz \<in> {1, 2, 4, 8} \<Longrightarrow> sized_type sz = Some (type_of_size sz)"
  by (elim insertE) (simp_all add: sized_type_def type_of_size_def nat_str.simps digit_def)

lemma push_sizes_with:
  "set sizes \<subseteq> {1, 2, 4, 8} \<Longrightarrow>
   push_sizes op f sizes m = Some (with_defs (helper_texts op f sizes) m)"
  by (induction op f sizes m rule: push_sizes.induct)
     (auto simp: sized_type_reference helper_texts_def)

lemma push_helpers_with:
  "push_helpers op f m = Some (with_defs (helper_texts op f [1, 2, 4, 8]) m)"
  unfolding push_helpers_def by (rule push_sizes_with) simp

definition outline_texts :: "string list" where
  "outline_texts =
     [''#ifdef __aarch64__'' @ [nl]]
     @ concat (map (\<lambda>(op, text, sizes). helper_texts op text sizes) atomic_ops)
     @ [''#endif /* __aarch64__ */'' @ [nl]]"

lemma cas_texts:
  "helper_texts ''cas'' cas_text [1, 2, 4, 8, 16] =
     helper_texts ''cas'' cas_text [1, 2, 4, 8]
     @ map (\<lambda>order. cas_text ''uint128_t'' (helper_name ''cas'' 16 order)) orders"
  by (simp add: helper_texts_def type_of_size_def nat_str.simps digit_def)

lemma outline_atomics_with:
  "emit_aarch64_outline_atomics m = Some (with_defs outline_texts m)"
  by (simp add: emit_aarch64_outline_atomics_def push_helpers_with outline_texts_def
      atomic_ops_def cas_texts del: One_nat_def)

lemma atomic_names_distinct: "distinct atomic_names"
  by (simp add: atomic_names_def atomic_ops_def orders_def helper_name_def nat_str.simps digit_def)

text \<open>Every helper is declared weak and defined right below, under its own name.\<close>

definition allocator_texts :: "ShimEnv \<Rightarrow> string list \<Rightarrow> string list" where
  "allocator_texts env methods =
     aligned_alloc_c env
     # map (\<lambda>k. method_text k (mangle_internal_symbol env (global_fn_name env k))) methods
     @ (''void '' @ mangle_internal_symbol env (no_alloc_shim_is_unstable env) @ ''(void) {}'' @ [nl])
     # (''_Thread_local struct __rustc_unwind_context *__rustc_unwind_chain;'' @ [nl])
     # outline_texts @ [int128_division_c env]"

lemma allocator_codegen_with:
  "allocator_codegen env methods m = Some (with_defs (allocator_texts env methods) m)"
  by (simp add: allocator_codegen_def Let_def emit_aligned_alloc_helpers_def
      emit_unwind_infrastructure_def emit_int128_division_def outline_atomics_with allocator_texts_def)

end
