(* ===== verification/Writer.thy ===== *)
theory Writer
  imports Driver "HOL-Library.List_Lexorder"
begin

text \<open>
  Writing a module (\<open>write.rs\<close>): the compiler command line, the copies of the C sources and
  the makefile of the standalone build. Files and commands are recorded as effects in order;
  the environment, the file system's answers and the compiler's paths are arguments. The
  functions are shown to place the makefile where its sources are, to link each native
  library once, and to stop at the first error.
\<close>

section \<open>Paths\<close>

text \<open>A path by its components; \<open>p_abs\<close> for a leading root.\<close>

datatype path = Path (p_abs: bool) (p_comps: "string list")

definition path_parent :: "path \<Rightarrow> path option" where
  "path_parent p = (if p_comps p = [] then None else Some (Path (p_abs p) (butlast (p_comps p))))"

definition path_file_name :: "path \<Rightarrow> string option" where
  "path_file_name p =
     (if p_comps p = [] \<or> last (p_comps p) \<in> {''.'', ''..''} then None else Some (last (p_comps p)))"

definition path_join :: "path \<Rightarrow> string \<Rightarrow> path" where
  "path_join p name = Path (p_abs p) (p_comps p @ [name])"

definition path_empty :: "path \<Rightarrow> bool" where
  "path_empty p \<longleftrightarrow> \<not> p_abs p \<and> p_comps p = []"

definition path_text :: "path \<Rightarrow> string" where
  "path_text p = (if p_abs p then ''/'' else []) @ join ''/'' (p_comps p)"

section \<open>The environment\<close>

text \<open>
  \<open>RUSTC_CSOURCES_DIR\<close>, \<open>CC\<close>, the target's architecture, the output path without its
  extension, the temporary path for an extension and a unit, whether the source file can be
  written, and what the C compiler answers: not started, or its exit status.
\<close>

record WriteEnv =
  csources_dir_var :: "path option"
  cc_var :: "string option"
  we_target_arch :: string
  out_ref :: path
  temp_path_ext_for_cgu :: "string \<Rightarrow> string \<Rightarrow> path"
  write_succeeds :: "path \<Rightarrow> bool"
  run_command :: "string \<Rightarrow> string list \<Rightarrow> bool option"

datatype effect = WriteFile path string | CreateDirAll path | RunCommand string "string list"

datatype WriteError = SourceNotWritten | CompilerFailed | CompilerNotInvoked

record CompiledModule =
  cm_name :: string
  cm_kind :: ModuleKind
  cm_object :: "path option"

section \<open>Directories and names\<close>

definition resolve_out_dir :: "WriteEnv \<Rightarrow> path option" where
  "resolve_out_dir env =
     do { out_dir \<leftarrow> path_parent (out_ref env);
          Some (if path_file_name out_dir = Some ''deps''
                then (case path_parent out_dir of Some parent \<Rightarrow> parent | None \<Rightarrow> out_dir)
                else out_dir) }"

text \<open>\<open>char::is_alphanumeric\<close> for code points below 256.\<close>

definition is_alphanumeric :: "char \<Rightarrow> bool" where
  "is_alphanumeric c =
     (let n = (of_char c :: nat) in
      is_ascii_alphanumeric c \<or> n \<in> {170, 178, 179, 181, 185, 186, 188, 189, 190}
      \<or> (192 \<le> n \<and> n \<noteq> 215 \<and> n \<noteq> 247))"

definition safe_name :: "string \<Rightarrow> string" where
  "safe_name module_name =
     map (\<lambda>c. if \<not> is_alphanumeric c \<and> c \<noteq> CHR ''_'' \<and> c \<noteq> CHR ''-'' then CHR ''_'' else c) module_name"

definition emit_csource_artifact :: "WriteEnv \<Rightarrow> string \<Rightarrow> string \<Rightarrow> effect list" where
  "emit_csource_artifact env c_source module_name =
     (case (case csources_dir_var env of
              Some dir \<Rightarrow> Some dir
            | None \<Rightarrow> map_option (\<lambda>d. path_join d ''csources'') (resolve_out_dir env)) of
        None \<Rightarrow> []
      | Some csources_dir \<Rightarrow>
          [CreateDirAll csources_dir,
           WriteFile (path_join csources_dir (safe_name module_name @ ''.c'')) c_source])"

section \<open>Compiling a module\<close>

definition lowercase :: "char \<Rightarrow> char" where
  "lowercase c =
     (let n = (of_char c :: nat) in
      if (65 \<le> n \<and> n \<le> 90) \<or> (192 \<le> n \<and> n \<le> 222 \<and> n \<noteq> 215) then char_of (n + 32) else c)"

definition ends_with :: "string \<Rightarrow> string \<Rightarrow> bool" where
  "ends_with s suffix = (length suffix \<le> length s \<and> drop (length s - length suffix) s = suffix)"

definition wants_pic :: "string \<Rightarrow> bool" where
  "wants_pic cc =
     (let cc_lower = map lowercase cc in
      \<not> str_contains cc_lower ''cl.exe'' \<and> \<not> ends_with cc_lower (CHR 0x5C # ''cl''))"

definition cc_args :: "string \<Rightarrow> string \<Rightarrow> path \<Rightarrow> path \<Rightarrow> string list" where
  "cc_args cc target_arch c_path obj_path =
     [''-c'', ''-o'', path_text obj_path, path_text c_path, ''-std=c11'', ''-w'',
      ''-Werror=implicit-function-declaration'', ''-fwrapv'', ''-fno-strict-aliasing'',
      ''-funwind-tables'', ''-fno-stack-protector'', ''-ffunction-sections'', ''-fdata-sections'',
      ''-fno-optimize-sibling-calls'']
     @ (if wants_pic cc then [''-fPIC''] else [])
     @ (if target_arch = ''aarch64'' then [''-mno-outline-atomics''] else [])
     @ [''-O1'']"

definition write_codegen ::
  "WriteEnv \<Rightarrow> string \<Rightarrow> ModuleCodegen \<Rightarrow> ((WriteError + CompiledModule) \<times> effect list) option" where
  "write_codegen env preamble module =
     do { c_source \<leftarrow> to_c_source preamble (mc_module module);
          let c_path = temp_path_ext_for_cgu env ''c'' (mc_name module);
          let written = [WriteFile c_path c_source];
          Some (if \<not> write_succeeds env c_path then (Inl SourceNotWritten, written)
                else
                  (let obj_path = temp_path_ext_for_cgu env ''o'' (mc_name module);
                       cc = (case cc_var env of Some cc \<Rightarrow> cc | None \<Rightarrow> ''cc'');
                       args = cc_args cc (we_target_arch env) c_path obj_path;
                       ran = written @ [RunCommand cc args]
                   in case run_command env cc args of
                        None \<Rightarrow> (Inl CompilerNotInvoked, ran)
                      | Some False \<Rightarrow> (Inl CompilerFailed, ran)
                      | Some True \<Rightarrow>
                          (Inr \<lparr>cm_name = mc_name module, cm_kind = mc_kind module,
                                cm_object = Some obj_path\<rparr>,
                           ran @ emit_csource_artifact env c_source (mc_name module)))) }"

section \<open>The makefile\<close>

datatype NativeLibKind = NlDylib | NlOther

record NativeLib =
  nl_kind :: NativeLibKind
  nl_name :: string

definition IMPLICIT_LIBS :: "string list" where
  "IMPLICIT_LIBS = [''c'', ''gcc'', ''gcc_s'', ''gcc_eh'', ''compiler-rt'']"

text \<open>A \<open>BTreeSet\<close> of strings is the ordered map with no values.\<close>

definition insert_lib :: "NativeLib \<Rightarrow> (string, unit) btree \<Rightarrow> (string, unit) btree" where
  "insert_lib lib libs =
     (if nl_kind lib = NlDylib \<and> nl_name lib \<notin> set IMPLICIT_LIBS
      then bt_insert (nl_name lib) () libs else libs)"

definition native_libs :: "NativeLib list list \<Rightarrow> NativeLib list \<Rightarrow> string list" where
  "native_libs native_libraries used_libraries =
     (let libs = fold (\<lambda>ls s. fold insert_lib ls s) native_libraries [];
          libs = fold insert_lib used_libraries libs;
          libs = fold (\<lambda>name s. bt_insert name () s) [''pthread'', ''dl'', ''m''] libs
      in map fst libs)"

definition generate_makefile :: "string \<Rightarrow> string list \<Rightarrow> string" where
  "generate_makefile crate_name libs =
     (let tab = CHR 0x09; bs = CHR 0x5C;
          flags = concat (map (\<lambda>l. '' -l'' @ l) libs)
      in text_lines
        [''# Generated by rustc_codegen_c'',
         ''# Makefile for building from transpiled C sources'',
         [],
         ''CC ?= cc'',
         [],
         ''CFLAGS := -std=c11 -fwrapv -fno-strict-aliasing -funwind-tables '' @ [bs],
         ''          -fno-stack-protector -ffunction-sections -fdata-sections -fPIC -O1'',
         [],
         ''UNAME_S := $(shell uname -s)'',
         ''ifeq ($(UNAME_S),Darwin)'',
         ''  LDFLAGS := -Wl,-dead_strip'' @ flags,
         ''else'',
         ''  LDFLAGS := -Wl,--gc-sections -Wl,--allow-multiple-definition'' @ flags,
         ''endif'',
         [],
         ''SRCDIR := csources'',
         ''SRCS := $(wildcard $(SRCDIR)/*.c)'',
         ''OBJS := $(SRCS:.c=.o)'',
         ''OUTPUT := '' @ crate_name,
         ''TARBALL := csources.tar.gz'',
         [],
         ''.PHONY: build tarball clean'',
         [],
         ''build: $(OBJS)'',
         [tab] @ ''$(CC) $(OBJS) $(LDFLAGS) -o $(OUTPUT)'',
         [],
         ''tarball:'',
         [tab] @ ''tar czf $(TARBALL) Makefile $(SRCDIR)'',
         [],
         ''$(SRCDIR)/%.o: $(SRCDIR)/%.c'',
         [tab] @ ''$(CC) $(CFLAGS) -c -o $@ $<'',
         [],
         ''clean:'',
         [tab] @ ''rm -f $(OBJS) $(OUTPUT) $(TARBALL)''])"

definition makefile_dir :: "WriteEnv \<Rightarrow> path option" where
  "makefile_dir env =
     (case csources_dir_var env of
        Some dir \<Rightarrow>
          Some (case path_parent dir of
                  Some p \<Rightarrow> if path_empty p then Path False [''.''] else p
                | None \<Rightarrow> Path False [''.''])
      | None \<Rightarrow> resolve_out_dir env)"

text \<open>The argument \<open>stubs\<close> is the text \<open>native_stubs::generate\<close> includes.\<close>

definition emit_final_makefile ::
  "WriteEnv \<Rightarrow> string \<Rightarrow> NativeLib list list \<Rightarrow> NativeLib list \<Rightarrow> effect list" where
  "emit_final_makefile env stubs native_libraries used_libraries =
     (case makefile_dir env of
        None \<Rightarrow> []
      | Some out_dir \<Rightarrow>
          (let crate_name = (case path_file_name (out_ref env) of Some n \<Rightarrow> n | None \<Rightarrow> ''a.out'');
               libs = native_libs native_libraries used_libraries;
               csources_dir = (case csources_dir_var env of
                                 Some dir \<Rightarrow> dir | None \<Rightarrow> path_join out_dir ''csources'')
           in [WriteFile (path_join out_dir ''Makefile'') (generate_makefile crate_name libs),
               CreateDirAll csources_dir,
               WriteFile (path_join csources_dir ''native_stubs.c'') stubs]))"

section \<open>Native libraries\<close>

lemma fst_bt_insert: "set (map fst (bt_insert k v m)) = insert k (set (map fst m))"
  using set_keys_insert [of k v m] by simp

definition wanted_lib :: "NativeLib \<Rightarrow> bool" where
  "wanted_lib lib \<longleftrightarrow> nl_kind lib = NlDylib \<and> nl_name lib \<notin> set IMPLICIT_LIBS"

lemma insert_lib_keys:
  "fst ` set (insert_lib l s) = (if wanted_lib l then {nl_name l} else {}) \<union> fst ` set s"
  by (simp add: insert_lib_def wanted_lib_def set_keys_insert)

lemma insert_libs_keys:
  "fst ` set (fold insert_lib ls s) = nl_name ` {l \<in> set ls. wanted_lib l} \<union> fst ` set s"
proof (induction ls arbitrary: s)
  case (Cons l ls)
  have "{k \<in> set (l # ls). wanted_lib k} = (if wanted_lib l then {l} else {}) \<union> {k \<in> set ls. wanted_lib k}"
    by auto
  then show ?case by (simp add: Cons.IH insert_lib_keys)
qed simp

lemma insert_libs_inv: "bt_inv s \<Longrightarrow> bt_inv (fold insert_lib ls s)"
  by (induction ls arbitrary: s) (simp_all add: insert_lib_def)

lemma insert_all_inv: "bt_inv s \<Longrightarrow> bt_inv (fold (\<lambda>ls s. fold insert_lib ls s) lss s)"
  by (induction lss arbitrary: s) (simp_all add: insert_libs_inv)

lemma insert_all_keys:
  "fst ` set (fold (\<lambda>ls s. fold insert_lib ls s) lss s)
     = nl_name ` {l \<in> set (concat lss). wanted_lib l} \<union> fst ` set s"
proof (induction lss arbitrary: s)
  case (Cons ls lss)
  have "{k \<in> set (concat (ls # lss)). wanted_lib k}
      = {k \<in> set ls. wanted_lib k} \<union> {k \<in> set (concat lss). wanted_lib k}"
    by auto
  then show ?case by (simp only: fold_simps comp_def Cons.IH insert_libs_keys image_Un ac_simps)
qed simp

lemma native_libs_set:
  "set (native_libs lss used) =
     nl_name ` {l \<in> set (concat lss) \<union> set used. wanted_lib l} \<union> {''pthread'', ''dl'', ''m''}"
proof -
  have "{l \<in> set (concat lss) \<union> set used. wanted_lib l}
      = {l \<in> set (concat lss). wanted_lib l} \<union> {l \<in> set used. wanted_lib l}"
    by auto
  then have "nl_name ` {l \<in> set (concat lss) \<union> set used. wanted_lib l}
      = nl_name ` {l \<in> set (concat lss). wanted_lib l} \<union> nl_name ` {l \<in> set used. wanted_lib l}"
    by (simp only: image_Un)
  then show ?thesis
    unfolding native_libs_def Let_def set_map
    by (simp only: fold_simps set_keys_insert insert_libs_keys insert_all_keys) auto
qed

lemma native_libs_once: "distinct (native_libs lss used)" "sorted (native_libs lss used)"
proof -
  have "bt_inv (fold (\<lambda>name s. bt_insert name () s) [''pthread'', ''dl'', ''m'']
      (fold insert_lib used (fold (\<lambda>ls s. fold insert_lib ls s) lss [])))"
    by (simp add: insert_libs_inv insert_all_inv)
  then show "distinct (native_libs lss used)" "sorted (native_libs lss used)"
    unfolding bt_inv_def native_libs_def Let_def by simp_all
qed

section \<open>Where the sources are\<close>

definition writes_to :: "effect list \<Rightarrow> path set" where
  "writes_to es = {p. \<exists>t. WriteFile p t \<in> set es}"

text \<open>
  The makefile compiles \<open>csources/*.c\<close> next to it. Every file of a directory.
\<close>

definition in_dir :: "path \<Rightarrow> path \<Rightarrow> bool" where
  "in_dir d p \<longleftrightarrow> path_parent p = Some d"

lemma in_dir_join [simp]: "in_dir d (path_join d name)"
  by (cases d) (simp add: in_dir_def path_parent_def path_join_def)

lemma csource_dir_default:
  assumes "csources_dir_var env = None" "makefile_dir env = Some d"
  shows "writes_to (emit_csource_artifact env src name) = {path_join (path_join d ''csources'') (safe_name name @ ''.c'')}"
  using assms by (auto simp: writes_to_def emit_csource_artifact_def makefile_dir_def)

lemma csource_dir_var:
  assumes "csources_dir_var env = Some dir"
  shows "writes_to (emit_csource_artifact env src name) = {path_join dir (safe_name name @ ''.c'')}"
  using assms by (auto simp: writes_to_def emit_csource_artifact_def)

lemma safe_name_chars:
  "c \<in> set (safe_name n) \<Longrightarrow> is_alphanumeric c \<or> c = CHR ''_'' \<or> c = CHR ''-''"
  by (auto simp: safe_name_def)

text \<open>
  With the variable set to a directory of at least two components, the makefile finds the
  sources exactly when the directory is called \<open>csources\<close>.
\<close>

lemma makefile_finds_sources:
  assumes "csources_dir_var env = Some dir" "2 \<le> length (p_comps dir) \<or> p_abs dir" "p_comps dir \<noteq> []"
    and "makefile_dir env = Some d"
  shows "path_join d ''csources'' = dir \<longleftrightarrow> path_file_name dir = Some ''csources''"
proof -
  obtain a cs where dir: "dir = Path a cs" by (cases dir)
  have "butlast cs \<noteq> [] \<or> a" using assms(2) dir by (cases cs rule: rev_cases) auto
  then have d: "d = Path a (butlast cs)"
    using assms dir by (auto simp: makefile_dir_def path_parent_def path_empty_def)
  have "cs = butlast cs @ [last cs]" using assms(3) dir by simp
  then have "butlast cs @ [''csources''] = cs \<longleftrightarrow> last cs = ''csources''" by (metis last_snoc)
  then show ?thesis using assms(3) dir d by (auto simp: path_join_def path_file_name_def)
qed

section \<open>Errors\<close>

text \<open>What a failed step leaves behind: the source, and the command when it was reached.\<close>

definition cc_of :: "WriteEnv \<Rightarrow> string" where
  "cc_of env = (case cc_var env of Some cc \<Rightarrow> cc | None \<Rightarrow> ''cc'')"

definition args_of :: "WriteEnv \<Rightarrow> string \<Rightarrow> string list" where
  "args_of env name =
     cc_args (cc_of env) (we_target_arch env) (temp_path_ext_for_cgu env ''c'' name)
       (temp_path_ext_for_cgu env ''o'' name)"

lemma write_codegen_cases:
  fixes env :: WriteEnv
  assumes "to_c_source preamble (mc_module m) = Some src"
  defines "w \<equiv> WriteFile (temp_path_ext_for_cgu env ''c'' (mc_name m)) src"
    and "c \<equiv> RunCommand (cc_of env) (args_of env (mc_name m))"
  shows "write_codegen env preamble m = Some (
    if \<not> write_succeeds env (temp_path_ext_for_cgu env ''c'' (mc_name m)) then (Inl SourceNotWritten, [w])
    else case run_command env (cc_of env) (args_of env (mc_name m)) of
        None \<Rightarrow> (Inl CompilerNotInvoked, [w, c])
      | Some ok \<Rightarrow>
          if \<not> ok then (Inl CompilerFailed, [w, c])
          else (Inr \<lparr>cm_name = mc_name m, cm_kind = mc_kind m,
                     cm_object = Some (temp_path_ext_for_cgu env ''o'' (mc_name m))\<rparr>,
                [w, c] @ emit_csource_artifact env src (mc_name m)))"
  using assms(1) unfolding w_def c_def cc_of_def args_of_def
  by (auto simp: write_codegen_def Let_def split: option.splits bool.splits)

end
