(* ===== verification/SampleCalls.thy ===== *)
theory SampleCalls
  imports Sample StaticsSound BuilderSem Writer
begin

text \<open>
  Concrete arguments for the sample context: a destination, the operands and the instance of
  an intrinsic, a functional stand-in for the compiler's crates, the environment of the
  writer, and a compiler with one function and a static that points to data.
\<close>

definition sample_layout :: Layout where
  "sample_layout = Layout False TyOther BMemory 4 4 True 0 (\<lambda>_. None)"

definition sample_place :: Place where
  "sample_place = \<lparr>pl_llval = ValueRef 4, pl_align = 4, pl_layout = sample_layout\<rparr>"

definition sample_args :: "Operand list" where
  "sample_args = map OpImmediate [ValueRef 0, ValueRef 1, ValueRef 3, ValueRef 1]"

definition sample_inst :: "string \<Rightarrow> Instance" where
  "sample_inst name = \<lparr>i_name = name, i_type0 = sample_layout, i_int_bytes = 4, i_int_signed = True\<rparr>"

text \<open>The parts of the compiler's crates that memory operations call; here they do nothing.\<close>

definition sample_lib :: SsaLib where
  "sample_lib =
     \<lparr>ssa_ptradd = (\<lambda>b p off cx. Some (p, cx)), ssa_align_to = (\<lambda>a off. a),
      ssa_size_mul = (\<lambda>a n. Some (a * n)), ssa_store_operand = (\<lambda>b x d cx. Some cx),
      ssa_store_cast = (\<lambda>b c v p a cx. Some cx)\<rparr>"

lemma sample_immediates [simp]:
  "immediate_arg sample_args 0 = Some (ValueRef 0)" "immediate_arg sample_args 1 = Some (ValueRef 1)"
  "immediate_arg sample_args (Suc 0) = Some (ValueRef 1)"
  "immediate_arg sample_args 2 = Some (ValueRef 3)" "immediate_arg sample_args 3 = Some (ValueRef 1)"
  by (simp_all add: immediate_arg_def sample_args_def idx_def)

lemma sample_place_valid: "vval sample_cx (pl_llval sample_place)" "layout_ok sample_layout"
  by (simp_all add: sample_place_def sample_layout_def sample_values_list layout_ok_def)

lemma sample_width_one: "int_width sample_cx (TypeRef 1) = Some 32"
  by (simp add: int_width_def sample_lookup idx_def)

lemmas sample_width = sample_width_one sample_width_one [unfolded One_nat_def]

lemma sample_rooms [simp]:
  "room 1 sample_cx" "room (Suc 0) sample_cx" "room 2 sample_cx" "room 3 sample_cx" "room 4 sample_cx" "room 8 sample_cx"
  by (rule sample_room; simp)+

lemma sample_ctype: "kind_ctype 64 (TInt 32 True) = Some (CIntT 32 True)"
  by (simp add: kind_ctype_def c_bits_def)

text \<open>A file system and a C compiler that answers as given.\<close>

definition sample_write :: "bool option \<Rightarrow> WriteEnv" where
  "sample_write answer =
     \<lparr>csources_dir_var = None, cc_var = None, we_target_arch = ''aarch64'',
      out_ref = Path True [''target'', ''debug'', ''deps'', ''app''],
      temp_path_ext_for_cgu = (\<lambda>ext name. Path True [''tmp'', name @ ''.'' @ ext]),
      write_succeeds = (\<lambda>p. True), run_command = (\<lambda>cc args. answer)\<rparr>"

section \<open>A compiler\<close>

definition sample_int :: Layout where
  "sample_int =
     Layout False TyOther (BScalar \<lparr>sc_primitive = PInt 4 True, sc_is_bool = False, sc_size = 4, sc_align = 4\<rparr>)
       4 4 True 0 (\<lambda>_. None)"

definition sample_abi :: FnAbi where
  "sample_abi =
     \<lparr>fa_ret = \<lparr>arg_mode = PMDirect, arg_layout = sample_int\<rparr>,
      fa_args = [\<lparr>arg_mode = PMDirect, arg_layout = sample_int\<rparr>], fa_c_variadic = False\<rparr>"

text \<open>
  The static 0 is called \<open>S0\<close>: eight bytes and a pointer with addend 1 to the allocation 1,
  which holds two bytes.
\<close>

definition sample_data :: Allocation where
  "sample_data = \<lparr>al_bytes = [7, 9], al_ptrs = [], al_align = 1\<rparr>"

definition sample_alloc :: Allocation where
  "sample_alloc = \<lparr>al_bytes = [1, 2, 3, 4, 5, 6, 7, 8, 1, 0, 0, 0, 0, 0, 0, 0], al_ptrs = [(8, 1)], al_align = 16\<rparr>"

definition sample_tcx :: Tcx where
  "sample_tcx =
     \<lparr>symbol_name = (\<lambda>i. ''callee''), fn_abi_of_instance = (\<lambda>i. sample_abi),
      static_symbol_name = (\<lambda>i. ''S'' @ nat_str i),
      codegen_fn_attrs = (\<lambda>i. \<lparr>sa_import_linkage = None, sa_link_section = None, sa_alignment = None, sa_used = False\<rparr>),
      is_thread_local_static = (\<lambda>i. False), is_foreign_item = (\<lambda>i. False),
      eval_static_initializer = (\<lambda>i. Some sample_alloc), static_layout = (\<lambda>i. sample_int),
      global_alloc = (\<lambda>a. if a = 1 then GaMemory sample_data else GaTypeId)\<rparr>"

lemma sample_tcx_fields [simp]:
  "fn_abi_of_instance sample_tcx i = sample_abi" "symbol_name sample_tcx i = ''callee''"
  "eval_static_initializer sample_tcx i = Some sample_alloc" "static_symbol_name sample_tcx i = ''S'' @ nat_str i"
  "global_alloc sample_tcx 1 = GaMemory sample_data" "is_thread_local_static sample_tcx i = False"
  by (simp_all add: sample_tcx_def)

lemma sample_abi_ok: "abi_ok sample_abi" "abi_types sample_abi + 2 \<le> 1000"
  by (simp_all add: sample_abi_def abi_ok_def arg_ok_def sample_int_def layout_ok_def scalar_ok_def abi_types_def args_types_def)

lemma sample_nests: "nests (Suc (Suc 0)) 8 sample_tcx sample_alloc" "data_cost (Suc (Suc 0)) sample_tcx sample_alloc \<le> 1000"
  by (simp_all add: sample_alloc_def sample_data_def target_ok_def target_cost_def sample_tcx_def)

lemma sample_pointer_bytes: "pointer_bytes sample_cx = 8"
  by (simp add: pointer_bytes_def)

end
