(* ===== verification/BuilderSemOps.thy ===== *)
theory BuilderSemOps
  imports BuilderSem
begin

text \<open>
  The meaning of the remaining integer operations of the builder: shifts, negation,
  complement, width changes, comparison and the switch.
\<close>

section \<open>Shifts\<close>

lemma shift_bits: "0 < w \<Longrightarrow> w \<le> ctype_bits (promote (CIntT w s))"
  by simp

lemma shl_bits:
  assumes "0 < w" "take_bit w x' = x"
  shows "wrap (CIntT w s) (wrap (promote (CIntT w s)) (push_bit n (wrap (CIntT w s) x'))) =
    wrap (CIntT w s) (push_bit n x)"
proof (rule wrap_take_bit [of w])
  have *: "take_bit w (wrap t z) = take_bit w z" if "t = CIntT w s \<or> t = promote (CIntT w s)" for t z
    by (rule take_bit_wrap) (use assms(1) that in auto)
  have "take_bit w (push_bit n z) = take_bit w (push_bit n (take_bit w z))" for z :: int
    by (auto simp: take_bit_push_bit take_bit_take_bit min_def)
  then show "take_bit w (wrap (promote (CIntT w s)) (push_bit n (wrap (CIntT w s) x'))) =
      take_bit w (push_bit n x)"
    using * assms(2) by metis
qed (use assms in auto)

lemma shl_implements:
  assumes wf: "cx_wf cx" "room 1 cx" and ty: "type_of_value cx lhs = Some ty" "kind_of cx ty = Some k"
    and tx: "render_value cx lhs = Some l" "render_value cx rhs = Some r"
    and c: "kind_ctype (pointer_bits cx) k = Some (CIntT w s)" and w: "0 < w"
  shows "implements b cx (op_shl b lhs rhs cx)
    (\<lambda>env d. \<exists>x t n. low_bits env l w x t \<and> shift_amount env r w n \<and>
       d = (CIntT w s, wrap (CIntT w s) (push_bit n x)))"
    (is "implements b cx _ ?P")
proof -
  let ?pb = "pointer_bits cx"
  from shl_ok [OF wf ty(1) tx, of b] obtain v cx' t where
    m: "op_shl b lhs rhs cx = Some (v, cx')" and t: "render_type cx ty = Some t"
    and as: "assigns b 1 ty (BinOp (Cast t (Paren (Var l))) Shl (Paren (Var r))) cx v cx'" by blast
  have tn: "type_name ?pb t = Some (CIntT w s)" by (rule type_name_of_kind [OF ty(2) t c])
  have "\<exists>s' y. eval ?pb env (BinOp (Cast t (Paren (Var l))) Shl (Paren (Var r))) = Some (s', y) \<and>
      d = (CIntT w s, wrap (CIntT w s) y)" if "?P env d" for env d
    using that tn w shl_bits
    by (auto simp: low_bits_def shift_amount_def bin_def shift_def Let_def)
  then show ?thesis unfolding m
    by (rule assigns_implements [OF as assigns_kind [OF as ty(2)] c])
      (use tx tn in \<open>auto intro: type_name_int\<close>)
qed

lemma ashr_implements:
  assumes wf: "cx_wf cx" "room 1 cx" and ty: "type_of_value cx lhs = Some ty" "kind_of cx ty = Some k"
    and tx: "render_value cx lhs = Some l" "render_value cx rhs = Some r"
    and c: "kind_ctype (pointer_bits cx) k = Some (CIntT w s)" and w: "0 < w"
  shows "implements b cx (op_ashr b lhs rhs cx)
    (\<lambda>env d. \<exists>x t n. low_bits env l w x t \<and> shift_amount env r w n \<and>
       d = (CIntT w s, wrap (CIntT w s) (drop_bit n (wrap (CIntT w s) x))))"
    (is "implements b cx _ ?P")
proof -
  let ?pb = "pointer_bits cx"
  from ashr_ok [OF wf ty(1) tx, of b] obtain v cx' t where
    m: "op_ashr b lhs rhs cx = Some (v, cx')" and t: "render_type cx ty = Some t"
    and as: "assigns b 1 ty (BinOp (Cast t (Paren (Var l))) Shr (Paren (Var r))) cx v cx'" by blast
  have tn: "type_name ?pb t = Some (CIntT w s)" by (rule type_name_of_kind [OF ty(2) t c])
  have e: "wrap (CIntT w s) (take_bit w z) = wrap (CIntT w s) z" for z
    by (rule wrap_take_bit [of w]) (use w in auto)
  have "\<exists>s' y. eval ?pb env (BinOp (Cast t (Paren (Var l))) Shr (Paren (Var r))) = Some (s', y) \<and>
      d = (CIntT w s, wrap (CIntT w s) y)" if "?P env d" for env d
    using that tn w e
    by (auto simp: low_bits_def shift_amount_def bin_def shift_def Let_def)
  then show ?thesis unfolding m
    by (rule assigns_implements [OF as assigns_kind [OF as ty(2)] c])
      (use tx tn in \<open>auto intro: type_name_int\<close>)
qed

lemma lshr_implements:
  assumes wf: "cx_wf cx" "room 2 cx" and ty: "type_of_value cx lhs = Some ty" "kind_of cx ty = Some k"
    and tx: "render_value cx lhs = Some l" "render_value cx rhs = Some r"
    and c: "kind_ctype (pointer_bits cx) k = Some (CIntT w s)" and w: "0 < w"
  shows "implements b cx (op_lshr b lhs rhs cx)
    (\<lambda>env d. \<exists>x t n. low_bits env l w x t \<and> shift_amount env r w n \<and>
       d = (CIntT w s, wrap (CIntT w s) (drop_bit n x)))"
    (is "implements b cx _ ?P")
proof -
  let ?pb = "pointer_bits cx"
  from lshr_ok [OF wf ty tx, of b] obtain v cx' t where
    m: "op_lshr b lhs rhs cx = Some (v, cx')" and t: "render_type cx ty = Some t"
    and a: "case unsigned_kind k of
       None \<Rightarrow> assigns b 2 ty (BinOp (Cast t (Paren (Var l))) Shr (Paren (Var r))) cx v cx'
     | Some uk \<Rightarrow> \<exists>cx1 u ut. reach b id 1 cx cx1 \<and> kind_of cx1 u = Some uk \<and> render_type cx1 u = Some ut \<and>
         assigns b 2 ty (Cast t (Paren (BinOp (Cast ut (Paren (Var l))) Shr (Paren (Var r))))) cx v cx'"
    by blast
  have tn: "type_name ?pb t = Some (CIntT w s)" by (rule type_name_of_kind [OF ty(2) t c])
  show ?thesis
  proof (cases s)
    case True
    then obtain uk where uk: "unsigned_kind k = Some uk" "kind_ctype ?pb uk = Some (CIntT w False)"
      using kind_ctype_signed [of ?pb k w] c by auto
    with a obtain cx1 u ut where cx1: "reach b id 1 cx cx1" and ut: "kind_of cx1 u = Some uk" "render_type cx1 u = Some ut"
      and as: "assigns b 2 ty (Cast t (Paren (BinOp (Cast ut (Paren (Var l))) Shr (Paren (Var r))))) cx v cx'"
      by auto
    have un: "type_name ?pb ut = Some (CIntT w False)"
      by (rule type_name_of_kind [OF ut uk(2)])
    have "\<exists>s' y. eval ?pb env (Cast t (Paren (BinOp (Cast ut (Paren (Var l))) Shr (Paren (Var r))))) = Some (s', y) \<and>
        d = (CIntT w s, wrap (CIntT w s) y)" if "?P env d" for env d
      using that tn un w by (auto simp: low_bits_def shift_amount_def bin_def shift_def Let_def wrap_wrap)
    then show ?thesis unfolding m
      by (rule assigns_implements [OF as assigns_kind [OF as ty(2)] c])
        (use tx tn un in \<open>auto intro: type_name_int\<close>)
  next
    case False
    then have "unsigned_kind k = None" using kind_ctype_unsigned c by auto
    then have as: "assigns b 2 ty (BinOp (Cast t (Paren (Var l))) Shr (Paren (Var r))) cx v cx'"
      using a by simp
    have "\<exists>s' y. eval ?pb env (BinOp (Cast t (Paren (Var l))) Shr (Paren (Var r))) = Some (s', y) \<and>
        d = (CIntT w s, wrap (CIntT w s) y)" if "?P env d" for env d
      using that tn w False by (auto simp: low_bits_def shift_amount_def bin_def shift_def Let_def)
    then show ?thesis unfolding m
      by (rule assigns_implements [OF as assigns_kind [OF as ty(2)] c])
        (use tx tn in \<open>auto intro: type_name_int\<close>)
  qed
qed

section \<open>Negation and complement\<close>

lemma neg_implements:
  assumes wf: "cx_wf cx" "room 1 cx" and ty: "type_of_value cx x = Some ty" "kind_of cx ty = Some k"
    and tx: "render_value cx x = Some l"
    and c: "kind_ctype (pointer_bits cx) k = Some (CIntT w s)" and w: "0 < w"
  shows "implements b cx (op_neg b x cx)
    (\<lambda>env d. \<exists>v t. low_bits env l w v t \<and> w \<le> ctype_bits (promote t) \<and>
       d = (CIntT w s, wrap (CIntT w s) (- v)))"
    (is "implements b cx _ ?P")
proof -
  from neg_ok [OF wf ty(1) tx, of b] obtain r cx' where
    m: "op_neg b x cx = Some (r, cx')" and as: "assigns b 1 ty (UnaryOp Neg (Var l)) cx r cx'" by blast
  have e: "wrap (CIntT w s) (wrap (promote t) (- v)) = wrap (CIntT w s) (- take_bit w v)"
    if "ctype_ok t" "w \<le> ctype_bits (promote t)" for t v
  proof (rule wrap_take_bit [of w])
    show "take_bit w (wrap (promote t) (- v)) = take_bit w (- take_bit w v)"
      using take_bit_wrap [OF promote_ok [OF that(1)] that(2), of "- v"] by (simp add: take_bit_minus)
  qed (use w in auto)
  have "\<exists>s' y. eval (pointer_bits cx) env (UnaryOp Neg (Var l)) = Some (s', y) \<and>
      d = (CIntT w s, wrap (CIntT w s) y)" if "?P env d" for env d
    using that e by (auto simp: low_bits_def)
  then show ?thesis unfolding m
    by (rule assigns_implements [OF as assigns_kind [OF as ty(2)] c])
      (use tx in \<open>auto intro: type_name_int\<close>)
qed

lemma not_int_implements:
  assumes wf: "cx_wf cx" "room 1 cx" and ty: "type_of_value cx x = Some ty" "kind_of cx ty = Some k"
    and tx: "render_value cx x = Some l"
    and c: "kind_ctype (pointer_bits cx) k = Some (CIntT w s)" and w: "0 < w"
  shows "implements b cx (op_not b x cx)
    (\<lambda>env d. \<exists>v t. low_bits env l w v t \<and> w \<le> ctype_bits (promote t) \<and>
       d = (CIntT w s, wrap (CIntT w s) (not v)))"
    (is "implements b cx _ ?P")
proof -
  have nb: "\<not> is_bool_kind k" using c by (cases k) (auto simp: kind_ctype_def split: if_splits)
  from not_ok [OF wf ty tx, of b] nb obtain r cx' where
    m: "op_not b x cx = Some (r, cx')" and as: "assigns b 1 ty (UnaryOp BitNot (Var l)) cx r cx'" by auto
  have e: "wrap (CIntT w s) (wrap (promote t) (not v)) = wrap (CIntT w s) (not (take_bit w v))"
    if "ctype_ok t" "w \<le> ctype_bits (promote t)" for t and v :: int
  proof (rule wrap_take_bit [of w])
    show "take_bit w (wrap (promote t) (not v)) = take_bit w (not (take_bit w v))"
      using take_bit_wrap [OF promote_ok [OF that(1)] that(2), of "not v"]
      by (simp add: take_bit_not_take_bit)
  qed (use w in auto)
  have "\<exists>s' y. eval (pointer_bits cx) env (UnaryOp BitNot (Var l)) = Some (s', y) \<and>
      d = (CIntT w s, wrap (CIntT w s) y)" if "?P env d" for env d
    using that e by (auto simp: low_bits_def)
  then show ?thesis unfolding m
    by (rule assigns_implements [OF as assigns_kind [OF as ty(2)] c])
      (use tx in \<open>auto intro: type_name_int\<close>)
qed

lemma not_bool_implements:
  assumes wf: "cx_wf cx" "room 1 cx" and ty: "type_of_value cx x = Some ty" "kind_of cx ty = Some k"
    and tx: "render_value cx x = Some l"
    and c: "kind_ctype (pointer_bits cx) k = Some CBoolT"
  shows "implements b cx (op_not b x cx)
    (\<lambda>env d. \<exists>p t. env l = Some (t, of_bool p) \<and> d = (CBoolT, of_bool (\<not> p)))"
    (is "implements b cx _ ?P")
proof -
  have nb: "is_bool_kind k" using c by (cases k) (auto simp: kind_ctype_def split: if_splits)
  from not_ok [OF wf ty tx, of b] nb obtain r cx' where
    m: "op_not b x cx = Some (r, cx')" and as: "assigns b 1 ty (UnaryOp LogNot (Var l)) cx r cx'" by auto
  have "\<exists>s' y. eval (pointer_bits cx) env (UnaryOp LogNot (Var l)) = Some (s', y) \<and>
      d = (CBoolT, wrap CBoolT y)" if "?P env d" for env d
  proof -
    from that obtain p t where e: "env l = Some (t, of_bool p)" and d: "d = (CBoolT, of_bool (\<not> p))"
      by blast
    have "eval (pointer_bits cx) env (UnaryOp LogNot (Var l)) = Some (CIntT 32 True, of_bool (\<not> p))"
      using e by (simp add: of_bool_int_def)
    then show ?thesis using d by auto
  qed
  then show ?thesis unfolding m
    by (rule assigns_implements [OF as assigns_kind [OF as ty(2)] c])
      (use tx in \<open>auto intro: type_name_int\<close>)
qed

section \<open>Width changes\<close>

text \<open>A plain cast converts the value: truncation, and sign extension of a signed operand.\<close>

lemma cast_implements:
  assumes wf: "cx_wf cx" "room 1 cx" and d: "kind_of cx dty = Some dk" "tval cx dty"
    and tx: "render_value cx x = Some l" and c: "kind_ctype (pointer_bits cx) dk = Some c"
  shows "implements b cx (cast_op b x dty cx)
    (\<lambda>env d. \<exists>v t. env l = Some (t, v) \<and> d = (c, wrap c v))"
    (is "implements b cx _ ?P")
proof -
  obtain t where t: "render_type cx dty = Some t" using type_text_total [OF wf(1) d(2)] ..
  from cast_ok [OF wf tx t d(2), of b] obtain r cx' where
    m: "cast_op b x dty cx = Some (r, cx')" and as: "assigns b 1 dty (Cast t (Var l)) cx r cx'" by blast
  have tn: "type_name (pointer_bits cx) t = Some c" by (rule type_name_of_kind [OF d(1) t c])
  have "\<exists>s' y. eval (pointer_bits cx) env (Cast t (Var l)) = Some (s', y) \<and> d = (c, wrap c y)"
    if "?P env d" for env d
    using that tn by (auto simp: wrap_wrap)
  then show ?thesis unfolding m
    by (rule assigns_implements [OF as assigns_kind [OF as d(1)] c])
      (use tx tn in \<open>auto intro: type_name_int\<close>)
qed

lemma zext_implements:
  assumes wf: "cx_wf cx" "room 2 cx" and ty: "type_of_value cx x = Some ty" "kind_of cx ty = Some k"
    and tx: "render_value cx x = Some l" and d: "kind_of cx dty = Some dk" "tval cx dty"
    and c: "kind_ctype (pointer_bits cx) k = Some (CIntT w s)"
    and c': "kind_ctype (pointer_bits cx) dk = Some c"
  shows "implements b cx (op_zext b x dty cx)
    (\<lambda>env d. \<exists>v. unsigned_operand env l w s v \<and> d = (c, wrap c v))"
    (is "implements b cx _ ?P")
proof -
  let ?pb = "pointer_bits cx"
  from zext_ok [OF wf ty tx d(2), of b] obtain r cx' t where
    m: "op_zext b x dty cx = Some (r, cx')" and t: "render_type cx dty = Some t"
    and a: "case unsigned_kind k of
       None \<Rightarrow> assigns b 2 dty (Cast t (Var l)) cx r cx'
     | Some uk \<Rightarrow> \<exists>cx1 u ut. reach b id 1 cx cx1 \<and> kind_of cx1 u = Some uk \<and> render_type cx1 u = Some ut \<and>
         assigns b 2 dty (Cast t (Cast ut (Var l))) cx r cx'" by blast
  have tn: "type_name ?pb t = Some c" by (rule type_name_of_kind [OF d(1) t c'])
  show ?thesis
  proof (cases s)
    case True
    then obtain uk where uk: "unsigned_kind k = Some uk" "kind_ctype ?pb uk = Some (CIntT w False)"
      using kind_ctype_signed [of ?pb k w] c by auto
    with a obtain cx1 u ut where ut: "kind_of cx1 u = Some uk" "render_type cx1 u = Some ut"
      and as: "assigns b 2 dty (Cast t (Cast ut (Var l))) cx r cx'" by auto
    have un: "type_name ?pb ut = Some (CIntT w False)" by (rule type_name_of_kind [OF ut uk(2)])
    have "\<exists>s' y. eval ?pb env (Cast t (Cast ut (Var l))) = Some (s', y) \<and> d = (c, wrap c y)"
      if "?P env d" for env d
      using that tn un True by (auto simp: unsigned_operand_def low_bits_def wrap_wrap)
    then show ?thesis unfolding m
      by (rule assigns_implements [OF as assigns_kind [OF as d(1)] c'])
        (use tx tn un in \<open>auto intro: type_name_int\<close>)
  next
    case False
    then have "unsigned_kind k = None" using kind_ctype_unsigned c by auto
    then have as: "assigns b 2 dty (Cast t (Var l)) cx r cx'" using a by simp
    have "\<exists>s' y. eval ?pb env (Cast t (Var l)) = Some (s', y) \<and> d = (c, wrap c y)"
      if "?P env d" for env d
      using that tn False by (auto simp: unsigned_operand_def unsigned_value_def wrap_wrap)
    then show ?thesis unfolding m
      by (rule assigns_implements [OF as assigns_kind [OF as d(1)] c'])
        (use tx tn in \<open>auto intro: type_name_int\<close>)
  qed
qed

section \<open>Comparison\<close>

fun icmp_holds :: "IntPredicate \<Rightarrow> nat \<Rightarrow> int \<Rightarrow> int \<Rightarrow> bool" where
  "icmp_holds IntEQ w x y = (x = y)"
| "icmp_holds IntNE w x y = (x \<noteq> y)"
| "icmp_holds IntUGT w x y = (x > y)"
| "icmp_holds IntUGE w x y = (x \<ge> y)"
| "icmp_holds IntULT w x y = (x < y)"
| "icmp_holds IntULE w x y = (x \<le> y)"
| "icmp_holds IntSGT w x y = (signed_take_bit (w - 1) x > signed_take_bit (w - 1) y)"
| "icmp_holds IntSGE w x y = (signed_take_bit (w - 1) x \<ge> signed_take_bit (w - 1) y)"
| "icmp_holds IntSLT w x y = (signed_take_bit (w - 1) x < signed_take_bit (w - 1) y)"
| "icmp_holds IntSLE w x y = (signed_take_bit (w - 1) x \<le> signed_take_bit (w - 1) y)"

lemma icmp_kind_ctype:
  assumes "kind_ctype pb k = Some (CIntT w s)" "icmp_cast_kind p k k = Some ck"
  shows "kind_ctype pb ck = Some (CIntT w (\<not> pred_unsigned p))"
  using assms by (cases k) (auto simp: kind_ctype_def icmp_cast_kind_def Let_def split: if_splits)

lemma compare_bits:
  assumes w: "0 < w" and sg: "sg = (\<not> pred_unsigned p)"
  shows "bin (icmp_op p) (CIntT w sg, wrap (CIntT w sg) x) (CIntT w sg, wrap (CIntT w sg) y) =
    Some (CIntT 32 True, of_bool (icmp_holds p w (take_bit w x) (take_bit w y)))"
proof -
  have u: "wrap (arith_type (CIntT w False) (CIntT w False)) (take_bit w z) = take_bit w z" for z
    by (rule wrap_arith_unsigned [of w]) auto
  have s: "wrap (arith_type (CIntT w True) (CIntT w True)) (signed_take_bit (w - 1) z) =
      signed_take_bit (w - 1) z" for z
    by (rule wrap_arith_signed [of w]) auto
  obtain m where m: "w = Suc m" using w by (cases w) auto
  show ?thesis
    using u s
    by (cases p; simp add: m sg bin_def Let_def arith_def of_bool_int_def pred_unsigned_def
        signed_take_bit_take_bit signed_take_bit_eq_iff_take_bit_eq)
qed

lemma icmp_implements:
  assumes wf: "cx_wf cx" "room 3 cx"
    and ty: "type_of_value cx x = Some tx" "type_of_value cx y = Some ty"
    and kd: "kind_of cx tx = Some k" "kind_of cx ty = Some k"
    and s: "render_value cx x = Some l" "render_value cx y = Some r"
    and c: "kind_ctype (pointer_bits cx) k = Some (CIntT w sg)" and w: "0 < w"
    and ck: "icmp_cast_kind p k k = Some ck"
  shows "implements b cx (op_icmp b p x y cx)
    (\<lambda>env d. \<exists>m n t u. low_bits env l w m t \<and> low_bits env r w n u \<and>
       d = (CBoolT, of_bool (icmp_holds p w m n)))"
    (is "implements b cx _ ?P")
proof -
  let ?pb = "pointer_bits cx"
  from icmp_ok [OF wf ty kd ck s, of b] obtain v cx' bt cx1 t ct where
    m: "op_icmp b p x y cx = Some (v, cx')" and bt: "kind_of cx' bt = Some TBool"
    and t: "kind_of cx1 t = Some ck" "render_type cx1 t = Some ct"
    and as: "assigns b 3 bt (BinOp (Cast ct (Var l)) (icmp_op p) (Cast ct (Var r))) cx v cx'" by blast
  have tn: "type_name ?pb ct = Some (CIntT w (\<not> pred_unsigned p))"
    by (rule type_name_of_kind [OF t icmp_kind_ctype [OF c ck]])
  have cb: "kind_ctype ?pb TBool = Some CBoolT" by (simp add: kind_ctype_def)
  have op: "icmp_op p \<noteq> LogAnd" "icmp_op p \<noteq> LogOr" by (cases p; simp)+
  have "\<exists>s' z. eval ?pb env (BinOp (Cast ct (Var l)) (icmp_op p) (Cast ct (Var r))) = Some (s', z) \<and>
      d = (CBoolT, wrap CBoolT z)" if "?P env d" for env d
  proof -
    from that obtain m n t u where e: "env l = Some (t, m)" "env r = Some (u, n)"
      and d: "d = (CBoolT, of_bool (icmp_holds p w (take_bit w m) (take_bit w n)))"
      by (auto simp: low_bits_def)
    have "eval ?pb env (BinOp (Cast ct (Var l)) (icmp_op p) (Cast ct (Var r))) =
        Some (CIntT 32 True, of_bool (icmp_holds p w (take_bit w m) (take_bit w n)))"
      using e tn op compare_bits [OF w refl, of p m n] by simp
    then show ?thesis using d by auto
  qed
  then show ?thesis unfolding m
    by (rule assigns_implements [OF as bt cb])
      (use s tn in \<open>auto intro: type_name_int\<close>)
qed

section \<open>Switches\<close>

text \<open>The block of the first case whose constant is the value, the default block otherwise.\<close>

fun switch_dest :: "int \<Rightarrow> (nat \<times> BasicBlockId) list \<Rightarrow> BasicBlockId \<Rightarrow> BasicBlockId" where
  "switch_dest x [] d = d"
| "switch_dest x ((k, bb) # cs) d = (if int k = x then bb else switch_dest x cs d)"

lemma suffix_digits: "takeWhile is_digit (nat_str n @ ''ULL'') = nat_str n"
    "dropWhile is_digit (nat_str n @ ''ULL'') = ''ULL''"
proof -
  have d: "\<And>c. c \<in> set (nat_str n) \<Longrightarrow> is_digit c" by (rule nat_str_digits)
  show "takeWhile is_digit (nat_str n @ ''ULL'') = nat_str n"
    using takeWhile_append2 [of "nat_str n" is_digit "''ULL''"] d by (simp add: digit_val_def)
  show "dropWhile is_digit (nat_str n @ ''ULL'') = ''ULL''"
    using dropWhile_append2 [of "nat_str n" is_digit "''ULL''"] d by (simp add: digit_val_def)
qed

lemma literal_ull: "n \<le> u64_MAX \<Longrightarrow> literal (nat_str n @ ''ULL'') = Some (CIntT 64 False, int n)"
  unfolding literal_def suffix_digits Let_def by (simp add: u64_MAX_def take_bit_int_eq_self)

lemma wrap_promote_nat:
  assumes "0 < w" "n < 2 ^ w" shows "wrap (promote (CIntT w False)) (int n) = int n"
proof -
  have t: "take_bit w (int n) = int n" using assms(2) by (simp add: take_bit_int_eq_self)
  show ?thesis using t signed_take_bit_unsigned [OF t, of 32] by simp
qed

lemma switch_target_dest:
  assumes w: "0 < w" and cs: "\<forall>(n, bb) \<in> set cases. n < 2 ^ w \<and> n \<le> u64_MAX"
  shows "switch_target pb env (CIntT w False, x)
      (map (\<lambda>(n, bb). (case_expr n, block_label b cx bb)) cases) (block_label b cx d) =
    Some (block_label b cx (switch_dest x cases d))"
  using cs
proof (induction cases)
  case (Cons a cases)
  obtain n bb where a: "a = (n, bb)" by (cases a)
  have n: "n < 2 ^ w" "n \<le> u64_MAX" using Cons.prems a by auto
  have "eval pb env (case_expr n) = Some (CIntT 64 False, int n)"
    using literal_ull [OF n(2)] n(2) by (simp add: case_expr_def)
  then show ?case using Cons wrap_promote_nat [OF w n(1)] a by simp
qed simp

text \<open>
  The kinds whose switch value is printed with the cast of its width: the code takes the width
  as it is for the name of the type.
\<close>

definition switch_kind :: "nat \<Rightarrow> CTypeKind \<Rightarrow> nat \<Rightarrow> bool \<Rightarrow> bool" where
  "switch_kind pb k w s =
     (w > 0 \<and> (k = TInt w s \<and> w \<in> {8, 16, 32, 64, 128} \<or> k = TPtrWidth s \<and> w = pb))"

lemma switch_jumps:
  assumes v: "render_value cx v = Some l" "type_of_value cx v = Some ty" "kind_of cx ty = Some k"
    and k: "switch_kind (pointer_bits cx) k w s"
    and cs: "\<forall>(n, bb) \<in> set cases. n < 2 ^ w \<and> n \<le> u64_MAX"
  shows "\<exists>st. switch b v d cases cx = Some (set_terminated b (emit b st cx)) \<and>
    (\<forall>env x. (if s then \<exists>t. low_bits env l w x t else env l = Some (CIntT w False, x)) \<longrightarrow>
       jump_target (pointer_bits cx) env st = Some (block_label b cx (switch_dest x cases d)))"
proof -
  let ?st = "Switch (switch_expr k l)
    (map (\<lambda>(n, bb). (case_expr n, block_label b cx bb)) cases) (block_label b cx d)"
  have w: "0 < w" using k by (simp add: switch_kind_def)
  have "switch b v d cases cx = Some (set_terminated b (emit b ?st cx))"
    using v by (simp add: switch_def)
  moreover have "jump_target (pointer_bits cx) env ?st = Some (block_label b cx (switch_dest x cases d))"
    if "if s then \<exists>t. low_bits env l w x t else env l = Some (CIntT w False, x)" for env x
  proof -
    have "eval (pointer_bits cx) env (switch_expr k l) = Some (CIntT w False, x)"
    proof (cases s)
      case True
      then show ?thesis
        using that k int_type_names(2) [of w "pointer_bits cx"] other_type_names(3)
        by (auto simp: switch_kind_def switch_expr_def low_bits_def)
    next
      case False
      then show ?thesis using that k by (auto simp: switch_kind_def switch_expr_def)
    qed
    then show ?thesis using switch_target_dest [OF w cs] by simp
  qed
  ultimately show ?thesis by blast
qed

end
