(* ===== verification/Overflow.thy ===== *)
theory Overflow
  imports CTypes BuilderArith
begin

unbundle bit_operations_syntax

text \<open>
  The overflow helpers of \<open>c/preamble.c\<close>, which the code of a checked operation calls: up to
  64 bits the macro \<open>RUSTC_DEFINE_OVERFLOW_WIDEN\<close> computes in a type of twice the width, at
  128 bits each operation has a test of its own. A helper stores the wrapped result and
  returns whether it differs from the exact one. The names for pointer-width types are
  aliases that depend on the target.
\<close>

section \<open>The helpers\<close>

fun op_fun :: "OverflowOp \<Rightarrow> int \<Rightarrow> int \<Rightarrow> int" where
  "op_fun OvAdd = (+)"
| "op_fun OvSub = (-)"
| "op_fun OvMul = (*)"

text \<open>The three functions of the macro, which differ in their operator.\<close>

definition overflow_widen :: "OverflowOp \<Rightarrow> ctype \<Rightarrow> ctype \<Rightarrow> int \<Rightarrow> int \<Rightarrow> int \<times> bool" where
  "overflow_widen oop type wide_type a b =
     (let w = wrap wide_type (op_fun oop (wrap wide_type a) (wrap wide_type b));
          r = wrap type w
      in (r, w \<noteq> wrap wide_type r))"

abbreviation u128 :: ctype where "u128 \<equiv> CIntT 128 False"

abbreviation i128 :: ctype where "i128 \<equiv> CIntT 128 True"

definition add_overflow_u128 :: "int \<Rightarrow> int \<Rightarrow> int \<times> bool" where
  "add_overflow_u128 a b = (let r = wrap u128 (a + b) in (r, r < a))"

definition sub_overflow_u128 :: "int \<Rightarrow> int \<Rightarrow> int \<times> bool" where
  "sub_overflow_u128 a b = (let r = wrap u128 (a - b) in (r, a < b))"

definition mul_overflow_u128 :: "int \<Rightarrow> int \<Rightarrow> int \<times> bool" where
  "mul_overflow_u128 a b = (let r = wrap u128 (a * b) in (r, a \<noteq> 0 \<and> r div a \<noteq> b))"

definition add_overflow_i128 :: "int \<Rightarrow> int \<Rightarrow> int \<times> bool" where
  "add_overflow_i128 a b =
     (let ua = wrap u128 a; ub = wrap u128 b;
          r = wrap i128 (wrap u128 (ua + ub))
      in (r, wrap i128 (wrap u128 (NOT (ua XOR ub) AND (wrap u128 r XOR ua))) < 0))"

definition sub_overflow_i128 :: "int \<Rightarrow> int \<Rightarrow> int \<times> bool" where
  "sub_overflow_i128 a b =
     (let ua = wrap u128 a; ub = wrap u128 b;
          r = wrap i128 (wrap u128 (ua - ub))
      in (r, wrap i128 (wrap u128 ((ua XOR ub) AND (wrap u128 r XOR ua))) < 0))"

text \<open>The division of the signed test is undefined when its quotient overflows.\<close>

definition mul_overflow_i128 :: "int \<Rightarrow> int \<Rightarrow> (int \<times> bool) option" where
  "mul_overflow_i128 a b =
     (let r = wrap i128 (a * b) in
      if a = 0 then Some (r, False)
      else if wrap i128 (r sdiv a) \<noteq> r sdiv a then None
      else Some (r, r sdiv a \<noteq> b))"

text \<open>The helper of an operation and a type; the types are the ones the preamble defines them for.\<close>

definition overflow_call :: "OverflowOp \<Rightarrow> ctype \<Rightarrow> int \<Rightarrow> int \<Rightarrow> (int \<times> bool) option" where
  "overflow_call oop t a b =
     (case t of
        CIntT n s \<Rightarrow>
          if n \<in> {8, 16, 32, 64} then Some (overflow_widen oop t (CIntT (2 * n) s) a b)
          else if n = 128 then
            (case (oop, s) of
               (OvAdd, False) \<Rightarrow> Some (add_overflow_u128 a b)
             | (OvSub, False) \<Rightarrow> Some (sub_overflow_u128 a b)
             | (OvMul, False) \<Rightarrow> Some (mul_overflow_u128 a b)
             | (OvAdd, True) \<Rightarrow> Some (add_overflow_i128 a b)
             | (OvSub, True) \<Rightarrow> Some (sub_overflow_i128 a b)
             | (OvMul, True) \<Rightarrow> mul_overflow_i128 a b)
          else None
      | CBoolT \<Rightarrow> None)"

section \<open>Ranges\<close>

lemma wrap_eq_unsigned: "wrap (CIntT n False) x = x \<longleftrightarrow> 0 \<le> x \<and> x < 2 ^ n"
  by (simp add: take_bit_int_eq_self_iff)

lemma wrap_eq_signed: "wrap (CIntT n True) x = x \<longleftrightarrow> - (2 ^ (n - 1)) \<le> x \<and> x < 2 ^ (n - 1)"
  by (simp add: signed_take_bit_int_eq_self_iff)

text \<open>A type of twice the width holds every result but a negative unsigned difference.\<close>

lemma wide_signed:
  assumes n: "0 < n" and a: "wrap (CIntT n True) a = a" and b: "wrap (CIntT n True) b = b"
  shows "wrap (CIntT (2 * n) True) (op_fun oop a b) = op_fun oop a b"
proof -
  define h where "h = (2::int) ^ (n - 1)"
  have ab: "- h \<le> a" "a < h" "- h \<le> b" "b < h" using a b unfolding wrap_eq_signed h_def by auto
  have h: "1 \<le> h" by (simp add: h_def)
  have "2 * n - 1 = Suc ((n - 1) + (n - 1))" using n by simp
  then have H: "(2::int) ^ (2 * n - 1) = 2 * (h * h)"
    unfolding h_def by (simp only: power_Suc power_add)
  have "\<bar>a * b\<bar> \<le> h * h" unfolding abs_mult using ab by (intro mult_mono) auto
  then have m: "- (h * h) \<le> a * b" "a * b \<le> h * h" by auto
  have hh: "h \<le> h * h" using mult_left_mono [OF h, of h] h by simp
  have "- (2 * (h * h)) \<le> op_fun oop a b \<and> op_fun oop a b < 2 * (h * h)"
  proof (cases oop)
    case OvMul
    have "a * b < 2 * (h * h)" "- (2 * (h * h)) \<le> a * b" using m hh h by linarith+
    then show ?thesis using OvMul by simp
  next
    case OvAdd
    have "a + b < 2 * (h * h)" "- (2 * (h * h)) \<le> a + b" using ab hh by linarith+
    then show ?thesis using OvAdd by simp
  next
    case OvSub
    have "a - b < 2 * (h * h)" "- (2 * (h * h)) \<le> a - b" using ab hh by linarith+
    then show ?thesis using OvSub by simp
  qed
  then show ?thesis unfolding wrap_eq_signed H .
qed

lemma wide_unsigned:
  assumes a: "wrap (CIntT n False) a = a" and b: "wrap (CIntT n False) b = b" and n: "0 < n"
    and s: "oop \<noteq> OvSub \<or> b \<le> a"
  shows "wrap (CIntT (2 * n) False) (op_fun oop a b) = op_fun oop a b"
proof -
  define h where "h = (2::int) ^ n"
  have ab: "0 \<le> a" "a < h" "0 \<le> b" "b < h" using a b unfolding wrap_eq_unsigned h_def by auto
  have h: "2 \<le> h" using n power_increasing [of 1 n "2::int"] by (simp add: h_def)
  have H: "(2::int) ^ (2 * n) = h * h" by (simp add: h_def mult_2 power_add)
  have "a * b \<le> (h - 1) * (h - 1)" using ab by (intro mult_mono) auto
  also have "\<dots> = h * h - 2 * h + 1" by (simp add: algebra_simps)
  finally have m: "a * b \<le> h * h - 2 * h + 1" .
  have hh: "2 * h \<le> h * h" using h by (intro mult_right_mono) auto
  have "0 \<le> op_fun oop a b \<and> op_fun oop a b < h * h"
  proof (cases oop)
    case OvMul
    have "a * b < h * h" using m h by linarith
    then show ?thesis using OvMul ab by simp
  next
    case OvAdd
    have "a + b < h * h" using ab hh by linarith
    then show ?thesis using OvAdd ab by simp
  next
    case OvSub
    moreover have "a - b < h * h" using ab hh h by linarith
    ultimately show ?thesis using s by simp
  qed
  then show ?thesis unfolding wrap_eq_unsigned H .
qed

section \<open>The widening helpers\<close>

lemma widen_correct:
  assumes n: "0 < n" and a: "wrap (CIntT n s) a = a" and b: "wrap (CIntT n s) b = b"
  shows "overflow_widen oop (CIntT n s) (CIntT (2 * n) s) a b =
    (wrap (CIntT n s) (op_fun oop a b), wrap (CIntT n s) (op_fun oop a b) \<noteq> op_fun oop a b)"
proof -
  let ?t = "CIntT n s" and ?w = "CIntT (2 * n) s"
  have wide: "wrap ?w x = x" if "wrap ?t x = x" for x
    using that signed_take_bit_more [of n x "2 * n"] take_bit_more [of n x "2 * n"]
    by (cases s) auto
  have narrow: "wrap ?t (wrap ?w x) = wrap ?t x" for x
    by (rule wrap_take_bit [of n]) (use n in \<open>auto intro: take_bit_wrap\<close>)
  show ?thesis
  proof (cases "wrap ?w (op_fun oop a b) = op_fun oop a b")
    case True
    then show ?thesis by (auto simp: overflow_widen_def Let_def wide a b)
  next
    case False
    have s1: "\<not> s"
    proof
      assume s
      then show False using wide_signed [OF n, of a b oop] a b False by simp
    qed
    then have "\<not> (oop \<noteq> OvSub \<or> b \<le> a)" using wide_unsigned [of n a b oop] False a b n by auto
    then have s: "\<not> s" "oop = OvSub" "a < b" using s1 by auto
    let ?d = "a - b"
    have ab: "0 \<le> a" "a < 2 ^ n" "0 \<le> b" "b < 2 ^ n" using a b s(1) wrap_eq_unsigned by auto
    define h where "h = (2::int) ^ n"
    have hh: "(2::int) ^ (2 * n) = h * h" by (simp add: h_def mult_2 power_add)
    have h: "2 \<le> h" using n power_increasing [of 1 n "2::int"] by (simp add: h_def)
    have h2: "2 * h \<le> h * h" using h by (intro mult_right_mono) auto
    have bd: "0 \<le> h * h + ?d" "h * h + ?d < h * h" "h \<le> h * h + ?d"
      using ab s(3) h h2 unfolding h_def by linarith+
    have "(h * h + ?d) mod (h * h) = h * h + ?d" using bd(1,2) by (rule mod_pos_pos_trivial)
    then have "?d mod (h * h) = h * h + ?d" by simp
    then have w: "wrap ?w ?d = h * h + ?d" using s(1) by (simp add: take_bit_eq_mod hh)
    have big: "2 ^ n \<le> wrap ?w ?d" unfolding w h_def [symmetric] by (rule bd(3))
    have r: "0 \<le> wrap ?t ?d" "wrap ?t ?d < 2 ^ n"
      using s take_bit_nonnegative [of n ?d] take_bit_int_less_exp [of n ?d] by auto
    have e: "overflow_widen OvSub ?t ?w a b = (wrap ?t ?d, wrap ?w ?d \<noteq> wrap ?w (wrap ?t ?d))"
      by (simp only: overflow_widen_def Let_def op_fun.simps wide [OF a] wide [OF b] narrow)
    have "wrap ?w (wrap ?t ?d) = wrap ?t ?d" by (rule wide) (rule wrap_wrap)
    moreover have "wrap ?w ?d \<noteq> wrap ?t ?d" using big r(2) by linarith
    moreover have "wrap ?t ?d \<noteq> ?d" using r(1) s(3) by linarith
    ultimately show ?thesis unfolding s(2) e op_fun.simps by simp
  qed
qed

section \<open>The 128-bit helpers\<close>

lemma sign_bit: "wrap i128 (wrap u128 x) < 0 \<longleftrightarrow> bit x 127"
  by (simp add: signed_take_bit_negative_iff bit_take_bit_iff)

lemma add_overflow_u128_correct:
  assumes "wrap u128 a = a" "wrap u128 b = b"
  shows "add_overflow_u128 a b = (wrap u128 (a + b), wrap u128 (a + b) \<noteq> a + b)"
proof -
  have ab: "0 \<le> a" "a < 2 ^ 128" "0 \<le> b" "b < 2 ^ 128" using assms wrap_eq_unsigned by auto
  have "wrap u128 (a + b) = (if a + b < 2 ^ 128 then a + b else a + b - 2 ^ 128)"
  proof (cases "a + b < 2 ^ 128")
    case False
    have "(a + b - 2 ^ 128) mod 2 ^ 128 = a + b - 2 ^ 128"
      using ab False by (intro mod_pos_pos_trivial) auto
    moreover have "(a + b - 2 ^ 128) mod 2 ^ 128 = (a + b) mod 2 ^ 128" by (simp only: minus_mod_self2)
    ultimately show ?thesis using False by (simp only: wrap.simps take_bit_eq_mod if_False)
  qed (use ab in \<open>simp add: take_bit_eq_mod\<close>)
  then show ?thesis using ab by (auto simp: add_overflow_u128_def Let_def)
qed

lemma sub_overflow_u128_correct:
  assumes "wrap u128 a = a" "wrap u128 b = b"
  shows "sub_overflow_u128 a b = (wrap u128 (a - b), wrap u128 (a - b) \<noteq> a - b)"
proof -
  have ab: "0 \<le> a" "a < 2 ^ 128" "0 \<le> b" "b < 2 ^ 128" using assms wrap_eq_unsigned by auto
  have "wrap u128 (a - b) = a - b \<longleftrightarrow> \<not> a < b" using ab by (subst wrap_eq_unsigned) auto
  then show ?thesis by (simp add: sub_overflow_u128_def Let_def)
qed

lemma mul_overflow_u128_correct:
  assumes "wrap u128 a = a" "wrap u128 b = b"
  shows "mul_overflow_u128 a b = (wrap u128 (a * b), wrap u128 (a * b) \<noteq> a * b)"
proof -
  have ab: "0 \<le> a" "a < 2 ^ 128" "0 \<le> b" "b < 2 ^ 128" using assms wrap_eq_unsigned by auto
  let ?r = "wrap u128 (a * b)"
  have r: "?r = (a * b) mod 2 ^ 128" by (simp only: wrap.simps take_bit_eq_mod)
  have "(a \<noteq> 0 \<and> ?r div a \<noteq> b) \<longleftrightarrow> ?r \<noteq> a * b"
  proof (cases "?r = a * b")
    case False
    have nz: "a \<noteq> 0" using False by auto
    have "?r div a \<noteq> b"
    proof
      assume d: "?r div a = b"
      have "0 \<le> ?r mod a" using nz ab by (intro pos_mod_sign) simp
      moreover have "b * a + ?r mod a = ?r" using div_mult_mod_eq [of ?r a] unfolding d .
      ultimately have "b * a \<le> ?r" by linarith
      moreover have "0 \<le> a * b" using ab by simp
      then have "?r \<le> a * b" unfolding r by (rule zmod_le_nonneg_dividend)
      ultimately show False using False by (simp add: mult.commute)
    qed
    then show ?thesis using nz False by simp
  qed (use ab in simp)
  then show ?thesis by (simp only: mul_overflow_u128_def Let_def)
qed

lemma wrap_i128_cases:
  assumes "- (2 ^ 128) \<le> x" "x < 2 ^ 128"
  shows "wrap i128 x = (if x < - (2 ^ 127) then x + 2 ^ 128 else if x < 2 ^ 127 then x else x - 2 ^ 128)"
proof -
  have shift: "signed_take_bit 127 (x + k * 2 ^ 128) = signed_take_bit 127 x" for k :: int
    by (simp add: signed_take_bit_eq_iff_take_bit_eq take_bit_eq_mod)
  have keep: "signed_take_bit 127 y = y" if "- (2 ^ 127) \<le> y" "y < 2 ^ 127" for y :: int
    using that by (intro signed_take_bit_int_eq_self) auto
  consider "x < - (2 ^ 127)" | "- (2 ^ 127) \<le> x" "x < 2 ^ 127" | "2 ^ 127 \<le> x" by linarith
  then show ?thesis
  proof cases
    case 1
    have "signed_take_bit 127 (x + 2 ^ 128) = x + 2 ^ 128" using 1 assms by (intro keep) auto
    then show ?thesis using shift [of 1] 1 by simp
  next
    case 2
    then show ?thesis using keep [of x] by simp
  next
    case 3
    have "signed_take_bit 127 (x - 2 ^ 128) = x - 2 ^ 128" using 3 assms by (intro keep) auto
    then show ?thesis using shift [of "-1"] 3 by simp
  qed
qed

lemma sign_bit_value: "wrap i128 a = a \<Longrightarrow> bit a 127 \<longleftrightarrow> a < 0"
  using signed_take_bit_negative_iff [of 127 a] by simp

lemma add_overflow_i128_correct:
  assumes "wrap i128 a = a" "wrap i128 b = b"
  shows "add_overflow_i128 a b = (wrap i128 (a + b), wrap i128 (a + b) \<noteq> a + b)"
proof -
  let ?r = "wrap i128 (a + b)"
  have ab: "- (2 ^ 127) \<le> a" "a < 2 ^ 127" "- (2 ^ 127) \<le> b" "b < 2 ^ 127"
    using assms wrap_eq_signed [of 128] by auto
  have r: "wrap i128 (wrap u128 (wrap u128 a + wrap u128 b)) = ?r"
    by (rule wrap_take_bit [of 128]) (simp_all add: take_bit_add)
  have "wrap i128 (wrap u128 (NOT (wrap u128 a XOR wrap u128 b) AND (wrap u128 ?r XOR wrap u128 a))) < 0
      \<longleftrightarrow> ((a < 0) = (b < 0) \<and> (?r < 0) \<noteq> (a < 0))"
    unfolding sign_bit using sign_bit_value [OF assms(1)] sign_bit_value [OF assms(2)]
      sign_bit_value [of ?r] by (auto simp: bit_simps)
  also have "\<dots> \<longleftrightarrow> ?r \<noteq> a + b"
    using wrap_i128_cases [of "a + b"] ab by auto
  finally show ?thesis by (simp only: add_overflow_i128_def Let_def r)
qed

lemma sub_overflow_i128_correct:
  assumes "wrap i128 a = a" "wrap i128 b = b"
  shows "sub_overflow_i128 a b = (wrap i128 (a - b), wrap i128 (a - b) \<noteq> a - b)"
proof -
  let ?r = "wrap i128 (a - b)"
  have ab: "- (2 ^ 127) \<le> a" "a < 2 ^ 127" "- (2 ^ 127) \<le> b" "b < 2 ^ 127"
    using assms wrap_eq_signed [of 128] by auto
  have r: "wrap i128 (wrap u128 (wrap u128 a - wrap u128 b)) = ?r"
    by (rule wrap_take_bit [of 128]) (simp_all add: take_bit_diff)
  have "wrap i128 (wrap u128 ((wrap u128 a XOR wrap u128 b) AND (wrap u128 ?r XOR wrap u128 a))) < 0
      \<longleftrightarrow> ((a < 0) \<noteq> (b < 0) \<and> (?r < 0) \<noteq> (a < 0))"
    unfolding sign_bit using sign_bit_value [OF assms(1)] sign_bit_value [OF assms(2)]
      sign_bit_value [of ?r] by (auto simp: bit_simps)
  also have "\<dots> \<longleftrightarrow> ?r \<noteq> a - b"
    using wrap_i128_cases [of "a - b"] ab by auto
  finally show ?thesis by (simp only: sub_overflow_i128_def Let_def r)
qed

lemma wrap_i128_multiple: "\<exists>k. wrap i128 x = x + k * 2 ^ 128"
proof -
  have "take_bit 128 (wrap i128 x) = take_bit 128 x" by (rule take_bit_wrap) auto
  then have "2 ^ 128 dvd wrap i128 x - x" by (simp add: take_bit_eq_mod mod_eq_dvd_iff)
  then obtain k where "wrap i128 x - x = 2 ^ 128 * k" ..
  then have "wrap i128 x = x + k * 2 ^ 128" by simp
  then show ?thesis ..
qed

text \<open>The signed product is right unless it is \<open>-1\<close> times the least value.\<close>

lemma mul_overflow_i128_correct:
  assumes a: "wrap i128 a = a" and b: "wrap i128 b = b" and nm: "a \<noteq> -1 \<or> b \<noteq> - (2 ^ 127)"
  shows "mul_overflow_i128 a b = Some (wrap i128 (a * b), wrap i128 (a * b) \<noteq> a * b)"
proof (cases "a = 0")
  case True
  then show ?thesis by (simp add: mul_overflow_i128_def Let_def)
next
  case nz: False
  let ?r = "wrap i128 (a * b)"
  have ab: "- (2 ^ 127) \<le> a" "a < 2 ^ 127" "- (2 ^ 127) \<le> b" "b < 2 ^ 127"
    using a b wrap_eq_signed [of 128] by auto
  have "?r \<noteq> - (2 ^ (128 - 1)) \<or> a \<noteq> -1"
  proof (cases "a = -1")
    case True
    then have "- (2 ^ 127) < b" using nm ab by simp
    then have "?r = - b" using True ab wrap_eq_signed [of 128 "- b"] by simp
    then show ?thesis using ab by simp
  qed simp
  then have "signed_take_bit (128 - 1) (?r sdiv a) = ?r sdiv a" by (rule sdiv_range [rotated]) simp
  then have def: "wrap i128 (?r sdiv a) = ?r sdiv a" by simp
  have "?r sdiv a \<noteq> b \<longleftrightarrow> ?r \<noteq> a * b"
  proof (cases "?r = a * b")
    case True
    have "(a * b) sdiv a = b" using nz nonzero_mult_div_cancel_left [OF nz, of "- b"]
      by (auto simp: signed_divide_int_def abs_mult sgn_mult sgn_if abs_if div_minus_right)
    then show ?thesis using True by simp
  next
    case False
    obtain k where k: "?r = a * b + k * 2 ^ 128" using wrap_i128_multiple by blast
    have "k \<noteq> 0" using False k by auto
    have "?r sdiv a \<noteq> b"
    proof
      assume "?r sdiv a = b"
      then have s: "?r smod a = k * 2 ^ 128" using sdiv_mult_smod_eq [of ?r a] k by (simp add: mult.commute)
      have "\<bar>?r smod a\<bar> < \<bar>a\<bar>" using nz smod_int_range [of a ?r] by auto
      then have "\<bar>k\<bar> * 2 ^ 128 < \<bar>a\<bar>" unfolding s abs_mult by simp
      moreover have "1 * 2 ^ 128 \<le> \<bar>k\<bar> * 2 ^ 128" using \<open>k \<noteq> 0\<close> by (intro mult_right_mono) auto
      ultimately have "1 * 2 ^ 128 < \<bar>a\<bar>" by (rule le_less_trans [rotated])
      moreover have "\<bar>a\<bar> \<le> 2 ^ 127" using ab by (simp add: abs_le_iff)
      ultimately show False by simp
    qed
    then show ?thesis using False by simp
  qed
  then show ?thesis using nz def by (simp only: mul_overflow_i128_def Let_def) simp
qed

lemma mul_overflow_i128_undefined: "mul_overflow_i128 (-1) (- (2 ^ 127)) = None"
  by (simp add: mul_overflow_i128_def Let_def wrap_i128_cases signed_divide_int_def)

lemma overflow_call_correct:
  assumes t: "t \<in> {CIntT n s | n s. n \<in> {8, 16, 32, 64, 128}}"
    and a: "wrap t a = a" and b: "wrap t b = b"
    and nm: "oop \<noteq> OvMul \<or> t \<noteq> i128 \<or> a \<noteq> -1 \<or> b \<noteq> - (2 ^ 127)"
  shows "overflow_call oop t a b =
    Some (wrap t (op_fun oop a b), wrap t (op_fun oop a b) \<noteq> op_fun oop a b)"
proof -
  obtain n s where ns: "t = CIntT n s" "n \<in> {8, 16, 32, 64, 128}" using t by auto
  show ?thesis
  proof (cases "n = 128")
    case True
    then show ?thesis
      using a b nm unfolding ns
      by (cases oop; cases s)
        (simp_all add: overflow_call_def add_overflow_u128_correct sub_overflow_u128_correct
          mul_overflow_u128_correct add_overflow_i128_correct sub_overflow_i128_correct
          mul_overflow_i128_correct del: wrap.simps)
  next
    case False
    then have n: "n \<in> {8, 16, 32, 64}" "0 < n" using ns(2) by auto
    then show ?thesis
      using widen_correct [OF n(2), of s a b oop] a b unfolding ns
      by (simp add: overflow_call_def)
  qed
qed

end
