(* ===== verification/CBlock.thy ===== *)
theory CBlock
  imports CGrammar Overflow
begin

text \<open>
  The C statements that the code generator writes as text: assignments, additions, local
  definitions, conditionals, counting loops, calls of the overflow helpers and stores through
  a pointer. A statement has its text, its reading by the C grammar and its execution. The
  state is the environment of the variables and the list of the stores done.
\<close>

section \<open>Statements and their texts\<close>

datatype cstep =
  Set string CExpr
| Bump string CExpr
| Define string string CExpr
| When CExpr cstep
| Overflowing string string CExpr CExpr string
| CountTo string nat cstep
| StoreTo string string nat CExpr

fun step_text :: "cstep \<Rightarrow> string" where
  "step_text (Set x e) = x @ '' = '' @ tree_text e @ '';''"
| "step_text (Bump x e) = x @ '' += '' @ tree_text e @ '';''"
| "step_text (Define t x e) = t @ '' '' @ x @ '' = '' @ tree_text e @ '';''"
| "step_text (When c s) = ''if ('' @ tree_text c @ '') '' @ step_text s"
| "step_text (Overflowing x f a b r) =
     x @ '' = '' @ f @ ''('' @ tree_text a @ '', '' @ tree_text b @ '', &'' @ r @ '');''"
| "step_text (CountTo i n s) =
     ''for ('' @ i @ '' = 0; '' @ i @ '' < '' @ nat_str n @ ''; '' @ i @ ''++) { '' @ step_text s @ '' }''"
| "step_text (StoreTo t p k e) =
     (if k = 0 then ''*(('' @ t @ '' *)'' @ p @ '') = '' @ tree_text e @ '';''
      else ''*(('' @ t @ '' *)((char *)'' @ p @ '' + '' @ nat_str k @ '')) = '' @ tree_text e @ '';'')"

text \<open>Blanks before a statement do not matter.\<close>

inductive reads_step :: "string set \<Rightarrow> string \<Rightarrow> cstep \<Rightarrow> bool" for ops where
  blank: "reads_step ops s st \<Longrightarrow> reads_step ops ('' '' @ s) st"
| set_to: "c_identifier x \<Longrightarrow> reads ops 13 s e \<Longrightarrow> reads_step ops (x @ '' = '' @ s @ '';'') (Set x e)"
| bump: "c_identifier x \<Longrightarrow> reads ops 13 s e \<Longrightarrow> reads_step ops (x @ '' += '' @ s @ '';'') (Bump x e)"
| define_as: "int_type_name t \<Longrightarrow> c_identifier x \<Longrightarrow> reads ops 13 s e \<Longrightarrow>
    reads_step ops (t @ '' '' @ x @ '' = '' @ s @ '';'') (Define t x e)"
| guarded: "reads ops 13 s e \<Longrightarrow> reads_step ops s' st \<Longrightarrow> reads_step ops (''if ('' @ s @ '') '' @ s') (When e st)"
| overflowing: "c_identifier x \<Longrightarrow> c_identifier f \<Longrightarrow> c_identifier r \<Longrightarrow> reads ops 13 s1 e1 \<Longrightarrow> reads ops 13 s2 e2 \<Longrightarrow>
    reads_step ops (x @ '' = '' @ f @ ''('' @ s1 @ '', '' @ s2 @ '', &'' @ r @ '');'') (Overflowing x f e1 e2 r)"
| count_to: "c_identifier i \<Longrightarrow> literal (nat_str n) = Some (CIntT 32 True, int n) \<Longrightarrow> reads_step ops s st \<Longrightarrow>
    reads_step ops (''for ('' @ i @ '' = 0; '' @ i @ '' < '' @ nat_str n @ ''; '' @ i @ ''++) { '' @ s @ '' }'')
      (CountTo i n st)"
| store_first: "int_type_name t \<Longrightarrow> p \<in> ops \<Longrightarrow> reads ops 13 s e \<Longrightarrow>
    reads_step ops (''*(('' @ t @ '' *)'' @ p @ '') = '' @ s @ '';'') (StoreTo t p 0 e)"
| store_at: "int_type_name t \<Longrightarrow> p \<in> ops \<Longrightarrow> reads ops 13 s e \<Longrightarrow> k \<noteq> 0 \<Longrightarrow>
    reads_step ops (''*(('' @ t @ '' *)((char *)'' @ p @ '' + '' @ nat_str k @ '')) = '' @ s @ '';'') (StoreTo t p k e)"

fun step_fits :: "string set \<Rightarrow> cstep \<Rightarrow> bool" where
  "step_fits ops (Set x e) = (c_identifier x \<and> fits ops 13 e)"
| "step_fits ops (Bump x e) = (c_identifier x \<and> fits ops 13 e)"
| "step_fits ops (Define t x e) = (int_type_name t \<and> c_identifier x \<and> fits ops 13 e)"
| "step_fits ops (When c s) = (fits ops 13 c \<and> step_fits ops s)"
| "step_fits ops (Overflowing x f a b r) =
     (c_identifier x \<and> c_identifier f \<and> c_identifier r \<and> fits ops 13 a \<and> fits ops 13 b)"
| "step_fits ops (CountTo i n s) = (c_identifier i \<and> n < 2 ^ 31 \<and> step_fits ops s)"
| "step_fits ops (StoreTo t p k e) = (int_type_name t \<and> p \<in> ops \<and> fits ops 13 e)"

section \<open>Literals\<close>

lemma literal_digits:
  "takeWhile is_digit (nat_str n) = nat_str n" "dropWhile is_digit (nat_str n) = []"
  using nat_str_digits [of _ n] by (auto simp: takeWhile_eq_all_conv)

lemma literal_suffix:
  assumes "s = ''U'' \<or> s = ''ULL'' \<or> s = ''LL''"
  shows "takeWhile is_digit (nat_str n @ s) = nat_str n" "dropWhile is_digit (nat_str n @ s) = s"
proof -
  have a: "\<And>c. c \<in> set (nat_str n) \<Longrightarrow> is_digit c" by (rule nat_str_digits)
  have s: "takeWhile is_digit s = []" "dropWhile is_digit s = s" using assms by (auto simp: digit_val_def)
  show "takeWhile is_digit (nat_str n @ s) = nat_str n" using a s(1) by (simp add: takeWhile_append2)
  show "dropWhile is_digit (nat_str n @ s) = s" using a s(2) by (simp add: dropWhile_append2)
qed

lemma literal_nat [simp]: "n < 2 ^ 31 \<Longrightarrow> literal (nat_str n) = Some (CIntT 32 True, int n)"
  unfolding literal_def literal_digits Let_def by (simp add: signed_take_bit_int_eq_self)

lemma step_reads: "step_fits ops s \<Longrightarrow> reads_step ops (step_text s) s"
proof (induction s)
  case (StoreTo t p k e)
  then show ?case
    using store_first [of t p ops "tree_text e" e] store_at [of t p ops "tree_text e" e k] tree_reads [of ops 13 e]
    by auto
next
  case (CountTo i n s)
  then show ?case using count_to [of i n ops "step_text s" s] by simp
qed (auto intro: reads_step.intros(2-6) [simplified append.simps] tree_reads)

section \<open>Execution\<close>

type_synonym cstate = "cenv \<times> (string \<times> nat \<times> cval) list"

text \<open>A variable has the type of its declaration, or else of the value it holds.\<close>

definition var_type :: "nat \<Rightarrow> string list \<Rightarrow> cenv \<Rightarrow> string \<Rightarrow> ctype option" where
  "var_type pb decls env x =
     (case declared_type pb decls x of Some t \<Rightarrow> Some t | None \<Rightarrow> map_option fst (env x))"

definition assign_var :: "nat \<Rightarrow> string list \<Rightarrow> string \<Rightarrow> cval \<Rightarrow> cstate \<Rightarrow> cstate option" where
  "assign_var pb decls x c st =
     do { t \<leftarrow> var_type pb decls (fst st) x; Some ((fst st)(x \<mapsto> (t, wrap t (snd c))), snd st) }"

text \<open>The overflow helpers by name; those of the pointer width are macros for sized ones.\<close>

definition helper_suffixes :: "nat \<Rightarrow> (string \<times> ctype) list" where
  "helper_suffixes pb =
     [(''i8'', CIntT 8 True), (''u8'', CIntT 8 False), (''i16'', CIntT 16 True), (''u16'', CIntT 16 False),
      (''i32'', CIntT 32 True), (''u32'', CIntT 32 False), (''i64'', CIntT 64 True), (''u64'', CIntT 64 False),
      (''i128'', CIntT 128 True), (''u128'', CIntT 128 False),
      (''isize'', CIntT pb True), (''usize'', CIntT pb False)]"

definition helper_named :: "nat \<Rightarrow> string \<Rightarrow> (OverflowOp \<times> ctype) option" where
  "helper_named pb f =
     do { oop \<leftarrow> map_of [(''__rustc_add_overflow_'', OvAdd), (''__rustc_sub_overflow_'', OvSub),
                      (''__rustc_mul_overflow_'', OvMul)] (take 21 f);
          t \<leftarrow> map_of (helper_suffixes pb) (drop 21 f);
          Some (oop, t) }"

text \<open>
  A helper converts its arguments to its type, stores the result through the pointer, which
  must point to that type, and returns whether it overflowed.
\<close>

definition call_helper ::
  "nat \<Rightarrow> string list \<Rightarrow> string \<Rightarrow> string \<Rightarrow> cval \<Rightarrow> cval \<Rightarrow> string \<Rightarrow> cstate \<Rightarrow> cstate option" where
  "call_helper pb decls x f a b r st =
     do { (oop, t) \<leftarrow> helper_named pb f;
          (v, overflowed) \<leftarrow> overflow_call oop t (wrap t (snd a)) (wrap t (snd b));
          rt \<leftarrow> var_type pb decls (fst st) r;
          if rt \<noteq> t then None
          else assign_var pb decls x (CBoolT, of_bool overflowed) ((fst st)(r \<mapsto> (t, v)), snd st) }"

text \<open>
  A counting loop, with fuel for its tests: a body that leaves the counter alone needs one more
  than the bound.
\<close>

primrec run_loop ::
  "nat \<Rightarrow> (cenv \<Rightarrow> bool option) \<Rightarrow> (cstate \<Rightarrow> cstate option) \<Rightarrow> cstate \<Rightarrow> cstate option" where
  "run_loop 0 test body st = None"
| "run_loop (Suc fuel) test body st =
     do { c \<leftarrow> test (fst st);
          if c then do { st \<leftarrow> body st; run_loop fuel test body st } else Some st }"

definition below :: "string \<Rightarrow> nat \<Rightarrow> cenv \<Rightarrow> bool option" where
  "below i n env =
     do { v \<leftarrow> env i; (_, b) \<leftarrow> bin Lt v (CIntT 32 True, int n); Some (b \<noteq> 0) }"

definition increment :: "nat \<Rightarrow> string list \<Rightarrow> string \<Rightarrow> cval \<Rightarrow> cstate \<Rightarrow> cstate option" where
  "increment pb decls x c st =
     do { u \<leftarrow> fst st x; w \<leftarrow> bin Add u c; assign_var pb decls x w st }"

primrec exec_step :: "nat \<Rightarrow> string list \<Rightarrow> cstep \<Rightarrow> cstate \<Rightarrow> cstate option" where
  "exec_step pb decls (Set x e) = (\<lambda>st. do { v \<leftarrow> eval pb (fst st) e; assign_var pb decls x v st })"
| "exec_step pb decls (Bump x e) = (\<lambda>st. do { v \<leftarrow> eval pb (fst st) e; increment pb decls x v st })"
| "exec_step pb decls (Define t x e) = (\<lambda>st.
     do { c \<leftarrow> type_name pb t; v \<leftarrow> eval pb (fst st) e;
          Some ((fst st)(x \<mapsto> (c, wrap c (snd v))), snd st) })"
| "exec_step pb decls (When e s) = (\<lambda>st.
     do { v \<leftarrow> eval pb (fst st) e; if snd v \<noteq> 0 then exec_step pb decls s st else Some st })"
| "exec_step pb decls (Overflowing x f a b r) = (\<lambda>st.
     do { u \<leftarrow> eval pb (fst st) a; v \<leftarrow> eval pb (fst st) b; call_helper pb decls x f u v r st })"
| "exec_step pb decls (CountTo i n s) = (\<lambda>st.
     do { st \<leftarrow> assign_var pb decls i (CIntT 32 True, 0) st;
          run_loop (Suc n) (below i n)
            (\<lambda>st. do { st \<leftarrow> exec_step pb decls s st; increment pb decls i (CIntT 32 True, 1) st }) st })"
| "exec_step pb decls (StoreTo t p k e) = (\<lambda>st.
     do { c \<leftarrow> type_name pb t; v \<leftarrow> eval pb (fst st) e;
          Some (fst st, snd st @ [(p, k, (c, wrap c (snd v)))]) })"

fun exec_steps :: "nat \<Rightarrow> string list \<Rightarrow> cstep list \<Rightarrow> cstate \<Rightarrow> cstate option" where
  "exec_steps pb decls [] st = Some st"
| "exec_steps pb decls (s # ss) st = do { st \<leftarrow> exec_step pb decls s st; exec_steps pb decls ss st }"

section \<open>Helpers by kind\<close>

lemma helper_of_suffix:
  "map_of (helper_suffixes pb) s = Some t \<Longrightarrow>
   helper_named pb (''__rustc_'' @ overflow_op_name oop @ ''_overflow_'' @ s) = Some (oop, t)"
  by (cases oop) (simp_all add: helper_named_def)

lemma sized_suffixes:
  assumes "w \<in> {8, 16, 32, 64, 128}"
  shows "map_of (helper_suffixes pb) (''i'' @ nat_str w) = Some (CIntT w True)"
    "map_of (helper_suffixes pb) (''u'' @ nat_str w) = Some (CIntT w False)"
  using assms
  by (elim insertE emptyE; simp add: helper_suffixes_def nat_str.simps digit_def)+

end
