(* ===== verification/BlockSem.thy ===== *)
theory BlockSem
  imports CBlock BuilderSem
begin

text \<open>
  What the statements that an operation adds to the current block compute, when they are
  several: they are read as steps and executed in order, with the declarations the operation
  adds. The overflow-checked operations and the saturating ones call a helper of the preamble.
\<close>

section \<open>Declarations\<close>

definition declare_text :: "string \<times> string \<Rightarrow> string" where
  "declare_text d = fst d @ '' '' @ snd d @ '';''"

lemma declare_text_inject:
  assumes "CHR '' '' \<notin> set x" "CHR '' '' \<notin> set y"
  shows "declare_text (s, x) = declare_text (t, y) \<longleftrightarrow> s = t \<and> x = y"
proof -
  have split: "takeWhile (\<lambda>c. c \<noteq> CHR '' '') (rev (declare_text (u, z))) = CHR '';'' # rev z"
    if "CHR '' '' \<notin> set z" for u z
  proof -
    have "takeWhile (\<lambda>c. c \<noteq> CHR '' '') (rev z @ CHR '' '' # rev u) = rev z"
      using that by (subst takeWhile_append2) auto
    then show ?thesis by (simp add: declare_text_def)
  qed
  show ?thesis
  proof
    assume e: "declare_text (s, x) = declare_text (t, y)"
    then have "CHR '';'' # rev x = CHR '';'' # rev y"
      using split [OF assms(1), of s] split [OF assms(2), of t] by simp
    then show "s = t \<and> x = y" using e by (simp add: declare_text_def)
  qed simp
qed

lemma declared_types:
  assumes x: "(t, x) \<in> set ds" and d: "distinct (map snd ds)" and b: "\<forall>y \<in> snd ` set ds. CHR '' '' \<notin> set y"
  shows "declared_type pb (map declare_text ds) x = type_name pb t"
proof -
  have bx: "CHR '' '' \<notin> set x" using x b by force
  have d_swap: "distinct (map fst (map prod.swap ds))" using d by (simp add: comp_def)
  have "s @ '' '' @ x @ '';'' \<in> set (map declare_text ds) \<longleftrightarrow> s = t" for s
  proof
    assume "s @ '' '' @ x @ '';'' \<in> set (map declare_text ds)"
    then obtain u y where y: "(u, y) \<in> set ds" "declare_text (s, x) = declare_text (u, y)"
      by (force simp: declare_text_def)
    then have "s = u" "x = y" using declare_text_inject [OF bx, of y s u] b by force+
    then show "s = t" using eq_key_imp_eq_value [OF d_swap, of x t u] x y(1) by force
  qed (use x in \<open>force simp: declare_text_def\<close>)
  then show ?thesis by (simp add: declared_type_def type_name_def find_map_of)
qed

lemma temp_name_blank: "CHR '' '' \<notin> set (temp_name i)"
  using nat_str_digits [of "CHR '' ''" i] by (auto simp: temp_name_def digit_val_def)

lemma temp_name_inject [simp]: "temp_name i = temp_name j \<longleftrightarrow> i = j"
  by (simp add: temp_name_def)

section \<open>Operations of several statements\<close>

text \<open>The line a statement is printed as; a raw statement is its own text.\<close>

fun line_of :: "CStmt \<Rightarrow> string option" where
  "line_of (Assign l e) = Some (CExpr_fmt l @ '' = '' @ CExpr_fmt e @ '';'')"
| "line_of (RawStmt s) = Some s"
| "line_of _ = None"

definition reads_line :: "string set \<Rightarrow> CStmt \<Rightarrow> cstep \<Rightarrow> bool" where
  "reads_line ops s st = (\<exists>l. line_of s = Some l \<and> reads_step ops l st)"

definition runs_block ::
  "Builder \<Rightarrow> CodegenCx \<Rightarrow> CodegenCx \<Rightarrow> (cenv \<Rightarrow> cstate option \<Rightarrow> bool) \<Rightarrow> bool" where
  "runs_block b cx cx' P =
     (\<exists>n ds ss sts. reach b (appends b ds ss) n cx cx' \<and>
        list_all2 (reads_line (operand_texts cx)) ss sts \<and>
        (\<forall>env. P env (exec_steps (pointer_bits cx) ds sts (env, []))))"

lemma runs_blockI:
  "reach b (appends b ds ss) n cx cx' \<Longrightarrow> list_all2 (reads_line (operand_texts cx)) ss sts \<Longrightarrow>
   (\<And>env. P env (exec_steps (pointer_bits cx) ds sts (env, []))) \<Longrightarrow> runs_block b cx cx' P"
  by (auto simp: runs_block_def)

text \<open>No variable but new temporaries changes; a text that is none of their names.\<close>

definition settled :: "CodegenCx \<Rightarrow> string \<Rightarrow> bool" where
  "settled cx s = (\<forall>j. fresh_temp cx j \<longrightarrow> s \<noteq> temp_name j)"

definition keeps_vars :: "CodegenCx \<Rightarrow> cenv \<Rightarrow> cenv \<Rightarrow> bool" where
  "keeps_vars cx env env' = (\<forall>x. settled cx x \<longrightarrow> env' x = env x)"

text \<open>An operand that has the value \<open>x\<close> of the type \<open>t\<close>, whatever its own type.\<close>

definition value_operand :: "cenv \<Rightarrow> string \<Rightarrow> ctype \<Rightarrow> int \<Rightarrow> bool" where
  "value_operand env l t x =
     (\<exists>m s. env l = Some (CIntT m s, x) \<and> 0 < m \<and> wrap (CIntT m s) x = x \<and> wrap t x = x)"

section \<open>Helpers by kind\<close>

lemma helper_of_kind:
  assumes "kind_ctype pb k = Some (CIntT w s)"
  shows "helper_named pb (overflow_helper oop k) = Some (oop, CIntT w s)"
proof (cases k)
  case (TInt n b)
  then have "w = c_bits n" "s = b" using assms by (auto simp: kind_ctype_def split: if_splits)
  then show ?thesis
    using TInt helper_of_suffix [OF sized_suffixes(1) [OF c_bits_cases [of n]], of pb oop]
      helper_of_suffix [OF sized_suffixes(2) [OF c_bits_cases [of n]], of pb oop]
    by (simp add: overflow_helper_def)
next
  case (TPtrWidth b)
  then have "w = pb" "s = b" using assms by (auto simp: kind_ctype_def)
  then show ?thesis
    using TPtrWidth helper_of_suffix [of pb "(if b then ''i'' else ''u'') @ ''size''" "CIntT pb b" oop]
    by (auto simp: overflow_helper_def helper_suffixes_def)
qed (use assms in \<open>auto simp: kind_ctype_def\<close>)

lemma helper_identifier: "c_identifier (overflow_helper oop k)"
proof -
  have d: "list_all ident_char (nat_str n)" for n
    using nat_str_digits [of _ n] by (auto simp: list_all_iff ident_char_def)
  have "list_all ident_char (overflow_suffix k)" using d
    by (cases k rule: overflow_suffix.cases) (simp_all add: ident_char_def digit_val_def)
  then have "list_all ident_char (overflow_helper oop k)"
    by (cases oop) (simp_all add: overflow_helper_def ident_char_def)
  then show ?thesis
    by (cases oop) (auto simp: c_identifier_def overflow_helper_def int_type_name_def int_types_def digit_val_def)
qed

section \<open>Extending a block\<close>

lemma extend_id: "reach b (appends b ds ss) m c0 cx \<Longrightarrow> reach b id n cx cx' \<Longrightarrow> reach b (appends b ds ss) (m + n) c0 cx'"
  using reach_trans [of b "appends b ds ss" m c0 cx id n cx'] by simp

lemma extend_decl:
  "reach b (appends b ds ss) m c0 cx \<Longrightarrow> reach b (appends b (ds @ [d]) ss) m c0 (local_decl b d cx)"
  using reach_trans [OF _ reach_local_decl [OF reach_wf], of b "appends b ds ss" m c0 cx b "appends b ds ss" m c0 d]
  by simp

lemma extend_emit:
  "reach b (appends b ds ss) m c0 cx \<Longrightarrow> reach b (appends b ds (ss @ [s])) m c0 (emit b s cx)"
  using reach_trans [OF _ reach_emit [OF reach_wf], of b "appends b ds ss" m c0 cx b "appends b ds ss" m c0 s]
  by simp

lemma start_block: "cx_wf cx \<Longrightarrow> reach b (appends b [] []) 0 cx cx"
  using reach_refl [of cx b] by (simp add: appends_nil)

text \<open>A new temporary on the way: its number is new at the start and differs from earlier ones.\<close>

lemma extend_temp:
  assumes r: "reach b (appends b ds ss) m c0 cx" and rm: "room (m + n) c0" "0 < n" and t: "tval cx ty"
  shows "\<exists>v cx' i. new_temp ty cx = (v, cx') \<and> reach b (appends b ds ss) (m + 1) c0 cx' \<and> fresh_temp c0 i \<and>
    fresh_temp cx i \<and> vs_get (cx_values cx') v = Some \<lparr>v_kind = Temp i, v_ty = ty\<rparr> \<and>
    render_value cx' v = Some (temp_name i) \<and> reach b id 1 cx cx'"
proof -
  obtain v cx' where nt: "new_temp ty cx = (v, cx')" by (cases "new_temp ty cx")
  have "room 1 cx" using reach_room [OF r rm(1)] by (rule room_mono) (use rm(2) in simp)
  from new_temp_reach [OF reach_wf [OF r] this t nt, of b] show ?thesis
    using nt extend_id [OF r] fresh_temp_reach [OF r] by blast
qed

lemma emitted_text [simp]:
  "render_value (emit b s cx) v = render_value cx v" "render_value (local_decl b d cx) v = render_value cx v"
  by (simp_all add: emit_def local_decl_def with_current_fn_def render_value_def Let_def)

lemma temps_differ:
  "vs_get (cx_values cx) v = Some \<lparr>v_kind = Temp i, v_ty = t\<rparr> \<Longrightarrow> fresh_temp cx j \<Longrightarrow> i \<noteq> j"
  unfolding fresh_temp_def by force

section \<open>Overflow-checked operations\<close>

text \<open>The exact result lies outside the type.\<close>

definition overflows :: "OverflowOp \<Rightarrow> ctype \<Rightarrow> int \<Rightarrow> int \<Rightarrow> bool" where
  "overflows oop t x y = (wrap t (op_fun oop x y) \<noteq> op_fun oop x y)"

text \<open>The helper's quotient overflows in this one case.\<close>

definition helper_defined :: "OverflowOp \<Rightarrow> ctype \<Rightarrow> int \<Rightarrow> int \<Rightarrow> bool" where
  "helper_defined oop t x y = (oop \<noteq> OvMul \<or> t \<noteq> CIntT 128 True \<or> x \<noteq> -1 \<or> y \<noteq> - (2 ^ 127))"

lemma call_helper_value:
  assumes h: "helper_named pb f = Some (oop, CIntT w s)" and w: "w \<in> {8, 16, 32, 64, 128}"
    and v: "wrap (CIntT w s) x = x" "wrap (CIntT w s) y = y" "helper_defined oop (CIntT w s) x y"
    and r: "var_type pb ds env r = Some (CIntT w s)"
    and o: "var_type pb ds (env(r \<mapsto> (CIntT w s, wrap (CIntT w s) (op_fun oop x y)))) z = Some u"
  shows "call_helper pb ds z f (t1, x) (t2, y) r (env, out) =
    Some (env(r \<mapsto> (CIntT w s, wrap (CIntT w s) (op_fun oop x y)),
          z \<mapsto> (u, wrap u (of_bool (overflows oop (CIntT w s) x y)))), out)"
proof -
  have "overflow_call oop (CIntT w s) x y =
      Some (wrap (CIntT w s) (op_fun oop x y), overflows oop (CIntT w s) x y)"
    unfolding overflows_def using w v(3)
    by (intro overflow_call_correct v(1,2)) (auto simp: helper_defined_def)
  then show ?thesis using h r o v by (simp add: call_helper_def assign_var_def del: wrap.simps)
qed

lemma kind_text:
  assumes "cx_wf cx" "tval cx ty" "kind_of cx ty = Some k" "kind_ctype (pointer_bits cx) k = Some c"
  shows "\<exists>t. render_type cx ty = Some t \<and> type_name (pointer_bits cx) t = Some c"
  using type_text_total [OF assms(1,2)] type_name_of_kind [OF assms(3) _ assms(4)] by blast

lemma checked_binop_block:
  assumes wf: "cx_wf cx" "room 4 cx" and ty: "type_of_value cx lhs = Some ty" "kind_of cx ty = Some k"
    and tx: "render_value cx lhs = Some l" "render_value cx rhs = Some r"
    and c: "kind_ctype (pointer_bits cx) k = Some (CIntT w s)" and w: "w \<in> {8, 16, 32, 64, 128}"
  shows "\<exists>u v cx' i j. checked_binop b oop lhs rhs cx = Some ((u, v), cx') \<and>
    render_value cx' u = Some (temp_name i) \<and> render_value cx' v = Some (temp_name j) \<and>
    runs_block b cx cx' (\<lambda>env m. \<forall>x y. value_operand env l (CIntT w s) x \<and> value_operand env r (CIntT w s) y \<and>
      helper_defined oop (CIntT w s) x y \<longrightarrow>
      (\<exists>env'. m = Some (env', []) \<and> keeps_vars cx env env' \<and>
         env' (temp_name i) = Some (CIntT w s, wrap (CIntT w s) (op_fun oop x y)) \<and>
         env' (temp_name j) = Some (CBoolT, of_bool (overflows oop (CIntT w s) x y))))"
proof -
  let ?pb = "pointer_bits cx"
  note tv = type_tval [OF wf(1) ty(1)]
  obtain t where t: "render_type cx ty = Some t" "type_name ?pb t = Some (CIntT w s)"
    using kind_text [OF wf(1) tv ty(2) c] by blast
  have rm: "room (0 + 4) cx" "room (0 + 1 + 3) cx" "room (0 + 1 + 1 + 2) cx" using wf(2) by (simp_all add: numeral_eq_Suc)
  obtain u cx1 i where n1: "new_temp ty cx = (u, cx1)" "reach b (appends b [] []) (0 + 1) cx cx1" "fresh_temp cx i"
    "vs_get (cx_values cx1) u = Some \<lparr>v_kind = Temp i, v_ty = ty\<rparr>" "render_value cx1 u = Some (temp_name i)"
    "reach b id 1 cx cx1"
    using extend_temp [OF start_block [OF wf(1), of b] rm(1) _ tv] by auto
  let ?d1 = "declare_text (t, temp_name i)"
  let ?cx2 = "local_decl b ?d1 cx1"
  note r2 = extend_decl [OF n1(2), of ?d1]
  note id2 = reach_local_decl [OF reach_wf [OF n1(2)], of b ?d1]
  obtain bt cx3 where i3: "intern_type TBool ?cx2 = (bt, cx3)" by (cases "intern_type TBool ?cx2")
  have "room 1 ?cx2" using reach_room [OF r2 rm(2)] by (rule room_mono) simp
  from intern_type_reach [OF reach_wf [OF r2] this _ _ i3, of b]
  have id3: "reach b id 1 ?cx2 cx3" and bt: "tval cx3 bt" by auto
  note r3 = extend_id [OF r2 id3]
  obtain v cx4 j where n4: "new_temp bt cx3 = (v, cx4)" "reach b (appends b ([] @ [?d1]) []) (0 + 1 + 1 + 1) cx cx4"
    "fresh_temp cx j" "fresh_temp cx3 j" "render_value cx4 v = Some (temp_name j)" "reach b id 1 cx3 cx4"
    using extend_temp [OF r3 rm(3) _ bt] by auto
  let ?d2 = "declare_text (''_Bool'', temp_name j)"
  let ?cx5 = "local_decl b ?d2 cx4"
  let ?s = "Assign (Var (temp_name j)) (Call (Var (overflow_helper oop k)) [Var l, Var r, AddrOf (Var (temp_name i))])"
  note r5 = extend_emit [OF extend_decl [OF n4(2), of ?d2], of ?s]
  have ij: "i \<noteq> j"
    using temps_differ [OF reach_get [OF id3 reach_get [OF id2 n1(4)]] n4(4)] .
  let ?ds = "[?d1, ?d2]"
  let ?st = "Overflowing (temp_name j) (overflow_helper oop k) (Var l) (Var r) (temp_name i)"
  have rd: "reads_line (operand_texts cx) ?s ?st"
  proof -
    have "reads (operand_texts cx) 13 l (Var l)" "reads (operand_texts cx) 13 r (Var r)"
      using tx by (auto intro: reads.operand)
    from reads_step.overflowing [OF temp_name_identifier helper_identifier temp_name_identifier this]
    show ?thesis by (simp add: reads_line_def)
  qed
  have dt: "declared_type ?pb ?ds (temp_name i) = Some (CIntT w s)" "declared_type ?pb ?ds (temp_name j) = Some CBoolT"
    using declared_types [of t "temp_name i" "[(t, temp_name i), (''_Bool'', temp_name j)]" ?pb]
      declared_types [of "''_Bool''" "temp_name j" "[(t, temp_name i), (''_Bool'', temp_name j)]" ?pb]
      t(2) ij temp_name_blank other_type_names by simp_all
  have ex: "\<exists>env'. exec_steps ?pb ?ds [?st] (env, []) = Some (env', []) \<and> keeps_vars cx env env' \<and>
         env' (temp_name i) = Some (CIntT w s, wrap (CIntT w s) (op_fun oop x y)) \<and>
         env' (temp_name j) = Some (CBoolT, of_bool (overflows oop (CIntT w s) x y))"
    if "value_operand env l (CIntT w s) x" "value_operand env r (CIntT w s) y" "helper_defined oop (CIntT w s) x y"
    for env x y
  proof -
    from that obtain t1 t2 where e: "env l = Some (t1, x)" "env r = Some (t2, y)"
      and v: "wrap (CIntT w s) x = x" "wrap (CIntT w s) y = y"
      by (auto simp: value_operand_def)
    note call_helper_value [OF helper_of_kind [OF c] w v that(3), of ?ds env "temp_name i" "temp_name j" CBoolT t1 t2 "[]"]
    then show ?thesis
      using e dt ij n1(3) n4(3) by (auto simp: var_type_def keeps_vars_def settled_def simp del: wrap.simps(2,3))
  qed
  have res: "checked_binop b oop lhs rhs cx = Some ((u, v), emit b ?s ?cx5)"
    using n1 i3 n4 ty t tx reach_text [OF n1(6)] reach_type_text [OF n1(6)] reach_kind [OF n1(6)]
      reach_text [OF id2] reach_kind [OF id2]
    by (simp add: checked_binop_def declare_text_def)
  have "render_value (emit b ?s ?cx5) u = Some (temp_name i)" "render_value (emit b ?s ?cx5) v = Some (temp_name j)"
    using n1(5) n4(5) reach_text [OF n4(6) reach_text [OF id3 reach_text [OF id2 n1(5)]]] by simp_all
  moreover have "runs_block b cx (emit b ?s ?cx5) (\<lambda>env m. \<forall>x y. value_operand env l (CIntT w s) x \<and> value_operand env r (CIntT w s) y \<and>
      helper_defined oop (CIntT w s) x y \<longrightarrow>
      (\<exists>env'. m = Some (env', []) \<and> keeps_vars cx env env' \<and>
         env' (temp_name i) = Some (CIntT w s, wrap (CIntT w s) (op_fun oop x y)) \<and>
         env' (temp_name j) = Some (CBoolT, of_bool (overflows oop (CIntT w s) x y))))"
    by (rule runs_blockI [of b ?ds "[?s]" _ _ _ "[?st]"]) (use r5 rd ex in \<open>simp, simp, blast\<close>)
  ultimately show ?thesis using res by blast
qed

end
