(* ===== verification/PopCount.thy ===== *)
theory PopCount
  imports BitHelpers
begin

text \<open>
  The parallel count of ones of the preamble is the number of ones: each step adds
  neighbouring digits of a number in base \<open>2 ^ n\<close>, and the final product sums the bytes.
\<close>

section \<open>Digits\<close>

text \<open>The sum of the first \<open>k\<close> digits in base \<open>2 ^ n\<close>, and digits that are bounded.\<close>

fun digit_sum :: "nat \<Rightarrow> nat \<Rightarrow> nat \<Rightarrow> nat" where
  "digit_sum n 0 x = 0"
| "digit_sum n (Suc k) x = x mod 2 ^ n + digit_sum n k (x div 2 ^ n)"

fun digits_le :: "nat \<Rightarrow> nat \<Rightarrow> nat \<Rightarrow> nat \<Rightarrow> bool" where
  "digits_le n 0 d x = (x = 0)"
| "digits_le n (Suc k) d x = (x mod 2 ^ n \<le> d \<and> digits_le n k d (x div 2 ^ n))"

text \<open>The mask of every second digit, and the sum of each two neighbours.\<close>

fun digit_mask :: "nat \<Rightarrow> nat \<Rightarrow> nat" where
  "digit_mask n 0 = 0"
| "digit_mask n (Suc k) = (2 ^ n - 1) + 2 ^ (2 * n) * digit_mask n k"

fun pair_sums :: "nat \<Rightarrow> nat \<Rightarrow> nat \<Rightarrow> nat" where
  "pair_sums n 0 x = 0"
| "pair_sums n (Suc k) x =
     (x mod 2 ^ n + x div 2 ^ n mod 2 ^ n) + 2 ^ (2 * n) * pair_sums n k (x div 2 ^ (2 * n))"

lemma digit_mask_numeral:
  "digit_mask n (numeral k) = (2 ^ n - 1) + 2 ^ (2 * n) * digit_mask n (pred_numeral k)"
  by (simp add: numeral_eq_Suc)

lemma and_split:
  "(x::nat) AND y = (x mod 2 ^ n AND y mod 2 ^ n) + 2 ^ n * (x div 2 ^ n AND y div 2 ^ n)"
proof -
  have "(x AND y) mod 2 ^ n = (x mod 2 ^ n AND y mod 2 ^ n)"
    using take_bit_and [of n x y] by (simp only: take_bit_eq_mod)
  moreover have "(x AND y) div 2 ^ n = (x div 2 ^ n AND y div 2 ^ n)"
    using drop_bit_and [of n x y] by (simp only: drop_bit_eq_div)
  ultimately show ?thesis by (metis add.commute mult.commute div_mult_mod_eq)
qed

lemma digit_mask_mod: "digit_mask n (Suc k) mod 2 ^ (2 * n) = 2 ^ n - 1"
  and digit_mask_div: "digit_mask n (Suc k) div 2 ^ (2 * n) = digit_mask n k"
proof -
  have "(2::nat) ^ n \<le> 2 ^ (2 * n)" by (intro power_increasing) auto
  then have lt: "(2::nat) ^ n - 1 < 2 ^ (2 * n)" using zero_less_power [of "2::nat" n] by linarith
  show "digit_mask n (Suc k) mod 2 ^ (2 * n) = 2 ^ n - 1"
    by (simp only: digit_mask.simps mod_mult_self2 mod_less [OF lt])
  have "(2::nat) ^ (2 * n) \<noteq> 0" by simp
  then show "digit_mask n (Suc k) div 2 ^ (2 * n) = digit_mask n k"
    by (simp only: digit_mask.simps div_mult_self2 div_less [OF lt] add_0_right not_False_eq_True)
qed

lemma and_low: "(x::nat) AND (2 ^ n - 1) = x mod 2 ^ n"
  unfolding mask_eq_exp_minus_1 [symmetric] take_bit_eq_mask [symmetric] by (rule take_bit_eq_mod)

lemma mod_double: "(x::nat) mod 2 ^ (2 * n) mod 2 ^ n = x mod 2 ^ n"
  by (simp add: mult_2 power_add mod_mult2_eq)

lemma and_mask_step:
  "x AND digit_mask n (Suc k) = x mod 2 ^ n + 2 ^ (2 * n) * (x div 2 ^ (2 * n) AND digit_mask n k)"
  by (subst and_split [of _ _ "2 * n"]) (simp only: digit_mask_mod digit_mask_div and_low mod_double)

lemma div_swap: "(x::nat) div 2 ^ n div 2 ^ m = x div 2 ^ m div 2 ^ n"
  by (simp flip: div_mult2_eq) (simp add: mult.commute)

text \<open>Adding the even digits and the odd digits adds neighbours.\<close>

lemma pair_sums_and:
  "(x AND digit_mask n k) + (x div 2 ^ n AND digit_mask n k) = pair_sums n k x"
proof (induction k arbitrary: x)
  case (Suc k)
  then show ?case using div_swap [of x n "2 * n"]
    by (simp add: and_mask_step algebra_simps del: digit_mask.simps flip: Suc.IH)
qed simp

lemma split_binary:
  "x < 2 ^ (2 * k) \<Longrightarrow> x = (x AND digit_mask 1 k) + 2 * (x div 2 AND digit_mask 1 k)"
proof (induction k arbitrary: x)
  case (Suc k)
  have "x div 4 < 2 ^ (2 * k)" using Suc.prems by (simp add: less_mult_imp_div_less)
  from Suc.IH [OF this] and_mask_step [of x 1 k] and_mask_step [of "x div 2" 1 k]
  have "(x AND digit_mask 1 (Suc k)) + 2 * (x div 2 AND digit_mask 1 (Suc k)) =
      x mod 2 + 2 * (x div 2 mod 2) + 4 * (x div 4)"
    using div_swap [of x 1 2] by (simp del: digit_mask.simps)
  also have "\<dots> = x" by presburger
  finally show ?case by simp
qed simp

lemma first_step: "x < 2 ^ (2 * k) \<Longrightarrow> x - (x div 2 AND digit_mask 1 k) = pair_sums 1 k x"
  using split_binary [of x k] pair_sums_and [of x 1 k] by simp

lemma last_step:
  assumes "digits_le n (2 * k) d x" "2 * d < 2 ^ n"
  shows "(x + x div 2 ^ n) AND digit_mask n k = pair_sums n k x"
  using assms(1)
proof (induction k arbitrary: x)
  case (Suc k)
  define B where "B = (2::nat) ^ n"
  have B: "2 ^ (2 * n) = B * B" by (simp add: B_def mult_2 power_add)
  let ?a = "x mod B" and ?b = "x div B mod B" and ?y = "x div (B * B)"
  have y: "?y = x div B div B" by (simp add: div_mult2_eq)
  have D: "?a \<le> d" "?b \<le> d" "digits_le n (2 * k) d ?y"
    using Suc.prems by (simp_all add: B_def [symmetric] y)
  have c: "?y mod B \<le> d" using D(3) by (cases k) (auto simp: B_def)
  have xd: "x div B = ?b + B * ?y" using div_mult_mod_eq [of "x div B" B] by (simp add: y mult.commute)
  have "x = ?a + B * (x div B)" by simp
  also have "\<dots> = ?a + B * ?b + B * B * ?y" by (subst xd) (simp add: algebra_simps)
  finally have x: "x = ?a + B * ?b + B * B * ?y" .
  have "B * ?y = B * (?y mod B + B * (?y div B))" by (simp only: mod_mult_div_eq)
  also have "\<dots> = B * (?y mod B) + B * B * (?y div B)" by (simp only: distrib_left mult.assoc)
  finally have ys: "B * ?y = B * (?y mod B) + B * B * (?y div B)" .
  let ?low = "(?a + ?b) + B * (?b + ?y mod B)"
  have s: "x + x div B = ?low + B * B * (?y + ?y div B)"
    using x xd ys by (simp only: distrib_left)
  have d: "2 * d < B" using assms(2) by (simp add: B_def)
  have lt: "?a + ?b < B" "?b + ?y mod B < B" using D(1,2) c d by linarith+
  have "?low < B * B"
  proof -
    have "?low < B + B * (?b + ?y mod B)" using lt(1) by simp
    also have "\<dots> = B * Suc (?b + ?y mod B)" by simp
    also have "\<dots> \<le> B * B" using lt(2) by (intro mult_left_mono) auto
    finally show ?thesis .
  qed
  then have m: "(x + x div B) div (B * B) = ?y + ?y div B" by (subst s) (use d in simp)
  have l: "(x + x div B) mod B = ?a + ?b" by (subst s) (simp add: mult.assoc lt)
  show ?case
    using Suc.IH [OF D(3)] and_mask_step [of "x + x div B" n k]
    by (simp add: B l m del: digit_mask.simps flip: B_def)
qed simp

text \<open>Adding neighbours keeps the sum of the digits, when they do not carry.\<close>

lemma digits_le_pair:
  assumes "digits_le n (2 * k) d x" "2 * d < 2 ^ (2 * n)"
  shows "digits_le (2 * n) k (2 * d) (pair_sums n k x) \<and>
    digit_sum (2 * n) k (pair_sums n k x) = digit_sum n (2 * k) x"
  using assms(1)
proof (induction k arbitrary: x)
  case (Suc k)
  have y: "x div 2 ^ (2 * n) = x div 2 ^ n div 2 ^ n" by (simp add: mult_2 power_add div_mult2_eq)
  have D: "x mod 2 ^ n \<le> d" "x div 2 ^ n mod 2 ^ n \<le> d" "digits_le n (2 * k) d (x div 2 ^ (2 * n))"
    using Suc.prems by (simp_all add: y)
  then have "x mod 2 ^ n + x div 2 ^ n mod 2 ^ n < 2 ^ (2 * n)" using assms(2) by linarith
  then show ?case using Suc.IH [OF D(3)] D(1,2) by (simp add: y)
qed simp

lemma digits_le_one: "x < 2 ^ k \<Longrightarrow> digits_le 1 k 1 x"
proof (induction k arbitrary: x)
  case (Suc k)
  then have "x div 2 < 2 ^ k" by (simp add: less_mult_imp_div_less)
  then show ?case using Suc.IH by simp
qed simp

lemma digit_sum_card: "digit_sum 1 k x = card {i. i < k \<and> bit x i}"
proof (induction k arbitrary: x)
  case (Suc k)
  have "{i. i < Suc k \<and> bit x i} = {i. i = 0 \<and> odd x} \<union> Suc ` {i. i < k \<and> bit (x div 2) i}"
    by (auto simp: bit_0 bit_Suc image_iff less_Suc_eq_0_disj)
  moreover have "card (Suc ` {i. i < k \<and> bit (x div 2) i}) = digit_sum (Suc 0) k (x div 2)"
    using Suc.IH [of "x div 2"] by (simp add: card_image)
  moreover have "card {i::nat. i = 0 \<and> odd x} = x mod 2" by (cases "even x") (auto simp: odd_iff_mod_2_eq_one)
  moreover have "card ({i::nat. i = 0 \<and> odd x} \<union> Suc ` {i. i < k \<and> bit (x div 2) i}) =
      card {i::nat. i = 0 \<and> odd x} + card (Suc ` {i. i < k \<and> bit (x div 2) i})"
    by (rule card_Un_disjoint) auto
  ultimately show ?case by simp
qed simp


section \<open>The helpers count ones\<close>

text \<open>The top byte of the product with \<open>0x01..01\<close>, given the product's three parts.\<close>

lemma top_byte:
  assumes "p = l + h * t + h * 256 * u" "l < h" "t < (256::nat)"
  shows "p mod (h * 256) div h = t"
proof -
  have "h * t + h \<le> h * 256" using assms(3) mult_le_mono2 [of "t + 1" 256 h] by simp
  then have "l + h * t < h * 256" using assms(2) by linarith
  then have "p mod (h * 256) = l + h * t" using assms(1) by (simp add: mod_less)
  then show ?thesis using assms(2) by simp
qed

lemma sum_bytes32:
  fixes x :: "32 word"
  assumes "digits_le 8 4 8 (unat x)"
  shows "unat (drop_bit 24 (x * 0x01010101)) = digit_sum 8 4 (unat x)"
proof -
  have four: "(4::nat) = Suc (Suc (Suc (Suc 0)))" by simp
  define w :: nat where "w = 8"
  define y where "y = unat x"
  define y1 y2 y3 where "y1 = y div 2 ^ w" and "y2 = y1 div 2 ^ w" and "y3 = y2 div 2 ^ w"
  note ys = this
  define d0 d1 d2 d3 where "d0 = y mod 2 ^ w" and "d1 = y1 mod 2 ^ w" and "d2 = y2 mod 2 ^ w"
    and "d3 = y3 mod 2 ^ w"
  note ds = this
  have dg: "digits_le w (Suc (Suc (Suc (Suc 0)))) 8 y"
    using assms by (simp add: w_def y_def flip: four)
  have le: "d0 \<le> 8" "d1 \<le> 8" "d2 \<le> 8" "d3 \<le> 8" and z: "y3 div 2 ^ w = 0"
    using dg unfolding digits_le.simps ys ds by simp_all
  have "digit_sum w (Suc (Suc (Suc (Suc 0)))) y = d0 + d1 + d2 + d3"
    unfolding digit_sum.simps ys ds by simp
  then have s: "digit_sum 8 4 y = d0 + d1 + d2 + d3" by (simp add: w_def flip: four)
  have step: "u = u mod 2 ^ w + 256 * (u div 2 ^ w)" for u :: nat by (simp add: w_def)
  have "y3 = d3" using step [of y3] z by (simp add: ds)
  then have "y2 = d2 + 256 * d3" using step [of y2] by (simp only: ds ys)
  then have "y1 = d1 + 256 * (d2 + 256 * d3)" using step [of y1] by (simp only: ds ys)
  then have x: "y = d0 + 256 * (d1 + 256 * (d2 + 256 * d3))" using step [of y] by (simp only: ds ys)
  have "y * 0x01010101 = (d0 + (d0 + d1) * 2 ^ 8 + (d0 + d1 + d2) * 2 ^ 16)
      + 2 ^ 24 * (d0 + d1 + d2 + d3)
      + 2 ^ 24 * 256 * ((d1 + d2 + d3) + (d2 + d3) * 2 ^ 8 + d3 * 2 ^ 16)"
    unfolding x by (simp add: algebra_simps)
  from top_byte [OF this] have "y * 0x01010101 mod (2 ^ 24 * 256) div 2 ^ 24 = d0 + d1 + d2 + d3"
    using le by simp
  then show ?thesis using s by (simp add: unat_drop unat_word_ariths y_def)
qed

lemma sum_bytes64:
  fixes x :: "64 word"
  assumes "digits_le 8 8 8 (unat x)"
  shows "unat (drop_bit 56 (x * 0x0101010101010101)) = digit_sum 8 8 (unat x)"
proof -
  have eight: "(8::nat) = Suc (Suc (Suc (Suc (Suc (Suc (Suc (Suc 0)))))))" by simp
  define w :: nat where "w = 8"
  define y where "y = unat x"
  define y1 y2 y3 y4 y5 y6 y7 where "y1 = y div 2 ^ w" and "y2 = y1 div 2 ^ w" and "y3 = y2 div 2 ^ w"
    and "y4 = y3 div 2 ^ w" and "y5 = y4 div 2 ^ w" and "y6 = y5 div 2 ^ w" and "y7 = y6 div 2 ^ w"
  note ys = this
  define d0 d1 d2 d3 d4 d5 d6 d7 where "d0 = y mod 2 ^ w" and "d1 = y1 mod 2 ^ w" and "d2 = y2 mod 2 ^ w"
    and "d3 = y3 mod 2 ^ w" and "d4 = y4 mod 2 ^ w" and "d5 = y5 mod 2 ^ w" and "d6 = y6 mod 2 ^ w"
    and "d7 = y7 mod 2 ^ w"
  note ds = this
  have dg: "digits_le w (Suc (Suc (Suc (Suc (Suc (Suc (Suc (Suc 0)))))))) 8 y"
    using assms by (simp add: w_def y_def flip: eight)
  have le: "d0 \<le> 8" "d1 \<le> 8" "d2 \<le> 8" "d3 \<le> 8" "d4 \<le> 8" "d5 \<le> 8" "d6 \<le> 8" "d7 \<le> 8"
    and z: "y7 div 2 ^ w = 0"
    using dg unfolding digits_le.simps ys ds by simp_all
  have "digit_sum w (Suc (Suc (Suc (Suc (Suc (Suc (Suc (Suc 0)))))))) y =
      d0 + d1 + d2 + d3 + d4 + d5 + d6 + d7"
    unfolding digit_sum.simps ys ds by simp
  then have s: "digit_sum 8 8 y = d0 + d1 + d2 + d3 + d4 + d5 + d6 + d7" by (simp add: w_def flip: eight)
  have step: "u = u mod 2 ^ w + 256 * (u div 2 ^ w)" for u :: nat by (simp add: w_def)
  have "y7 = d7" using step [of y7] z by (simp add: ds)
  then have "y6 = d6 + 256 * d7" using step [of y6] by (simp only: ds ys)
  then have "y5 = d5 + 256 * (d6 + 256 * d7)" using step [of y5] by (simp only: ds ys)
  then have "y4 = d4 + 256 * (d5 + 256 * (d6 + 256 * d7))" using step [of y4] by (simp only: ds ys)
  then have "y3 = d3 + 256 * (d4 + 256 * (d5 + 256 * (d6 + 256 * d7)))"
    using step [of y3] by (simp only: ds ys)
  then have "y2 = d2 + 256 * (d3 + 256 * (d4 + 256 * (d5 + 256 * (d6 + 256 * d7))))"
    using step [of y2] by (simp only: ds ys)
  then have "y1 = d1 + 256 * (d2 + 256 * (d3 + 256 * (d4 + 256 * (d5 + 256 * (d6 + 256 * d7)))))"
    using step [of y1] by (simp only: ds ys)
  then have x: "y = d0 + 256 * (d1 + 256 * (d2 + 256 * (d3 + 256 * (d4 + 256 * (d5 + 256 * (d6 + 256 * d7))))))"
    using step [of y] by (simp only: ds ys)
  have "y * 0x0101010101010101 =
      (d0 + (d0 + d1) * 2 ^ 8 + (d0 + d1 + d2) * 2 ^ 16 + (d0 + d1 + d2 + d3) * 2 ^ 24
       + (d0 + d1 + d2 + d3 + d4) * 2 ^ 32 + (d0 + d1 + d2 + d3 + d4 + d5) * 2 ^ 40
       + (d0 + d1 + d2 + d3 + d4 + d5 + d6) * 2 ^ 48)
      + 2 ^ 56 * (d0 + d1 + d2 + d3 + d4 + d5 + d6 + d7)
      + 2 ^ 56 * 256 * ((d1 + d2 + d3 + d4 + d5 + d6 + d7) + (d2 + d3 + d4 + d5 + d6 + d7) * 2 ^ 8
        + (d3 + d4 + d5 + d6 + d7) * 2 ^ 16 + (d4 + d5 + d6 + d7) * 2 ^ 24 + (d5 + d6 + d7) * 2 ^ 32
        + (d6 + d7) * 2 ^ 40 + d7 * 2 ^ 48)"
    unfolding x by (simp add: algebra_simps)
  from top_byte [OF this] have "y * 0x0101010101010101 mod (2 ^ 56 * 256) div 2 ^ 56 =
      d0 + d1 + d2 + d3 + d4 + d5 + d6 + d7"
    using le by simp
  then show ?thesis using s by (simp add: unat_drop unat_word_ariths y_def)
qed

lemma digits_le_bound: "digits_le n k d x \<Longrightarrow> x * (2 ^ n - 1) + d \<le> d * 2 ^ (n * k)"
proof (induction k arbitrary: x)
  case (Suc k)
  let ?B = "(2::nat) ^ n" and ?y = "x div 2 ^ n"
  have "x * (?B - 1) + d = (x mod ?B) * (?B - 1) + (?B * ?y) * (?B - 1) + d"
    by (simp only: mod_mult_div_eq flip: add_mult_distrib)
  also have "\<dots> \<le> d * (?B - 1) + (?B * ?y) * (?B - 1) + d" using Suc.prems by simp
  also have "d * (?B - 1) + (?B * ?y) * (?B - 1) + d = d * ?B + ?B * (?y * (?B - 1))"
    using zero_less_power [of "2::nat" n] by (cases ?B) (auto simp: algebra_simps)
  also have "\<dots> = ?B * (?y * (?B - 1) + d)" by (simp add: algebra_simps)
  also have "\<dots> \<le> ?B * (d * 2 ^ (n * k))" using Suc by (intro mult_left_mono) auto
  also have "\<dots> = d * 2 ^ (n * Suc k)" by (simp add: power_add)
  finally show ?case .
qed simp

lemma unat_and: "unat (a AND b) = unat a AND unat b"
  by (simp add: unsigned_and_eq)

text \<open>The three masked additions, on words of \<open>m\<close> bytes.\<close>

lemma parallel_sums:
  fixes x :: "'a::len word"
  assumes w: "LENGTH('a) = 8 * m" and m5: "unat m5 = digit_mask 1 (4 * m)"
    and m3: "unat m3 = digit_mask 2 (2 * m)" and mF: "unat mF = digit_mask 4 m"
    and y: "y = x - (drop_bit 1 x AND m5)" and z: "z = (y AND m3) + (drop_bit 2 y AND m3)"
    and v: "v = (z + drop_bit 4 z) AND mF"
  shows "digits_le 8 m 8 (unat v) \<and> digit_sum 8 m (unat v) = card {i. bit x i}"
proof -
  have x: "unat x < 2 ^ (8 * m)" using unsigned_less [of x] by (simp add: w)
  let ?s1 = "pair_sums 1 (4 * m) (unat x)"
  have d1: "digits_le 1 (2 * (4 * m)) 1 (unat x)" using digits_le_one [OF x] by simp
  have p1: "digits_le 2 (2 * (2 * m)) 2 ?s1 \<and> digit_sum 2 (2 * (2 * m)) ?s1 = digit_sum 1 (8 * m) (unat x)"
    using digits_le_pair [OF d1] by simp
  let ?s2 = "pair_sums 2 (2 * m) ?s1"
  have p2: "digits_le 4 (2 * m) 4 ?s2 \<and> digit_sum 4 (2 * m) ?s2 = digit_sum 1 (8 * m) (unat x)"
    using digits_le_pair [of 2 "2 * m" 2 ?s1] p1 by simp
  let ?s3 = "pair_sums 4 m ?s2"
  have p3: "digits_le 8 m 8 ?s3 \<and> digit_sum 8 m ?s3 = digit_sum 1 (8 * m) (unat x)"
    using digits_le_pair [of 4 m 4 ?s2] p2 by simp
  have l: "drop_bit 1 x AND m5 \<le> x"
    using split_binary [of "unat x" "4 * m"] x
    by (simp add: word_le_nat_alt unat_and unat_drop m5)
  have uy: "unat y = ?s1"
    using first_step [of "unat x" "4 * m"] x
    unfolding y unat_sub [OF l] by (simp add: unat_and unat_drop m5)
  have b2: "?s2 * 15 + 4 \<le> 4 * 2 ^ (8 * m)" using digits_le_bound [of 4 "2 * m" 4 ?s2] p2 by simp
  have uz: "unat z = ?s2"
  proof -
    have "unat (y AND m3) + unat (drop_bit 2 y AND m3) = ?s2"
      using pair_sums_and [of ?s1 2 "2 * m"] by (simp add: unat_and unat_drop m3 uy)
    moreover have "?s2 < 2 ^ LENGTH('a)" using b2 by (simp add: w)
    ultimately show ?thesis by (simp add: z unat_word_ariths mod_less)
  qed
  have "unat (z + drop_bit 4 z) = ?s2 + ?s2 div 2 ^ 4"
  proof -
    have "?s2 + ?s2 div 2 ^ 4 < 2 ^ LENGTH('a)" using b2 div_le_dividend [of ?s2 16] by (simp add: w)
    then show ?thesis by (simp add: unat_word_ariths unat_drop uz mod_less)
  qed
  then have uv: "unat v = ?s3"
    using last_step [of 4 m 4 ?s2] p2 by (simp add: v unat_and mF)
  have "{i. i < 8 * m \<and> bit (unat x) i} = {i. bit x i}"
    using bit_imp_le_length [of x] by (auto simp: bit_unsigned_iff w)
  then show ?thesis using p3 digit_sum_card [of "8 * m" "unat x"] by (simp only: uv)
qed

lemma sint_small:
  fixes x :: "32 word"
  assumes "unat x < 256" shows "sint x = int (unat x)"
proof -
  have "signed_take_bit 31 (int n) = int n" if "n < 256" for n
    using that by (intro signed_take_bit_int_eq_self) auto
  from this [OF assms] show ?thesis unfolding sint_uint by simp
qed

lemma top_byte_small: "unat (drop_bit 24 (y :: 32 word)) < 256" "unat (drop_bit 56 (z :: 64 word)) < 256"
  using unsigned_less [of y, where 'a = nat] unsigned_less [of z, where 'a = nat] unfolding unat_drop
  by (simp_all add: less_mult_imp_div_less)

lemma rustc_popcount32_correct: "rustc_popcount32 x = int (card {i. bit x i})"
proof -
  let ?y = "x - (drop_bit 1 x AND 0x55555555)"
  let ?z = "(?y AND 0x33333333) + (drop_bit 2 ?y AND 0x33333333)"
  let ?v = "(?z + drop_bit 4 ?z) AND 0x0F0F0F0F"
  have m: "unat (0x55555555 :: 32 word) = digit_mask 1 (4 * 4)" "unat (0x33333333 :: 32 word) = digit_mask 2 (2 * 4)"
    "unat (0x0F0F0F0F :: 32 word) = digit_mask 4 4" by (simp_all add: digit_mask_numeral)
  have p: "digits_le 8 4 8 (unat ?v) \<and> digit_sum 8 4 (unat ?v) = card {i. bit x i}"
    by (rule parallel_sums [OF _ m refl refl refl]) simp
  then have u: "unat (drop_bit 24 (?v * 0x01010101)) = card {i. bit x i}"
    using sum_bytes32 [of ?v] by simp
  have "unat (drop_bit 24 (?v * 0x01010101)) < 256" by (rule top_byte_small)
  then have "sint (drop_bit 24 (?v * 0x01010101)) = int (unat (drop_bit 24 (?v * 0x01010101)))"
    by (rule sint_small)
  then show ?thesis unfolding u by (simp only: rustc_popcount32_def Let_def)
qed

lemma rustc_popcount64_correct: "rustc_popcount64 x = int (card {i. bit x i})"
proof -
  let ?y = "x - (drop_bit 1 x AND 0x5555555555555555)"
  let ?z = "(?y AND 0x3333333333333333) + (drop_bit 2 ?y AND 0x3333333333333333)"
  let ?v = "(?z + drop_bit 4 ?z) AND 0x0F0F0F0F0F0F0F0F"
  have m: "unat (0x5555555555555555 :: 64 word) = digit_mask 1 (4 * 8)"
    "unat (0x3333333333333333 :: 64 word) = digit_mask 2 (2 * 8)"
    "unat (0x0F0F0F0F0F0F0F0F :: 64 word) = digit_mask 4 8" by (simp_all add: digit_mask_numeral)
  have p: "digits_le 8 8 8 (unat ?v) \<and> digit_sum 8 8 (unat ?v) = card {i. bit x i}"
    by (rule parallel_sums [OF _ m refl refl refl]) simp
  let ?t = "drop_bit 56 (?v * 0x0101010101010101)"
  have u: "unat ?t = card {i. bit x i}" using p sum_bytes64 [of ?v] by simp
  have t: "unat ?t < 256" by (rule top_byte_small)
  then have c: "unat (ucast ?t :: 32 word) = unat ?t"
    unfolding unsigned_ucast_eq using t by (intro take_bit_nat_eq_self) simp
  then have "unat (ucast ?t :: 32 word) < 256" using t by simp
  then have "sint (ucast ?t :: 32 word) = int (unat (ucast ?t :: 32 word))" by (rule sint_small)
  then show ?thesis unfolding c u by (simp only: rustc_popcount64_def Let_def)
qed

end
