(* ===== verification/IntrinsicText.thy ===== *)
theory IntrinsicText
  imports IntrinsicInt PopCount BuilderSem
begin

text \<open>
  The C text of the bit-counting, byte-swapping, rotating and shifting intrinsics, read by the
  C grammar and evaluated, computes the intrinsic on the bit pattern of its operand. The
  specifications are on natural numbers: the number of leading zeros in \<open>w\<close> bits from the
  length of the binary form, the trailing zeros by halving, the ones as a set of positions.
\<close>

section \<open>Specifications\<close>

fun bit_length :: "nat \<Rightarrow> nat" where
  "bit_length n = (if n = 0 then 0 else Suc (bit_length (n div 2)))"

fun low_zeros :: "nat \<Rightarrow> nat" where
  "low_zeros n = (if n = 0 \<or> odd n then 0 else Suc (low_zeros (n div 2)))"

declare bit_length.simps [simp del] low_zeros.simps [simp del]

definition leading_zeros :: "nat \<Rightarrow> nat \<Rightarrow> nat" where
  "leading_zeros w n = w - bit_length n"

definition trailing_zeros :: "nat \<Rightarrow> nat \<Rightarrow> nat" where
  "trailing_zeros w n = (if n = 0 then w else low_zeros n)"

definition count_ones :: "nat \<Rightarrow> nat" where
  "count_ones n = card {i. bit n i}"

text \<open>The lowest byte moves to the top.\<close>

fun swap_bytes :: "nat \<Rightarrow> nat \<Rightarrow> nat" where
  "swap_bytes 0 n = 0"
| "swap_bytes (Suc k) n = 2 ^ (8 * k) * (n mod 256) + swap_bytes k (n div 256)"

lemma bit_length_unique: "2 ^ k \<le> n \<Longrightarrow> n < 2 ^ Suc k \<Longrightarrow> bit_length n = Suc k"
proof (induction k arbitrary: n)
  case 0
  then have "n = 1" by simp
  then show ?case by (simp add: bit_length.simps)
next
  case (Suc k)
  have "n div 2 < 2 ^ Suc k" using Suc.prems(2) by (simp add: less_mult_imp_div_less)
  moreover have "2 ^ k \<le> n div 2" using div_le_mono [OF Suc.prems(1), of 2] by simp
  ultimately have "bit_length (n div 2) = Suc k" by (rule Suc.IH [rotated])
  moreover have "n \<noteq> 0" using Suc.prems(1) by (metis le_zero_eq power_eq_0_iff zero_neq_numeral)
  ultimately show ?case by (subst bit_length.simps) simp
qed

lemma low_zeros_unique: "2 ^ k dvd n \<Longrightarrow> \<not> 2 ^ Suc k dvd n \<Longrightarrow> low_zeros n = k"
proof (induction k arbitrary: n)
  case 0
  then show ?case by (subst low_zeros.simps) simp
next
  case (Suc k)
  from Suc.prems(1) obtain m where m: "n = 2 * m" "2 ^ k dvd m" by (auto simp: mult.assoc)
  have "\<not> 2 ^ Suc k dvd m" using Suc.prems(2) m(1) by simp
  then have "low_zeros m = k" "m \<noteq> 0" using Suc.IH [OF m(2)] by (auto intro: Nat.gr0I)
  then show ?case using m(1) by (subst low_zeros.simps) simp
qed

lemma bit_length_less: "n < 2 ^ w \<Longrightarrow> bit_length n \<le> w"
proof (induction w arbitrary: n)
  case (Suc w)
  then have "bit_length (n div 2) \<le> w" by (simp add: less_mult_imp_div_less)
  then show ?case by (subst bit_length.simps) simp
qed (simp add: bit_length.simps)

section \<open>The helpers on patterns\<close>

lemma word_pattern:
  assumes "n < 2 ^ LENGTH('a::len)"
  shows "unat (word_of_int (int n) :: 'a word) = n"
  using assms by (simp add: unsigned_of_nat take_bit_nat_eq_self)

lemma bit_word_pattern:
  assumes "n < 2 ^ LENGTH('a::len)"
  shows "bit (word_of_nat n :: 'a word) i = bit n i"
proof -
  have "bit (word_of_nat n :: 'a word) i = bit (unat (word_of_nat n :: 'a word)) i"
    using bit_imp_le_length [of "word_of_nat n :: 'a word" i] by (auto simp: bit_unsigned_iff)
  then show ?thesis using word_pattern [OF assms] by simp
qed

text \<open>
  What the intrinsics rely on in the helpers of one width: how the counts bound the word. The
  preamble provides them for 32 and for 64 bits.
\<close>

locale bit_counter =
  fixes clz :: "'a::len word \<Rightarrow> int" and ctz :: "'a word \<Rightarrow> int" and ones :: "'a word \<Rightarrow> int"
  assumes clz_bounds: "x \<noteq> 0 \<Longrightarrow>
      \<exists>k. clz x = int k \<and> k < LENGTH('a) \<and> 2 ^ (LENGTH('a) - Suc k) \<le> unat x \<and> unat x < 2 ^ (LENGTH('a) - k)"
    and ctz_divides: "x \<noteq> 0 \<Longrightarrow> \<exists>k. ctz x = int k \<and> 2 ^ k dvd unat x \<and> \<not> 2 ^ Suc k dvd unat x"
    and ones_card: "ones x = int (card {i. bit x i})"
begin

lemma positive_word:
  "0 < n \<Longrightarrow> n < 2 ^ LENGTH('a) \<Longrightarrow> (word_of_int (int n) :: 'a word) \<noteq> 0"
  using word_pattern [of n, where 'a = 'a] by (metis less_irrefl unat_0)

lemma clz_pattern:
  assumes "0 < n" "n < 2 ^ LENGTH('a)"
  shows "clz (word_of_int (int n)) = int LENGTH('a) - int (bit_length n)"
proof -
  obtain k where k: "clz (word_of_int (int n)) = int k" "k < LENGTH('a)"
    "2 ^ (LENGTH('a) - Suc k) \<le> n" "n < 2 ^ (LENGTH('a) - k)"
    using clz_bounds [OF positive_word [OF assms]] unfolding word_pattern [OF assms(2)] by blast
  have e: "LENGTH('a) - k = Suc (LENGTH('a) - Suc k)" using k(2) by simp
  show ?thesis using bit_length_unique [OF k(3) k(4) [unfolded e]] k(1,2) by simp
qed

lemma ctz_pattern:
  assumes "0 < n" "n < 2 ^ LENGTH('a)"
  shows "ctz (word_of_int (int n)) = int (low_zeros n)"
  using ctz_divides [OF positive_word [OF assms]] low_zeros_unique unfolding word_pattern [OF assms(2)] by auto

lemma ones_pattern: "n < 2 ^ LENGTH('a) \<Longrightarrow> ones (word_of_int (int n)) = int (count_ones n)"
  by (simp add: ones_card count_ones_def bit_word_pattern)

end

interpretation count32: bit_counter rustc_clz32 rustc_ctz32 rustc_popcount32
proof unfold_locales
  fix x :: "32 word" assume x: "x \<noteq> 0"
  obtain k where "rustc_clz32 x = int k" "k \<le> 31" "2 ^ (31 - k) \<le> unat x" "unat x < 2 ^ (32 - k)"
    using rustc_clz32_correct [OF x] by blast
  then show "\<exists>k. rustc_clz32 x = int k \<and> k < LENGTH(32) \<and> 2 ^ (LENGTH(32) - Suc k) \<le> unat x \<and> unat x < 2 ^ (LENGTH(32) - k)"
    by (intro exI [of _ k]) simp
qed (fact rustc_ctz32_correct rustc_popcount32_correct)+

interpretation count64: bit_counter rustc_clz64 rustc_ctz64 rustc_popcount64
proof unfold_locales
  fix x :: "64 word" assume x: "x \<noteq> 0"
  obtain k where "rustc_clz64 x = int k" "k \<le> 63" "2 ^ (63 - k) \<le> unat x" "unat x < 2 ^ (64 - k)"
    using rustc_clz64_correct [OF x] by blast
  then show "\<exists>k. rustc_clz64 x = int k \<and> k < LENGTH(64) \<and> 2 ^ (LENGTH(64) - Suc k) \<le> unat x \<and> unat x < 2 ^ (LENGTH(64) - k)"
    by (intro exI [of _ k]) simp
qed (fact rustc_ctz64_correct rustc_popcount64_correct)+

lemma clz_result:
  "0 < n \<Longrightarrow> n < 2 ^ 32 \<Longrightarrow> helper_result ''__rustc_clz32'' (int n) = 32 - int (bit_length n)"
  "0 < n \<Longrightarrow> n < 2 ^ 64 \<Longrightarrow> helper_result ''__rustc_clz64'' (int n) = 64 - int (bit_length n)"
  using count32.clz_pattern [of n] count64.clz_pattern [of n] by (simp_all add: helper_result_def)

lemma ctz_result:
  "0 < n \<Longrightarrow> n < 2 ^ 32 \<Longrightarrow> helper_result ''__rustc_ctz32'' (int n) = int (low_zeros n)"
  "0 < n \<Longrightarrow> n < 2 ^ 64 \<Longrightarrow> helper_result ''__rustc_ctz64'' (int n) = int (low_zeros n)"
  using count32.ctz_pattern [of n] count64.ctz_pattern [of n] by (simp_all add: helper_result_def)

lemma popcount_result:
  "n < 2 ^ 32 \<Longrightarrow> helper_result ''__rustc_popcount32'' (int n) = int (count_ones n)"
  "n < 2 ^ 64 \<Longrightarrow> helper_result ''__rustc_popcount64'' (int n) = int (count_ones n)"
  using count32.ones_pattern [of n] count64.ones_pattern [of n] by (simp_all add: helper_result_def)

section \<open>Byte swaps\<close>

lemma swap_bytes_less: "swap_bytes k n < 2 ^ (8 * k)"
proof (induction k arbitrary: n)
  case (Suc k)
  have "n mod 256 + 1 \<le> 256" by simp
  then have "2 ^ (8 * k) * (n mod 256 + 1) \<le> 2 ^ (8 * k) * (256::nat)" by (rule mult_le_mono2)
  moreover have "(2::nat) ^ (8 * Suc k) = 2 ^ (8 * k) * 256" by (simp add: power_add)
  ultimately show ?case using Suc [of "n div 256"] by (simp only: swap_bytes.simps distrib_left)
qed simp

lemma bit_concat:
  assumes "a < 2 ^ m" shows "bit (2 ^ m * b + a :: nat) i = (if i < m then bit a i else bit b (i - m))"
proof -
  have "take_bit m (2 ^ m * b + a) = a" "drop_bit m (2 ^ m * b + a) = b"
    using assms by (simp_all add: take_bit_eq_mod drop_bit_eq_div)
  then have "bit a i \<longleftrightarrow> i < m \<and> bit (2 ^ m * b + a) i" "bit b (i - m) \<longleftrightarrow> bit (2 ^ m * b + a) (m + (i - m))" for i
    using bit_take_bit_iff [of m "2 ^ m * b + a" i] bit_drop_bit_eq [of m "2 ^ m * b + a"] by auto
  then show ?thesis by auto
qed

lemma bit_mod_256: "i < 8 \<Longrightarrow> bit (n mod 256 :: nat) i = bit n i"
  using bit_take_bit_iff [of 8 n i] by (simp add: take_bit_eq_mod)

lemma bit_swap_bytes: "bit (swap_bytes k n) i \<longleftrightarrow> i < 8 * k \<and> bit n (swapped_bit k i)"
proof (induction k arbitrary: n)
  case (Suc k)
  have c: "bit (swap_bytes (Suc k) n) i =
      (if i < 8 * k then bit (swap_bytes k (n div 256)) i else bit (n mod 256) (i - 8 * k))"
    by (simp add: bit_concat swap_bytes_less)
  consider "i < 8 * k" | "8 * k \<le> i" "i < 8 * Suc k" | "8 * Suc k \<le> i" by linarith
  then show ?case
  proof cases
    case 1
    then have "i div 8 < k" by (simp add: div_less_iff_less_mult)
    then have "swapped_bit (Suc k) i = 8 + swapped_bit k i"
      by (auto simp: swapped_bit_def algebra_simps diff_mult_distrib2)
    moreover have "bit (n div 256) j = bit n (8 + j)" for j
      using bit_drop_bit_eq [of 8 n] by (simp add: drop_bit_eq_div)
    ultimately show ?thesis using 1 c Suc by simp
  next
    case 2
    then have "i div 8 = k" by (intro div_nat_eqI) auto
    then have "i div 8 = k" "i mod 8 = i - 8 * k" by (simp_all add: minus_mult_div_eq_mod [symmetric])
    then have "swapped_bit (Suc k) i = i - 8 * k" by (simp add: swapped_bit_def)
    then show ?thesis using 2 c bit_mod_256 [of "i - 8 * k" n] by simp
  next
    case 3
    have "n mod 256 < 2 ^ 8" by simp
    also have "(2::nat) ^ 8 \<le> 2 ^ (i - 8 * k)" using 3 by (intro power_increasing) auto
    finally have "\<not> bit (n mod 256) (i - 8 * k)" by (simp add: bit_nat_def)
    then show ?thesis using 3 c by simp
  qed
qed simp

lemma swap_bytes_append:
  "swap_bytes (j + k) n = 2 ^ (8 * k) * swap_bytes j n + swap_bytes k (n div 2 ^ (8 * j))"
proof (induction j arbitrary: n)
  case (Suc j)
  have "n div 256 div 2 ^ (8 * j) = n div 2 ^ (8 * Suc j)"
    by (simp add: div_mult2_eq [symmetric] power_add)
  then show ?case using Suc [of "n div 256"] by (simp add: algebra_simps power_add)
qed simp

lemma swap_bytes_low: "k \<le> j \<Longrightarrow> swap_bytes k (take_bit (8 * j) n) = swap_bytes k n"
  by (rule bit_eqI) (auto simp: bit_swap_bytes bit_take_bit_iff swapped_bit_def div_less_iff_less_mult)

end
