(* ===== verification/IntrinsicSem.thy ===== *)
theory IntrinsicSem
  imports IntrinsicText CBlock
begin

text \<open>
  What the texts of the bit intrinsics compute. Each text is the text of a tree of the C
  grammar, so it is read as that tree, and the value of the tree is the specification of
  \<open>IntrinsicText\<close> on the bit pattern of the operand.
\<close>

section \<open>Literals and types\<close>

lemma literal_U [simp]: "n < 2 ^ 32 \<Longrightarrow> literal (nat_str n @ ''U'') = Some (CIntT 32 False, int n)"
  unfolding literal_def literal_suffix [OF disjI1 [OF refl]] Let_def by (simp add: take_bit_int_eq_self)

lemma literal_small [simp]:
  "literal ''0'' = Some (CIntT 32 True, 0)" "literal ''1'' = Some (CIntT 32 True, 1)"
  "literal ''32'' = Some (CIntT 32 True, 32)" "literal ''64'' = Some (CIntT 32 True, 64)"
  by (simp_all add: literal_def digit_val_def read_nat_def signed_take_bit_int_eq_self)

lemma fixed_type_names [simp]:
  "type_name pb ''uint32_t'' = Some (CIntT 32 False)" "type_name pb ''uint64_t'' = Some (CIntT 64 False)"
  "type_name pb ''uint128_t'' = Some (CIntT 128 False)"
  "int_type_name ''uint32_t''" "int_type_name ''uint64_t''" "int_type_name ''uint128_t''"
  by (simp_all add: type_name_def int_type_name_def int_types_def)

lemma helper_identifiers [simp]:
  "c_identifier ''__rustc_clz32''" "c_identifier ''__rustc_clz64''" "c_identifier ''__rustc_ctz32''"
  "c_identifier ''__rustc_ctz64''" "c_identifier ''__rustc_popcount32''" "c_identifier ''__rustc_popcount64''"
  "c_identifier ''__rustc_bswap16''" "c_identifier ''__rustc_bswap32''" "c_identifier ''__rustc_bswap64''"
  by (simp_all add: c_identifier_def int_type_name_def int_types_def ident_char_def digit_val_def)

lemma helper_types [simp]:
  "helper_type ''__rustc_clz32'' = Some (CIntT 32 True)" "helper_type ''__rustc_clz64'' = Some (CIntT 32 True)"
  "helper_type ''__rustc_ctz32'' = Some (CIntT 32 True)" "helper_type ''__rustc_ctz64'' = Some (CIntT 32 True)"
  "helper_type ''__rustc_popcount32'' = Some (CIntT 32 True)" "helper_type ''__rustc_popcount64'' = Some (CIntT 32 True)"
  "helper_type ''__rustc_bswap16'' = Some (CIntT 16 False)" "helper_type ''__rustc_bswap32'' = Some (CIntT 32 False)"
  "helper_type ''__rustc_bswap64'' = Some (CIntT 64 False)"
  by (simp_all add: helper_type_def)

section \<open>Trees\<close>

text \<open>The two 64-bit halves of a 128-bit operand, and its test against zero.\<close>

definition high_half :: "string \<Rightarrow> CExpr" where
  "high_half v = Cast ''uint64_t'' (Paren (BinOp (Cast ''uint128_t'' (Paren (Var v))) Shr (Lit ''64'')))"

definition low_half :: "string \<Rightarrow> CExpr" where
  "low_half v = Cast ''uint64_t'' (Paren (Var v))"

definition masked :: "nat \<Rightarrow> string \<Rightarrow> CExpr" where
  "masked bits v = BinOp (Cast ''uint32_t'' (Paren (Var v))) BitAnd (Lit (nat_str (2 ^ bits - 1) @ ''U''))"

definition zero_case :: "nat \<Rightarrow> string \<Rightarrow> CExpr \<Rightarrow> CExpr" where
  "zero_case bits v e = Paren (Ternary (BinOp (Var v) Eq (Lit ''0'')) (Lit (nat_str bits)) e)"

definition ctlz_tree :: "nat \<Rightarrow> string \<Rightarrow> CExpr" where
  "ctlz_tree bits v =
     (if bits < 32 then
        zero_case bits v (BinOp (Call (Var ''__rustc_clz32'') [masked bits v]) Sub
          (Paren (BinOp (Lit ''32'') Sub (Lit (nat_str bits)))))
      else if bits \<le> 32 then
        zero_case bits v (BinOp (Call (Var ''__rustc_clz32'') [Cast ''uint32_t'' (Var v)]) Sub
          (Paren (BinOp (Lit ''32'') Sub (Lit (nat_str bits)))))
      else if bits \<le> 64 then
        zero_case bits v (BinOp (Call (Var ''__rustc_clz64'') [Cast ''uint64_t'' (Var v)]) Sub
          (Paren (BinOp (Lit ''64'') Sub (Lit (nat_str bits)))))
      else
        Paren (Ternary (BinOp (high_half v) Ne (Lit ''0'')) (Call (Var ''__rustc_clz64'') [high_half v])
          (BinOp (Lit ''64'') Add (Paren (Ternary (BinOp (low_half v) Eq (Lit ''0'')) (Lit ''64'')
             (Call (Var ''__rustc_clz64'') [low_half v]))))))"

definition cttz_tree :: "nat \<Rightarrow> string \<Rightarrow> CExpr" where
  "cttz_tree bits v =
     (if bits \<le> 32 then zero_case bits v (Call (Var ''__rustc_ctz32'') [Cast ''uint32_t'' (Var v)])
      else if bits \<le> 64 then zero_case bits v (Call (Var ''__rustc_ctz64'') [Cast ''uint64_t'' (Var v)])
      else
        Paren (Ternary (BinOp (low_half v) Ne (Lit ''0'')) (Call (Var ''__rustc_ctz64'') [low_half v])
          (BinOp (Lit ''64'') Add (Paren (Ternary (BinOp (high_half v) Eq (Lit ''0'')) (Lit ''64'')
             (Call (Var ''__rustc_ctz64'') [high_half v]))))))"

definition ctpop_tree :: "nat \<Rightarrow> string \<Rightarrow> CExpr" where
  "ctpop_tree bits v =
     (if bits < 32 then Call (Var ''__rustc_popcount32'') [masked bits v]
      else if bits \<le> 32 then Call (Var ''__rustc_popcount32'') [Cast ''uint32_t'' (Var v)]
      else if bits \<le> 64 then Call (Var ''__rustc_popcount64'') [Cast ''uint64_t'' (Var v)]
      else Paren (BinOp (Call (Var ''__rustc_popcount64'') [low_half v]) Add
             (Call (Var ''__rustc_popcount64'') [high_half v])))"

lemmas tree_defs = high_half_def low_half_def masked_def zero_case_def

lemma count_tree_texts:
  "tree_text (ctlz_tree bits v) = ctlz_text bits v"
  "tree_text (cttz_tree bits v) = cttz_text bits v"
  "tree_text (ctpop_tree bits v) = ctpop_text bits v"
  by (simp_all add: ctlz_tree_def ctlz_text_def cttz_tree_def cttz_text_def ctpop_tree_def
      ctpop_text_def tree_defs)

lemma count_tree_fits:
  assumes "v \<in> ops" "bits \<le> 128"
  shows "fits ops 13 (ctlz_tree bits v)" "fits ops 13 (cttz_tree bits v)" "fits ops 13 (ctpop_tree bits v)"
proof -
  have m: "(2::nat) ^ bits - 1 < 2 ^ 32" if "bits < 32"
    using power_strict_increasing [OF that, of "2::nat"] by simp
  have b: "literal (nat_str bits) = Some (CIntT 32 True, int bits)" using assms(2) by simp
  show "fits ops 13 (ctlz_tree bits v)" "fits ops 13 (cttz_tree bits v)" "fits ops 13 (ctpop_tree bits v)"
    using assms m b
    by (simp_all add: ctlz_tree_def cttz_tree_def ctpop_tree_def tree_defs)
qed

section \<open>Operands\<close>

text \<open>
  The operand's value is the unsigned or the signed reading of the \<open>w\<close>-bit pattern \<open>n\<close>, of a C
  type of at least \<open>w\<close> bits.
\<close>

definition operand_pattern :: "cenv \<Rightarrow> string \<Rightarrow> nat \<Rightarrow> nat \<Rightarrow> bool" where
  "operand_pattern env l w n =
     (\<exists>m s v. env l = Some (CIntT m s, v) \<and> w \<le> m \<and> take_bit w v = int n \<and>
        (v = int n \<or> v = signed_take_bit (w - 1) (int n)))"

lemma signed_take_bit_zero_iff:
  "0 < w \<Longrightarrow> take_bit w v = int n \<Longrightarrow> v = int n \<or> v = signed_take_bit (w - 1) (int n) \<Longrightarrow> v = 0 \<longleftrightarrow> n = 0"
  by auto

lemma operand_facts:
  assumes p: "operand_pattern env l w n" and w: "0 < w"
  obtains t v where "env l = Some (t, v)" "take_bit w v = int n" "n < 2 ^ w"
    "bin Eq (t, v) (CIntT 32 True, 0) = of_bool_int (n = 0)"
proof -
  from p obtain m s v where e: "env l = Some (CIntT m s, v)" and m: "w \<le> m" and v: "take_bit w v = int n"
    and r: "v = int n \<or> v = signed_take_bit (w - 1) (int n)" by (auto simp: operand_pattern_def)
  let ?t = "arith_type (CIntT m s) (CIntT 32 True)"
  have t: "int_type ?t" using w m by (intro arith_type_ok) auto
  have "w \<le> ctype_bits ?t" using m by (auto simp: arith_type_def common_bits)
  then have tb: "take_bit w (wrap ?t v) = int n" using take_bit_wrap [OF t] v by simp
  have z: "wrap ?t 0 = 0" using t by (cases ?t; cases "snd (case ?t of CIntT a b \<Rightarrow> (a, b))") auto
  have "wrap ?t v = 0 \<longleftrightarrow> n = 0"
  proof
    assume "n = 0"
    then show "wrap ?t v = 0" using r z by auto
  qed (use tb in auto)
  then have b: "bin Eq (CIntT m s, v) (CIntT 32 True, 0) = of_bool_int (n = 0)"
    by (simp add: bin_def arith_def z Let_def)
  have "int n < 2 ^ w" using v by (metis take_bit_int_less_exp)
  then have "n < 2 ^ w" by simp
  then show thesis using that e v b by blast
qed

lemma wrap_int32 [simp]: "0 \<le> x \<Longrightarrow> x < 2 ^ 31 \<Longrightarrow> signed_take_bit 31 x = (x::int)"
  by (intro signed_take_bit_int_eq_self) auto

lemma take_bit_narrow: "take_bit w v = int n \<Longrightarrow> k \<le> w \<Longrightarrow> take_bit k v = take_bit k (int n)"
  by (metis min.absorb2 min.commute take_bit_take_bit)

section \<open>Counts of halves\<close>

lemma bit_length_high: "n div 2 ^ k \<noteq> 0 \<Longrightarrow> bit_length n = k + bit_length (n div 2 ^ k)"
proof (induction k arbitrary: n)
  case (Suc k)
  have d: "n div 2 div 2 ^ k = n div 2 ^ Suc k" by (simp add: div_mult2_eq)
  then have "bit_length (n div 2) = k + bit_length (n div 2 ^ Suc k)" using Suc by metis
  moreover have "n \<noteq> 0" using Suc.prems by (intro notI) simp
  ultimately show ?case by (subst bit_length.simps) simp
qed simp

lemma low_zeros_double: "0 < m \<Longrightarrow> low_zeros (2 * m) = Suc (low_zeros m)"
  by (subst low_zeros.simps) simp

lemma low_zeros_low: "take_bit k n \<noteq> 0 \<Longrightarrow> low_zeros (take_bit k n) = low_zeros n"
proof (induction k arbitrary: n)
  case (Suc k)
  have e: "take_bit (Suc k) n = n mod 2 + 2 * take_bit k (n div 2)" by (simp add: take_bit_Suc)
  show ?case
  proof (cases "odd n")
    case True
    then have "odd (take_bit (Suc k) n)" by simp
    then show ?thesis using True by (simp only: low_zeros.simps [of n] low_zeros.simps [of "take_bit (Suc k) n"]) simp
  next
    case False
    then have "take_bit k (n div 2) \<noteq> 0" using Suc.prems e by auto
    moreover have "n \<noteq> 0" using Suc.prems by (intro notI) simp
    ultimately show ?thesis
      using Suc.IH False e by (simp add: low_zeros.simps [of n] low_zeros_double)
  qed
qed simp

lemma low_zeros_high: "n \<noteq> 0 \<Longrightarrow> take_bit k n = 0 \<Longrightarrow> low_zeros n = k + low_zeros (n div 2 ^ k)"
proof (induction k arbitrary: n)
  case (Suc k)
  have e: "take_bit (Suc k) n = n mod 2 + 2 * take_bit k (n div 2)" by (simp add: take_bit_Suc)
  then have ev: "even n" "take_bit k (n div 2) = 0" using Suc.prems(2) by auto
  moreover from ev have "n div 2 \<noteq> 0" using Suc.prems(1) by auto
  ultimately have "low_zeros (n div 2) = k + low_zeros (n div 2 div 2 ^ k)" using Suc.IH by blast
  then show ?case using ev Suc.prems(1) by (simp add: low_zeros.simps [of n] div_mult2_eq)
qed simp

lemma count_ones_halves: "count_ones n = count_ones (take_bit k n) + count_ones (drop_bit k n)"
proof -
  have "i < m" if "bit m i" for i m :: nat
  proof -
    have "\<not> m < 2 ^ i" using that by (auto simp: bit_nat_def)
    then show ?thesis using less_exp [of i] by linarith
  qed
  then have fin: "finite {i. bit m i}" for m :: nat by (auto intro: finite_subset [of _ "{..<m}"])
  have e: "{i. bit n i} = {i. bit (take_bit k n) i} \<union> (+) k ` {i. bit (drop_bit k n) i}"
    by (auto simp: bit_take_bit_iff bit_drop_bit_eq image_iff) (metis le_Suc_ex not_le)
  have d: "{i. bit (take_bit k n) i} \<inter> (+) k ` {i. bit (drop_bit k n) i} = {}"
    by (auto simp: bit_take_bit_iff)
  show ?thesis
    unfolding count_ones_def e
    using card_Un_disjoint [OF fin finite_imageI [OF fin] d] by (simp add: card_image)
qed

section \<open>Values of the trees\<close>

lemmas bin_simps = bin_def arith_def shift_def of_bool_int_def arith_type_def Let_def

lemma clz_call:
  "0 < n \<Longrightarrow> n < 2 ^ 32 \<Longrightarrow> helper_call ''__rustc_clz32'' [int n] = Some (CIntT 32 True, 32 - int (bit_length n))"
  "0 < n \<Longrightarrow> n < 2 ^ 64 \<Longrightarrow> helper_call ''__rustc_clz64'' [int n] = Some (CIntT 32 True, 64 - int (bit_length n))"
  by (simp_all only: helper_call_def helper_types clz_result prod.case option.case list.case)

lemma ctz_call:
  "0 < n \<Longrightarrow> n < 2 ^ 32 \<Longrightarrow> helper_call ''__rustc_ctz32'' [int n] = Some (CIntT 32 True, int (low_zeros n))"
  "0 < n \<Longrightarrow> n < 2 ^ 64 \<Longrightarrow> helper_call ''__rustc_ctz64'' [int n] = Some (CIntT 32 True, int (low_zeros n))"
  by (simp_all only: helper_call_def helper_types ctz_result prod.case option.case list.case)

lemma popcount_call:
  "n < 2 ^ 32 \<Longrightarrow> helper_call ''__rustc_popcount32'' [int n] = Some (CIntT 32 True, int (count_ones n))"
  "n < 2 ^ 64 \<Longrightarrow> helper_call ''__rustc_popcount64'' [int n] = Some (CIntT 32 True, int (count_ones n))"
  by (simp_all only: helper_call_def helper_types popcount_result prod.case option.case list.case)

text \<open>The halves of a 128-bit operand.\<close>

lemma low_half_eval:
  assumes "env v = Some (t, x)" "take_bit 128 x = int n"
  shows "eval pb env (low_half v) = Some (CIntT 64 False, int (take_bit 64 n))"
  using assms take_bit_narrow [OF assms(2), of 64] by (simp add: low_half_def of_nat_take_bit)

lemma high_half_eval:
  assumes "env v = Some (t, x)" "take_bit 128 x = int n" "n < 2 ^ 128"
  shows "eval pb env (high_half v) = Some (CIntT 64 False, int (n div 2 ^ 64))"
proof -
  have "n div 2 ^ 64 < 2 ^ 64" using assms(3) by (simp add: less_mult_imp_div_less)
  then have "take_bit 64 (drop_bit 64 (int n)) = int (n div 2 ^ 64)"
    by (simp add: drop_bit_eq_div take_bit_int_eq_self zdiv_int)
  then show ?thesis using assms by (simp add: high_half_def bin_simps)
qed

lemma half_types: "env v = Some (t, x) \<Longrightarrow> expr_type pb env (low_half v) = Some (CIntT 64 False)"
    "env v = Some (t, x) \<Longrightarrow> expr_type pb env (high_half v) = Some (CIntT 64 False)"
  by (simp_all add: low_half_def high_half_def)

lemma halves:
  assumes "operand_pattern env v 128 n"
  obtains t x h l where "env v = Some (t, x)" "h < 2 ^ 64" "l < 2 ^ 64" "n = l + 2 ^ 64 * h"
    "eval pb env (high_half v) = Some (CIntT 64 False, int h)"
    "eval pb env (low_half v) = Some (CIntT 64 False, int l)"
proof -
  obtain t x where x: "env v = Some (t, x)" "take_bit 128 x = int n" "n < 2 ^ 128"
    by (rule operand_facts [OF assms]) auto
  show thesis
  proof (rule that [OF x(1)])
    show "n div 2 ^ 64 < 2 ^ 64" using x(3) by (simp add: less_mult_imp_div_less)
    show "take_bit 64 n < 2 ^ 64" by (rule take_bit_nat_less_exp)
    show "n = take_bit 64 n + 2 ^ 64 * (n div 2 ^ 64)" by (simp add: take_bit_eq_mod)
    show "eval pb env (high_half v) = Some (CIntT 64 False, int (n div 2 ^ 64))"
      by (rule high_half_eval [of env v t x n, OF x])
    show "eval pb env (low_half v) = Some (CIntT 64 False, int (take_bit 64 n))"
      by (rule low_half_eval [of env v t x n, OF x(1,2)])
  qed
qed

lemma masked_eval:
  assumes "env v = Some (t, x)" "take_bit w x = int n" "w \<in> {8, 16}"
  shows "eval pb env (masked w v) = Some (CIntT 32 False, int n)"
proof -
  have m: "literal (nat_str (2 ^ w - 1) @ ''U'') = Some (CIntT 32 False, int (2 ^ w - 1))"
    using assms(3) by (intro literal_U) auto
  have a: "and (take_bit 32 x) (2 ^ w - 1) = take_bit w x"
    using take_bit_eq_mask [of w "take_bit 32 x"] assms(3) by (auto simp: mask_eq_exp_minus_1)
  show ?thesis using assms a m by (auto simp: masked_def bin_simps)
qed

lemma zero_case_eval:
  assumes p: "operand_pattern env v w n" "0 < w" "w \<le> 128"
    and t: "expr_type pb env e = Some (CIntT 32 True)"
    and e: "n \<noteq> 0 \<Longrightarrow> eval pb env e = Some (CIntT 32 True, int k)" and k: "k \<le> 128"
  shows "eval pb env (zero_case w v e) = Some (CIntT 32 True, int (if n = 0 then w else k))"
proof -
  obtain s x where x: "env v = Some (s, x)" "bin Eq (s, x) (CIntT 32 True, 0) = of_bool_int (n = 0)"
    using operand_facts [OF p(1,2)] by blast
  have w: "literal (nat_str w) = Some (CIntT 32 True, int w)" using p(3) by simp
  show ?thesis
    using x w t e k p(3) by (auto simp: zero_case_def arith_type_def of_bool_int_def)
qed

lemma minus_eval:
  assumes e: "eval pb env e = Some (CIntT 32 True, int m - int b)" and "b \<le> w" "w \<le> m" "m \<le> 128"
    and m: "literal s = Some (CIntT 32 True, int m)"
  shows "eval pb env (BinOp e Sub (Paren (BinOp (Lit s) Sub (Lit (nat_str w))))) =
    Some (CIntT 32 True, int (w - b))"
proof -
  have w: "literal (nat_str w) = Some (CIntT 32 True, int w)" using assms by simp
  show ?thesis using assms w by (simp add: bin_simps of_nat_diff)
qed

lemma ctlz_eval:
  assumes p: "operand_pattern env v w n" and w: "w \<in> {8, 16, 32, 64, 128}"
  shows "eval pb env (ctlz_tree w v) = Some (CIntT 32 True, int (leading_zeros w n))"
proof -
  have w0: "0 < w" "w \<le> 128" using w by auto
  obtain t x where x: "env v = Some (t, x)" "take_bit w x = int n" "n < 2 ^ w"
    using operand_facts [OF p w0(1)] by blast
  have b: "bit_length n \<le> w" by (rule bit_length_less [OF x(3)])
  have l: "leading_zeros w n = (if n = 0 then w else w - bit_length n)"
    by (simp add: leading_zeros_def bit_length.simps [of 0])
  have small: ?thesis
    if "e = Call (Var f) [a]" "eval pb env a = Some (u, int n)" "expr_type pb env a = Some u"
      "\<And>env. n \<noteq> 0 \<Longrightarrow> helper_call f [int n] = Some (CIntT 32 True, int m - int (bit_length n))"
      "helper_type f = Some (CIntT 32 True)" "w \<le> m" "m \<le> 128" "literal s = Some (CIntT 32 True, int m)"
      "ctlz_tree w v = zero_case w v (BinOp e Sub (Paren (BinOp (Lit s) Sub (Lit (nat_str w)))))"
    for e f a u m s
  proof -
    note h = that
    have "eval pb env (BinOp e Sub (Paren (BinOp (Lit s) Sub (Lit (nat_str w))))) =
        Some (CIntT 32 True, int (w - bit_length n))" if "n \<noteq> 0"
      using \<open>n \<noteq> 0\<close> b by (intro minus_eval [of _ _ _ m]) (simp_all add: h)
    moreover have "expr_type pb env (BinOp e Sub (Paren (BinOp (Lit s) Sub (Lit (nat_str w))))) =
        Some (CIntT 32 True)"
      using h w0 by (simp add: arith_type_def)
    ultimately show ?thesis unfolding h(9) l
      using zero_case_eval [OF p w0, of pb _ "w - bit_length n"] w0(2) by simp
  qed
  consider "w \<in> {8, 16}" | "w = 32" | "w = 64" | "w = 128" using w by auto
  then show ?thesis
  proof cases
    case 1
    then have "n < 2 ^ 32" using x(3) by (auto intro: less_le_trans)
    then show ?thesis using 1 masked_eval [of env v t x w n pb, OF x(1,2) 1]
      by (intro small [of "Call (Var ''__rustc_clz32'') [masked w v]" _ _ _ 32 "''32''"])
        (auto simp: clz_call ctlz_tree_def masked_def x arith_type_def)
  next
    case 2
    then show ?thesis using x
      by (intro small [of "Call (Var ''__rustc_clz32'') [Cast ''uint32_t'' (Var v)]" _ _ _ 32 "''32''"])
        (auto simp: clz_call ctlz_tree_def)
  next
    case 3
    then show ?thesis using x
      by (intro small [of "Call (Var ''__rustc_clz64'') [Cast ''uint64_t'' (Var v)]" _ _ _ 64 "''64''"])
        (auto simp: clz_call ctlz_tree_def)
  next
    case 4
    obtain s y h l where hl: "h < 2 ^ 64" "l < 2 ^ 64" "n = l + 2 ^ 64 * h"
      and v: "env v = Some (s, y)" "eval pb env (high_half v) = Some (CIntT 64 False, int h)"
        "eval pb env (low_half v) = Some (CIntT 64 False, int l)"
      by (rule halves [OF p [unfolded 4], of pb])
    have w64: "take_bit 64 (int h) = int h" "take_bit 64 (int l) = int l"
      using hl by (simp_all add: take_bit_int_eq_self)
    have len: "bit_length n = (if h = 0 then bit_length l else 64 + bit_length h)"
      using bit_length_high [of n 64] hl by auto
    have bl: "bit_length h \<le> 64" "bit_length l \<le> 64" using bit_length_less hl by auto
    show ?thesis
      using 4 v half_types [of env v s y, OF v(1), of pb] hl(1,2) w64 bl clz_call(2) [of h] clz_call(2) [of l]
      by (cases "h = 0"; cases "l = 0")
        (simp_all add: ctlz_tree_def bin_simps leading_zeros_def len of_nat_diff bit_length.simps [of 0])
  qed
qed

lemma low_zeros_less:
  assumes "0 < n" "n < 2 ^ w" shows "low_zeros n < w"
  using assms
proof (induction w arbitrary: n)
  case (Suc w)
  show ?case
  proof (cases "even n")
    case True
    then have "0 < n div 2" "n div 2 < 2 ^ w" using Suc.prems by (auto simp: less_mult_imp_div_less)
    then show ?thesis using Suc.IH True Suc.prems(1) by (simp add: low_zeros.simps [of n])
  qed (simp add: low_zeros.simps [of n])
qed simp

text \<open>The conversion to \<open>k\<close> bits has the trailing zeros of the pattern.\<close>

lemma ctz_cast:
  assumes "take_bit w x = int n" "0 < n" "w \<le> k"
  shows "\<exists>m. take_bit k x = int m \<and> 0 < m \<and> m < 2 ^ k \<and> low_zeros m = low_zeros n"
proof -
  obtain m where m: "take_bit k x = int m" using take_bit_nonnegative [of k x] nonneg_int_cases by metis
  have "int (take_bit w m) = take_bit w (take_bit k x)" by (simp add: m of_nat_take_bit)
  then have t: "take_bit w m = n" using assms by (simp add: min_def)
  then have "low_zeros m = low_zeros n" using low_zeros_low [of w m] assms(2) by simp
  moreover have "int m < 2 ^ k" unfolding m [symmetric] by (rule take_bit_int_less_exp)
  moreover have "0 < m" using t assms(2) by (intro Nat.gr0I) auto
  ultimately show ?thesis using m by auto
qed

lemma cttz_eval:
  assumes p: "operand_pattern env v w n" and w: "w \<in> {8, 16, 32, 64, 128}"
  shows "eval pb env (cttz_tree w v) = Some (CIntT 32 True, int (trailing_zeros w n))"
proof -
  have w0: "0 < w" "w \<le> 128" using w by auto
  obtain t x where x: "env v = Some (t, x)" "take_bit w x = int n" "n < 2 ^ w"
    using operand_facts [OF p w0(1)] by blast
  have z: "low_zeros n \<le> 128" if "0 < n" using low_zeros_less [OF that x(3)] w0 by simp
  have small: ?thesis
    if h: "cttz_tree w v = zero_case w v (Call (Var f) [Cast s (Var v)])" "type_name pb s = Some (CIntT k False)"
      "helper_type f = Some (CIntT 32 True)" "w \<le> k"
      "\<And>m. 0 < m \<Longrightarrow> m < 2 ^ k \<Longrightarrow> helper_call f [int m] = Some (CIntT 32 True, int (low_zeros m))" for f s k
  proof -
    have "eval pb env (Call (Var f) [Cast s (Var v)]) = Some (CIntT 32 True, int (low_zeros n))" if "n \<noteq> 0"
      using ctz_cast [OF x(2) _ h(4)] that x(1) h(2,5) by auto
    then have "eval pb env (cttz_tree w v) = Some (CIntT 32 True, int (if n = 0 then w else low_zeros n))"
      unfolding h(1) using z x(1) h(2,3) by (cases "n = 0") (simp_all add: zero_case_eval [OF p w0, of pb _ 0] zero_case_eval [OF p w0])
    then show ?thesis by (simp add: trailing_zeros_def)
  qed
  consider "w \<le> 32" | "w = 64" | "w = 128" using w by auto
  then show ?thesis
  proof cases
    case 1
    then show ?thesis by (intro small) (auto simp: cttz_tree_def ctz_call)
  next
    case 2
    then show ?thesis by (intro small) (auto simp: cttz_tree_def ctz_call)
  next
    case 3
    obtain s y h l where hl: "h < 2 ^ 64" "l < 2 ^ 64" "n = l + 2 ^ 64 * h"
      and v: "env v = Some (s, y)" "eval pb env (high_half v) = Some (CIntT 64 False, int h)"
        "eval pb env (low_half v) = Some (CIntT 64 False, int l)"
      by (rule halves [OF p [unfolded 3], of pb])
    have w64: "take_bit 64 (int h) = int h" "take_bit 64 (int l) = int l"
      using hl by (simp_all add: take_bit_int_eq_self)
    have tl: "take_bit 64 n = l" using hl by (simp add: take_bit_eq_mod)
    then have len: "trailing_zeros 128 n = (if l = 0 then if h = 0 then 128 else 64 + low_zeros h else low_zeros l)"
      using low_zeros_high [of n 64] low_zeros_low [of 64 n] hl by (auto simp: trailing_zeros_def)
    have b: "low_zeros m \<le> 64" if "0 < m" "m < 2 ^ 64" for m using low_zeros_less [OF that] by simp
    show ?thesis
      using 3 v half_types [of env v s y, OF v(1), of pb] hl(1,2) w64 b [of h] b [of l] ctz_call(2) [of h] ctz_call(2) [of l]
      by (cases "h = 0"; cases "l = 0") (simp_all add: cttz_tree_def bin_simps len)
  qed
qed

lemma count_ones_le: "n < 2 ^ w \<Longrightarrow> count_ones n \<le> w"
proof -
  assume n: "n < 2 ^ w"
  then have "take_bit w n = n" by (simp add: take_bit_nat_eq_self)
  then have "{i. bit n i} \<subseteq> {..<w}" by (metis (no_types, lifting) bit_take_bit_iff lessThan_iff mem_Collect_eq subsetI)
  then have "card {i. bit n i} \<le> card {..<w}" by (intro card_mono) simp_all
  then show ?thesis by (simp add: count_ones_def)
qed

lemma ctpop_eval:
  assumes p: "operand_pattern env v w n" and w: "w \<in> {8, 16, 32, 64, 128}"
  shows "eval pb env (ctpop_tree w v) = Some (CIntT 32 True, int (count_ones n))"
proof -
  have w0: "0 < w" using w by auto
  obtain t x where x: "env v = Some (t, x)" "take_bit w x = int n" "n < 2 ^ w"
    using operand_facts [OF p w0] by blast
  consider "w \<in> {8, 16}" | "w = 32" | "w = 64" | "w = 128" using w by auto
  then show ?thesis
  proof cases
    case 1
    then have "n < 2 ^ 32" using x(3) by (auto intro: less_le_trans)
    then show ?thesis using 1 masked_eval [of env v t x w n pb, OF x(1,2) 1]
      by (auto simp: popcount_call ctpop_tree_def)
  next
    case 4
    obtain s y h l where hl: "h < 2 ^ 64" "l < 2 ^ 64" "n = l + 2 ^ 64 * h"
      and v: "env v = Some (s, y)" "eval pb env (high_half v) = Some (CIntT 64 False, int h)"
        "eval pb env (low_half v) = Some (CIntT 64 False, int l)"
      by (rule halves [OF p [unfolded 4], of pb])
    have "take_bit 64 n = l" "drop_bit 64 n = h" using hl by (simp_all add: take_bit_eq_mod drop_bit_eq_div)
    then have "count_ones n = count_ones l + count_ones h" using count_ones_halves [of n 64] by simp
    then show ?thesis
      using 4 v popcount_call(2) [OF hl(1)] popcount_call(2) [OF hl(2)] count_ones_le [OF hl(1)] count_ones_le [OF hl(2)]
      by (simp add: ctpop_tree_def bin_simps)
  qed (use x in \<open>simp_all add: ctpop_tree_def popcount_call\<close>)
qed

section \<open>Byte swaps\<close>

definition bswap_tree :: "nat \<Rightarrow> string \<Rightarrow> CExpr" where
  "bswap_tree bits v =
     (if bits = 8 then Var v
      else if bits = 16 then Call (Var ''__rustc_bswap16'') [Var v]
      else if bits = 32 then Call (Var ''__rustc_bswap32'') [Var v]
      else if bits = 64 then Call (Var ''__rustc_bswap64'') [Var v]
      else Paren (BinOp (BinOp (Cast ''uint128_t'' (Call (Var ''__rustc_bswap64'') [low_half v])) Shl (Lit ''64''))
             BitOr (Cast ''uint128_t'' (Call (Var ''__rustc_bswap64'') [high_half v]))))"

lemma bswap_tree_text: "w \<in> {8, 16, 32, 64, 128} \<Longrightarrow> tree_text (bswap_tree w v) = bswap_text w v"
  by (auto simp: bswap_tree_def bswap_text_def tree_defs)

lemma bswap_tree_fits: "v \<in> ops \<Longrightarrow> fits ops 13 (bswap_tree w v)"
  by (simp add: bswap_tree_def tree_defs)

lemma take_bit_int_nat: "m < 2 ^ k \<Longrightarrow> take_bit k (int m) = int m"
  by (simp add: take_bit_of_nat take_bit_nat_eq_self)

lemma word_of_low: "take_bit LENGTH('a::len) x = int n \<Longrightarrow> (word_of_int x :: 'a word) = word_of_int (int n)"
  by (metis of_int_of_nat_eq word_of_int_eq_iff take_bit_of_int take_bit_length_eq)

lemma bswap_result:
  assumes u: "\<And>i. i < LENGTH('a::len) \<Longrightarrow> bit (f (word_of_int (int n))) i = bit (word_of_int (int n) :: 'a word) (swapped_bit k i)"
    and k: "LENGTH('a) = 8 * k" and n: "n < 2 ^ LENGTH('a)"
  shows "uint (f (word_of_int (int n) :: 'a word) :: 'a word) = int (swap_bytes k n)"
proof -
  let ?y = "f (word_of_int (int n)) :: 'a word"
  have "unat ?y = swap_bytes k n"
  proof (rule bit_eqI)
    fix i
    have "bit (unat ?y) i \<longleftrightarrow> i < LENGTH('a) \<and> bit ?y i"
      using bit_imp_le_length [of ?y i] by (auto simp: bit_unsigned_iff)
    also have "\<dots> \<longleftrightarrow> bit (swap_bytes k n) i"
      using u [of i] bit_word_pattern [OF n] k by (auto simp: bit_swap_bytes)
    finally show "bit (unat ?y) i \<longleftrightarrow> bit (swap_bytes k n) i" .
  qed
  then show ?thesis by (metis uint_nat)
qed

lemma bswap_call:
  "take_bit 16 x = int n \<Longrightarrow> n < 2 ^ 16 \<Longrightarrow> helper_call ''__rustc_bswap16'' [x] = Some (CIntT 16 False, int (swap_bytes 2 n))"
  "take_bit 32 x = int n \<Longrightarrow> n < 2 ^ 32 \<Longrightarrow> helper_call ''__rustc_bswap32'' [x] = Some (CIntT 32 False, int (swap_bytes 4 n))"
  "take_bit 64 x = int n \<Longrightarrow> n < 2 ^ 64 \<Longrightarrow> helper_call ''__rustc_bswap64'' [x] = Some (CIntT 64 False, int (swap_bytes 8 n))"
  using word_of_low [of x n, where 'a = 16] word_of_low [of x n, where 'a = 32] word_of_low [of x n, where 'a = 64]
    bswap_result [of rustc_bswap16 n 2] bswap_result [of rustc_bswap32 n 4] bswap_result [of rustc_bswap64 n 8]
  by (simp_all add: helper_call_def helper_result_def rustc_bswap16_bit rustc_bswap32_bit rustc_bswap64_bit)

lemma bswap_eval:
  assumes p: "operand_pattern env v w n" and w: "w \<in> {8, 16, 32, 64, 128}"
  shows "\<exists>t y. eval pb env (bswap_tree w v) = Some (t, y) \<and> take_bit w y = int (swap_bytes (w div 8) n)"
proof -
  have w0: "0 < w" using w by auto
  obtain t x where x: "env v = Some (t, x)" "take_bit w x = int n" "n < 2 ^ w"
    using operand_facts [OF p w0] by blast
  have less: "take_bit (8 * k) (int (swap_bytes k n)) = int (swap_bytes k n)" for k n
    by (rule take_bit_int_nat [OF swap_bytes_less])
  show ?thesis
  proof (cases "w = 128")
    case True
    obtain s y h l where hl: "h < 2 ^ 64" "l < 2 ^ 64" "n = l + 2 ^ 64 * h"
      and v: "env v = Some (s, y)" "eval pb env (high_half v) = Some (CIntT 64 False, int h)"
        "eval pb env (low_half v) = Some (CIntT 64 False, int l)"
      by (rule halves [OF p [unfolded True], of pb])
    have "swap_bytes 8 l = swap_bytes 8 n" "n div 2 ^ 64 = h"
      using swap_bytes_low [of 8 8 n] hl by (simp_all add: take_bit_eq_mod)
    then have sw: "swap_bytes 16 n = swap_bytes 8 h + push_bit 64 (swap_bytes 8 l)"
      using swap_bytes_append [of 8 8 n] by (simp add: push_bit_eq_mult)
    have "or (push_bit 64 (swap_bytes 8 l)) (swap_bytes 8 h) = swap_bytes 16 n"
      unfolding sw using swap_bytes_less [of 8 h]
      by (subst disjunctive_add [symmetric]) (auto simp: bit_push_bit_iff bit_swap_bytes add.commute)
    then have o: "or (push_bit 64 (int (swap_bytes 8 l))) (int (swap_bytes 8 h)) = int (swap_bytes 16 n)"
      by (simp flip: of_nat_or_eq of_nat_push_bit)
    have b: "swap_bytes 8 m < 2 ^ 64" for m using swap_bytes_less [of 8 m] by simp
    have t: "take_bit 128 (int (swap_bytes 8 m)) = int (swap_bytes 8 m)" for m
      using b [of m] by (intro take_bit_int_nat) simp
    have ps: "take_bit 128 (push_bit 64 (int (swap_bytes 8 m))) = push_bit 64 (int (swap_bytes 8 m))" for m
      using less [of 8 m] by (simp add: take_bit_push_bit)
    have "take_bit 64 (int h) = int h" "take_bit 64 (int l) = int l"
      using hl by (simp_all add: take_bit_int_eq_self)
    then show ?thesis
      using True v bswap_call(3) [of "int h" h] bswap_call(3) [of "int l" l] hl(1,2) t ps o less [of 16 n]
      by (simp add: bswap_tree_def bin_simps)
  next
    case False
    have "swap_bytes 1 n = n" if "n < 2 ^ 8" using that by simp
    with False show ?thesis using w x bswap_call [of x n] less [of 2 n] less [of 4 n] less [of 8 n]
      by (elim insertE emptyE) (simp_all add: bswap_tree_def)
  qed
qed

end
