(* ===== verification/IntrinsicShift.thy ===== *)
theory IntrinsicShift
  imports IntrinsicSem
begin

text \<open>
  The texts of the rotations and funnel shifts: their trees in the C grammar and the values of
  the trees, against specifications that say where each bit of the result comes from.
\<close>

section \<open>Specifications\<close>

text \<open>The number whose bit \<open>i\<close> is bit \<open>f i\<close> of \<open>n\<close>, for \<open>i\<close> below \<open>w\<close>.\<close>

definition gather_bits :: "nat \<Rightarrow> (nat \<Rightarrow> nat) \<Rightarrow> nat \<Rightarrow> nat" where
  "gather_bits w f n = horner_sum of_bool 2 (map (\<lambda>i. bit n (f i)) [0..<w])"

definition rotated :: "bool \<Rightarrow> nat \<Rightarrow> nat \<Rightarrow> nat \<Rightarrow> nat" where
  "rotated left w k n =
     gather_bits w (\<lambda>i. if left then (i + (w - k mod w)) mod w else (i + k) mod w) n"

text \<open>The two operands side by side, \<open>a\<close> the high half, shifted; the left shift keeps the high half.\<close>

definition funnel_left :: "nat \<Rightarrow> nat \<Rightarrow> nat \<Rightarrow> nat \<Rightarrow> nat" where
  "funnel_left w k a b = ((a * 2 ^ w + b) * 2 ^ k) div 2 ^ w mod 2 ^ w"

definition funnel_right :: "nat \<Rightarrow> nat \<Rightarrow> nat \<Rightarrow> nat \<Rightarrow> nat" where
  "funnel_right w k a b = (a * 2 ^ w + b) div 2 ^ k mod 2 ^ w"

lemma bit_gather: "bit (gather_bits w f n) i \<longleftrightarrow> i < w \<and> bit n (f i)"
  by (auto simp: gather_bits_def bit_horner_sum_bit_iff)

lemma bit_below: "bit (n::nat) i \<Longrightarrow> n < 2 ^ w \<Longrightarrow> i < w"
  by (metis bit_take_bit_iff take_bit_nat_eq_self)

text \<open>The two shifts of a rotation, and of a funnel shift, cover the word.\<close>

lemma rotated_left_bits:
  assumes n: "n < 2 ^ w" and r: "r < w" "r = k mod w" "r' = (if r = 0 then 0 else w - r)"
  shows "take_bit w (or (push_bit r n) (drop_bit r' n)) = rotated True w k n"
proof (rule bit_eqI)
  fix i
  have hi: "bit n j \<Longrightarrow> j < w" for j using bit_below n by blast
  consider "w \<le> i" | "i < r" | "r \<le> i" "i < w" using r(1) by linarith
  then show "bit (take_bit w (or (push_bit r n) (drop_bit r' n))) i = bit (rotated True w k n) i"
  proof cases
    case 1
    then show ?thesis by (simp add: rotated_def bit_gather bit_simps)
  next
    case 2
    then have "i + (w - r) < w" "r \<noteq> 0" "i < w" using r(1) by auto
    then show ?thesis using 2 r
      by (simp add: rotated_def bit_gather bit_simps add.commute)
  next
    case 3
    then have "(i + (w - r)) mod w = i - r" using r(1)
      by (metis Nat.add_diff_assoc2 add.commute add_diff_inverse_nat le_add_diff_inverse2 less_imp_diff_less
          less_imp_le_nat mod_add_self1 mod_less ordered_cancel_comm_monoid_diff_class.add_diff_assoc)
    then show ?thesis using 3 r hi [of "i + (w - r)"]
      by (auto simp: rotated_def bit_gather bit_simps add.commute)
  qed
qed

lemma rotated_right_bits:
  assumes n: "n < 2 ^ w" and r: "r < w" "r = k mod w" "r' = (if r = 0 then 0 else w - r)"
  shows "take_bit w (or (drop_bit r n) (push_bit r' n)) = rotated False w k n"
proof (rule bit_eqI)
  fix i
  have hi: "bit n j \<Longrightarrow> j < w" for j using bit_below n by blast
  have m: "(i + k) mod w = (i + r) mod w" using r(2) by (simp add: mod_add_right_eq)
  consider "w \<le> i" | "i + r < w" | "i < w" "w \<le> i + r" by linarith
  then show "bit (take_bit w (or (drop_bit r n) (push_bit r' n))) i = bit (rotated False w k n) i"
  proof cases
    case 1
    then show ?thesis by (simp add: rotated_def bit_gather bit_simps)
  next
    case 2
    then show ?thesis using m r(1,3) by (auto simp: rotated_def bit_gather bit_simps add.commute)
  next
    case 3
    then have "(i + r) mod w = i + r - w" using r(1) by (simp add: mod_if)
    moreover have "i - (w - r) = i + r - w" "r \<noteq> 0" using 3 r(1) by auto
    ultimately show ?thesis using 3 m r(1,3) hi [of "i + r"]
      by (auto simp: rotated_def bit_gather bit_simps add.commute)
  qed
qed

lemma funnel_left_bits:
  assumes b: "b < 2 ^ w" and k: "k \<le> w"
  shows "take_bit w (or (push_bit k a) (drop_bit (w - k) b)) = funnel_left w k a b"
proof -
  have "bit (funnel_left w k a b) i \<longleftrightarrow> i < w \<and> (if k \<le> i then bit a (i - k) else bit b (w + i - k))" for i
  proof -
    have "bit (funnel_left w k a b) i \<longleftrightarrow> i < w \<and> bit (push_bit k (2 ^ w * a + b)) (w + i)"
      by (simp add: funnel_left_def push_bit_eq_mult mult.commute bit_take_bit_iff bit_drop_bit_eq
          flip: take_bit_eq_mod drop_bit_eq_div)
    then show ?thesis using k b by (auto simp: bit_push_bit_iff bit_concat)
  qed
  moreover have "\<not> bit b (w + i - k)" if "k \<le> i" for i using bit_below [OF _ b] that by fastforce
  ultimately show ?thesis
    using k by (intro bit_eqI) (auto simp: bit_simps not_le)
qed

lemma funnel_right_bits:
  assumes b: "b < 2 ^ w" and k: "k \<le> w"
  shows "take_bit w (or (drop_bit k b) (push_bit (w - k) a)) = funnel_right w k a b"
proof -
  have "bit (funnel_right w k a b) i \<longleftrightarrow> i < w \<and> (if i + k < w then bit b (i + k) else bit a (i + k - w))" for i
  proof -
    have "bit (funnel_right w k a b) i \<longleftrightarrow> i < w \<and> bit (2 ^ w * a + b) (k + i)"
      by (simp add: funnel_right_def mult.commute bit_take_bit_iff bit_drop_bit_eq
          flip: take_bit_eq_mod drop_bit_eq_div)
    then show ?thesis using b by (simp add: bit_concat) (simp add: add.commute)
  qed
  moreover have "\<not> bit b (i + k)" if "w \<le> i + k" for i using bit_below [OF _ b] that by fastforce
  ultimately show ?thesis
    using k by (intro bit_eqI) (auto simp: bit_simps add.commute)
qed

section \<open>Trees\<close>

definition shift_op :: "bool \<Rightarrow> CBinOp" where
  "shift_op left = (if left then Shl else Shr)"

definition rotate_tree :: "bool \<Rightarrow> nat \<Rightarrow> string \<Rightarrow> string \<Rightarrow> string \<Rightarrow> string \<Rightarrow> CExpr" where
  "rotate_tree left bits t ut v s =
     Cast t (Paren (BinOp
       (BinOp (Cast ut (Var v)) (shift_op left) (Paren (BinOp (Var s) Rem (Lit (nat_str bits)))))
       BitOr
       (BinOp (Cast ut (Var v)) (shift_op (\<not> left))
          (Paren (BinOp (Paren (BinOp (Lit (nat_str bits)) Sub (Var s))) Rem (Lit (nat_str bits)))))))"

definition funnel_tree ::
  "bool \<Rightarrow> nat \<Rightarrow> string \<Rightarrow> string \<Rightarrow> string \<Rightarrow> string \<Rightarrow> string \<Rightarrow> CExpr" where
  "funnel_tree left bits t ut va vb s =
     Cast t (Paren (BinOp
       (Paren (BinOp (Cast ut (Var va)) (shift_op left) (Var s)))
       BitOr
       (Paren (BinOp (Cast ut (Var vb)) (shift_op (\<not> left)) (Paren (BinOp (Lit (nat_str bits)) Sub (Var s)))))))"

lemma shift_tree_texts:
  "tree_text (rotate_tree left bits t ut v s) = rotate_text left bits t ut v s"
  "tree_text (funnel_tree left bits t ut va vb s) = funnel_text left bits t ut va vb s"
  by (cases left; simp add: rotate_tree_def rotate_text_def funnel_tree_def funnel_text_def shift_op_def)+

lemma shift_tree_fits:
  assumes "v \<in> ops" "v' \<in> ops" "s \<in> ops" "int_type_name t" "int_type_name ut" "w \<le> 128"
  shows "fits ops 13 (rotate_tree left w t ut v s)" "fits ops 13 (funnel_tree left w t ut v v' s)"
  using assms by (cases left; simp add: rotate_tree_def funnel_tree_def shift_op_def)+

section \<open>Values\<close>

text \<open>A shift amount is an unsigned number of at least 32 bits, not bounded by the width.\<close>

definition amount_operand :: "cenv \<Rightarrow> string \<Rightarrow> nat \<Rightarrow> bool" where
  "amount_operand env s k = (\<exists>m. env s = Some (CIntT m False, int k) \<and> 32 \<le> m \<and> k < 2 ^ m)"

lemma rem_eval:
  assumes "eval pb env e = Some (CIntT m False, x)" "take_bit m x = x" "32 \<le> m" "0 < w" "w \<le> 128"
  shows "eval pb env (BinOp e Rem (Lit (nat_str w))) = Some (CIntT m False, x mod int w)"
proof -
  have w: "literal (nat_str w) = Some (CIntT 32 True, int w)" using assms(5) by simp
  have "(2::nat) ^ 32 \<le> 2 ^ m" using assms(3) by (intro power_increasing) auto
  then have tw: "take_bit m (int w) = int w" using assms(5) by (intro take_bit_int_nat) simp
  have a: "arith_type (CIntT m False) (CIntT 32 True) = CIntT m False"
    using assms(3) by (simp add: arith_type_def)
  show ?thesis
    using assms(1,2,4) w tw div_range [OF assms(2) tw] by (simp add: bin_def arith_def a Let_def)
qed

lemma minus_amount_eval:
  assumes "env s = Some (CIntT m False, int k)" "k < 2 ^ m" "32 \<le> m" "w \<le> 128"
  shows "eval pb env (BinOp (Lit (nat_str w)) Sub (Var s)) = Some (CIntT m False, take_bit m (int w - int k))"
proof -
  have w: "literal (nat_str w) = Some (CIntT 32 True, int w)" using assms(4) by simp
  have "(2::nat) ^ 32 \<le> 2 ^ m" using assms(3) by (intro power_increasing) auto
  then have tw: "take_bit m (int w) = int w" using assms(4) by (intro take_bit_int_nat) simp
  have a: "arith_type (CIntT 32 True) (CIntT m False) = CIntT m False"
    using assms(3) by (simp add: arith_type_def)
  show ?thesis using assms(1) w tw by (simp add: bin_def arith_def a Let_def take_bit_int_nat [OF assms(2)])
qed

lemma minus_mod:
  assumes "w \<in> {8, 16, 32, 64, 128}" "32 \<le> m"
  shows "take_bit m (int w - int k) mod int w = int (if k mod w = 0 then 0 else w - k mod w)"
proof -
  obtain j where j: "w = 2 ^ j" "j \<le> 7" using assms(1)
    by (elim insertE emptyE) (auto intro: that [of 3] that [of 4] that [of 5] that [of 6] that [of 7])
  have "take_bit m (int w - int k) mod int w = (int w - int k) mod int w"
    using take_bit_take_bit [of j m "int w - int k"] assms(2) j by (simp add: take_bit_eq_mod min_def)
  also have "\<dots> = (- int k) mod int w" by (simp add: mod_diff_left_eq [symmetric])
  also have "\<dots> = (if int (k mod w) = 0 then 0 else int w - int (k mod w))"
    by (simp only: zmod_zminus1_eq_if zmod_int)
  also have "\<dots> = int (if k mod w = 0 then 0 else w - k mod w)"
    using j by (simp add: of_nat_diff less_imp_le)
  finally show ?thesis .
qed

lemma shift_eval:
  assumes "type_name pb ut = Some (CIntT w False)" "env v = Some (t, x)" "take_bit w x = int n"
    and "eval pb env e = Some (u, int r)" "r < ctype_bits (promote (CIntT w False))"
  shows "eval pb env (BinOp (Cast ut (Var v)) Shl e) =
      Some (promote (CIntT w False), wrap (promote (CIntT w False)) (int (push_bit r n)))"
    "eval pb env (BinOp (Cast ut (Var v)) Shr e) = Some (promote (CIntT w False), int (drop_bit r n))"
  using assms by (simp_all add: bin_def shift_def Let_def of_nat_push_bit of_nat_drop_bit)

text \<open>The two shifted operands joined and converted.\<close>

lemma joined_eval:
  assumes "type_name pb t = Some (CIntT w sg)" "0 < w"
    and "eval pb env e = Some (promote (CIntT w False), x)" "eval pb env e' = Some (promote (CIntT w False), y)"
    and "take_bit w x = take_bit w (int m)" "take_bit w y = take_bit w (int m')"
    and "take_bit w (or m m') = z"
  shows "eval pb env (Cast t (Paren (BinOp e BitOr e'))) = Some (CIntT w sg, wrap (CIntT w sg) (int z))"
proof -
  let ?T = "promote (CIntT w False)"
  have T: "arith_type ?T ?T = ?T" by (simp add: arith_type_def)
  have it: "int_type ?T" "w \<le> ctype_bits ?T" using assms(2) by auto
  have "take_bit w (or (wrap ?T x) (wrap ?T y)) = take_bit w (int (or m m'))"
    using assms(5,6) by (simp only: take_bit_or take_bit_wrap [OF it] of_nat_or_eq)
  also have "\<dots> = int z" using assms(7) by (simp add: of_nat_take_bit [symmetric])
  finally have l: "take_bit w (or (wrap ?T x) (wrap ?T y)) = int z" .
  then have "take_bit w (int z) = int z" by (metis take_bit_take_bit min.idem)
  then have "wrap (CIntT w sg) (or (wrap ?T x) (wrap ?T y)) = wrap (CIntT w sg) (int z)"
    using assms(2) l by (intro wrap_take_bit [of w]) auto
  then show ?thesis using assms(1,3,4) by (simp add: bin_def arith_def T Let_def del: promote.simps)
qed

lemma shift_width: "r < w \<Longrightarrow> r < ctype_bits (promote (CIntT w False))"
  by simp

lemma low_joined: "0 < w \<Longrightarrow> take_bit w (wrap (promote (CIntT w False)) x) = take_bit w x"
  by (intro take_bit_wrap) auto

lemma rotate_eval:
  assumes p: "operand_pattern env v w n" and s: "amount_operand env s k" and w: "w \<in> {8, 16, 32, 64, 128}"
    and t: "type_name pb t = Some (CIntT w sg)" "type_name pb ut = Some (CIntT w False)"
  shows "eval pb env (rotate_tree left w t ut v s) =
    Some (CIntT w sg, wrap (CIntT w sg) (int (rotated left w k n)))"
proof -
  have w0: "0 < w" "w \<le> 128" using w by auto
  obtain u x where x: "env v = Some (u, x)" "take_bit w x = int n" "n < 2 ^ w"
    using operand_facts [OF p w0(1)] by blast
  obtain m where m: "env s = Some (CIntT m False, int k)" "32 \<le> m" "k < 2 ^ m"
    using s by (auto simp: amount_operand_def)
  let ?r = "k mod w" and ?r' = "if k mod w = 0 then 0 else w - k mod w"
  have e1: "eval pb env (Paren (BinOp (Var s) Rem (Lit (nat_str w)))) = Some (CIntT m False, int ?r)"
    using rem_eval [of pb env "Var s" m "int k" w] m w0 take_bit_int_nat [OF m(3)] by (simp add: zmod_int)
  have e2: "eval pb env (Paren (BinOp (Paren (BinOp (Lit (nat_str w)) Sub (Var s))) Rem (Lit (nat_str w)))) =
      Some (CIntT m False, int ?r')"
    using rem_eval [of pb env "Paren (BinOp (Lit (nat_str w)) Sub (Var s))" m "take_bit m (int w - int k)" w]
      minus_amount_eval [of env s m k w pb] m w0 minus_mod [OF w m(2), of k] by simp
  have r: "?r < w" "?r' < w" using w0 by auto
  note sh1 = shift_eval [OF t(2) x(1,2) e1 shift_width [OF r(1)]]
    and sh2 = shift_eval [OF t(2) x(1,2) e2 shift_width [OF r(2)]]
  show ?thesis
  proof (cases left)
    case True
    show ?thesis unfolding rotate_tree_def shift_op_def using True
      by (simp only: if_True if_False not_True_eq_False)
        (rule joined_eval [OF t(1) w0(1) sh1(1) sh2(2) low_joined [OF w0(1)] refl
          rotated_left_bits [OF x(3) r(1) refl refl]])
  next
    case False
    show ?thesis unfolding rotate_tree_def shift_op_def using False
      by (simp only: if_True if_False not_False_eq_True)
        (rule joined_eval [OF t(1) w0(1) sh1(2) sh2(1) refl low_joined [OF w0(1)]
          rotated_right_bits [OF x(3) r(1) refl refl]])
  qed
qed

text \<open>
  The funnel shifts, for amounts between 1 and the width less 1. The right shift joins the
  operands the other way round: its first operand is the low half.
\<close>

lemma funnel_eval:
  assumes p: "operand_pattern env va w x" "operand_pattern env vb w y" and s: "amount_operand env s k"
    and w: "w \<in> {8, 16, 32, 64, 128}" and k: "0 < k" "k < w"
    and t: "type_name pb t = Some (CIntT w sg)" "type_name pb ut = Some (CIntT w False)"
  shows "eval pb env (funnel_tree left w t ut va vb s) =
    Some (CIntT w sg, wrap (CIntT w sg) (int (if left then funnel_left w k x y else funnel_right w k y x)))"
proof -
  have w0: "0 < w" "w \<le> 128" using w by auto
  obtain u x' where x: "env va = Some (u, x')" "take_bit w x' = int x" "x < 2 ^ w"
    using operand_facts [OF p(1) w0(1)] by blast
  obtain u' y' where y: "env vb = Some (u', y')" "take_bit w y' = int y" "y < 2 ^ w"
    using operand_facts [OF p(2) w0(1)] by blast
  obtain m where m: "env s = Some (CIntT m False, int k)" "32 \<le> m" "k < 2 ^ m"
    using s by (auto simp: amount_operand_def)
  have "(2::nat) ^ 32 \<le> 2 ^ m" using m(2) by (intro power_increasing) auto
  then have "take_bit m (int w - int k) = int (w - k)"
    using take_bit_int_nat [of "w - k" m] k w0(2) by (simp add: of_nat_diff)
  then have e2: "eval pb env (Paren (BinOp (Lit (nat_str w)) Sub (Var s))) = Some (CIntT m False, int (w - k))"
    using minus_amount_eval [of env s m k w pb] m w0 by simp
  have e1: "eval pb env (Var s) = Some (CIntT m False, int k)" using m by simp
  have r: "k < w" "w - k < w" using k by auto
  note sh1 = shift_eval [OF t(2) x(1,2) e1 shift_width [OF r(1)]]
    and sh2 = shift_eval [OF t(2) y(1,2) e2 shift_width [OF r(2)]]
  have wr: "w - (w - k) = k" "w - k \<le> w" using k by auto
  have pe: "eval pb env (Paren e) = eval pb env e" for e by simp
  show ?thesis
  proof (cases left)
    case True
    show ?thesis unfolding funnel_tree_def shift_op_def using True
      by (simp only: if_True if_False not_True_eq_False)
        (rule joined_eval [OF t(1) w0(1) trans [OF pe sh1(1)] trans [OF pe sh2(2)] low_joined [OF w0(1)] refl
          funnel_left_bits [OF y(3) less_imp_le [OF k(2)]]])
  next
    case False
    show ?thesis unfolding funnel_tree_def shift_op_def using False
      by (simp only: if_True if_False not_False_eq_True)
        (rule joined_eval [OF t(1) w0(1) trans [OF pe sh1(2)] trans [OF pe sh2(1)] refl low_joined [OF w0(1)]
          funnel_right_bits [OF x(3) less_imp_le [OF k(2)]]])
  qed
qed

text \<open>By zero, the second operand is shifted by its whole width.\<close>

lemma funnel_zero_undefined:
  assumes s: "amount_operand env s 0" and w: "w \<in> {32, 64, 128}"
    and t: "type_name pb ut = Some (CIntT w False)"
  shows "eval pb env (funnel_tree left w t ut va vb s) = None"
proof -
  obtain m where m: "env s = Some (CIntT m False, int 0)" "32 \<le> m" using s by (auto simp: amount_operand_def)
  have "(2::nat) ^ 32 \<le> 2 ^ m" using m(2) by (intro power_increasing) auto
  then have "take_bit m (int w) = int w" using w by (intro take_bit_int_nat) auto
  then have e2: "eval pb env (BinOp (Lit (nat_str w)) Sub (Var s)) = Some (CIntT m False, int w)"
    using minus_amount_eval [of env s m 0 w pb] m w by auto
  have "bin (shift_op l) (CIntT w False, y) (CIntT m False, int w) = None" for l y
    using w by (cases l) (auto simp: shift_op_def bin_def shift_def)
  moreover have "shift_op l \<noteq> LogAnd" "shift_op l \<noteq> LogOr" for l by (simp_all add: shift_op_def)
  ultimately have "eval pb env (BinOp (Cast ut (Var vb)) (shift_op l) (Paren (BinOp (Lit (nat_str w)) Sub (Var s)))) = None"
    for l using e2 t by (cases "env vb") auto
  then show ?thesis by (auto simp: funnel_tree_def bind_None_iff)
qed

end
