(* ===== verification/IntrinsicCode.thy ===== *)
theory IntrinsicCode
  imports IntrinsicShift
begin

text \<open>
  The bit intrinsics as the code generator emits them: the operation declares a temporary,
  assigns the text to it and stores it in the destination; running the assignment gives the
  temporary the value of the specification.
\<close>

section \<open>Emitting a text\<close>

definition stores_result ::
  "Builder \<Rightarrow> CodegenCx \<Rightarrow> Place \<Rightarrow> CodegenCx option \<Rightarrow> (cenv \<Rightarrow> cval \<Rightarrow> bool) \<Rightarrow> bool" where
  "stores_result b cx dest m P =
     (\<exists>r cx'. implements b cx (Some (r, cx')) P \<and> m = store_result b r dest cx')"

lemma stores_resultI:
  "implements b cx (Some (r, cx')) P \<Longrightarrow> m = store_result b r dest cx' \<Longrightarrow> stores_result b cx dest m P"
  by (auto simp: stores_result_def)

lemma text_implements:
  assumes wf: "cx_wf cx" and r: "reach b id n cx cx1" and rm: "room 1 cx1"
    and ty: "tval cx1 ty" "kind_of cx1 ty = Some k" "kind_ctype (pointer_bits cx) k = Some c"
    and T: "fits (operand_texts cx) 13 T"
    and P: "\<And>env d. P env d \<Longrightarrow> \<exists>s x. eval (pointer_bits cx) env T = Some (s, x) \<and> d = (c, wrap c x)"
  shows "\<exists>v cx'. new_temp_with_stmt b ty (Raw (tree_text T)) cx1 = Some (v, cx') \<and>
    implements b cx (Some (v, cx')) P"
proof -
  obtain v cx' where m: "new_temp_with_stmt b ty (Raw (tree_text T)) cx1 = Some (v, cx')"
    and a: "assigns b 1 ty (Raw (tree_text T)) cx1 v cx'"
    using new_temp_with_stmt_ok [OF reach_wf [OF r] rm ty(1)] by blast
  have "implements b cx (Some (v, cx')) P"
    by (rule reads_implements [OF assigns_reach [OF r a] assigns_kind [OF a ty(2)] ty(3)])
      (use tree_reads [OF T] P in auto)
  then show ?thesis using m by blast
qed

section \<open>Counts\<close>

lemma count_stores:
  assumes wf: "cx_wf cx" "room 2 cx" and x: "immediate_arg args 0 = Some x" "render_value cx x = Some v"
    "type_of_value cx x = Some ty" "int_width cx ty = Some w"
    and T: "tree_text (T w v) = text w v" "\<And>ops. v \<in> ops \<Longrightarrow> fits ops 13 (T w v)"
      "\<And>env n. operand_pattern env v w n \<Longrightarrow>
        eval (pointer_bits cx) env (T w v) = Some (CIntT 32 True, int (f n)) \<and> f n \<le> 128"
  shows "stores_result b cx dest (count_intrinsic text b args dest cx)
    (\<lambda>env d. \<exists>n. operand_pattern env v w n \<and> d = (CIntT 32 True, int (f n)))"
    (is "stores_result _ _ _ _ ?P")
proof -
  obtain t cx1 where it: "intern_type (TInt 32 True) cx = (t, cx1)" by (cases "intern_type (TInt 32 True) cx")
  have rm: "room (1 + 1) cx" using wf(2) by (simp add: numeral_2_eq_2)
  from intern_type_reach [OF wf(1) room_mono [OF rm] _ _ it, of b]
  have r: "reach b id 1 cx cx1" "kind_of cx1 t = Some (TInt 32 True)" "tval cx1 t" by auto
  have c: "kind_ctype (pointer_bits cx) (TInt 32 True) = Some (CIntT 32 True)"
    by (simp add: kind_ctype_def c_bits_def)
  have "\<exists>r cx'. new_temp_with_stmt b t (Raw (tree_text (T w v))) cx1 = Some (r, cx') \<and>
      implements b cx (Some (r, cx')) ?P"
  proof (rule text_implements [OF wf(1) r(1) reach_room [OF r(1) rm] r(3,2) c])
    show "fits (operand_texts cx) 13 (T w v)" using T(2) x(2) by auto
    show "\<exists>s y. eval (pointer_bits cx) env (T w v) = Some (s, y) \<and> d = (CIntT 32 True, wrap (CIntT 32 True) y)"
      if "?P env d" for env d
      using that T(3) by force
  qed
  then obtain r cx' where n: "new_temp_with_stmt b t (Raw (tree_text (T w v))) cx1 = Some (r, cx')"
    and i: "implements b cx (Some (r, cx')) ?P" by blast
  show ?thesis by (rule stores_resultI [OF i]) (use n x it in \<open>simp add: count_intrinsic_def type_i32_def T(1)\<close>)
qed

lemma leading_zeros_le: "leading_zeros w n \<le> w"
  by (simp add: leading_zeros_def)

lemma trailing_zeros_le: "n < 2 ^ w \<Longrightarrow> trailing_zeros w n \<le> w"
  using low_zeros_less [of n w] by (cases "n = 0") (simp_all add: trailing_zeros_def)

lemma operand_pattern_less: "operand_pattern env v w n \<Longrightarrow> 0 < w \<Longrightarrow> n < 2 ^ w"
  using operand_facts by blast

lemma bit_counts_store:
  assumes wf: "cx_wf cx" "room 2 cx" and x: "immediate_arg args 0 = Some x" "render_value cx x = Some v"
    "type_of_value cx x = Some ty" "int_width cx ty = Some w"
    and w: "w \<in> {8, 16, 32, 64, 128}"
  shows "stores_result b cx dest (codegen_ctlz b args dest cx)
      (\<lambda>env d. \<exists>n. operand_pattern env v w n \<and> d = (CIntT 32 True, int (leading_zeros w n)))"
    "stores_result b cx dest (codegen_cttz b args dest cx)
      (\<lambda>env d. \<exists>n. operand_pattern env v w n \<and> d = (CIntT 32 True, int (trailing_zeros w n)))"
    "stores_result b cx dest (codegen_ctpop b args dest cx)
      (\<lambda>env d. \<exists>n. operand_pattern env v w n \<and> d = (CIntT 32 True, int (count_ones n)))"
proof -
  have w0: "0 < w" "w \<le> 128" using w by auto
  note fits = count_tree_fits [OF _ w0(2)]
  have le: "leading_zeros w n \<le> 128 \<and> trailing_zeros w n \<le> 128 \<and> count_ones n \<le> 128"
    if "operand_pattern env v w n" for env n
    using operand_pattern_less [OF that w0(1)] leading_zeros_le [of w n] trailing_zeros_le [of n w]
      count_ones_le [of n w] w0(2) by auto
  show "stores_result b cx dest (codegen_ctlz b args dest cx)
      (\<lambda>env d. \<exists>n. operand_pattern env v w n \<and> d = (CIntT 32 True, int (leading_zeros w n)))"
    unfolding codegen_ctlz_def
    by (rule count_stores [OF wf x, where T = ctlz_tree])
      (use count_tree_texts fits ctlz_eval [OF _ w] le in auto)
  show "stores_result b cx dest (codegen_cttz b args dest cx)
      (\<lambda>env d. \<exists>n. operand_pattern env v w n \<and> d = (CIntT 32 True, int (trailing_zeros w n)))"
    unfolding codegen_cttz_def
    by (rule count_stores [OF wf x, where T = cttz_tree])
      (use count_tree_texts fits cttz_eval [OF _ w] le in auto)
  show "stores_result b cx dest (codegen_ctpop b args dest cx)
      (\<lambda>env d. \<exists>n. operand_pattern env v w n \<and> d = (CIntT 32 True, int (count_ones n)))"
    unfolding codegen_ctpop_def
    by (rule count_stores [OF wf x, where T = ctpop_tree])
      (use count_tree_texts fits ctpop_eval [OF _ w] le in auto)
qed

section \<open>Byte swap\<close>

lemma bswap_store:
  assumes wf: "cx_wf cx" "room 1 cx" and x: "immediate_arg args 0 = Some x" "render_value cx x = Some v"
    "type_of_value cx x = Some ty" "int_width cx ty = Some w" "kind_of cx ty = Some k"
    and c: "kind_ctype (pointer_bits cx) k = Some (CIntT w sg)" and w: "w \<in> {8, 16, 32, 64, 128}"
  shows "stores_result b cx dest (codegen_bswap b args dest cx)
    (\<lambda>env d. \<exists>n. operand_pattern env v w n \<and>
       d = (CIntT w sg, wrap (CIntT w sg) (int (swap_bytes (w div 8) n))))"
    (is "stores_result _ _ _ _ ?P")
proof -
  have "\<exists>r cx'. new_temp_with_stmt b ty (Raw (tree_text (bswap_tree w v))) cx = Some (r, cx') \<and>
      implements b cx (Some (r, cx')) ?P"
  proof (rule text_implements [OF wf(1) reach_refl [OF wf(1)] wf(2) type_tval [OF wf(1) x(3)] x(5) c])
    show "fits (operand_texts cx) 13 (bswap_tree w v)" by (rule bswap_tree_fits) (use x(2) in auto)
    show "\<exists>s y. eval (pointer_bits cx) env (bswap_tree w v) = Some (s, y) \<and> d = (CIntT w sg, wrap (CIntT w sg) y)"
      if "?P env d" for env d
    proof -
      from that obtain n where p: "operand_pattern env v w n"
        and d: "d = (CIntT w sg, wrap (CIntT w sg) (int (swap_bytes (w div 8) n)))" by blast
      obtain s y where e: "eval (pointer_bits cx) env (bswap_tree w v) = Some (s, y)"
        and y: "take_bit w y = int (swap_bytes (w div 8) n)" using bswap_eval [OF p w] by blast
      have "take_bit w y = take_bit w (int (swap_bytes (w div 8) n))"
        unfolding y [symmetric] by simp
      then have "wrap (CIntT w sg) y = wrap (CIntT w sg) (int (swap_bytes (w div 8) n))"
        using w by (intro wrap_take_bit [of w]) auto
      then show ?thesis using e d by simp
    qed
  qed
  then obtain r cx' where n: "new_temp_with_stmt b ty (Raw (tree_text (bswap_tree w v))) cx = Some (r, cx')"
    and i: "implements b cx (Some (r, cx')) ?P" by blast
  show ?thesis by (rule stores_resultI [OF i]) (use n x in \<open>simp add: codegen_bswap_def bswap_tree_text [OF w]\<close>)
qed

section \<open>Rotations and funnel shifts\<close>

lemma unsigned_text_ok:
  assumes wf: "cx_wf cx" "room 1 cx" and ty: "tval cx ty" "kind_of cx ty = Some k"
    and c: "kind_ctype (pointer_bits cx) k = Some (CIntT w sg)"
  shows "\<exists>ut cx1. unsigned_text ty cx = Some (ut, cx1) \<and> reach b id 1 cx cx1 \<and>
    type_name (pointer_bits cx) ut = Some (CIntT w False)"
proof -
  from unsigned_type_ok [OF wf ty(2), of b] obtain u cx1 where
    u: "unsigned_type ty cx = Some (u, cx1)" and r: "reach b id 1 cx cx1"
    and uk: "case unsigned_kind k of None \<Rightarrow> u = None
       | Some uk \<Rightarrow> \<exists>t. u = Some t \<and> kind_of cx1 t = Some uk \<and> tval cx1 t" by blast
  have "\<exists>t k'. (case u of Some uty \<Rightarrow> uty | None \<Rightarrow> ty) = t \<and> kind_of cx1 t = Some k' \<and> tval cx1 t \<and>
      kind_ctype (pointer_bits cx) k' = Some (CIntT w False)"
  proof (cases sg)
    case True
    then obtain uk' where "unsigned_kind k = Some uk'" "kind_ctype (pointer_bits cx) uk' = Some (CIntT w False)"
      using kind_ctype_signed [of _ k w] c by auto
    then show ?thesis using uk by auto
  next
    case False
    then have "u = None" using kind_ctype_unsigned c uk by fastforce
    then show ?thesis using c False reach_kind [OF r ty(2)] reach_tval [OF r ty(1)] by auto
  qed
  then obtain t k' where t: "(case u of Some uty \<Rightarrow> uty | None \<Rightarrow> ty) = t" "kind_of cx1 t = Some k'" "tval cx1 t"
    "kind_ctype (pointer_bits cx) k' = Some (CIntT w False)" by blast
  obtain s where s: "render_type cx1 t = Some s" using type_text_total [OF reach_wf [OF r] t(3)] by blast
  show ?thesis
    using u r t(1) s type_name_of_kind [OF t(2) s t(4)] by (simp add: unsigned_text_def)
qed

lemma rotate_store:
  assumes wf: "cx_wf cx" "room 2 cx" and x: "immediate_arg args 0 = Some x" "render_value cx x = Some v"
    "type_of_value cx x = Some ty" "int_width cx ty = Some w" "kind_of cx ty = Some k"
    and y: "immediate_arg args 1 = Some y" "render_value cx y = Some s"
    and c: "kind_ctype (pointer_bits cx) k = Some (CIntT w sg)" and w: "w \<in> {8, 16, 32, 64, 128}"
  shows "stores_result b cx dest (codegen_rotate b name args dest cx)
    (\<lambda>env d. \<exists>n a. operand_pattern env v w n \<and> amount_operand env s a \<and>
       d = (CIntT w sg, wrap (CIntT w sg) (int (rotated (name = ''rotate_left'') w a n))))"
    (is "stores_result _ _ _ _ ?P")
proof -
  have rm: "room (1 + 1) cx" using wf(2) by (simp add: numeral_2_eq_2)
  then have "room 1 cx" by (rule room_mono) simp
  note tv = type_tval [OF wf(1) x(3)]
  obtain ut cx1 where u: "unsigned_text ty cx = Some (ut, cx1)" "reach b id 1 cx cx1"
    "type_name (pointer_bits cx) ut = Some (CIntT w False)"
    using unsigned_text_ok [OF wf(1) \<open>room 1 cx\<close> tv x(5) c, of b] by blast
  obtain t where t: "render_type cx ty = Some t" using type_text_total [OF wf(1) tv] by blast
  note tn = type_name_of_kind [OF x(5) t c]
  let ?T = "rotate_tree (name = ''rotate_left'') w t ut v s"
  have "\<exists>r cx'. new_temp_with_stmt b ty (Raw (tree_text ?T)) cx1 = Some (r, cx') \<and>
      implements b cx (Some (r, cx')) ?P"
  proof (rule text_implements [OF wf(1) u(2) reach_room [OF u(2) rm] reach_tval [OF u(2) tv] reach_kind [OF u(2) x(5)] c])
    show "fits (operand_texts cx) 13 ?T"
      by (rule shift_tree_fits) (use x(2) y(2) type_name_int [OF tn] type_name_int [OF u(3)] w in auto)
    show "\<exists>s' y. eval (pointer_bits cx) env ?T = Some (s', y) \<and> d = (CIntT w sg, wrap (CIntT w sg) y)"
      if "?P env d" for env d
      using that rotate_eval [OF _ _ w tn u(3)] by fastforce
  qed
  then obtain r cx' where n: "new_temp_with_stmt b ty (Raw (tree_text ?T)) cx1 = Some (r, cx')"
    and i: "implements b cx (Some (r, cx')) ?P" by blast
  show ?thesis by (rule stores_resultI [OF i]) (use n x y u reach_type_text [OF u(2) t] in \<open>simp add: codegen_rotate_def shift_tree_texts\<close>)
qed

lemma funnel_store:
  assumes wf: "cx_wf cx" "room 2 cx" and x: "immediate_arg args 0 = Some x" "render_value cx x = Some va"
    "type_of_value cx x = Some ty" "int_width cx ty = Some w" "kind_of cx ty = Some k"
    and y: "immediate_arg args 1 = Some y" "render_value cx y = Some vb"
    and z: "immediate_arg args 2 = Some z" "render_value cx z = Some s"
    and c: "kind_ctype (pointer_bits cx) k = Some (CIntT w sg)" and w: "w \<in> {8, 16, 32, 64, 128}"
  shows "stores_result b cx dest (codegen_funnel_shift b name args dest cx)
    (\<lambda>env d. \<exists>m n a. operand_pattern env va w m \<and> operand_pattern env vb w n \<and>
       amount_operand env s a \<and> 0 < a \<and> a < w \<and>
       d = (CIntT w sg, wrap (CIntT w sg) (int
         (if name = ''unchecked_funnel_shl'' then funnel_left w a m n else funnel_right w a n m))))"
    (is "stores_result _ _ _ _ ?P")
proof -
  have rm: "room (1 + 1) cx" using wf(2) by (simp add: numeral_2_eq_2)
  then have "room 1 cx" by (rule room_mono) simp
  note tv = type_tval [OF wf(1) x(3)]
  obtain ut cx1 where u: "unsigned_text ty cx = Some (ut, cx1)" "reach b id 1 cx cx1"
    "type_name (pointer_bits cx) ut = Some (CIntT w False)"
    using unsigned_text_ok [OF wf(1) \<open>room 1 cx\<close> tv x(5) c, of b] by blast
  obtain t where t: "render_type cx ty = Some t" using type_text_total [OF wf(1) tv] by blast
  note tn = type_name_of_kind [OF x(5) t c]
  let ?T = "funnel_tree (name = ''unchecked_funnel_shl'') w t ut va vb s"
  have "\<exists>r cx'. new_temp_with_stmt b ty (Raw (tree_text ?T)) cx1 = Some (r, cx') \<and>
      implements b cx (Some (r, cx')) ?P"
  proof (rule text_implements [OF wf(1) u(2) reach_room [OF u(2) rm] reach_tval [OF u(2) tv] reach_kind [OF u(2) x(5)] c])
    show "fits (operand_texts cx) 13 ?T"
      by (rule shift_tree_fits) (use x(2) y(2) z(2) type_name_int [OF tn] type_name_int [OF u(3)] w in auto)
    show "\<exists>s' y. eval (pointer_bits cx) env ?T = Some (s', y) \<and> d = (CIntT w sg, wrap (CIntT w sg) y)"
      if "?P env d" for env d
      using that funnel_eval [OF _ _ _ w _ _ tn u(3)] by (fastforce simp del: wrap.simps)
  qed
  then obtain r cx' where n: "new_temp_with_stmt b ty (Raw (tree_text ?T)) cx1 = Some (r, cx')"
    and i: "implements b cx (Some (r, cx')) ?P" by blast
  show ?thesis by (rule stores_resultI [OF i]) (use n x y z u t in \<open>simp add: codegen_funnel_shift_def shift_tree_texts\<close>)
qed

end
