(* ===== verification/SaturateSem.thy ===== *)
theory SaturateSem
  imports BlockSem IntrinsicCode
begin

text \<open>
  The saturating additions and subtractions: the emitted statements call the overflow helper
  and replace an overflowed result by the end of the range it passed. Signed types of 64 bits
  or more are excluded: the text has a literal out of the range of \<open>long long\<close> for 64 bits, and
  clamps to 0 for 128 bits.
\<close>

section \<open>Specification\<close>

fun least_value :: "ctype \<Rightarrow> int" where
  "least_value (CIntT w True) = - (2 ^ (w - 1))"
| "least_value _ = 0"

fun greatest_value :: "ctype \<Rightarrow> int" where
  "greatest_value CBoolT = 1"
| "greatest_value (CIntT w True) = 2 ^ (w - 1) - 1"
| "greatest_value (CIntT w False) = 2 ^ w - 1"

definition saturated :: "ctype \<Rightarrow> int \<Rightarrow> int" where
  "saturated t x = max (least_value t) (min (greatest_value t) x)"

lemma wrap_range: "wrap (CIntT w s) x = x \<longleftrightarrow> least_value (CIntT w s) \<le> x \<and> x \<le> greatest_value (CIntT w s)"
  by (cases s) (auto simp: wrap_eq_signed wrap_eq_unsigned simp del: wrap.simps)

lemma saturated_cases:
  assumes "wrap (CIntT w s) x = x" "wrap (CIntT w s) y = y" "oop \<noteq> OvMul"
  shows "saturated (CIntT w s) (op_fun oop x y) =
    (if \<not> overflows oop (CIntT w s) x y then wrap (CIntT w s) (op_fun oop x y)
     else if (y > 0) = (oop = OvAdd) then greatest_value (CIntT w s) else least_value (CIntT w s))"
proof (cases "overflows oop (CIntT w s) x y")
  case False
  then have "wrap (CIntT w s) (op_fun oop x y) = op_fun oop x y" by (simp add: overflows_def del: wrap.simps)
  then show ?thesis
    using False wrap_range [of w s "op_fun oop x y"] by (simp add: saturated_def del: wrap.simps)
next
  case True
  moreover have "least_value (CIntT w s) \<le> 0" "0 \<le> greatest_value (CIntT w s)" by (cases s; simp)+
  ultimately show ?thesis
    using assms by (cases oop) (auto simp: saturated_def overflows_def wrap_range simp del: wrap.simps)
qed

section \<open>The clamp\<close>

definition range_end :: "bool \<Rightarrow> nat \<Rightarrow> string \<Rightarrow> CExpr" where
  "range_end upper bits t =
     Cast t (if upper then Lit (nat_str (2 ^ (bits - 1) - 1) @ ''LL'')
             else UnaryOp Neg (Lit (nat_str (2 ^ (bits - 1)) @ ''LL'')))"

definition clamp_tree :: "bool \<Rightarrow> bool \<Rightarrow> nat \<Rightarrow> string \<Rightarrow> string \<Rightarrow> CExpr" where
  "clamp_tree is_add is_signed bits t r =
     (if is_signed then
        Paren (Ternary (BinOp (Var r) Gt (Lit ''0'')) (range_end is_add bits t) (range_end (\<not> is_add) bits t))
      else if is_add then
        (if bits < 128 then Cast t (Lit (nat_str (2 ^ bits - 1) @ ''ULL'')) else Cast t (UnaryOp Neg (Lit ''1'')))
      else Cast t (Lit ''0''))"

definition saturable :: "nat \<Rightarrow> bool \<Rightarrow> bool" where
  "saturable w s = (w \<in> {8, 16, 32} \<or> \<not> s \<and> w \<in> {64, 128})"

lemma saturable_cases:
  assumes "saturable w s"
  obtains "w = 8" | "w = 16" | "w = 32" | "w = 64" "\<not> s" | "w = 128" "\<not> s"
  using assms by (auto simp: saturable_def)

lemma max_u64_text: "nat_str 18446744073709551615 = ''18446744073709551615''"
  by (simp add: nat_str.simps digit_def)

lemma small_texts: "nat_str 0 = ''0''" "nat_str 1 = ''1''"
  by (simp_all add: nat_str.simps digit_def)

lemma clamp_tree_text:
  assumes "saturable w s"
  shows "tree_text (clamp_tree is_add s w t r) = clamp_text is_add s w t r"
  using assms
  by (cases rule: saturable_cases; cases s; cases is_add)
    (simp_all add: clamp_tree_def clamp_text_def range_end_def saturating_bit_def as_u64_def u64_MAX_def
      wrap_i128_def int_str_def Let_def max_u64_text)

lemma literal_LL [simp]: "n < 2 ^ 63 \<Longrightarrow> literal (nat_str n @ ''LL'') = Some (CIntT 64 True, int n)"
  unfolding literal_def literal_suffix [OF disjI2 [OF disjI2 [OF refl]]] Let_def
  by (simp add: signed_take_bit_int_eq_self)

lemma literal_ULL: "n < 2 ^ 64 \<Longrightarrow> literal (nat_str n @ ''ULL'') = Some (CIntT 64 False, int n)"
  unfolding literal_def literal_suffix [OF disjI2 [OF disjI1 [OF refl]]] Let_def
  by (simp add: take_bit_int_eq_self)

lemma clamp_tree_fits:
  assumes w: "saturable w s" and r: "r \<in> ops" and t: "int_type_name t"
  shows "fits ops 13 (clamp_tree is_add s w t r)"
proof -
  have m: "take (Suc 0) (nat_str n @ xs) \<noteq> ''-''" for n xs
    using nat_str_digits [of "hd (nat_str n)" n] nat_str_nonempty [of n]
    by (cases "nat_str n") (auto simp: digit_val_def)
  show ?thesis using w
    by (cases rule: saturable_cases; cases s; cases is_add)
      (simp_all add: clamp_tree_def range_end_def literal_ULL r t m del: take_append)
qed

section \<open>The value of the clamp\<close>

lemma wrap_with_int:
  assumes "0 < m" "wrap (CIntT m sg) y = y"
  shows "wrap (arith_type (CIntT m sg) (CIntT 32 True)) y = y"
proof (cases sg)
  case True
  then show ?thesis
    using assms signed_take_bit_more [of m y 32] by (auto simp: arith_type_def max_def)
next
  case False
  then show ?thesis
    using assms signed_take_bit_unsigned [of m y 32] by (auto simp: arith_type_def)
qed

lemma positive_eval:
  assumes "env r = Some (CIntT m sg, y)" "0 < m" "wrap (CIntT m sg) y = y"
  shows "eval pb env (BinOp (Var r) Gt (Lit ''0'')) = Some (CIntT 32 True, of_bool (y > 0))"
proof -
  let ?t = "arith_type (CIntT m sg) (CIntT 32 True)"
  have "wrap ?t 0 = 0"
    using assms(2) by (cases ?t rule: ctype_ok.cases; cases "snd (case ?t of CIntT a b \<Rightarrow> (a, b))") auto
  then show ?thesis
    using assms(1) wrap_with_int [OF assms(2,3)] by (simp add: bin_def arith_def of_bool_int_def Let_def)
qed

lemma clamp_eval:
  assumes w: "saturable w s" and r: "env r = Some (CIntT m sg, y)" "0 < m" "wrap (CIntT m sg) y = y"
    and t: "type_name pb t = Some (CIntT w s)" and y: "s \<or> y > 0"
  shows "\<exists>u z. eval pb env (clamp_tree is_add s w t r) = Some (u, z) \<and>
    wrap (CIntT w s) z = (if (y > 0) = is_add then greatest_value (CIntT w s) else least_value (CIntT w s))"
proof (cases s)
  case True
  have e: "eval pb env (range_end True w t) = Some (CIntT w True, 2 ^ (w - 1) - 1)"
    "eval pb env (range_end False w t) = Some (CIntT w True, - (2 ^ (w - 1)))"
    using w t True
    by (cases rule: saturable_cases; simp add: range_end_def signed_take_bit_int_eq_self)+
  have ty: "expr_type pb env (range_end l w t) = Some (CIntT w True)" for l
    using w t True by (cases rule: saturable_cases; simp add: range_end_def)
  show ?thesis
    using w e ty positive_eval [of env r m sg y, OF r, of pb] True
    by (cases rule: saturable_cases; cases is_add; cases "y > 0")
      (simp_all add: clamp_tree_def arith_type_def signed_take_bit_int_eq_self)
next
  case False
  show ?thesis
    using w t y False
    by (cases rule: saturable_cases; cases is_add) (simp_all add: clamp_tree_def literal_ULL take_bit_int_eq_self mask_eq_exp_minus_1)
qed

section \<open>The emitted statements\<close>

lemma saturating_value:
  assumes sat: "saturable w s" and o: "oop \<noteq> OvMul"
    and v: "wrap (CIntT w s) x = x" "wrap (CIntT w s) y = y"
    and env: "env r = Some (CIntT m sg, y)" "0 < m" "wrap (CIntT m sg) y = y"
    and ij: "env i = Some (CIntT w s, wrap (CIntT w s) (op_fun oop x y))"
      "env j = Some (CIntT w s, of_bool (overflows oop (CIntT w s) x y))"
    and t: "type_name pb t = Some (CIntT w s)" "var_type pb ds env i = Some (CIntT w s)"
  shows "exec_step pb ds (When (Var j) (Set i (clamp_tree (oop = OvAdd) s w t r))) (env, out) =
    Some (env(i \<mapsto> (CIntT w s, saturated (CIntT w s) (op_fun oop x y))), out)"
proof (cases "overflows oop (CIntT w s) x y")
  case False
  then have "env(i \<mapsto> (CIntT w s, saturated (CIntT w s) (op_fun oop x y))) = env"
    using ij(1) saturated_cases [OF v o] by auto
  then show ?thesis using ij(2) False by simp
next
  case True
  have "s \<or> y > 0"
  proof (rule ccontr)
    assume "\<not> (s \<or> y > 0)"
    then have "\<not> s" "y = 0" using v(2) wrap_range [of w s y] by auto
    then have "op_fun oop x y = x" using o by (cases oop) auto
    then show False using True v(1) by (simp add: overflows_def)
  qed
  from clamp_eval [of w s env r m sg y, OF sat env t(1) this, of "oop = OvAdd"] obtain u z where
    "eval pb env (clamp_tree (oop = OvAdd) s w t r) = Some (u, z)"
    "wrap (CIntT w s) z = saturated (CIntT w s) (op_fun oop x y)"
    using True saturated_cases [OF v o] by auto
  then show ?thesis using True ij(2) t(2) by (simp add: assign_var_def del: wrap.simps)
qed

lemma saturating_block:
  assumes wf: "cx_wf cx" "room 3 cx"
    and x: "immediate_arg args 0 = Some lhs" "immediate_arg args 1 = Some rhs"
    and ty: "type_of_value cx lhs = Some ty" "int_width cx ty = Some w" "kind_of cx ty = Some k"
    and tx: "render_value cx lhs = Some l" "render_value cx rhs = Some r" "settled cx r"
    and c: "kind_ctype (pointer_bits cx) k = Some (CIntT w s)" and w: "saturable w s"
    and o: "oop = (if name = ''saturating_add'' then OvAdd else OvSub)"
  shows "\<exists>u cx' i. codegen_saturating b name args dest cx = store_result b u dest cx' \<and>
    render_value cx' u = Some (temp_name i) \<and>
    runs_block b cx cx' (\<lambda>env m. \<forall>x y. value_operand env l (CIntT w s) x \<and> value_operand env r (CIntT w s) y \<longrightarrow>
      (\<exists>env'. m = Some (env', []) \<and> keeps_vars cx env env' \<and>
         env' (temp_name i) = Some (CIntT w s, saturated (CIntT w s) (op_fun oop x y))))"
proof -
  let ?pb = "pointer_bits cx" and ?T = "CIntT w s"
  note tv = type_tval [OF wf(1) ty(1)]
  have ws: "w \<in> {8, 16, 32, 64, 128}" "0 < w" using w by (auto simp: saturable_def)
  obtain t where t: "render_type cx ty = Some t" "type_name ?pb t = Some ?T"
    using kind_text [OF wf(1) tv ty(3) c] by blast
  have rm: "room (0 + 3) cx" "room (0 + 1 + 2) cx" using wf(2) by (simp_all add: numeral_eq_Suc)
  obtain u cx1 i where n1: "new_temp ty cx = (u, cx1)" "reach b (appends b [] []) (0 + 1) cx cx1" "fresh_temp cx i"
    "vs_get (cx_values cx1) u = Some \<lparr>v_kind = Temp i, v_ty = ty\<rparr>" "render_value cx1 u = Some (temp_name i)"
    "reach b id 1 cx cx1"
    using extend_temp [OF start_block [OF wf(1), of b] rm(1) _ tv] by auto
  obtain v cx2 j where n2: "new_temp ty cx1 = (v, cx2)" "reach b (appends b [] []) (0 + 1 + 1) cx cx2"
    "fresh_temp cx j" "fresh_temp cx1 j" "render_value cx2 v = Some (temp_name j)" "reach b id 1 cx1 cx2"
    using extend_temp [OF n1(2) rm(2) _ reach_tval [OF n1(6) tv]] by auto
  have ij: "i \<noteq> j" using temps_differ [OF n1(4) n2(4)] .
  let ?d1 = "declare_text (t, temp_name i)" and ?d2 = "declare_text (t, temp_name j)"
  let ?s1 = "RawStmt (temp_name j @ '' = '' @ overflow_helper oop k @ ''('' @ l @ '', '' @ r @ '', &'' @ temp_name i @ '');'')"
  let ?c = "clamp_tree (oop = OvAdd) s w t r"
  let ?s2 = "RawStmt (''if ('' @ temp_name j @ '') '' @ temp_name i @ '' = '' @ clamp_text (oop = OvAdd) s w t r @ '';'')"
  let ?cx' = "emit b ?s2 (emit b ?s1 (local_decl b ?d2 (local_decl b ?d1 cx2)))"
  note rb2 = extend_decl [OF extend_decl [OF n2(2), of ?d1], of ?d2]
  note rb = extend_emit [OF extend_emit [OF rb2, of ?s1], of ?s2]
  let ?st1 = "Overflowing (temp_name j) (overflow_helper oop k) (Var l) (Var r) (temp_name i)"
  let ?st2 = "When (Var (temp_name j)) (Set (temp_name i) ?c)"
  have ro: "r \<in> operand_texts cx" using tx by blast
  have "step_fits (operand_texts cx) ?st1" "step_fits (operand_texts cx) ?st2"
    using tx temp_name_identifier helper_identifier clamp_tree_fits [OF w ro type_name_int [OF t(2)]] by auto
  from step_reads [OF this(1)] step_reads [OF this(2)]
  have rd: "list_all2 (reads_line (operand_texts cx)) [?s1, ?s2] [?st1, ?st2]"
    by (simp add: reads_line_def clamp_tree_text [OF w])
  have dt: "declared_type ?pb [?d1, ?d2] (temp_name i) = Some ?T" "declared_type ?pb [?d1, ?d2] (temp_name j) = Some ?T"
    using declared_types [of t "temp_name i" "[(t, temp_name i), (t, temp_name j)]" ?pb]
      declared_types [of t "temp_name j" "[(t, temp_name i), (t, temp_name j)]" ?pb] t(2) ij temp_name_blank
    by simp_all
  have ex: "\<exists>env'. exec_steps ?pb [?d1, ?d2] [?st1, ?st2] (env, []) = Some (env', []) \<and> keeps_vars cx env env' \<and>
      env' (temp_name i) = Some (?T, saturated ?T (op_fun oop x y))"
    if ops: "value_operand env l ?T x" "value_operand env r ?T y" for env x y
  proof -
    from ops obtain t1 m sg where e: "env l = Some (t1, x)" "env r = Some (CIntT m sg, y)"
      and v: "wrap ?T x = x" "wrap ?T y = y" "0 < m" "wrap (CIntT m sg) y = y"
      by (auto simp: value_operand_def)
    have om: "oop \<noteq> OvMul" using o by simp
    let ?b = "of_bool (overflows oop ?T x y) :: int"
    let ?env = "env(temp_name i \<mapsto> (?T, wrap ?T (op_fun oop x y)), temp_name j \<mapsto> (?T, ?b))"
    have "wrap ?T ?b = ?b" using ws by (cases s) (auto simp: wrap_range signed_take_bit_int_eq_self)
    then have e1: "exec_step ?pb [?d1, ?d2] ?st1 (env, []) = Some (?env, [])"
      using e dt om
      by (simp add: call_helper_value [OF helper_of_kind [OF c] ws(1) v(1,2)] helper_defined_def var_type_def
          del: wrap.simps)
    have "r \<noteq> temp_name i" "r \<noteq> temp_name j" using tx(3) n1(3) n2(3) by (auto simp: settled_def)
    then have "exec_step ?pb [?d1, ?d2] ?st2 (?env, []) =
        Some (?env(temp_name i \<mapsto> (?T, saturated ?T (op_fun oop x y))), [])"
      using e ij dt by (intro saturating_value [OF w om v(1,2) _ v(3,4) _ _ t(2)]) (auto simp: var_type_def)
    then show ?thesis
      using e1 ij n1(3) n2(3) by (auto simp: keeps_vars_def settled_def)
  qed
  have sk: "is_signed_kind k = s" using c by (cases k) (auto simp: kind_ctype_def split: if_splits)
  have "codegen_saturating b name args dest cx = store_result b u dest ?cx'"
    using x ty tx t n1(1,5) n2(1,5) reach_kind [OF rb2 ty(3)] sk
    by (simp add: codegen_saturating_def declare_text_def o)
  moreover have "render_value ?cx' u = Some (temp_name i)"
    using reach_text [OF n2(6) n1(5)] by simp
  moreover have "runs_block b cx ?cx' (\<lambda>env m. \<forall>x y. value_operand env l ?T x \<and> value_operand env r ?T y \<longrightarrow>
      (\<exists>env'. m = Some (env', []) \<and> keeps_vars cx env env' \<and>
         env' (temp_name i) = Some (?T, saturated ?T (op_fun oop x y))))"
    by (rule runs_blockI [of b "[?d1, ?d2]" "[?s1, ?s2]" _ _ _ "[?st1, ?st2]"]) (use rb rd ex in \<open>simp, simp, blast\<close>)
  ultimately show ?thesis by blast
qed

end
