(* ===== verification/ReverseSem.thy ===== *)
theory ReverseSem
  imports BlockSem IntrinsicCode
begin

text \<open>
  The bit reversal is emitted as a counting loop that moves the bits of the operand, lowest
  first, into the result. The loop's invariant is the reversal of the bits moved so far.
\<close>

section \<open>Counting loops\<close>

text \<open>A body that takes the \<open>k\<close>-th state to the next one is run to the last state.\<close>

lemma count_loop:
  assumes n: "n < 2 ^ 31" and i: "\<And>k. k \<le> n \<Longrightarrow> fst (S k) i = Some (CIntT 32 True, int k)"
    and body: "\<And>k. k < n \<Longrightarrow> body (S k) = Some (S (Suc k))" and k: "k \<le> n"
  shows "run_loop (Suc (n - k)) (below i n) body (S k) = Some (S n)"
  using k
proof (induction "n - k" arbitrary: k)
  case 0
  then have "k = n" by simp
  then show ?case using i [of n] n
    by (simp add: below_def bin_def arith_def arith_type_def of_bool_int_def)
next
  case (Suc d)
  then have lt: "k < n" and "n - k = Suc (n - Suc k)" by auto
  moreover have "below i n (fst (S k)) = Some True" using i [of k] lt n
    by (simp add: below_def bin_def arith_def arith_type_def of_bool_int_def signed_take_bit_int_eq_self)
  ultimately show ?case using Suc.hyps body [OF lt] by simp
qed

lemma increment_value:
  "env i = Some (CIntT 32 True, int k) \<Longrightarrow> var_type pb ds env i = Some (CIntT 32 True) \<Longrightarrow> k + 1 < 2 ^ 31 \<Longrightarrow>
   increment pb ds i (CIntT 32 True, 1) (env, out) = Some (env(i \<mapsto> (CIntT 32 True, int (Suc k))), out)"
  by (simp add: increment_def bin_def arith_def arith_type_def assign_var_def signed_take_bit_int_eq_self add.commute)

section \<open>The reversal\<close>

definition bits_reversed :: "nat \<Rightarrow> nat \<Rightarrow> nat" where
  "bits_reversed w n = gather_bits w (\<lambda>i. w - 1 - i) n"

lemma reversed_Suc: "bits_reversed (Suc k) n = 2 * bits_reversed k n + of_bool (bit n k)"
proof -
  have "map (\<lambda>i. bit n (k - i)) [0..<Suc k] = bit n k # map (\<lambda>i. bit n (k - 1 - i)) [0..<k]"
    by (simp add: upt_rec [of 0 "Suc k"] map_Suc_upt [symmetric] comp_def del: upt_Suc)
  then show ?thesis by (simp add: bits_reversed_def gather_bits_def del: upt_Suc)
qed

lemma reversed_less: "bits_reversed k n < 2 ^ k"
  by (induction k) (auto simp: reversed_Suc, simp add: bits_reversed_def gather_bits_def)

lemma reversed_0 [simp]: "bits_reversed 0 n = 0"
  by (simp add: bits_reversed_def gather_bits_def)

definition reverse_tree :: "string \<Rightarrow> string \<Rightarrow> string \<Rightarrow> string \<Rightarrow> string \<Rightarrow> CExpr" where
  "reverse_tree t ut r v i =
     Cast t (Paren (BinOp
       (Paren (BinOp (Cast ut (Var r)) Shl (Lit ''1'')))
       BitOr
       (Paren (BinOp (Paren (BinOp (Cast ut (Var v)) Shr (Var i))) BitAnd (Lit ''1'')))))"

lemma reverse_fits:
  "c_identifier r \<Longrightarrow> c_identifier i \<Longrightarrow> v \<in> ops \<Longrightarrow> int_type_name t \<Longrightarrow> int_type_name ut \<Longrightarrow>
   fits ops 13 (reverse_tree t ut r v i)"
  by (simp add: reverse_tree_def)

lemma reverse_text:
  "step_text (CountTo i w (Set r (reverse_tree t ut r v i))) = bitreverse_loop i r w t ut v"
  by (simp add: reverse_tree_def bitreverse_loop_def)

lemma reverse_eval:
  assumes p: "operand_pattern env v w n" and w: "w \<in> {8, 16, 32, 64, 128}" and k: "k < w"
    and r: "env r = Some (CIntT w sg, wrap (CIntT w sg) (int (bits_reversed k n)))"
    and i: "env i = Some (CIntT 32 True, int k)"
    and t: "type_name pb t = Some (CIntT w sg)" "type_name pb ut = Some (CIntT w False)"
  shows "eval pb env (reverse_tree t ut r v i) =
    Some (CIntT w sg, wrap (CIntT w sg) (int (bits_reversed (Suc k) n)))"
proof -
  have w0: "0 < w" "Suc 0 < w" using w by auto
  let ?T = "promote (CIntT w False)" and ?m = "bits_reversed k n"
  obtain u x where x: "env v = Some (u, x)" "take_bit w x = int n" using operand_facts [OF p w0(1)] by blast
  have "?m < 2 ^ w" using reversed_less [of k n] k by (meson less_imp_le less_le_trans one_le_numeral power_increasing)
  then have "take_bit w (int ?m) = int ?m" by (rule take_bit_int_nat)
  then have m: "take_bit w (wrap (CIntT w sg) (int ?m)) = int ?m" using w0 by (simp add: take_bit_wrap del: wrap.simps)
  have one: "eval pb env (Lit ''1'') = Some (CIntT 32 True, int 1)" "eval pb env (Var i) = Some (CIntT 32 True, int k)"
    using i by simp_all
  note e1 = shift_eval(1) [OF t(2) r m one(1) shift_width [of 1, OF w0(2) [unfolded One_nat_def [symmetric]]]]
    and e2 = shift_eval(2) [OF t(2) x one(2) shift_width [OF k]]
  have a: "arith_type ?T (CIntT 32 True) = ?T" using w by (auto simp: arith_type_def)
  have e3: "eval pb env (BinOp (Paren (BinOp (Cast ut (Var v)) Shr (Var i))) BitAnd (Lit ''1'')) =
      Some (?T, and (wrap ?T (int (drop_bit k n))) (wrap ?T 1))"
    using e2 by (simp add: bin_def arith_def a Let_def del: promote.simps wrap.simps)
  have "take_bit w (and (wrap ?T (int (drop_bit k n))) (wrap ?T 1)) = take_bit w (and (int (drop_bit k n)) 1)"
    using low_joined [OF w0(1)] by (simp only: take_bit_and)
  also have "and (int (drop_bit k n)) 1 = int (of_bool (bit n k))"
    by (simp add: and_one_eq of_nat_drop_bit bit_iff_odd_drop_bit mod_2_eq_odd flip: of_nat_drop_bit)
  finally have b: "take_bit w (and (wrap ?T (int (drop_bit k n))) (wrap ?T 1)) = take_bit w (int (of_bool (bit n k)))" .
  have "or (push_bit 1 ?m) (of_bool (bit n k)) = bits_reversed (Suc k) n"
    by (simp add: reversed_Suc push_bit_eq_mult or_Suc_0_eq mult.commute)
  moreover have "bits_reversed (Suc k) n < 2 ^ w"
    using reversed_less [of "Suc k" n] k by (meson Suc_leI less_le_trans one_le_numeral power_increasing)
  ultimately have z: "take_bit w (or (push_bit 1 ?m) (of_bool (bit n k))) = bits_reversed (Suc k) n"
    by (simp add: take_bit_nat_eq_self)
  have pe: "eval pb env (Paren e) = eval pb env e" for e by simp
  show ?thesis unfolding reverse_tree_def
    by (rule joined_eval [OF t(1) w0(1) trans [OF pe e1] trans [OF pe e3] low_joined [OF w0(1)] b z])
qed


section \<open>The emitted statements\<close>

lemma reverse_loop_run:
  assumes p: "operand_pattern env v w n" and w: "w \<in> {8, 16, 32, 64, 128}" and ne: "r \<noteq> i" "v \<noteq> r" "v \<noteq> i"
    and d: "declared_type pb ds r = Some (CIntT w sg)" "declared_type pb ds i = Some (CIntT 32 True)"
    and t: "type_name pb t = Some (CIntT w sg)" "type_name pb ut = Some (CIntT w False)"
  shows "exec_steps pb ds [Set r (Lit ''0''), CountTo i w (Set r (reverse_tree t ut r v i))] (env, []) =
    Some (env(r \<mapsto> (CIntT w sg, wrap (CIntT w sg) (int (bits_reversed w n))),
              i \<mapsto> (CIntT 32 True, int w)), [])"
proof -
  let ?b = "Set r (reverse_tree t ut r v i)"
  let ?S = "\<lambda>k. (env(r \<mapsto> (CIntT w sg, wrap (CIntT w sg) (int (bits_reversed k n))),
      i \<mapsto> (CIntT 32 True, int k)), [] :: (string \<times> nat \<times> cval) list)"
  let ?body = "\<lambda>st. do { st \<leftarrow> exec_step pb ds ?b st; increment pb ds i (CIntT 32 True, 1) st }"
  have w31: "w < 2 ^ 31" using w by auto
  have body: "?body (?S k) = Some (?S (Suc k))" if k: "k < w" for k
  proof -
    have "operand_pattern (fst (?S k)) v w n" using p ne by (simp add: operand_pattern_def)
    from reverse_eval [OF this w k, of r sg i pb t ut]
    have "eval pb (fst (?S k)) (reverse_tree t ut r v i) =
        Some (CIntT w sg, wrap (CIntT w sg) (int (bits_reversed (Suc k) n)))"
      using ne t by simp
    moreover have "wrap (CIntT w sg) (wrap (CIntT w sg) y) = wrap (CIntT w sg) y" for y
      using w by (cases sg) auto
    ultimately have "exec_step pb ds ?b (?S k) =
        Some (env(r \<mapsto> (CIntT w sg, wrap (CIntT w sg) (int (bits_reversed (Suc k) n))),
          i \<mapsto> (CIntT 32 True, int k)), [])"
      using d ne by (simp add: assign_var_def var_type_def fun_upd_twist del: wrap.simps)
    then show ?thesis
      using increment_value [of _ i k pb ds "[]"] d ne k w31
      by (simp add: var_type_def fun_upd_twist del: wrap.simps)
  qed
  have "run_loop (Suc w) (below i w) ?body (?S 0) = Some (?S w)"
    using count_loop [of w ?S i ?body 0, OF w31 _ body] by simp
  moreover have "wrap (CIntT w sg) 0 = 0" "wrap (CIntT 32 True) 0 = 0" by (cases sg) auto
  ultimately show ?thesis using d ne by (simp add: assign_var_def var_type_def fun_upd_twist del: wrap.simps run_loop.simps)
qed

lemma bitreverse_block:
  assumes wf: "cx_wf cx" "room 4 cx"
    and x: "immediate_arg args 0 = Some x" "render_value cx x = Some v" "settled cx v"
    and ty: "type_of_value cx x = Some ty" "int_width cx ty = Some w" "kind_of cx ty = Some k"
    and c: "kind_ctype (pointer_bits cx) k = Some (CIntT w s)" and w: "w \<in> {8, 16, 32, 64, 128}"
  shows "\<exists>u cx' i. codegen_bitreverse b args dest cx = store_result b u dest cx' \<and>
    render_value cx' u = Some (temp_name i) \<and>
    runs_block b cx cx' (\<lambda>env m. \<forall>n. operand_pattern env v w n \<longrightarrow>
      (\<exists>env'. m = Some (env', []) \<and> keeps_vars cx env env' \<and>
         env' (temp_name i) = Some (CIntT w s, wrap (CIntT w s) (int (bits_reversed w n)))))"
proof -
  let ?pb = "pointer_bits cx" and ?T = "CIntT w s"
  note tv = type_tval [OF wf(1) ty(1)]
  obtain t where t: "render_type cx ty = Some t" "type_name ?pb t = Some ?T"
    using kind_text [OF wf(1) tv ty(3) c] by blast
  have rm: "room (0 + 4) cx" "room (0 + 1 + 3) cx" "room (0 + 1 + 1 + 2) cx" "room (0 + 1 + 1 + 1 + 1) cx"
    using wf(2) by (simp_all add: numeral_eq_Suc)
  obtain u cx1 i where n1: "new_temp ty cx = (u, cx1)" "reach b (appends b [] []) (0 + 1) cx cx1" "fresh_temp cx i"
    "vs_get (cx_values cx1) u = Some \<lparr>v_kind = Temp i, v_ty = ty\<rparr>" "render_value cx1 u = Some (temp_name i)"
    "reach b id 1 cx cx1"
    using extend_temp [OF start_block [OF wf(1), of b] rm(1) _ tv] by auto
  let ?d1 = "declare_text (t, temp_name i)" and ?cx2 = "local_decl b (declare_text (t, temp_name i)) cx1"
  note r2 = extend_decl [OF n1(2), of ?d1]
  note id2 = reach_local_decl [OF reach_wf [OF n1(2)], of b ?d1]
  obtain it cx3 where i3: "intern_type (TInt 32 True) ?cx2 = (it, cx3)" by (cases "intern_type (TInt 32 True) ?cx2")
  have "room 1 ?cx2" using reach_room [OF r2 rm(2)] by (rule room_mono) simp
  from intern_type_reach [OF reach_wf [OF r2] this _ _ i3, of b]
  have id3: "reach b id 1 ?cx2 cx3" and it: "tval cx3 it" by auto
  note r3 = extend_id [OF r2 id3]
  obtain v' cx4 j where n4: "new_temp it cx3 = (v', cx4)" "reach b (appends b ([] @ [?d1]) []) (0 + 1 + 1 + 1) cx cx4"
    "fresh_temp cx j" "fresh_temp cx3 j" "render_value cx4 v' = Some (temp_name j)" "reach b id 1 cx3 cx4"
    using extend_temp [OF r3 rm(3) _ it] by auto
  have ij: "i \<noteq> j" using temps_differ [OF reach_get [OF id3 reach_get [OF id2 n1(4)]] n4(4)] .
  let ?d2 = "declare_text (''int32_t'', temp_name j)" and ?cx5 = "local_decl b (declare_text (''int32_t'', temp_name j)) cx4"
  note r5 = extend_decl [OF n4(2), of ?d2]
  have rm5: "room 1 ?cx5" using reach_room [OF r5 rm(4)] by simp
  from unsigned_text_ok [OF reach_wf [OF r5] rm5 reach_tval [OF r5 tv] reach_kind [OF r5 ty(3)], of w s b] c
  obtain ut cx6 where ut: "unsigned_text ty ?cx5 = Some (ut, cx6)" "reach b id 1 ?cx5 cx6"
    "type_name ?pb ut = Some (CIntT w False)"
    using pointer_bits_reach [OF r5] by auto
  let ?s1 = "RawStmt (temp_name i @ '' = 0;'')" and ?s2 = "RawStmt (bitreverse_loop (temp_name j) (temp_name i) w t ut v)"
  note r7 = extend_emit [OF extend_emit [OF extend_id [OF r5 ut(2)], of ?s1], of ?s2]
  let ?cx' = "emit b ?s2 (emit b ?s1 cx6)"
  let ?st1 = "Set (temp_name i) (Lit ''0'')"
  let ?st2 = "CountTo (temp_name j) w (Set (temp_name i) (reverse_tree t ut (temp_name i) v (temp_name j)))"
  have vo: "v \<in> operand_texts cx" using x(2) by blast
  have "step_fits (operand_texts cx) ?st1" "step_fits (operand_texts cx) ?st2"
    using temp_name_identifier w reverse_fits [OF temp_name_identifier temp_name_identifier vo type_name_int [OF t(2)]
      type_name_int [OF ut(3)]] by auto
  from step_reads [OF this(1)] step_reads [OF this(2), unfolded reverse_text]
  have rd: "list_all2 (reads_line (operand_texts cx)) [?s1, ?s2] [?st1, ?st2]" by (simp add: reads_line_def)
  have dt: "declared_type ?pb [?d1, ?d2] (temp_name i) = Some ?T" "declared_type ?pb [?d1, ?d2] (temp_name j) = Some (CIntT 32 True)"
    using declared_types [of t "temp_name i" "[(t, temp_name i), (''int32_t'', temp_name j)]" ?pb]
      declared_types [of "''int32_t''" "temp_name j" "[(t, temp_name i), (''int32_t'', temp_name j)]" ?pb]
      t(2) ij temp_name_blank fixed_type_names by (simp_all add: type_name_def int_types_def)
  have ne: "v \<noteq> temp_name i" "v \<noteq> temp_name j" using x(3) n1(3) n4(3) by (auto simp: settled_def)
  have ex: "\<exists>env'. exec_steps ?pb [?d1, ?d2] [?st1, ?st2] (env, []) = Some (env', []) \<and> keeps_vars cx env env' \<and>
      env' (temp_name i) = Some (?T, wrap ?T (int (bits_reversed w n)))" if "operand_pattern env v w n" for env n
    using reverse_loop_run [OF that w _ ne dt t(2) ut(3)] ij n1(3) n4(3)
    by (auto simp: keeps_vars_def settled_def)
  have "render_value cx5 u = Some (temp_name i)" if "cx5 = cx6" for cx5
    using that reach_text [OF ut(2)] reach_text [OF n4(6) reach_text [OF id3]] n1(5) by simp
  then have ru: "render_value ?cx' u = Some (temp_name i)" by simp
  have "codegen_bitreverse b args dest cx = store_result b u dest ?cx'"
    using x ty t n1(1,5) i3 n4(1,5) ut(1)
    by (simp add: codegen_bitreverse_def declare_text_def type_i32_def)
  moreover have "runs_block b cx ?cx' (\<lambda>env m. \<forall>n. operand_pattern env v w n \<longrightarrow>
      (\<exists>env'. m = Some (env', []) \<and> keeps_vars cx env env' \<and>
         env' (temp_name i) = Some (?T, wrap ?T (int (bits_reversed w n)))))"
    by (rule runs_blockI [of b "[?d1, ?d2]" "[?s1, ?s2]" _ _ _ "[?st1, ?st2]"]) (use r7 rd ex in \<open>simp, simp, blast\<close>)
  ultimately show ?thesis using ru by blast
qed

end
