(* ===== verification/WideMul.thy ===== *)
theory WideMul
  imports BlockSem IntrinsicCode
begin

text \<open>
  The carrying multiplication of 128-bit operands: the emitted block multiplies 64-bit halves
  and propagates the carries. On bit patterns it stores the two halves of the exact value of
  \<open>a * b + c + d\<close>; for a signed type the high half is that of the patterns, not of the signed
  values.
\<close>

section \<open>Arithmetic of the halves\<close>

lemma carry_out:
  assumes "(x::nat) < m" "y < m"
  shows "x + y = (x + y) mod m + m * of_bool ((x + y) mod m < x)" "(x + y) mod m < x \<longleftrightarrow> (x + y) mod m < y"
proof -
  consider "x + y < m" | "m \<le> x + y" by linarith
  then have "x + y = (x + y) mod m + m * of_bool ((x + y) mod m < x) \<and> ((x + y) mod m < x \<longleftrightarrow> (x + y) mod m < y)"
  proof cases
    case 2
    then have "(x + y) mod m = x + y - m" using assms by (simp add: mod_if)
    then show ?thesis using assms 2 by auto
  qed simp
  then show "x + y = (x + y) mod m + m * of_bool ((x + y) mod m < x)" "(x + y) mod m < x \<longleftrightarrow> (x + y) mod m < y"
    by blast+
qed

text \<open>The computation of the block, on numbers below \<open>m = n * n\<close>.\<close>

definition wide_mid :: "nat \<Rightarrow> nat \<Rightarrow> nat \<Rightarrow> nat" where
  "wide_mid n a b = (a div n * (b mod n) + a mod n * (b div n)) mod (n * n)"

definition wide_low :: "nat \<Rightarrow> nat \<Rightarrow> nat \<Rightarrow> nat" where
  "wide_low n a b = (a mod n * (b mod n) + wide_mid n a b * n mod (n * n)) mod (n * n)"

definition wide_high :: "nat \<Rightarrow> nat \<Rightarrow> nat \<Rightarrow> nat" where
  "wide_high n a b = a div n * (b div n) + wide_mid n a b div n +
     (if wide_mid n a b < a div n * (b mod n) then n else 0) +
     (if wide_low n a b < a mod n * (b mod n) then 1 else 0)"

lemma halves_less:
  assumes "(a::nat) < n * n" "b < n * n"
  shows "a div n < n" "a mod n < n" "a div n * (b mod n) < n * n" "a mod n * (b div n) < n * n"
    "a mod n * (b mod n) < n * n" "a div n * (b div n) < n * n"
proof -
  have "0 < n" using assms(1) by (cases n) auto
  then have h: "a div n < n" "a mod n < n" "b div n < n" "b mod n < n"
    using assms by (auto simp: less_mult_imp_div_less)
  then show "a div n < n" "a mod n < n" "a div n * (b mod n) < n * n" "a mod n * (b div n) < n * n"
    "a mod n * (b mod n) < n * n" "a div n * (b div n) < n * n" by (auto intro: mult_strict_mono')
qed

lemma wide_product:
  assumes "a < n * n" "b < n * n"
  shows "a * b = wide_low n a b + n * n * wide_high n a b"
proof -
  let ?m = "n * n"
  note h = halves_less [OF assms]
  define p q r s where "p = a div n * (b div n)" and "q = a div n * (b mod n)"
    and "r = a mod n * (b div n)" and "s = a mod n * (b mod n)"
  have ab: "a * b = p * ?m + (q + r) * n + s"
  proof -
    have "(x * n + y) * (z * n + w) = x * z * (n * n) + (x * w + y * z) * n + y * w" for x y z w
      by (simp add: algebra_simps)
    from this [of "a div n" "a mod n" "b div n" "b mod n"] show ?thesis
      by (simp only: p_def q_def r_def s_def div_mult_mod_eq)
  qed
  let ?mid = "wide_mid n a b" and ?low = "wide_low n a b"
  have mid: "q + r = ?mid + ?m * of_bool (?mid < q)"
    using carry_out(1) [of q ?m r] h by (simp add: wide_mid_def q_def r_def)
  have mn: "?mid * n = ?mid * n mod ?m + ?m * (?mid div n)"
  proof -
    have "?mid * n div ?m = ?mid div n" using h(1) by (simp add: div_mult2_eq)
    then show ?thesis by (metis mod_mult_div_eq)
  qed
  have "?mid * n mod ?m < ?m" using h(1) by simp
  then have low: "s + ?mid * n mod ?m = ?low + ?m * of_bool (?low < s)"
    using carry_out(1) [of s ?m "?mid * n mod ?m"] h by (simp add: wide_low_def s_def)
  have "a * b = p * ?m + ?mid * n + ?m * n * of_bool (?mid < q) + s" using ab mid by (simp add: algebra_simps)
  also have "\<dots> = p * ?m + ?m * (?mid div n) + ?m * n * of_bool (?mid < q) + ?low + ?m * of_bool (?low < s)"
    using mn low by linarith
  finally show ?thesis by (simp add: wide_high_def p_def q_def s_def algebra_simps)
qed

text \<open>Adding a number to a two-word value.\<close>

lemma wide_add:
  assumes "l < m" "c < (m::nat)"
  shows "l + m * h + c = (l + c) mod m + m * (h + of_bool ((l + c) mod m < c))"
  using carry_out [of l m c] assms by (simp add: algebra_simps)


section \<open>The block as steps\<close>

abbreviation u128 :: ctype where "u128 \<equiv> CIntT 128 False"

definition wide_steps ::
  "string \<Rightarrow> nat \<Rightarrow> string \<Rightarrow> string \<Rightarrow> string \<Rightarrow> string \<Rightarrow> string \<Rightarrow> cstep list" where
  "wide_steps t bytes dest a b c d =
     (let u64 = ''uint64_t''; u = ''uint128_t'';
          high = (\<lambda>v. Cast u64 (Paren (BinOp (Cast u (Var v)) Shr (Lit ''64''))));
          mul = (\<lambda>x y. BinOp (Cast u (Var x)) Mul (Var y));
          carry = (\<lambda>x y e. Ternary (Paren (BinOp (Var x) Lt (Var y))) e (Lit ''0''))
      in [Define u64 ''_a_lo'' (Cast u64 (Var a)), Define u64 ''_a_hi'' (high a),
          Define u64 ''_b_lo'' (Cast u64 (Var b)), Define u64 ''_b_hi'' (high b),
          Define u ''_lo_lo'' (mul ''_a_lo'' ''_b_lo''), Define u ''_hi_lo'' (mul ''_a_hi'' ''_b_lo''),
          Define u ''_lo_hi'' (mul ''_a_lo'' ''_b_hi''), Define u ''_hi_hi'' (mul ''_a_hi'' ''_b_hi''),
          Define u ''_mid'' (BinOp (Var ''_hi_lo'') Add (Var ''_lo_hi'')),
          Define u ''_carry_mid'' (carry ''_mid'' ''_hi_lo'' (Paren (BinOp (Cast u (Lit ''1'')) Shl (Lit ''64'')))),
          Define u ''_low'' (BinOp (Var ''_lo_lo'') Add (Paren (BinOp (Var ''_mid'') Shl (Lit ''64'')))),
          Define u ''_carry_low'' (carry ''_low'' ''_lo_lo'' (Lit ''1'')),
          Define u ''_high'' (BinOp (BinOp (BinOp (Var ''_hi_hi'') Add (Paren (BinOp (Var ''_mid'') Shr (Lit ''64''))))
            Add (Var ''_carry_mid'')) Add (Var ''_carry_low'')),
          Bump ''_low'' (Cast u (Var c)),
          When (BinOp (Var ''_low'') Lt (Cast u (Var c))) (Bump ''_high'' (Lit ''1'')),
          Bump ''_low'' (Cast u (Var d)),
          When (BinOp (Var ''_low'') Lt (Cast u (Var d))) (Bump ''_high'' (Lit ''1'')),
          StoreTo t dest 0 (Cast t (Var ''_low'')), StoreTo t dest bytes (Cast t (Var ''_high''))])"

definition wide_locals :: "string list" where
  "wide_locals = [''_a_lo'', ''_a_hi'', ''_b_lo'', ''_b_hi'', ''_lo_lo'', ''_hi_lo'', ''_lo_hi'', ''_hi_hi'',
     ''_mid'', ''_carry_mid'', ''_low'', ''_carry_low'', ''_high'']"

lemma wide_local_identifiers: "list_all c_identifier wide_locals"
  by (simp add: wide_locals_def c_identifier_def int_type_name_def int_types_def ident_char_def digit_val_def)

text \<open>The lines between the braces are the texts of the steps, indented.\<close>

lemma wide_texts:
  "bytes \<noteq> 0 \<Longrightarrow> wide_mul_lines t bytes dest a b c d =
     [''{ /* carrying_mul_add u128 */''] @
     map (\<lambda>s. ''  '' @ step_text s) (wide_steps t bytes dest a b c d) @ [''}'']"
  by (simp add: wide_mul_lines_def wide_steps_def Let_def)

lemma wide_fits:
  assumes "int_type_name t" "{dest, a, b, c, d} \<subseteq> ops"
  shows "list_all (step_fits ops) (wide_steps t bytes dest a b c d)"
proof -
  note wide_local_identifiers [unfolded wide_locals_def]
  then show ?thesis using assms by (simp add: wide_steps_def Let_def)
qed

section \<open>Values\<close>

text \<open>Unsigned arithmetic at 128 bits, on natural numbers.\<close>

lemma wide_arith:
  assumes "eval pb env e = Some (u128, int x)" "eval pb env f = Some (u128, int y)" "x < 2 ^ 128" "y < 2 ^ 128"
  shows "eval pb env (BinOp e Add f) = Some (u128, int ((x + y) mod 2 ^ 128))"
    "eval pb env (BinOp e Lt f) = Some (CIntT 32 True, of_bool (x < y))"
proof -
  have t: "take_bit 128 (int x) = int x" "take_bit 128 (int y) = int y" using assms(3,4) by (simp_all add: take_bit_int_nat)
  have "take_bit 128 (int x + int y) = int ((x + y) mod 2 ^ 128)" by (simp add: take_bit_eq_mod zmod_int)
  then show "eval pb env (BinOp e Add f) = Some (u128, int ((x + y) mod 2 ^ 128))"
    "eval pb env (BinOp e Lt f) = Some (CIntT 32 True, of_bool (x < y))"
    using assms(1,2) t by (simp_all add: bin_def arith_def arith_type_def of_bool_int_def)
qed

lemma wide_shifts:
  assumes "eval pb env e = Some (u128, int x)"
  shows "eval pb env (Paren (BinOp e Shl (Lit ''64''))) = Some (u128, int (x * 2 ^ 64 mod 2 ^ 128))"
    "eval pb env (Paren (BinOp e Shr (Lit ''64''))) = Some (u128, int (x div 2 ^ 64))"
  using assms by (simp_all add: bin_def shift_def push_bit_eq_mult drop_bit_eq_div take_bit_eq_mod zmod_int zdiv_int)

lemma wide_mul:
  assumes "env a = Some (CIntT 64 False, int x)" "env b = Some (CIntT 64 False, int y)" "x < 2 ^ 64" "y < 2 ^ 64"
  shows "eval pb env (BinOp (Cast ''uint128_t'' (Var a)) Mul (Var b)) = Some (u128, int (x * y))"
proof -
  have "x * y < 2 ^ 64 * 2 ^ 64" using assms(3,4) by (intro mult_strict_mono') auto
  then have "take_bit 128 (int (x * y)) = int (x * y)" by (intro take_bit_int_nat) (simp flip: power_add)
  moreover have "take_bit 128 (int x) = int x" "take_bit 128 (int y) = int y"
    using assms(3,4) by (auto intro!: take_bit_int_nat)
  ultimately show ?thesis using assms(1,2) by (simp add: bin_def arith_def arith_type_def)
qed

lemma wide_operand:
  assumes "operand_pattern env v 128 n"
  shows "eval pb env (Cast ''uint128_t'' (Var v)) = Some (u128, int n)" "n < 2 ^ 128"
    "eval pb env (Cast ''uint64_t'' (Var v)) = Some (CIntT 64 False, int (n mod 2 ^ 64))"
proof -
  obtain t x where x: "env v = Some (t, x)" "take_bit 128 x = int n" "n < 2 ^ 128"
    by (rule operand_facts [OF assms]) simp_all
  then have "take_bit 64 x = int (n mod 2 ^ 64)"
    using take_bit_take_bit [of 64 128 x] by (simp add: take_bit_eq_mod zmod_int)
  then show "eval pb env (Cast ''uint128_t'' (Var v)) = Some (u128, int n)" "n < 2 ^ 128"
    "eval pb env (Cast ''uint64_t'' (Var v)) = Some (CIntT 64 False, int (n mod 2 ^ 64))"
    using x by simp_all
qed

text \<open>Definitions and additions of 128-bit variables.\<close>

lemma define_wide:
  "eval pb env e = Some (t, int x) \<Longrightarrow> x < 2 ^ 128 \<Longrightarrow>
   exec_step pb ds (Define ''uint128_t'' v e) (env, out) = Some (env(v \<mapsto> (u128, int x)), out)"
  by (simp add: take_bit_int_nat)

lemma define_half:
  "eval pb env e = Some (t, int x) \<Longrightarrow> x < 2 ^ 64 \<Longrightarrow>
   exec_step pb ds (Define ''uint64_t'' v e) (env, out) = Some (env(v \<mapsto> (CIntT 64 False, int x)), out)"
  by (simp add: take_bit_int_nat)


lemma wide_high_operand:
  assumes "operand_pattern env v 128 n"
  shows "eval pb env (Cast ''uint64_t'' (Paren (BinOp (Cast ''uint128_t'' (Var v)) Shr (Lit ''64'')))) =
    Some (CIntT 64 False, int (n div 2 ^ 64))"
proof -
  have "n div 2 ^ 64 < 2 ^ 64" using wide_operand(2) [OF assms] by (intro less_mult_imp_div_less) (simp flip: power_add)
  then have "take_bit 64 (int (n div 2 ^ 64)) = int (n div 2 ^ 64)" by (rule take_bit_int_nat)
  then show ?thesis using wide_shifts(2) [OF wide_operand(1) [OF assms]] by (simp add: eval.simps(4) del: eval.simps(3,5))
qed

lemma undeclared: "var_type pb [] env x = map_option fst (env x)"
proof -
  have "find (\<lambda>(tn, t). False) ts = None" for ts :: "(string \<times> ctype) list" by (induction ts) auto
  then show ?thesis by (simp add: var_type_def declared_type_def)
qed

text \<open>Adding an operand to the low word, and its carry to the high one.\<close>

lemma add_word:
  assumes low: "env ''_low'' = Some (u128, int l)" "l < 2 ^ 128" and high: "env ''_high'' = Some (u128, int h)" "h < 2 ^ 128"
    and c: "eval pb env (Cast ''uint128_t'' (Var c)) = Some (u128, int k)" "k < 2 ^ 128" "c \<noteq> ''_low''" "c \<noteq> ''_high''"
  shows "exec_steps pb [] (Bump ''_low'' (Cast ''uint128_t'' (Var c)) #
      When (BinOp (Var ''_low'') Lt (Cast ''uint128_t'' (Var c))) (Bump ''_high'' (Lit ''1'')) # ss) (env, out) =
    exec_steps pb [] ss (env(''_low'' \<mapsto> (u128, int ((l + k) mod 2 ^ 128)),
      ''_high'' \<mapsto> (u128, int ((h + of_bool ((l + k) mod 2 ^ 128 < k)) mod 2 ^ 128))), out)"
proof -
  let ?l = "(l + k) mod 2 ^ 128"
  let ?e = "env(''_low'' \<mapsto> (u128, int ?l))"
  have t: "take_bit 128 (int n) = int n" if "n < 2 ^ 128" for n using that by (rule take_bit_int_nat)
  have "eval pb ?e (Cast ''uint128_t'' (Var c)) = Some (u128, int k)" using c by simp
  from wide_arith(2) [of pb ?e "Var ''_low''" ?l, OF _ this _ c(2)]
  have e: "eval pb ?e (BinOp (Var ''_low'') Lt (Cast ''uint128_t'' (Var c))) = Some (CIntT 32 True, of_bool (?l < k))"
    by simp
  have b: "exec_step pb [] (Bump ''_low'' (Cast ''uint128_t'' (Var c))) (env, out) = Some (?e, out)"
    using c(1) low t [OF low(2)] t [OF c(2)]
    by (simp add: increment_def bin_def arith_def arith_type_def assign_var_def undeclared
        take_bit_eq_mod zmod_int del: eval.simps)
  have o: "increment pb [] ''_high'' (CIntT 32 True, 1) (?e, out) =
      Some (?e(''_high'' \<mapsto> (u128, int ((h + 1) mod 2 ^ 128))), out)"
    using high t [OF high(2)]
    by (simp add: increment_def bin_def arith_def arith_type_def assign_var_def undeclared
        take_bit_eq_mod zmod_int add.commute)
  have "?e(''_high'' \<mapsto> (u128, int h)) = ?e" using high by auto
  then show ?thesis using b e o high(2) by (simp del: eval.simps(4,5))
qed


section \<open>The block\<close>

lemma exec_steps_append: "exec_steps pb ds (ss @ ts) st = do { st \<leftarrow> exec_steps pb ds ss st; exec_steps pb ds ts st }"
  by (induction ss arbitrary: st) (auto split: bind_splits)

text \<open>The definitions of the halves and of their products.\<close>

lemma wide_halves_run:
  assumes p: "operand_pattern env a 128 m" "operand_pattern env b 128 n"
    and ne: "a \<notin> set wide_locals" "b \<notin> set wide_locals"
  shows "exec_steps pb [] (take 8 (wide_steps t bytes dest a b c d)) (env, out) =
    Some (env(''_a_lo'' \<mapsto> (CIntT 64 False, int (m mod 2 ^ 64)), ''_a_hi'' \<mapsto> (CIntT 64 False, int (m div 2 ^ 64)),
      ''_b_lo'' \<mapsto> (CIntT 64 False, int (n mod 2 ^ 64)), ''_b_hi'' \<mapsto> (CIntT 64 False, int (n div 2 ^ 64)),
      ''_lo_lo'' \<mapsto> (u128, int (m mod 2 ^ 64 * (n mod 2 ^ 64))), ''_hi_lo'' \<mapsto> (u128, int (m div 2 ^ 64 * (n mod 2 ^ 64))),
      ''_lo_hi'' \<mapsto> (u128, int (m mod 2 ^ 64 * (n div 2 ^ 64))), ''_hi_hi'' \<mapsto> (u128, int (m div 2 ^ 64 * (n div 2 ^ 64)))), out)"
proof -
  define N :: nat where "N = 2 ^ 64"
  have NN: "N * N = 2 ^ 128" unfolding N_def by (simp flip: power_add)
  have mn: "m < N * N" "n < N * N" using wide_operand(2) [OF p(1)] wide_operand(2) [OF p(2)] NN by simp_all
  note h = halves_less [OF mn] halves_less [OF mn(2,1)]
  let ?w = "\<lambda>x. (CIntT 64 False, int x) :: cval" and ?u = "\<lambda>x. (u128, int x) :: cval"
  define e1 where "e1 = env(''_a_lo'' \<mapsto> ?w (m mod N))"
  define e2 where "e2 = e1(''_a_hi'' \<mapsto> ?w (m div N))"
  define e3 where "e3 = e2(''_b_lo'' \<mapsto> ?w (n mod N))"
  define e4 where "e4 = e3(''_b_hi'' \<mapsto> ?w (n div N))"
  define e5 where "e5 = e4(''_lo_lo'' \<mapsto> ?u (m mod N * (n mod N)))"
  define e6 where "e6 = e5(''_hi_lo'' \<mapsto> ?u (m div N * (n mod N)))"
  define e7 where "e7 = e6(''_lo_hi'' \<mapsto> ?u (m mod N * (n div N)))"
  define e8 where "e8 = e7(''_hi_hi'' \<mapsto> ?u (m div N * (n div N)))"
  note es = e1_def e2_def e3_def e4_def e5_def e6_def e7_def e8_def
  have pa: "operand_pattern e1 a 128 m" and pb: "operand_pattern e2 b 128 n" "operand_pattern e3 b 128 n"
    using p ne by (auto simp: operand_pattern_def es wide_locals_def)
  let ?hi = "\<lambda>v. Cast ''uint64_t'' (Paren (BinOp (Cast ''uint128_t'' (Var v)) Shr (Lit ''64'')))"
  let ?mul = "\<lambda>x y. BinOp (Cast ''uint128_t'' (Var x)) Mul (Var y)"
  have s1: "exec_step pb [] (Define ''uint64_t'' ''_a_lo'' (Cast ''uint64_t'' (Var a))) (env, out) = Some (e1, out)"
    unfolding e1_def using wide_operand(3) [OF p(1)] h(2) by (intro define_half) (auto simp: N_def)
  have s2: "exec_step pb [] (Define ''uint64_t'' ''_a_hi'' (?hi a)) (e1, out) = Some (e2, out)"
    unfolding e2_def using wide_high_operand [OF pa] h(1) by (intro define_half) (auto simp: N_def)
  have s3: "exec_step pb [] (Define ''uint64_t'' ''_b_lo'' (Cast ''uint64_t'' (Var b))) (e2, out) = Some (e3, out)"
    unfolding e3_def using wide_operand(3) [OF pb(1)] h(8) by (intro define_half) (auto simp: N_def)
  have s4: "exec_step pb [] (Define ''uint64_t'' ''_b_hi'' (?hi b)) (e3, out) = Some (e4, out)"
    unfolding e4_def using wide_high_operand [OF pb(2)] h(7) by (intro define_half) (auto simp: N_def)
  have mul: "exec_step pb [] (Define ''uint128_t'' v (?mul x y)) (e, out) = Some (e(v \<mapsto> ?u (i * j)), out)"
    if "e x = Some (?w i)" "e y = Some (?w j)" "i < N" "j < N" "i * j < N * N" for e v x y i j
    using define_wide [OF wide_mul [of e x i y j]] that NN by (simp add: N_def)
  have s5: "exec_step pb [] (Define ''uint128_t'' ''_lo_lo'' (?mul ''_a_lo'' ''_b_lo'')) (e4, out) = Some (e5, out)"
    unfolding e5_def by (rule mul) (use h in \<open>auto simp: es\<close>)
  have s6: "exec_step pb [] (Define ''uint128_t'' ''_hi_lo'' (?mul ''_a_hi'' ''_b_lo'')) (e5, out) = Some (e6, out)"
    unfolding e6_def by (rule mul) (use h in \<open>auto simp: es\<close>)
  have s7: "exec_step pb [] (Define ''uint128_t'' ''_lo_hi'' (?mul ''_a_lo'' ''_b_hi'')) (e6, out) = Some (e7, out)"
    unfolding e7_def by (rule mul) (use h in \<open>auto simp: es\<close>)
  have s8: "exec_step pb [] (Define ''uint128_t'' ''_hi_hi'' (?mul ''_a_hi'' ''_b_hi'')) (e7, out) = Some (e8, out)"
    unfolding e8_def by (rule mul) (use h in \<open>auto simp: es\<close>)
  have "exec_steps pb [] (take 8 (wide_steps t bytes dest a b c d)) (env, out) = Some (e8, out)"
    by (simp add: wide_steps_def Let_def s1 s2 s3 s4 s5 s6 s7 s8 del: exec_step.simps eval.simps)
  then show ?thesis unfolding es N_def .
qed


text \<open>The middle sum, the two words of the product and their carries.\<close>

lemma eval_var: "eval pb env (Var x) = env x"
  by simp

lemma define_sum:
  assumes "env x = Some (u128, int i)" "env y = Some (u128, int j)" "i < 2 ^ 128" "j < 2 ^ 128"
  shows "exec_step pb ds (Define ''uint128_t'' v (BinOp (Var x) Add (Var y))) (env, out) =
    Some (env(v \<mapsto> (u128, int ((i + j) mod 2 ^ 128))), out)"
  by (rule define_wide [OF wide_arith(1)]) (use assms in \<open>simp_all add: eval_var\<close>)

lemma define_carry:
  assumes "env x = Some (u128, int i)" "env y = Some (u128, int j)" "i < 2 ^ 128" "j < 2 ^ 128"
    and "eval pb env e = Some (s, int k)" "expr_type pb env e = Some s" "arith_type s (CIntT 32 True) = s"
      "wrap s (int k) = int k" "wrap s 0 = 0" "k < 2 ^ 128"
  shows "exec_step pb ds (Define ''uint128_t'' v (Ternary (Paren (BinOp (Var x) Lt (Var y))) e (Lit ''0''))) (env, out) =
    Some (env(v \<mapsto> (u128, int (if i < j then k else 0))), out)"
proof (rule define_wide)
  have "eval pb env (BinOp (Var x) Lt (Var y)) = Some (CIntT 32 True, of_bool (i < j))"
    by (rule wide_arith(2)) (use assms in \<open>simp_all add: eval_var\<close>)
  then show "eval pb env (Ternary (Paren (BinOp (Var x) Lt (Var y))) e (Lit ''0'')) = Some (s, int (if i < j then k else 0))"
    using assms(5-9) by (simp del: eval.simps(5))
qed (use assms in simp)

lemma define_low:
  assumes "env x = Some (u128, int i)" "env y = Some (u128, int j)" "i < 2 ^ 128"
  shows "exec_step pb ds (Define ''uint128_t'' v (BinOp (Var x) Add (Paren (BinOp (Var y) Shl (Lit ''64''))))) (env, out) =
    Some (env(v \<mapsto> (u128, int ((i + j * 2 ^ 64 mod 2 ^ 128) mod 2 ^ 128))), out)"
  by (rule define_wide [OF wide_arith(1) [OF _ wide_shifts(1)]]) (use assms in \<open>simp_all add: eval_var\<close>)

lemma define_high:
  assumes "env x = Some (u128, int i)" "env y = Some (u128, int j)" "env c = Some (u128, int k)" "env d = Some (u128, int l)"
    and s: "i + j div 2 ^ 64 + k + l < 2 ^ 128"
  shows "exec_step pb ds (Define ''uint128_t'' v (BinOp (BinOp (BinOp (Var x) Add (Paren (BinOp (Var y) Shr (Lit ''64''))))
      Add (Var c)) Add (Var d))) (env, out) =
    Some (env(v \<mapsto> (u128, int (i + j div 2 ^ 64 + k + l))), out)"
proof (rule define_wide [OF _ s])
  have "eval pb env (BinOp (Var x) Add (Paren (BinOp (Var y) Shr (Lit ''64'')))) = Some (u128, int (i + j div 2 ^ 64))"
    using wide_arith(1) [OF _ wide_shifts(2) [of pb env "Var y" j], of "Var x" i] assms by (simp add: eval_var del: eval.simps)
  from wide_arith(1) [OF this, of "Var c" k]
  have "eval pb env (BinOp (BinOp (Var x) Add (Paren (BinOp (Var y) Shr (Lit ''64'')))) Add (Var c)) =
      Some (u128, int (i + j div 2 ^ 64 + k))" using assms by (simp add: eval_var del: eval.simps)
  from wide_arith(1) [OF this, of "Var d" l]
  show "eval pb env (BinOp (BinOp (BinOp (Var x) Add (Paren (BinOp (Var y) Shr (Lit ''64'')))) Add (Var c)) Add (Var d)) =
      Some (u128, int (i + j div 2 ^ 64 + k + l))" using assms by (simp add: eval_var del: eval.simps)
qed

lemma carry_constants:
  "eval pb env (Paren (BinOp (Cast ''uint128_t'' (Lit ''1'')) Shl (Lit ''64''))) = Some (u128, int (2 ^ 64))"
  "expr_type pb env (Paren (BinOp (Cast ''uint128_t'' (Lit ''1'')) Shl (Lit ''64''))) = Some u128"
  "wrap u128 (int (2 ^ 64)) = int (2 ^ 64)" "arith_type u128 (CIntT 32 True) = u128" "wrap u128 0 = 0"
  "eval pb env (Lit ''1'') = Some (CIntT 32 True, int 1)" "expr_type pb env (Lit ''1'') = Some (CIntT 32 True)"
  "wrap (CIntT 32 True) (int 1) = int 1" "arith_type (CIntT 32 True) (CIntT 32 True) = CIntT 32 True"
  "wrap (CIntT 32 True) 0 = 0"
  using wide_shifts(1) [of pb env "Cast ''uint128_t'' (Lit ''1'')" 1]
  by (simp_all add: arith_type_def take_bit_int_nat del: eval.simps(3,5))

lemma wide_high_less:
  assumes "m < n * n" "k < n * n"
  shows "wide_high n m k < n * n"
proof -
  have "m * k < n * n * (n * n)" using assms by (intro mult_strict_mono') auto
  then have "n * n * wide_high n m k < n * n * (n * n)" using wide_product [OF assms] by linarith
  then show ?thesis by simp
qed

lemma square_word: "(2::nat) ^ 64 * 2 ^ 64 = 2 ^ 128"
  by (simp flip: power_add)

lemma wide_words_run:
  fixes env :: cenv
  assumes mn: "m < 2 ^ 128" "n < 2 ^ 128"
    and env: "env ''_lo_lo'' = Some (u128, int (m mod 2 ^ 64 * (n mod 2 ^ 64)))"
      "env ''_hi_lo'' = Some (u128, int (m div 2 ^ 64 * (n mod 2 ^ 64)))"
      "env ''_lo_hi'' = Some (u128, int (m mod 2 ^ 64 * (n div 2 ^ 64)))"
      "env ''_hi_hi'' = Some (u128, int (m div 2 ^ 64 * (n div 2 ^ 64)))"
  shows "exec_steps pb [] (take 5 (drop 8 (wide_steps t bytes dest a b c d))) (env, out) =
    Some (env(''_mid'' \<mapsto> (u128, int (wide_mid (2 ^ 64) m n)),
      ''_carry_mid'' \<mapsto> (u128, int (if wide_mid (2 ^ 64) m n < m div 2 ^ 64 * (n mod 2 ^ 64) then 2 ^ 64 else 0)),
      ''_low'' \<mapsto> (u128, int (wide_low (2 ^ 64) m n)),
      ''_carry_low'' \<mapsto> (u128, int (if wide_low (2 ^ 64) m n < m mod 2 ^ 64 * (n mod 2 ^ 64) then 1 else 0)),
      ''_high'' \<mapsto> (u128, int (wide_high (2 ^ 64) m n))), out)"
proof -
  note mn' = mn [folded square_word]
  note h = halves_less [OF mn', unfolded square_word] wide_high_less [OF mn', unfolded square_word]
  let ?u = "\<lambda>x. (u128, int x) :: cval"
  let ?mid = "wide_mid (2 ^ 64) m n" and ?low = "wide_low (2 ^ 64) m n"
  have le: "?mid < 2 ^ 128" "?low < 2 ^ 128" by (simp_all add: wide_mid_def wide_low_def)
  define e1 where "e1 = env(''_mid'' \<mapsto> ?u ?mid)"
  define e2 where "e2 = e1(''_carry_mid'' \<mapsto> ?u (if ?mid < m div 2 ^ 64 * (n mod 2 ^ 64) then 2 ^ 64 else 0))"
  define e3 where "e3 = e2(''_low'' \<mapsto> ?u ?low)"
  define e4 where "e4 = e3(''_carry_low'' \<mapsto> ?u (if ?low < m mod 2 ^ 64 * (n mod 2 ^ 64) then 1 else 0))"
  note es = e1_def e2_def e3_def e4_def
  have v1: "e1 ''_mid'' = Some (?u ?mid)" "e1 ''_hi_lo'' = env ''_hi_lo''" by (simp_all add: e1_def)
  have v2: "e2 ''_mid'' = Some (?u ?mid)" "e2 ''_lo_lo'' = env ''_lo_lo''" by (simp_all add: e1_def e2_def)
  have v3: "e3 ''_low'' = Some (?u ?low)" "e3 ''_lo_lo'' = env ''_lo_lo''" by (simp_all add: e1_def e2_def e3_def)
  have v4: "e4 ''_hi_hi'' = env ''_hi_hi''" "e4 ''_mid'' = Some (?u ?mid)" by (simp_all add: es)
  note c = carry_constants
  note s1 = define_sum [of env "''_hi_lo''" _ "''_lo_hi''" _ pb "[]" "''_mid''" out, OF env(2,3) h(3,4)]
  note s2 = define_carry [of e1 "''_mid''" _ "''_hi_lo''" _ pb _ _ _ "[]" "''_carry_mid''" out,
      OF v1(1) trans [OF v1(2) env(2)] le(1) h(3) c(1,2,4,3,5)]
  note s3 = define_low [of e2 "''_lo_lo''" _ "''_mid''" _ pb "[]" "''_low''" out, OF trans [OF v2(2) env(1)] v2(1) h(5)]
  note s4 = define_carry [of e3 "''_low''" _ "''_lo_lo''" _ pb _ _ _ "[]" "''_carry_low''" out,
      OF v3(1) trans [OF v3(2) env(1)] le(2) h(5) c(6,7,9,8,10)]
  note s5 = define_high [of e4 "''_hi_hi''" _ "''_mid''" _ "''_carry_mid''" _ "''_carry_low''" _ pb "[]" "''_high''" out,
      OF trans [OF v4(1) env(4)] v4(2)]
  have e1: "e1 = env(''_mid'' \<mapsto> ?u ((m div 2 ^ 64 * (n mod 2 ^ 64) + m mod 2 ^ 64 * (n div 2 ^ 64)) mod 2 ^ 128))"
    by (simp add: e1_def wide_mid_def)
  have e3: "e3 = e2(''_low'' \<mapsto> ?u ((m mod 2 ^ 64 * (n mod 2 ^ 64) + ?mid * 2 ^ 64 mod 2 ^ 128) mod 2 ^ 128))"
    by (simp add: e3_def wide_low_def)
  have e5: "exec_step pb [] (Define ''uint128_t'' ''_high'' (BinOp (BinOp (BinOp (Var ''_hi_hi'') Add
      (Paren (BinOp (Var ''_mid'') Shr (Lit ''64'')))) Add (Var ''_carry_mid'')) Add (Var ''_carry_low''))) (e4, out) =
      Some (e4(''_high'' \<mapsto> ?u (wide_high (2 ^ 64) m n)), out)"
    unfolding wide_high_def by (rule s5 [OF _ _ h(7) [unfolded wide_high_def]]) (simp_all add: e4_def e3_def e2_def)
  have "exec_steps pb [] (take 5 (drop 8 (wide_steps t bytes dest a b c d))) (env, out) =
      Some (e4(''_high'' \<mapsto> ?u (wide_high (2 ^ 64) m n)), out)"
    using s1 [folded e1] s2 [folded e2_def] s3 [folded e3] s4 [folded e4_def] e5
    by (simp add: wide_steps_def Let_def del: exec_step.simps eval.simps)
  then show ?thesis unfolding es .
qed


text \<open>The two words of \<open>m * n + k + l\<close> are what the block stores.\<close>

lemma wide_sum:
  fixes m n k l M :: nat
  assumes "m < 2 ^ 128" "n < 2 ^ 128" "k < 2 ^ 128" "l < 2 ^ 128"
    and M: "M = 2 ^ 128"
    and p: "lo = wide_low (2 ^ 64) m n" "hi = wide_high (2 ^ 64) m n"
      "lo' = (lo + k) mod M" "hi' = (hi + of_bool (lo' < k)) mod M"
      "lo'' = (lo' + l) mod M" "hi'' = (hi' + of_bool (lo'' < l)) mod M"
  shows "lo'' = (m * n + k + l) mod M" "hi'' = (m * n + k + l) div M"
proof -
  have M0: "0 < M" using M by simp
  have lt: "m < M" "n < M" "k < M" "l < M" using assms(1-4) M by simp_all
  have prod: "m * n = lo + M * hi"
    using wide_product [of m "2 ^ 64" n] assms(1,2) by (simp add: square_word p M del: power_numeral)
  have lo: "lo < M" "lo' < M" "lo'' < M" using M0 by (simp_all add: p wide_low_def square_word M)
  have sum: "m * n + k + l = lo'' + M * (hi + of_bool (lo' < k) + of_bool (lo'' < l))"
    using wide_add [OF lo(1) lt(3), of hi] wide_add [OF lo(2) lt(4), of "hi + of_bool (lo' < k)"] prod
    by (simp add: p(3,5))
  obtain j where j: "M = Suc j" using M0 by (cases M) auto
  have "m * n \<le> j * j" using lt j by (intro mult_mono) auto
  moreover have "k \<le> j" "l \<le> j" using lt j by simp_all
  moreover have "j * j + j + j < M * M" using j by simp
  ultimately have "m * n + k + l < M * M" by linarith
  then have hi: "hi + of_bool (lo' < k) + of_bool (lo'' < l) < M"
    using sum by (metis add_lessD1 add.commute mult_less_cancel1)
  then have "hi' = hi + of_bool (lo' < k)" "hi'' = hi + of_bool (lo' < k) + of_bool (lo'' < l)"
    by (simp_all add: p(4,6))
  then show "lo'' = (m * n + k + l) mod M" "hi'' = (m * n + k + l) div M"
    using sum lo(3) by simp_all
qed

lemma wide_run:
  assumes p: "operand_pattern env a 128 m" "operand_pattern env b 128 n" "operand_pattern env c 128 k" "operand_pattern env d 128 l"
    and ne: "{a, b, c, d} \<inter> set wide_locals = {}" and t: "type_name pb t = Some T"
  shows "\<exists>env'. exec_steps pb [] (wide_steps t bytes dest a b c d) (env, out) =
    Some (env', out @ [(dest, 0, (T, wrap T (int ((m * n + k + l) mod 2 ^ 128)))),
      (dest, bytes, (T, wrap T (int ((m * n + k + l) div 2 ^ 128))))])"
proof -
  let ?ss = "wide_steps t bytes dest a b c d" and ?out = "out :: (string \<times> nat \<times> cval) list"
  let ?lo = "wide_low (2 ^ 64) m n" and ?hi = "wide_high (2 ^ 64) m n"
  have ne': "a \<notin> set wide_locals" "b \<notin> set wide_locals" "c \<notin> set wide_locals" "d \<notin> set wide_locals" using ne by auto
  note lt = wide_operand(2) [OF p(1)] wide_operand(2) [OF p(2)] wide_operand(2) [OF p(3)] wide_operand(2) [OF p(4)]
  obtain e1 where e1: "exec_steps pb [] (take 8 ?ss) (env, out) = Some (e1, out)"
    and same: "\<forall>x. x \<notin> set wide_locals \<longrightarrow> e1 x = env x"
    and v: "e1 ''_lo_lo'' = Some (u128, int (m mod 2 ^ 64 * (n mod 2 ^ 64)))"
      "e1 ''_hi_lo'' = Some (u128, int (m div 2 ^ 64 * (n mod 2 ^ 64)))"
      "e1 ''_lo_hi'' = Some (u128, int (m mod 2 ^ 64 * (n div 2 ^ 64)))"
      "e1 ''_hi_hi'' = Some (u128, int (m div 2 ^ 64 * (n div 2 ^ 64)))"
    by (rule that [OF wide_halves_run [OF p(1,2) ne'(1,2)]]) (simp_all add: wide_locals_def)
  obtain e2 where e2: "exec_steps pb [] (take 5 (drop 8 ?ss)) (e1, out) = Some (e2, out)"
    and same2: "\<forall>x. x \<notin> set wide_locals \<longrightarrow> e2 x = e1 x"
    and w: "e2 ''_low'' = Some (u128, int ?lo)" "e2 ''_high'' = Some (u128, int ?hi)"
    by (rule that [OF wide_words_run [OF lt(1,2) v]]) (simp_all add: wide_locals_def)
  have "drop 13 ?ss = drop 5 (drop 8 ?ss)" by simp
  then have split: "?ss = take 8 ?ss @ take 5 (drop 8 ?ss) @ drop 13 ?ss" by (simp only: append_take_drop_id)
  define lo1 where "lo1 = (?lo + k) mod 2 ^ 128"
  define hi1 where "hi1 = (?hi + of_bool (lo1 < k)) mod 2 ^ 128"
  define lo2 where "lo2 = (lo1 + l) mod 2 ^ 128"
  define hi2 where "hi2 = (hi1 + of_bool (lo2 < l)) mod 2 ^ 128"
  note sums = wide_sum [OF lt refl refl refl lo1_def hi1_def lo2_def hi2_def]
  have ll: "lo1 < 2 ^ 128" "hi1 < 2 ^ 128" by (simp_all add: lo1_def hi1_def)
  have ll0: "?lo < 2 ^ 128" "?hi < 2 ^ 128"
    using wide_high_less [of m "2 ^ 64" n] lt(1,2) by (simp_all add: wide_low_def)
  let ?e3 = "e2(''_low'' \<mapsto> (u128, int lo1), ''_high'' \<mapsto> (u128, int hi1))"
  have nl: "c \<noteq> ''_low''" "c \<noteq> ''_high''" "d \<noteq> ''_low''" "d \<noteq> ''_high''" using ne'(3,4) by (auto simp: wide_locals_def)
  have "operand_pattern e2 c 128 k" "operand_pattern ?e3 d 128 l"
    using p(3,4) same same2 ne' nl by (simp_all add: operand_pattern_def)
  note pc = wide_operand(1) [OF this(1)] and pd = wide_operand(1) [OF this(2)]
  let ?e4 = "?e3(''_low'' \<mapsto> (u128, int lo2), ''_high'' \<mapsto> (u128, int hi2))"
  let ?st = "[StoreTo t dest 0 (Cast t (Var ''_low'')), StoreTo t dest bytes (Cast t (Var ''_high''))]"
  have "exec_steps pb [] (drop 13 ?ss) (e2, out) = exec_steps pb [] ?st (?e4, out)"
    using add_word [of e2 _ _ pb c k _ out, OF w(1) ll0(1) w(2) ll0(2) pc lt(3) nl(1,2), folded lo1_def hi1_def]
      add_word [of ?e3 _ _ pb d l ?st out, OF _ ll(1) _ ll(2) pd lt(4) nl(3,4), folded lo2_def hi2_def]
    by (simp add: wide_steps_def Let_def del: exec_steps.simps eval.simps)
  also have "\<dots> = Some (?e4, out @ [(dest, 0, (T, wrap T (int lo2))), (dest, bytes, (T, wrap T (int hi2)))])"
    using t by simp
  finally show ?thesis
    using e1 e2 by (subst split) (simp add: exec_steps_append sums del: exec_steps.simps)
qed

section \<open>The emitted lines\<close>

text \<open>
  A sequence of lines in braces: the inner ones are read as steps and executed, with the
  variables they define of their own.
\<close>

definition runs_scope ::
  "Builder \<Rightarrow> CodegenCx \<Rightarrow> CodegenCx \<Rightarrow> (cenv \<Rightarrow> cstate option \<Rightarrow> bool) \<Rightarrow> bool" where
  "runs_scope b cx cx' P =
     (\<exists>n c inner sts. reach b (appends b [] (map RawStmt (([''{ /* '' @ c @ '' */''] @ inner) @ [''}'']))) n cx cx' \<and>
        list_all2 (reads_step (operand_texts cx)) inner sts \<and>
        (\<forall>env. P env (exec_steps (pointer_bits cx) [] sts (env, []))))"

lemma extend_lines:
  "reach b (appends b ds ss) m c0 cx \<Longrightarrow>
   reach b (appends b ds (ss @ map RawStmt ls)) m c0 (fold (\<lambda>l cx. emit b (RawStmt l) cx) ls cx)"
  by (induction ls arbitrary: ss cx) (use extend_emit in force)+

lemma carrying_mul_add_scope:
  assumes wf: "cx_wf cx" "room 1 cx"
    and x: "arg_text args 0 cx = Some a" "arg_text args 1 cx = Some b" "arg_text args 2 cx = Some c"
      "arg_text args 3 cx = Some d" "render_value cx (pl_llval dest) = Some dst"
    and ne: "{a, b, c, d} \<inter> set wide_locals = {}"
  shows "\<exists>cx'. codegen_carrying_mul_add bl 16 sg args dest cx = Some cx' \<and>
    runs_scope bl cx cx' (\<lambda>env m. \<forall>i j k l. operand_pattern env a 128 i \<and> operand_pattern env b 128 j \<and>
        operand_pattern env c 128 k \<and> operand_pattern env d 128 l \<longrightarrow>
      (\<exists>env'. m = Some (env',
        [(dst, 0, (CIntT 128 sg, wrap (CIntT 128 sg) (int ((i * j + k + l) mod 2 ^ 128)))),
         (dst, 16, (CIntT 128 sg, wrap (CIntT 128 sg) (int ((i * j + k + l) div 2 ^ 128))))])))"
proof -
  let ?t = "if sg then ''int128_t'' else ''uint128_t''" and ?pb = "pointer_bits cx" and ?ops = "operand_texts cx"
  obtain nt cx1 where i: "intern_type (TInt (as_u32 128) sg) cx = (nt, cx1)"
    by (cases "intern_type (TInt (as_u32 128) sg) cx")
  from intern_type_reach [OF wf _ _ i, of bl] have r: "reach bl id 1 cx cx1" by simp
  let ?lines = "wide_mul_lines ?t 16 dst a b c d" and ?steps = "wide_steps ?t 16 dst a b c d"
  let ?cx' = "fold (\<lambda>l cx. emit bl (RawStmt l) cx) ?lines cx1"
  let ?inner = "map (\<lambda>s. ''  '' @ step_text s) ?steps"
  have tn: "type_name ?pb ?t = Some (CIntT 128 sg)" by (simp add: type_name_def int_types_def)
  have "{dst, a, b, c, d} \<subseteq> ?ops" using x by (auto simp: arg_text_def bind_eq_Some_conv)
  then have "list_all (step_fits ?ops) ?steps" by (rule wide_fits [OF type_name_int [OF tn]])
  then have rd: "list_all2 (reads_step ?ops) ?inner ?steps"
    using reads_step.blank [OF reads_step.blank [OF step_reads]]
    by (auto simp: list_all2_map1 list_all_iff intro!: list.rel_refl_strong)
  have ex: "\<exists>env'. exec_steps ?pb [] ?steps (env, []) = Some (env',
        [(dst, 0, (CIntT 128 sg, wrap (CIntT 128 sg) (int ((i * j + k + l) mod 2 ^ 128)))),
         (dst, 16, (CIntT 128 sg, wrap (CIntT 128 sg) (int ((i * j + k + l) div 2 ^ 128))))])"
    if "operand_pattern env a 128 i" "operand_pattern env b 128 j" "operand_pattern env c 128 k" "operand_pattern env d 128 l"
    for env i j k l
    using wide_run [OF that ne tn, of 16 dst "[]"] by simp
  have "reach bl (appends bl [] (map RawStmt ?lines)) (0 + 1) cx ?cx'"
    using extend_lines [OF extend_id [OF start_block [OF wf(1)] r], of ?lines] by simp
  then have "reach bl (appends bl [] (map RawStmt (([''{ /* '' @ ''carrying_mul_add u128'' @ '' */''] @ ?inner) @ [''}'']))) (0 + 1) cx ?cx'"
    by (simp add: wide_texts del: map_map)
  then have "runs_scope bl cx ?cx' (\<lambda>env m. \<forall>i j k l. operand_pattern env a 128 i \<and> operand_pattern env b 128 j \<and>
        operand_pattern env c 128 k \<and> operand_pattern env d 128 l \<longrightarrow>
      (\<exists>env'. m = Some (env',
        [(dst, 0, (CIntT 128 sg, wrap (CIntT 128 sg) (int ((i * j + k + l) mod 2 ^ 128)))),
         (dst, 16, (CIntT 128 sg, wrap (CIntT 128 sg) (int ((i * j + k + l) div 2 ^ 128))))])))"
    unfolding runs_scope_def using rd ex by blast
  moreover have "codegen_carrying_mul_add bl 16 sg args dest cx = Some ?cx'"
    using x i reach_text [OF r x(5)] by (simp add: codegen_carrying_mul_add_def)
  ultimately show ?thesis by blast
qed

end
