(* ===== verification/Alignment.thy ===== *)
theory Alignment
  imports Types
begin

text \<open>
  The natural alignment of a type (\<open>natural_align_bytes\<close>): it is a power of two, and the
  alignment of a struct is a multiple of that of each of its fields. Zero is the value of a
  vector whose size in bytes exceeds the 64-bit rounding.
\<close>

definition power_of_two :: "nat \<Rightarrow> bool" where
  "power_of_two a = (\<exists>i. a = 2 ^ i)"

lemma pow2_from_power: "power_of_two p \<Longrightarrow> power_of_two (pow2_from p n)"
proof (induction p n rule: pow2_from.induct)
  case (1 p n)
  have "power_of_two (2 * p)" using 1(2) by (auto simp: power_of_two_def intro: exI [of _ "Suc i" for i])
  then show ?case using 1 by (subst pow2_from.simps) (auto simp: power_of_two_def)
qed

lemma as_u64_power: "power_of_two a \<Longrightarrow> as_u64 a \<noteq> 0 \<Longrightarrow> power_of_two (as_u64 a)"
proof -
  assume a: "power_of_two a" "as_u64 a \<noteq> 0"
  then obtain i where i: "a = 2 ^ i" by (auto simp: power_of_two_def)
  have "i < 64"
  proof (rule ccontr)
    assume "\<not> i < 64"
    then have "(2::nat) ^ 64 dvd 2 ^ i" by (intro le_imp_power_dvd) simp
    then have "as_u64 a = 0" unfolding as_u64_def i by (simp only: dvd_imp_mod_0)
    then show False using a by simp
  qed
  then have "(2::nat) ^ i < 2 ^ 64" by (intro power_strict_increasing) auto
  then have "as_u64 a = a" unfolding as_u64_def i by (rule mod_less)
  then show "power_of_two (as_u64 a)" using a by simp
qed

lemma next_power_of_two_power: "next_power_of_two n \<noteq> 0 \<Longrightarrow> power_of_two (next_power_of_two n)"
proof -
  have "power_of_two 1" by (auto simp: power_of_two_def intro: exI [of _ 0])
  then show "next_power_of_two n \<noteq> 0 \<Longrightarrow> power_of_two (next_power_of_two n)"
    unfolding next_power_of_two_def by (intro as_u64_power pow2_from_power)
qed

lemma power_of_two_numerals [simp]:
  "power_of_two 1" "power_of_two (Suc 0)" "power_of_two 2" "power_of_two 4" "power_of_two 8" "power_of_two 16"
proof -
  have "power_of_two (2 ^ i)" for i by (auto simp: power_of_two_def)
  from this [of 0] this [of 1] this [of 2] this [of 3] this [of 4]
  show "power_of_two 1" "power_of_two (Suc 0)" "power_of_two 2" "power_of_two 4" "power_of_two 8" "power_of_two 16"
    by simp_all
qed

lemma power_of_two_dvd: "power_of_two a \<Longrightarrow> power_of_two b \<Longrightarrow> a \<le> b \<Longrightarrow> a dvd b"
  by (auto simp: power_of_two_def le_imp_power_dvd)

lemma opt_map_members: "opt_map f xs = Some ys \<Longrightarrow> y \<in> set ys \<Longrightarrow> \<exists>x \<in> set xs. f x = Some y"
  by (induction xs arbitrary: ys) (auto simp: bind_Some_iff)

lemma opt_map_image: "opt_map f xs = Some ys \<Longrightarrow> x \<in> set xs \<Longrightarrow> \<exists>y \<in> set ys. f x = Some y"
  by (induction xs arbitrary: ys) (auto simp: bind_Some_iff)

lemma nat_align_f_power:
  assumes wf: "ts_wf ts" and p: "power_of_two p"
  shows "nat_align_f n ts ty p = Some a \<Longrightarrow> a \<noteq> 0 \<Longrightarrow> power_of_two a"
proof (induction n arbitrary: ty a)
  case (Suc n)
  from Suc.prems obtain k where k: "ts_get ts ty = Some k" by (auto simp: bind_Some_iff)
  have ok: "kind_ok k" using wf k by (rule ts_wf_kind_ok)
  show ?case
  proof (cases k)
    case (TStruct fs pk nm)
    show ?thesis
    proof (cases pk)
      case False
      then obtain as where as: "opt_map (\<lambda>f. nat_align_f n ts f p) fs = Some as"
        "a = (if as = [] then 1 else Max (set as))"
        using Suc.prems k TStruct by (auto simp: bind_Some_iff)
      show ?thesis
      proof (cases "as = []")
        case False
        then have "a \<in> set as" using as(2) by simp
        then obtain f where "nat_align_f n ts f p = Some a" using opt_map_members [OF as(1)] by blast
        then show ?thesis using Suc.prems(2) by (rule Suc.IH)
      qed (use as in simp)
    qed (use Suc.prems k TStruct in auto)
  qed (use Suc k ok p next_power_of_two_power in \<open>auto simp: c_bits_def bind_Some_iff max_def split: if_splits\<close>)
qed simp

lemma natural_align_power:
  "ts_wf ts \<Longrightarrow> power_of_two p \<Longrightarrow> natural_align_bytes ts ty p = Some a \<Longrightarrow> a \<noteq> 0 \<Longrightarrow> power_of_two a"
  unfolding natural_align_bytes_def by (rule nat_align_f_power)

lemma natural_align_field:
  assumes wf: "ts_wf ts" and p: "power_of_two p"
    and k: "ts_get ts ty = Some (TStruct fs False nm)" and f: "f \<in> set fs"
    and a: "natural_align_bytes ts ty p = Some a" and b: "natural_align_bytes ts f p = Some b" "b \<noteq> 0"
  shows "b dvd a"
proof -
  let ?n = "length (ts_types ts)"
  obtain as where as: "opt_map (\<lambda>f. nat_align_f ?n ts f p) fs = Some as" "a = (if as = [] then 1 else Max (set as))"
    using a k by (auto simp: natural_align_bytes_def bind_Some_iff)
  obtain c where c: "c \<in> set as" "nat_align_f ?n ts f p = Some c"
    using opt_map_image [OF as(1) f] by auto
  then have "nat_align_f (Suc ?n) ts f p = Some c" by (intro nat_align_f_mono [OF c(2)]) auto
  then have "b = c" using b by (simp add: natural_align_bytes_def)
  then have le: "b \<le> a" using c as(2) by auto
  then have "a \<noteq> 0" using b by simp
  then show ?thesis
    using le b natural_align_power [OF wf p] a by (intro power_of_two_dvd) auto
qed

end
