(* ===== verification/Int128.thy ===== *)
theory Int128
  imports "HOL-Library.Word" "HOL-Library.Signed_Division"
begin

unbundle bit_operations_syntax

text \<open>
  The 128-bit division routines of \<open>c/int128_division.c\<close> on machine words: binary long
  division with a 64-bit shortcut, and the signed versions on magnitudes. They are shown to
  compute the quotient and the remainder, the signed ones with truncation towards zero and
  the wrap-around of \<open>-fwrapv\<close>. A division by zero that C leaves undefined is
  \<open>None\<close>.
\<close>

section \<open>The routines\<close>

text \<open>The body of the loop at index \<open>i\<close>, and the loop counting down to \<open>0\<close>.\<close>

definition shift_in :: "128 word \<Rightarrow> nat \<Rightarrow> 128 word \<Rightarrow> 128 word" where
  "shift_in n i r = push_bit 1 r OR (drop_bit i n AND 1)"

fun udiv_loop :: "nat \<Rightarrow> 128 word \<Rightarrow> 128 word \<Rightarrow> 128 word \<Rightarrow> 128 word \<Rightarrow> 128 word" where
  "udiv_loop 0 n d q r = q"
| "udiv_loop (Suc i) n d q r =
     (let r = shift_in n i r in
      if r \<ge> d then udiv_loop i n d (q OR push_bit i 1) (r - d) else udiv_loop i n d q r)"

fun umod_loop :: "nat \<Rightarrow> 128 word \<Rightarrow> 128 word \<Rightarrow> 128 word \<Rightarrow> 128 word" where
  "umod_loop 0 n d r = r"
| "umod_loop (Suc i) n d r =
     (let r = shift_in n i r in umod_loop i n d (if r \<ge> d then r - d else r))"

definition both_narrow :: "128 word \<Rightarrow> 128 word \<Rightarrow> bool" where
  "both_narrow n d \<longleftrightarrow>
     (ucast (drop_bit 64 n) :: 64 word) = 0 \<and> (ucast (drop_bit 64 d) :: 64 word) = 0"

definition udivti3 :: "128 word \<Rightarrow> 128 word \<Rightarrow> 128 word option" where
  "udivti3 n d =
     (if both_narrow n d
      then if (ucast d :: 64 word) = 0 then None
           else Some (ucast ((ucast n :: 64 word) div ucast d))
      else Some (udiv_loop 128 n d 0 0))"

definition umodti3 :: "128 word \<Rightarrow> 128 word \<Rightarrow> 128 word option" where
  "umodti3 n d =
     (if both_narrow n d
      then if (ucast d :: 64 word) = 0 then None
           else Some (ucast ((ucast n :: 64 word) mod ucast d))
      else Some (umod_loop 128 n d 0))"

text \<open>\<open>n < 0 ? -(__rustc_u128)n : (__rustc_u128)n\<close>.\<close>

definition magnitude :: "128 word \<Rightarrow> 128 word" where
  "magnitude n = (if sint n < 0 then - n else n)"

definition divti3 :: "128 word \<Rightarrow> 128 word \<Rightarrow> 128 word option" where
  "divti3 n d =
     (let neg = ((sint n < 0) \<noteq> (sint d < 0)) in
      map_option (\<lambda>uq. if neg then - uq else uq) (udivti3 (magnitude n) (magnitude d)))"

definition modti3 :: "128 word \<Rightarrow> 128 word \<Rightarrow> 128 word option" where
  "modti3 n d =
     (let neg = (sint n < 0) in
      map_option (\<lambda>ur. if neg then - ur else ur) (umodti3 (magnitude n) (magnitude d)))"

section \<open>Long division is division\<close>

lemma twice_div_mod:
  fixes M b d :: nat
  assumes "0 < d" "b < 2"
  defines "r \<equiv> 2 * (M mod d) + b"
  shows "(2 * M + b) div d = 2 * (M div d) + of_bool (d \<le> r)"
    and "(2 * M + b) mod d = (if d \<le> r then r - d else r)"
proof -
  have M: "2 * M + b = r + 2 * (M div d) * d"
    unfolding r_def by (subst (1) div_mult_mod_eq [of M d, symmetric]) (simp only: algebra_simps)
  have "M mod d < d" using assms by simp
  then have r: "r < 2 * d" unfolding r_def using assms by linarith
  have one: "r div d = of_bool (d \<le> r)"
  proof (cases "d \<le> r")
    case True
    then have "r div d = 1" using r by (intro div_nat_eqI) simp_all
    then show ?thesis using True by simp
  qed simp
  show "(2 * M + b) div d = 2 * (M div d) + of_bool (d \<le> r)"
    unfolding M one [symmetric] using assms(1) by simp
  show "(2 * M + b) mod d = (if d \<le> r then r - d else r)"
    unfolding M using r mod_if [of r d] mod_if [of "r - d" d] by simp
qed

lemma half_step:
  fixes N d :: nat
  assumes "0 < d"
  defines "r \<equiv> 2 * (N div 2 mod d) + N mod 2"
  shows "N div d = 2 * (N div 2 div d) + of_bool (d \<le> r)"
    and "N mod d = (if d \<le> r then r - d else r)"
  using twice_div_mod [OF assms(1), of "N mod 2" "N div 2"] unfolding r_def by simp_all

lemma unat_push_down: "unat (drop_bit i (n :: 128 word)) = unat n div 2 ^ i"
  by (subst unat_drop_bit_eq) (simp add: drop_bit_eq_div)

lemma twice_half: "r \<le> a div 2 \<Longrightarrow> 2 * r + a mod 2 \<le> (a :: nat)"
  by presburger

lemma unat_below: "unat (n :: 128 word) < 2 ^ 128"
  using unsigned_less [of n] by simp

lemma unat_shift_in:
  assumes "unat r \<le> unat n div 2 ^ i div 2"
  shows "unat (shift_in n i r) = 2 * unat r + unat n div 2 ^ i mod 2"
proof -
  have lt: "2 * unat r + unat n div 2 ^ i mod 2 < 2 ^ 128"
  proof -
    have "2 * unat r + unat n div 2 ^ i mod 2 \<le> unat n div 2 ^ i" using assms by (rule twice_half)
    also have "\<dots> \<le> unat n" by simp
    also have "\<dots> < 2 ^ 128" using unat_below [of n] .
    finally show ?thesis .
  qed
  have one: "unat (drop_bit i n AND 1) = unat n div 2 ^ i mod 2"
    by (simp add: and_one_eq unat_push_down unat_mod)
  have two: "unat (push_bit 1 r) = 2 * unat r"
    using lt by (simp add: push_bit_eq_mult unat_word_ariths)
  have "push_bit 1 r AND (drop_bit i n AND 1) = 0"
    by (rule bit_eqI) (auto simp: bit_push_bit_iff bit_and_iff bit_1_iff simp del: One_nat_def push_bit_Suc)
  then have "shift_in n i r = push_bit 1 r + (drop_bit i n AND 1)"
    unfolding shift_in_def by (simp add: disjunctive_add_eq_or)
  then show ?thesis
    using lt one two by (simp add: unat_word_ariths)
qed

text \<open>The remainder before index \<open>i\<close> and the quotient bits found so far.\<close>

definition rest_at :: "128 word \<Rightarrow> 128 word \<Rightarrow> nat \<Rightarrow> 128 word \<Rightarrow> bool" where
  "rest_at n d i r \<longleftrightarrow> unat r = (unat n div 2 ^ i) mod unat d"

definition quotient_at :: "128 word \<Rightarrow> 128 word \<Rightarrow> nat \<Rightarrow> 128 word \<Rightarrow> bool" where
  "quotient_at n d i q \<longleftrightarrow> unat q = (unat n div 2 ^ i) div unat d * 2 ^ i"

lemma shift_in_rest:
  assumes "rest_at n d (Suc i) r"
  shows "unat (shift_in n i r)
           = 2 * (unat n div 2 ^ i div 2 mod unat d) + unat n div 2 ^ i mod 2"
proof -
  have r: "unat r = unat n div 2 ^ i div 2 mod unat d"
    using assms unfolding rest_at_def by (simp add: div_mult2_eq [symmetric] mult.commute)
  then have "unat r \<le> unat n div 2 ^ i div 2" by simp
  from unat_shift_in [OF this] r show ?thesis by simp
qed

lemma rest_step:
  assumes "rest_at n d (Suc i) r" "d \<noteq> 0"
  shows "rest_at n d i (if shift_in n i r \<ge> d then shift_in n i r - d else shift_in n i r)"
proof -
  have d: "0 < unat d" using assms(2) by (simp add: unat_gt_0)
  show ?thesis
    using half_step(2) [OF d, of "unat n div 2 ^ i"] shift_in_rest [OF assms(1)]
    unfolding rest_at_def by (auto simp: word_le_nat_alt unat_sub)
qed

lemma quotient_bit:
  assumes "unat q = k * 2 ^ Suc i" "2 * k * 2 ^ i + 2 ^ i < 2 ^ 128"
  shows "unat (q OR push_bit i 1 :: 128 word) = (2 * k + 1) * 2 ^ i"
proof -
  have q: "q = push_bit (Suc i) (of_nat k)"
    using arg_cong [OF assms(1), of "of_nat :: nat \<Rightarrow> 128 word"]
    by (simp add: push_bit_eq_mult mult.commute)
  have "q AND push_bit i 1 = 0"
    unfolding q by (rule bit_eqI) (auto simp: bit_simps simp del: push_bit_Suc)
  then have "q OR push_bit i 1 = q + push_bit i 1" by (simp add: disjunctive_add_eq_or)
  moreover have "unat (push_bit i 1 :: 128 word) = 2 ^ i"
  proof -
    have "(push_bit i 1 :: 128 word) = of_nat (2 ^ i)" by (simp add: push_bit_eq_mult)
    moreover have "(2::nat) ^ i < 2 ^ 128" using assms(2) by linarith
    ultimately show ?thesis by (simp only: unat_of_nat take_bit_eq_mod) simp
  qed
  moreover have "k * 2 ^ Suc i + 2 ^ i = (2 * k + 1) * (2 ^ i :: nat)" by (simp add: algebra_simps)
  moreover have "(2 * k + 1) * 2 ^ i < (2 :: nat) ^ 128" using assms(2) by (simp only: algebra_simps)
  ultimately show ?thesis
    using assms(1) by (simp add: unat_word_ariths)
qed

lemma quotient_step:
  assumes q: "quotient_at n d (Suc i) q" and r: "rest_at n d (Suc i) r" and "d \<noteq> 0"
  shows "quotient_at n d i (if shift_in n i r \<ge> d then q OR push_bit i 1 else q)"
proof -
  have d: "0 < unat d" using assms(3) by (simp add: unat_gt_0)
  let ?N = "unat n div 2 ^ i"
  have N: "?N div unat d = 2 * (?N div 2 div unat d) + of_bool (unat d \<le> unat (shift_in n i r))"
    using half_step(1) [OF d, of ?N] shift_in_rest [OF r] by simp
  have u: "unat q = (?N div 2 div unat d) * 2 ^ Suc i"
    using q unfolding quotient_at_def by (simp add: div_mult2_eq [symmetric] mult.commute)
  have "?N div unat d * 2 ^ i \<le> ?N * 2 ^ i" by simp
  also have "\<dots> \<le> unat n" by simp
  also have "\<dots> < 2 ^ 128" using unat_below [of n] .
  finally have "?N div unat d * 2 ^ i < 2 ^ 128" .
  then show ?thesis
    using N u quotient_bit [OF u] unfolding quotient_at_def
    by (auto simp: word_le_nat_alt algebra_simps)
qed

lemma umod_loop_rest:
  "d \<noteq> 0 \<Longrightarrow> rest_at n d i r \<Longrightarrow> unat (umod_loop i n d r) = unat n mod unat d"
  by (induction i n d r rule: umod_loop.induct) (simp_all add: Let_def rest_step, simp add: rest_at_def)

lemma udiv_loop_quotient:
  "d \<noteq> 0 \<Longrightarrow> rest_at n d i r \<Longrightarrow> quotient_at n d i q \<Longrightarrow>
   unat (udiv_loop i n d q r) = unat n div unat d"
proof (induction i arbitrary: q r)
  case 0
  then show ?case by (simp add: quotient_at_def)
next
  case (Suc i)
  then show ?case
    using rest_step [OF Suc.prems(2,1)] quotient_step [OF Suc.prems(3,2,1)]
    by (auto simp: Let_def split: if_splits)
qed

lemma start_at: "rest_at n d 128 0" "quotient_at n d 128 0"
  using unat_below [of n] by (simp_all add: rest_at_def quotient_at_def)

lemma narrow_unat:
  assumes "(ucast (drop_bit 64 n) :: 64 word) = 0"
  shows "unat (ucast n :: 64 word) = unat (n :: 128 word)"
proof -
  have "take_bit 64 (unat (drop_bit 64 n)) = 0"
    using arg_cong [OF assms, of unat] by (simp add: unsigned_ucast_eq)
  then have "unat n div 2 ^ 64 mod 2 ^ 64 = 0"
    by (simp only: unat_push_down take_bit_eq_mod)
  moreover have "unat n div 2 ^ 64 < 2 ^ 64" using unat_below [of n] by (simp add: div_less_iff_less_mult)
  ultimately have "unat n < 2 ^ 64" by simp
  then show ?thesis by (simp add: unsigned_ucast_eq take_bit_eq_mod)
qed

lemma widen_unat: "unat (ucast (x :: 64 word) :: 128 word) = unat x"
proof -
  have "unat x < 2 ^ 64" using unsigned_less [of x] by simp
  then show ?thesis by (simp add: unsigned_ucast_eq take_bit_eq_mod)
qed

lemma narrow_zero:
  "both_narrow n d \<Longrightarrow> (ucast d :: 64 word) = 0 \<longleftrightarrow> d = 0"
  using narrow_unat [of d] unfolding both_narrow_def by (metis unat_eq_zero)

theorem udivti3_quotient: "d \<noteq> 0 \<Longrightarrow> udivti3 n d = Some (n div d)"
proof (cases "both_narrow n d")
  case True
  then have "unat (ucast ((ucast n :: 64 word) div ucast d) :: 128 word) = unat (n div d)"
    unfolding widen_unat unat_div_distrib both_narrow_def by (simp only: narrow_unat)
  then show "d \<noteq> 0 \<Longrightarrow> udivti3 n d = Some (n div d)"
    using True by (simp add: udivti3_def narrow_zero) (simp add: word_unat_eq_iff)
next
  case False
  assume "d \<noteq> 0"
  then have "unat (udiv_loop 128 n d 0 0) = unat (n div d)"
    unfolding unat_div_distrib by (rule udiv_loop_quotient [OF _ start_at])
  then show "udivti3 n d = Some (n div d)"
    using False by (simp add: udivti3_def word_unat_eq_iff)
qed

theorem umodti3_remainder: "d \<noteq> 0 \<Longrightarrow> umodti3 n d = Some (n mod d)"
proof (cases "both_narrow n d")
  case True
  then have "unat (ucast ((ucast n :: 64 word) mod ucast d) :: 128 word) = unat (n mod d)"
    unfolding widen_unat unat_mod_distrib both_narrow_def by (simp only: narrow_unat)
  then show "d \<noteq> 0 \<Longrightarrow> umodti3 n d = Some (n mod d)"
    using True by (simp add: umodti3_def narrow_zero) (simp add: word_unat_eq_iff)
next
  case False
  assume "d \<noteq> 0"
  then have "unat (umod_loop 128 n d 0) = unat (n mod d)"
    unfolding unat_mod_distrib by (rule umod_loop_rest [OF _ start_at(1)])
  then show "umodti3 n d = Some (n mod d)"
    using False by (simp add: umodti3_def word_unat_eq_iff)
qed

lemma magnitude_abs: "magnitude n = word_of_int \<bar>sint n\<bar>"
  by (simp add: magnitude_def)

lemma magnitude_uint: "uint (magnitude n) = \<bar>sint n\<bar>"
proof -
  have "\<bar>sint n\<bar> < 2 ^ 128" using sint_ge [of n] sint_lt [of n] by simp
  then show ?thesis by (simp add: magnitude_abs uint_word_of_int)
qed

lemma magnitude_zero [simp]: "magnitude n = 0 \<longleftrightarrow> n = 0"
  by (simp add: magnitude_def)

theorem divti3_quotient:
  "d \<noteq> 0 \<Longrightarrow> divti3 n d = Some (word_of_int (sint n sdiv sint d))"
  by (auto simp: divti3_def Let_def udivti3_quotient word_div_def magnitude_uint signed_divide_int_def
      sgn_if)

theorem modti3_remainder:
  "d \<noteq> 0 \<Longrightarrow> modti3 n d = Some (word_of_int (sint n smod sint d))"
  by (auto simp: modti3_def Let_def umodti3_remainder word_mod_def magnitude_uint signed_modulo_int_def
      sgn_if)

theorem division_by_zero:
  "unat n < 2 ^ 64 \<Longrightarrow> udivti3 n 0 = None \<and> umodti3 n 0 = None"
proof -
  assume "unat n < 2 ^ 64"
  then have "drop_bit 64 n = 0" by (simp add: word_unat_eq_iff unat_push_down)
  then have "both_narrow n 0" by (simp add: both_narrow_def)
  then show ?thesis by (simp add: udivti3_def umodti3_def)
qed
end
