(* ===== verification/GlobalAsm.thy ===== *)
theory GlobalAsm
  imports Functions
begin

text \<open>
  Global assembly (\<open>debuginfo.rs\<close>): the template with its symbol operands becomes a guarded
  \<open>__asm__\<close> block of string literals. A C compiler that reads the literals back gets the
  lines of the assembly, between the syntax switches of x86.
\<close>

section \<open>The operation\<close>

datatype GlobalAsmOperandRef = AsmConst string | AsmSymFn nat | AsmSymStatic nat

datatype InlineAsmTemplatePiece = AsmString string | AsmPlaceholder nat

text \<open>The target architecture's name and whether \<open>ATT_SYNTAX\<close> is among the options.\<close>

record AsmTarget =
  at_arch :: string
  at_att_syntax :: bool

definition operand_str :: "Tcx \<Rightarrow> GlobalAsmOperandRef \<Rightarrow> string option" where
  "operand_str tcx op =
     (case op of
        AsmSymFn inst \<Rightarrow> Some (symbol_name tcx inst)
      | AsmSymStatic def_id \<Rightarrow> Some (static_symbol_name tcx def_id)
      | AsmConst _ \<Rightarrow> None)"

text \<open>The loop over the template: the text so far, and whether every placeholder was known.\<close>

fun asm_pieces :: "string option list \<Rightarrow> InlineAsmTemplatePiece list \<Rightarrow> string \<Rightarrow> string \<times> bool" where
  "asm_pieces operand_strs [] asm_text = (asm_text, True)"
| "asm_pieces operand_strs (AsmString s # ps) asm_text =
     asm_pieces operand_strs ps (asm_text @ s)"
| "asm_pieces operand_strs (AsmPlaceholder operand_idx # ps) asm_text =
     (case idx operand_strs operand_idx of
        Some (Some name) \<Rightarrow> asm_pieces operand_strs ps (asm_text @ name)
      | _ \<Rightarrow> (asm_text, False))"

text \<open>\<open>line.find("//")\<close>\<close>

fun find_slashes :: "string \<Rightarrow> nat option" where
  "find_slashes [] = None"
| "find_slashes (c # cs) =
     (if take 2 (c # cs) = ''//'' then Some 0 else map_option Suc (find_slashes cs))"

definition hash_comment :: "string \<Rightarrow> string" where
  "hash_comment line =
     (case find_slashes line of
        Some i \<Rightarrow> take i line @ ''#'' @ drop (i + 2) line
      | None \<Rightarrow> line)"

abbreviation backslash :: char where
  "backslash \<equiv> CHR 0x5C"

definition replace_char :: "char \<Rightarrow> string \<Rightarrow> string \<Rightarrow> string" where
  "replace_char c by_text s = concat (map (\<lambda>d. if d = c then by_text else [d]) s)"

definition escape_line :: "string \<Rightarrow> string" where
  "escape_line line =
     replace_char dquote [backslash, dquote] (replace_char backslash [backslash, backslash] line)"

definition full_asm :: "bool \<Rightarrow> string \<Rightarrow> string" where
  "full_asm use_intel asm_text =
     (let asm_text = join [nl] (map hash_comment (str_lines asm_text)) in
      (if use_intel then ''.intel_syntax noprefix'' @ [nl] else [])
      @ asm_text
      @ (if use_intel then [nl] @ ''.att_syntax'' @ [nl] else []))"

definition asm_block :: "string \<Rightarrow> string" where
  "asm_block full =
     (let escaped = join ([backslash] @ ''n'' @ [dquote, nl, dquote]) (map escape_line (str_lines full))
      in ''__asm__('' @ [nl, dquote] @ escaped @ [backslash] @ ''n'' @ [dquote, nl] @ '');'' @ [nl])"

definition cpp_macro :: "string \<Rightarrow> string" where
  "cpp_macro arch_name =
     (if arch_name = ''x86'' then ''__i386__'' else ''__'' @ arch_name @ ''__'')"

definition uses_intel :: "AsmTarget \<Rightarrow> bool" where
  "uses_intel target \<longleftrightarrow> at_arch target \<in> {''x86'', ''x86_64''} \<and> \<not> at_att_syntax target"

text \<open>The second component is the warning the compiler is asked to print, if any.\<close>

definition codegen_global_asm ::
  "Tcx \<Rightarrow> AsmTarget \<Rightarrow> InlineAsmTemplatePiece list \<Rightarrow> GlobalAsmOperandRef list \<Rightarrow>
   CodegenCx \<Rightarrow> CodegenCx \<times> string option" where
  "codegen_global_asm tcx target template operands cx =
     (let operand_strs = map (operand_str tcx) operands;
          (asm_text, ok) = asm_pieces operand_strs template []
      in if ok \<and> trim asm_text \<noteq> []
         then (let block = asm_block (full_asm (uses_intel target) asm_text);
                   def = ''#if defined('' @ cpp_macro (at_arch target) @ '')'' @ [nl] @ block
                         @ ''#endif'' @ [nl]
               in (cx\<lparr>cx_module := (cx_module cx)\<lparr>function_defs :=
                     function_defs (cx_module cx) @ [def]\<rparr>\<rparr>, None))
         else (cx, Some ''global_asm! is not supported by the C backend''))"

definition mangled_name :: "Tcx \<Rightarrow> nat \<Rightarrow> string" where
  "mangled_name tcx inst = symbol_name tcx inst"

section \<open>Reading the literals back\<close>

text \<open>
  The lexer of a C compiler on the emitted block: adjacent string literals, each read up to
  its closing quote with its escapes resolved, concatenated until the parenthesis closes.
\<close>

fun read_literal :: "string \<Rightarrow> (string \<times> string) option" where
  "read_literal [] = None"
| "read_literal (c # cs) =
     (if c = dquote then Some ([], cs)
      else if c = nl then None
      else if c = backslash then
        (case cs of
           e # es \<Rightarrow>
             if e \<in> {backslash, dquote} then map_option (map_prod (Cons e) id) (read_literal es)
             else if e = CHR ''n'' then map_option (map_prod (Cons nl) id) (read_literal es)
             else None
         | [] \<Rightarrow> None)
      else map_option (map_prod (Cons c) id) (read_literal cs))"

lemma read_literal_shorter: "read_literal s = Some (t, rest) \<Longrightarrow> length rest < length s"
  by (induction s arbitrary: t rest rule: read_literal.induct)
     (auto split: if_splits list.splits simp: less_Suc_eq)

function read_literals :: "string \<Rightarrow> string option" where
  "read_literals s =
     (case s of
        [] \<Rightarrow> None
      | c # cs \<Rightarrow>
          if c = nl then read_literals cs
          else if c = dquote then
            (case read_literal cs of
               Some (t, rest) \<Rightarrow> map_option ((@) t) (read_literals rest)
             | None \<Rightarrow> None)
          else if c = CHR '')'' then Some [] else None)"
  by pat_completeness auto
termination
  by (relation "measure length") (auto dest: read_literal_shorter)

declare read_literals.simps [simp del]

definition read_asm_block :: "string \<Rightarrow> string option" where
  "read_asm_block s =
     (if take 8 s = ''__asm__('' then read_literals (drop 8 s) else None)"

definition line_texts :: "string list \<Rightarrow> string" where
  "line_texts ls = concat (map (\<lambda>l. l @ [nl]) ls)"

lemma escape_line_chars:
  "escape_line line =
     concat (map (\<lambda>c. if c = backslash then [backslash, backslash]
                        else if c = dquote then [backslash, dquote] else [c]) line)"
  by (induction line) (simp_all add: escape_line_def replace_char_def)

lemma read_escaped:
  "nl \<notin> set line \<Longrightarrow>
   read_literal (escape_line line @ rest) = map_option (map_prod ((@) line) id) (read_literal rest)"
proof (induction line)
  case Nil
  show ?case by (cases "read_literal rest") (auto simp: escape_line_chars)
next
  case (Cons c line)
  then show ?case
    by (cases "read_literal rest") (auto simp: escape_line_chars)
qed

lemma read_line:
  assumes "nl \<notin> set line"
  shows "read_literals ([dquote] @ escape_line line @ [backslash] @ ''n'' @ [dquote] @ rest)
           = map_option ((@) (line @ [nl])) (read_literals rest)"
  using read_escaped [OF assms] by (simp add: read_literals.simps [of "dquote # _"])

lemma read_newline: "read_literals (nl # rest) = read_literals rest"
  by (simp add: read_literals.simps [of "nl # _"])

lemma read_close: "read_literals (CHR '')'' # rest) = Some []"
  by (simp add: read_literals.simps)

lemma read_lines:
  assumes "\<forall>l\<in>set (l # ls). nl \<notin> set l"
  shows "read_literals ([dquote] @ join ([backslash] @ ''n'' @ [dquote, nl, dquote]) (map escape_line (l # ls))
             @ [backslash] @ ''n'' @ [dquote, nl] @ '');'' @ rest)
           = Some (line_texts (l # ls))"
  using assms
proof (induction ls arbitrary: l)
  case Nil
  then show ?case
    using read_line [of l "[nl] @ '');'' @ rest"] by (simp add: line_texts_def read_newline read_close)
next
  case (Cons k ls)
  from Cons.prems have "nl \<notin> set l" by simp
  with Cons.IH [of k] Cons.prems show ?case
    using read_line [of l "nl # dquote # join ([backslash] @ ''n'' @ [dquote, nl, dquote]) (map escape_line (k # ls))
             @ [backslash] @ ''n'' @ [dquote, nl] @ '');'' @ rest"]
    by (simp add: line_texts_def read_newline)
qed

lemma split_inclusive_lines: "l \<in> set (split_inclusive s) \<Longrightarrow> nl \<notin> set (butlast l)"
  by (induction s arbitrary: l rule: split_inclusive.induct)
     (auto split: if_splits list.splits)

lemma strip_line_chars:
  assumes "nl \<notin> set (butlast k)" shows "nl \<notin> set (strip_line k)"
proof (cases "k \<noteq> [] \<and> last k = nl")
  case True
  with assms show ?thesis by (auto simp: strip_line_def Let_def dest: in_set_butlastD)
next
  case False
  with assms have "nl \<notin> set k" by (cases k rule: rev_cases) auto
  with False show ?thesis by (auto simp: strip_line_def)
qed

lemma str_lines_one: "l \<in> set (str_lines s) \<Longrightarrow> nl \<notin> set l"
  by (auto simp: str_lines_def dest: split_inclusive_lines strip_line_chars)

lemma str_lines_nonempty: "str_lines s = [] \<longleftrightarrow> s = []"
  by (cases s) (auto simp: str_lines_def split: list.splits)

lemma asm_block_read:
  assumes "full \<noteq> []"
  shows "read_asm_block (asm_block full) = Some (line_texts (str_lines full))"
proof -
  obtain l ls where ls: "str_lines full = l # ls"
    using assms str_lines_nonempty [of full] by (cases "str_lines full") auto
  then have "\<forall>k\<in>set (l # ls). nl \<notin> set k"
    using str_lines_one [of _ full] by simp
  from read_lines [OF this, of "[nl]"] show ?thesis
    by (simp add: read_asm_block_def asm_block_def ls read_newline)
qed

section \<open>The assembly that is read\<close>

definition clean_line :: "string \<Rightarrow> bool" where
  "clean_line l \<longleftrightarrow> nl \<notin> set l \<and> CHR 0x0D \<notin> set l"

lemma split_inclusive_line: "nl \<notin> set l \<Longrightarrow> split_inclusive (l @ nl # s) = (l @ [nl]) # split_inclusive s"
  by (induction l) auto

lemma split_inclusive_last: "nl \<notin> set l \<Longrightarrow> l \<noteq> [] \<Longrightarrow> split_inclusive l = [l]"
proof (induction l)
  case (Cons c l)
  then show ?case by (cases "l = []") auto
qed simp

lemma strip_clean [simp]: "clean_line l \<Longrightarrow> strip_line (l @ [nl]) = l"
proof -
  assume "clean_line l"
  then have "l = [] \<or> last l \<noteq> CHR 0x0D" by (metis clean_line_def last_in_set)
  then show ?thesis by (auto simp: strip_line_def Let_def)
qed

lemma str_lines_line: "clean_line l \<Longrightarrow> str_lines (l @ nl # s) = l # str_lines s"
  using split_inclusive_line [of l s] by (simp add: str_lines_def clean_line_def [of l])

lemma str_lines_join:
  "ls \<noteq> [] \<Longrightarrow> \<forall>l\<in>set ls. clean_line l \<Longrightarrow> str_lines (join [nl] ls @ nl # s) = ls @ str_lines s"
  by (induction "[nl]" ls rule: join.induct) (simp_all add: str_lines_line)

lemma split_inclusive_chars: "l \<in> set (split_inclusive s) \<Longrightarrow> set l \<subseteq> set s"
  by (induction s arbitrary: l rule: split_inclusive.induct)
     (fastforce split: if_splits list.splits)+

lemma strip_line_subset: "set (strip_line l) \<subseteq> set l"
  by (auto simp: strip_line_def Let_def dest: in_set_butlastD)

lemma str_lines_clean: "CHR 0x0D \<notin> set s \<Longrightarrow> l \<in> set (str_lines s) \<Longrightarrow> clean_line l"
  using str_lines_one [of l s] split_inclusive_chars [of _ s] strip_line_subset
  unfolding clean_line_def str_lines_def by fastforce

lemma hash_comment_chars: "set (hash_comment l) \<subseteq> insert (CHR ''#'') (set l)"
  by (auto simp: hash_comment_def split: option.splits dest: in_set_takeD in_set_dropD)

lemma hash_comment_clean: "clean_line l \<Longrightarrow> clean_line (hash_comment l)"
  using hash_comment_chars [of l] by (auto simp: clean_line_def)

lemma intel_lines:
  assumes "asm \<noteq> []" "CHR 0x0D \<notin> set asm"
  shows "str_lines (full_asm True asm)
           = [''.intel_syntax noprefix''] @ map hash_comment (str_lines asm) @ [''.att_syntax'']"
proof -
  let ?ls = "map hash_comment (str_lines asm)"
  have ne: "?ls \<noteq> []" using assms(1) by (simp add: str_lines_nonempty)
  have clean: "\<forall>l\<in>set ?ls. clean_line l"
    using str_lines_clean [OF assms(2)] hash_comment_clean by auto
  have att: "str_lines (''.att_syntax'' @ [nl]) = [''.att_syntax'']"
    by (simp add: str_lines_def strip_line_def)
  show ?thesis
    using str_lines_line [of "''.intel_syntax noprefix''" "join [nl] ?ls @ nl # ''.att_syntax'' @ [nl]"]
      str_lines_join [OF ne clean, of "''.att_syntax'' @ [nl]"] att
    by (simp add: full_asm_def clean_line_def)
qed

lemma str_lines_join_last:
  "ls \<noteq> [] \<Longrightarrow> \<forall>l\<in>set ls. clean_line l \<Longrightarrow> last ls \<noteq> [] \<Longrightarrow> str_lines (join [nl] ls) = ls"
proof (induction "[nl]" ls rule: join.induct)
  case (2 x)
  then have "x \<noteq> [] \<and> nl \<notin> set x" by (simp add: clean_line_def)
  moreover from this have "last x \<noteq> nl" by (metis last_in_set)
  ultimately show ?case by (simp add: str_lines_def split_inclusive_last strip_line_def)
qed (simp_all add: str_lines_line)

lemma hash_comment_nonempty: "l \<noteq> [] \<Longrightarrow> hash_comment l \<noteq> []"
  by (auto simp: hash_comment_def split: option.splits)

lemma plain_lines:
  assumes "CHR 0x0D \<notin> set asm" "asm \<noteq> []" "last (str_lines asm) \<noteq> []"
  shows "str_lines (full_asm False asm) = map hash_comment (str_lines asm)"
proof -
  have ne: "str_lines asm \<noteq> []" using assms(2) by (simp add: str_lines_nonempty)
  then have "last (map hash_comment (str_lines asm)) \<noteq> []"
    using assms(3) by (simp add: last_map hash_comment_nonempty)
  moreover have "\<forall>l\<in>set (map hash_comment (str_lines asm)). clean_line l"
    using str_lines_clean [OF assms(1)] hash_comment_clean by auto
  ultimately show ?thesis
    using ne by (simp add: full_asm_def str_lines_join_last)
qed

text \<open>The text of the template, when every placeholder stands for a symbol.\<close>

fun piece_text :: "string option list \<Rightarrow> InlineAsmTemplatePiece \<Rightarrow> string option" where
  "piece_text operand_strs (AsmString s) = Some s"
| "piece_text operand_strs (AsmPlaceholder i) = Option.bind (idx operand_strs i) id"

lemma asm_pieces_known:
  "asm_pieces ops ps t =
     (case opt_map (piece_text ops) ps of
        Some ts \<Rightarrow> (t @ concat ts, True)
      | None \<Rightarrow> (fst (asm_pieces ops ps t), False))"
  by (induction ops ps t rule: asm_pieces.induct)
     (auto split: option.splits simp: bind_eq_None_conv)

text \<open>The definition text of a block, and the lines an assembler gets for an assembly text.\<close>

definition asm_def :: "AsmTarget \<Rightarrow> string \<Rightarrow> string" where
  "asm_def target block =
     ''#if defined('' @ cpp_macro (at_arch target) @ '')'' @ [nl] @ block @ ''#endif'' @ [nl]"

definition assembled :: "AsmTarget \<Rightarrow> string \<Rightarrow> string list" where
  "assembled target asm =
     (if uses_intel target then [''.intel_syntax noprefix''] else [])
     @ map hash_comment (str_lines asm)
     @ (if uses_intel target then [''.att_syntax''] else [])"

lemma trim_nil: "trim [] = []"
  by (simp add: trim_def)

lemma global_asm_block:
  assumes "opt_map (piece_text (map (operand_str tcx) operands)) template = Some texts"
    and "trim (concat texts) \<noteq> []" "CHR 0x0D \<notin> set (concat texts)"
    and "last (str_lines (concat texts)) \<noteq> []"
  obtains block where
    "codegen_global_asm tcx target template operands cx =
       (cx\<lparr>cx_module := (cx_module cx)\<lparr>function_defs :=
          function_defs (cx_module cx) @ [asm_def target block]\<rparr>\<rparr>, None)"
    "read_asm_block block = Some (line_texts (assembled target (concat texts)))"
proof
  let ?full = "full_asm (uses_intel target) (concat texts)"
  have ne: "concat texts \<noteq> []" using assms(2) by (metis trim_nil)
  have lines: "str_lines ?full = assembled target (concat texts)"
    using intel_lines [OF ne assms(3)] plain_lines [OF assms(3) ne assms(4)]
    by (simp add: assembled_def)
  have "assembled target (concat texts) \<noteq> []" using ne by (simp add: assembled_def str_lines_nonempty)
  then have "?full \<noteq> []" using lines str_lines_nonempty [of ?full] by metis
  from asm_block_read [OF this] lines
  show "read_asm_block (asm_block ?full) = Some (line_texts (assembled target (concat texts)))" by simp
  show "codegen_global_asm tcx target template operands cx =
       (cx\<lparr>cx_module := (cx_module cx)\<lparr>function_defs :=
          function_defs (cx_module cx) @ [asm_def target (asm_block ?full)]\<rparr>\<rparr>, None)"
    using assms(1,2) by (simp add: codegen_global_asm_def asm_pieces_known Let_def asm_def_def)
qed

lemma global_asm_unsupported:
  assumes "opt_map (piece_text (map (operand_str tcx) operands)) template = None"
  shows "codegen_global_asm tcx target template operands cx =
           (cx, Some ''global_asm! is not supported by the C backend'')"
proof -
  have "snd (asm_pieces (map (operand_str tcx) operands) template []) = False"
    using asm_pieces_known [of "map (operand_str tcx) operands" template "[]"] assms
    by (metis option.simps(4) snd_conv)
  then show ?thesis by (simp add: codegen_global_asm_def case_prod_beta)
qed

end
