(* ===== verification/DriverSound.thy ===== *)
theory DriverSound
  imports Driver
begin

text \<open>
  The entry points keep what they are given: no vector feature survives the target
  configuration, a unit whose items keep a sound context always yields a module that prints,
  both link-time optimisation paths print the sources they were handed, and linking exports
  the unwinding symbols.
\<close>

section \<open>Target configuration\<close>

lemma fold_remove: "fold (\<lambda>x s. s - {x}) xs S = S - set xs"
  by (induction xs arbitrary: S) auto

lemma base_features_scalar: "base_features env \<inter> set SIMD_FEATURES = {}"
  unfolding base_features_def Let_def fold_remove by blast

lemma push_missing_set: "set (push_missing feats fs) = set feats \<union> set fs"
  by (induction feats fs rule: push_missing.induct) auto

lemma push_missing_prefix: "\<exists>new. push_missing feats fs = fs @ new \<and> set new \<inter> set fs = {}"
proof (induction feats fs rule: push_missing.induct)
  case (2 feat feats fs)
  then show ?case by (cases "feat \<in> set fs") auto
qed simp

lemma push_missing_distinct: "distinct fs \<Longrightarrow> distinct (push_missing feats fs)"
  by (induction feats fs rule: push_missing.induct) auto

text \<open>The compiler reports as visible only features the test accepts.\<close>

definition respects_test :: "TargetEnv \<Rightarrow> bool" where
  "respects_test env \<longleftrightarrow> (\<forall>p. set (fst (cfg_target_feature env p)) \<subseteq> Collect p)"

lemma target_config_scalar:
  assumes "respects_test env"
  shows "set (tc_target_features (target_config env)) \<inter> set SIMD_FEATURES = {}"
    and "set (abi_required env) \<subseteq> set (tc_unstable_target_features (target_config env))"
proof -
  let ?p = "\<lambda>f. f \<in> base_features env"
  have "set (fst (cfg_target_feature env ?p)) \<subseteq> base_features env"
    using assms unfolding respects_test_def by fastforce
  then show "set (tc_target_features (target_config env)) \<inter> set SIMD_FEATURES = {}"
    using base_features_scalar [of env] by (auto simp: target_config_def Let_def case_prod_beta)
  show "set (abi_required env) \<subseteq> set (tc_unstable_target_features (target_config env))"
    by (auto simp: target_config_def Let_def case_prod_beta push_missing_set)
qed

section \<open>A codegen unit\<close>

lemma each_item_keeps:
  assumes "\<And>item cx. item \<in> set items \<Longrightarrow> I cx \<Longrightarrow> \<exists>cx'. f item cx = Some cx' \<and> I cx'" "I cx"
  shows "\<exists>cx'. each_item f items cx = Some cx' \<and> I cx'"
  using assms
proof (induction items arbitrary: cx)
  case (Cons item items)
  obtain cx' where "f item cx = Some cx'" "I cx'" using Cons.prems by (metis list.set_intros(1))
  moreover obtain cx'' where "each_item f items cx' = Some cx''" "I cx''"
    using Cons.IH [OF Cons.prems(1) \<open>I cx'\<close>] by (metis list.set_intros(2))
  ultimately show ?case by auto
qed simp

lemma module_codegen_ok:
  assumes new: "I (CodegenCx_new (ue_pointer_bits env) (ue_fmt_f64 env) cgu_name)"
    and sound: "\<And>cx. I cx \<Longrightarrow> cx_wf cx"
    and predefine: "\<And>item cx. item \<in> set items \<Longrightarrow> I cx \<Longrightarrow> \<exists>cx'. predefine item cx = Some cx' \<and> I cx'"
    and define_item: "\<And>item cx. item \<in> set items \<Longrightarrow> I cx \<Longrightarrow> \<exists>cx'. define_item item cx = Some cx' \<and> I cx'"
    and entry: "\<And>cx. I cx \<Longrightarrow> \<exists>cx'. entry cx = Some cx' \<and> I cx'"
  shows "\<exists>m s. module_codegen env predefine define_item entry cgu_name items = Some m \<and>
    mc_name m = cgu_name \<and> open_functions (mc_module m) = [] \<and>
    to_c_source preamble (mc_module m) = Some s"
proof -
  let ?new = "CodegenCx_new (ue_pointer_bits env) (ue_fmt_f64 env) cgu_name"
  obtain cx1 where 1: "each_item predefine items ?new = Some cx1" "I cx1"
    using each_item_keeps [of items I predefine, OF predefine new] by blast
  obtain cx2 where 2: "each_item define_item items cx1 = Some cx2" "I cx2"
    using each_item_keeps [of items I define_item, OF define_item 1(2)] by blast
  obtain cx3 where 3: "entry cx2 = Some cx3" "I cx3" using entry 2(2) by blast
  obtain m s where 4: "finish_unit cx3 = Some m" "open_functions m = []" "to_c_source preamble m = Some s"
    using finish_unit_ok [OF sound [OF 3(2)], of preamble] by blast
  show ?thesis
    by (rule exI [of _ "\<lparr>mc_name = cgu_name, mc_module = m, mc_kind = ModRegular\<rparr>"])
       (simp add: module_codegen_def Let_def 1 2 3 4)
qed

section \<open>Source buffers\<close>

lemma from_utf8_into_bytes:
  "utf8_valid (into_bytes s) \<Longrightarrow> from_utf8 (into_bytes s) = Some s"
  by (simp add: from_utf8_def into_bytes_def comp_def)

lemma utf8_ascii_step:
  assumes "b < 0x80" shows "utf8_valid (b # bs) = utf8_valid bs"
proof (cases bs)
  case (Cons b2 bs2)
  show ?thesis
  proof (cases bs2)
    case bs2: (Cons b3 bs3)
    then show ?thesis using assms Cons by (cases bs3) simp_all
  qed (use assms Cons in simp)
qed (use assms in simp)

lemma utf8_ascii: "\<forall>b\<in>set bs. b < 0x80 \<Longrightarrow> utf8_valid bs"
  by (induction bs) (auto simp: utf8_ascii_step)

text \<open>A module whose source is a Rust string, that is, well-formed UTF-8.\<close>

definition prints_utf8 :: "string \<Rightarrow> ModuleCodegen \<Rightarrow> bool" where
  "prints_utf8 preamble m \<longleftrightarrow>
     (case to_c_source preamble (mc_module m) of
        Some s \<Rightarrow> utf8_valid (into_bytes s) | None \<Rightarrow> False)"

lemma prints_utf8E:
  assumes "prints_utf8 preamble m"
  obtains s where "to_c_source preamble (mc_module m) = Some s" "from_utf8 (into_bytes s) = Some s"
  using assms from_utf8_into_bytes by (auto simp: prints_utf8_def split: option.splits)

section \<open>Thin link-time optimisation\<close>

definition plain_name :: "string \<Rightarrow> bool" where
  "plain_name n \<longleftrightarrow> CHR 0x00 \<notin> set n"

lemma cstring_names:
  "\<forall>p\<in>set ms. plain_name (fst p) \<Longrightarrow> opt_map (\<lambda>(n, _). cstring_new n) ms = Some (map fst ms)"
  by (induction ms) (auto simp: cstring_new_def plain_name_def)

lemma prepare_all:
  "\<forall>m\<in>set ms. prints_utf8 preamble m \<Longrightarrow>
   opt_map (prepare_thin preamble) ms
     = Some (map (\<lambda>m. (mc_name m, into_bytes (the (to_c_source preamble (mc_module m))))) ms)"
  by (induction ms) (auto simp: prepare_thin_def elim: prints_utf8E)

lemma thin_lto_sources:
  assumes "\<forall>m\<in>set ms. prints_utf8 preamble m \<and> plain_name (mc_name m)"
  obtains bufs thins where "opt_map (prepare_thin preamble) ms = Some bufs"
    "run_thin_lto bufs cached = Some (thins, map snd cached)"
    "list_all2 (\<lambda>thin m. \<exists>m'. optimize_thin thin = Some m' \<and> mc_name m' = mc_name m \<and>
       to_c_source preamble (mc_module m') = to_c_source preamble (mc_module m)) thins ms"
proof
  let ?buf = "\<lambda>m. (mc_name m, into_bytes (the (to_c_source preamble (mc_module m))))"
  let ?shared = "\<lparr>thin_buffers = map (snd \<circ> ?buf) ms, module_names = map (fst \<circ> ?buf) ms\<rparr>"
  let ?thins = "map (\<lambda>i. \<lparr>thin_shared = ?shared, thin_idx = i\<rparr>) [0..<length ms]"
  show "opt_map (prepare_thin preamble) ms = Some (map ?buf ms)"
    using assms by (intro prepare_all) simp
  have "opt_map (\<lambda>(n, _). cstring_new n) (map ?buf ms) = Some (map fst (map ?buf ms))"
    using assms by (intro cstring_names) auto
  then show "run_thin_lto (map ?buf ms) cached = Some (?thins, map snd cached)"
    by (simp add: run_thin_lto_def Let_def)
  show "list_all2 (\<lambda>thin m. \<exists>m'. optimize_thin thin = Some m' \<and> mc_name m' = mc_name m \<and>
       to_c_source preamble (mc_module m') = to_c_source preamble (mc_module m)) ?thins ms"
  proof (rule list_all2_all_nthI)
    fix i assume "i < length ?thins"
    then have i: "i < length ms" by simp
    then obtain s where "to_c_source preamble (mc_module (ms ! i)) = Some s"
      "from_utf8 (into_bytes s) = Some s"
      using assms nth_mem [OF i] prints_utf8E by metis
    then show "\<exists>m'. optimize_thin (?thins ! i) = Some m' \<and> mc_name m' = mc_name (ms ! i) \<and>
       to_c_source preamble (mc_module m') = to_c_source preamble (mc_module (ms ! i))"
      using i by (simp add: optimize_thin_def thin_name_def thin_data_def idx_def Let_def to_c_source_def)
  qed simp
qed

section \<open>Fat link-time optimisation\<close>

text \<open>The source an input stands for, whichever way it is held.\<close>

fun input_source :: "string \<Rightarrow> FatLtoInput \<Rightarrow> string option" where
  "input_source preamble (FInMemory m) = to_c_source preamble (mc_module m)"
| "input_source preamble (FSerialized _ buffer) =
     Some (case from_utf8 buffer of Some s \<Rightarrow> s | None \<Rightarrow> ''/* invalid UTF-8 */'')"

fun in_memory :: "FatLtoInput \<Rightarrow> ModuleCodegen option" where
  "in_memory (FInMemory m) = Some m"
| "in_memory (FSerialized n b) = None"

lemma serialised_source:
  assumes "prints_utf8 preamble m" "serialize_module preamble m = Some (n, buffer)"
  shows "n = mc_name m" "input_source preamble (FSerialized n buffer) = input_source preamble (FInMemory m)"
proof -
  obtain s where s: "to_c_source preamble (mc_module m) = Some s" "from_utf8 (into_bytes s) = Some s"
    using assms(1) by (rule prints_utf8E)
  with assms(2) have "n = mc_name m" "buffer = into_bytes s"
    by (simp_all add: serialize_module_def CModuleBuffer_new_def)
  with s show "n = mc_name m" "input_source preamble (FSerialized n buffer) = input_source preamble (FInMemory m)"
    by simp_all
qed

lemma fat_inputs_sources:
  "opt_map (input_source preamble) inputs = Some srcs \<Longrightarrow>
   fat_inputs preamble inputs (sources, base)
     = Some (sources @ srcs,
         case base of Some b \<Rightarrow> Some b
         | None \<Rightarrow> (case List.map_filter in_memory inputs of [] \<Rightarrow> None | m # ms \<Rightarrow> Some m))"
proof (induction inputs arbitrary: sources base srcs)
  case Nil
  then show ?case by (cases base) (auto simp: List.map_filter_simps)
next
  case (Cons i inputs)
  obtain src srcs' where i: "input_source preamble i = Some src"
    and rest: "opt_map (input_source preamble) inputs = Some srcs'" and srcs: "srcs = src # srcs'"
    using Cons.prems by (auto simp: bind_Some_iff)
  show ?case
  proof (cases i)
    case (FInMemory m)
    then have "fat_step preamble i (sources, base)
        = Some (sources @ [src], if base = None then Some m else base)"
      using i by (simp add: fat_step_def)
    with FInMemory show ?thesis
      by (cases base) (simp_all add: Cons.IH [OF rest] srcs List.map_filter_simps)
  next
    case (FSerialized n b)
    then have "fat_step preamble i (sources, base) = Some (sources @ [src], base)"
      using i by (simp add: fat_step_def)
    with FSerialized show ?thesis
      by (cases base) (simp_all add: Cons.IH [OF rest] srcs List.map_filter_simps)
  qed
qed

lemma fat_lto_sources:
  assumes "opt_map (input_source preamble) inputs = Some srcs"
  shows "run_and_optimize_fat_lto preamble inputs =
    (case List.map_filter in_memory inputs of
       [] \<Rightarrow> None
     | m # ms \<Rightarrow> Some (m\<lparr>mc_module := (mc_module m)\<lparr>precompiled_source := Some (join fat_boundary srcs)\<rparr>\<rparr>))"
  using fat_inputs_sources [OF assms, of "[]" None]
  by (simp add: run_and_optimize_fat_lto_def split: list.splits)

section \<open>Linking\<close>

lemma export_for_other: "c \<noteq> k \<Longrightarrow> map_of (export_for c exported) k = map_of exported k"
  by (induction exported) (auto simp: export_for_def)

lemma export_for_same:
  "map_of (export_for c exported) c
     = map_option (\<lambda>syms. syms @ map (\<lambda>name. (name, SxText)) unwind_symbols) (map_of exported c)"
  by (induction exported) (auto simp: export_for_def)

lemma link_exports_of:
  "distinct cs \<Longrightarrow>
   map_of (link_exports cs exported) k
     = map_option (\<lambda>syms. if k \<in> set cs then syms @ map (\<lambda>name. (name, SxText)) unwind_symbols
                          else syms) (map_of exported k)"
proof (induction cs exported rule: link_exports.induct)
  case (2 c cs exported)
  then show ?case
    by (cases "c = k") (auto simp: export_for_same export_for_other option.map_comp comp_def)
qed (simp add: option.map_ident)

end
