(* ===== verification/Unwinding.thy ===== *)
theory Unwinding
  imports Prelude
begin

text \<open>
  Unwinding by \<open>setjmp\<close> and \<open>longjmp\<close>: the chain of contexts of \<open>c/preamble.c\<close>,
  \<open>_Unwind_RaiseException\<close>, \<open>__rust_try\<close>, and the statements an invoke emits. A context lives
  in the activation that pushed it; \<open>longjmp\<close> returns to that activation. The protocol is
  shown to implement structured exceptions: a raise reaches the innermost landing pad or
  \<open>catch_unwind\<close>, and every activation gives the chain back as it found it.
\<close>

section \<open>The chain\<close>

text \<open>\<open>struct __rustc_unwind_context\<close> without its jump buffer, which names the activation.\<close>

record UnwindContext =
  exception_ptr :: nat
  prev_ctx :: "nat option"

text \<open>
  The thread's state: the chain, the contexts by the number of the activation they are local
  to, and the observable events of the program.
\<close>

record UnwindState =
  unwind_chain :: "nat option"
  ctx_at :: "nat \<Rightarrow> UnwindContext"
  events :: "nat list"

text \<open>A call returns a number, jumps to the context of an activation, or aborts.\<close>

datatype outcome = Returned nat UnwindState | Jumped nat UnwindState | Aborted UnwindState

definition set_exception :: "nat \<Rightarrow> nat \<Rightarrow> UnwindState \<Rightarrow> UnwindState" where
  "set_exception a e st = st\<lparr>ctx_at := (ctx_at st)(a := (ctx_at st a)\<lparr>exception_ptr := e\<rparr>)\<rparr>"

definition Unwind_RaiseException :: "nat \<Rightarrow> UnwindState \<Rightarrow> outcome" where
  "Unwind_RaiseException exception_object st =
     (case unwind_chain st of
        Some a \<Rightarrow> Jumped a (set_exception a exception_object st)
      | None \<Rightarrow> Aborted st)"

definition push_ctx :: "nat \<Rightarrow> UnwindState \<Rightarrow> UnwindState" where
  "push_ctx a st =
     st\<lparr>ctx_at := (ctx_at st)(a := \<lparr>exception_ptr = 0, prev_ctx = unwind_chain st\<rparr>),
        unwind_chain := Some a\<rparr>"

definition pop_ctx :: "nat \<Rightarrow> UnwindState \<Rightarrow> UnwindState" where
  "pop_ctx a st = st\<lparr>unwind_chain := prev_ctx (ctx_at st a)\<rparr>"

definition and_then :: "outcome \<Rightarrow> (nat \<Rightarrow> UnwindState \<Rightarrow> outcome) \<Rightarrow> outcome" where
  "and_then out f = (case out of Returned v st \<Rightarrow> f v st | out \<Rightarrow> out)"

text \<open>
  \<open>setjmp\<close> returns a second time where the callee jumps to the context of this activation,
  with the state of the jump.
\<close>

definition rust_try ::
  "nat \<Rightarrow> (UnwindState \<Rightarrow> outcome) \<Rightarrow> (nat \<Rightarrow> UnwindState \<Rightarrow> outcome) \<Rightarrow> UnwindState \<Rightarrow> outcome" where
  "rust_try a try_fn catch_fn st =
     (case try_fn (push_ctx a st) of
        Returned v st \<Rightarrow> Returned 0 (pop_ctx a st)
      | Jumped t st \<Rightarrow>
          if t = a then
            (let exn = exception_ptr (ctx_at st a);
                 st = pop_ctx a st
             in and_then (catch_fn exn st) (\<lambda>_ st. Returned 1 st))
          else Jumped t st
      | Aborted st \<Rightarrow> Aborted st)"

text \<open>
  The statements of an invoke in the activation \<open>a\<close>: push the context, \<open>setjmp\<close>, call, pop and
  go on; on the second return read the exception, pop and go to the landing pad.
\<close>

definition invoke_stmts ::
  "nat \<Rightarrow> (UnwindState \<Rightarrow> outcome) \<Rightarrow> (nat \<Rightarrow> UnwindState \<Rightarrow> outcome) \<Rightarrow>
   (nat \<Rightarrow> UnwindState \<Rightarrow> outcome) \<Rightarrow> UnwindState \<Rightarrow> outcome" where
  "invoke_stmts a callee then_bb catch_bb st =
     (case callee (push_ctx a st) of
        Returned v st \<Rightarrow> then_bb v (pop_ctx a st)
      | Jumped t st \<Rightarrow>
          if t = a then (let exn = exception_ptr (ctx_at st a) in catch_bb exn (pop_ctx a st))
          else Jumped t st
      | Aborted st \<Rightarrow> Aborted st)"

section \<open>Programs\<close>

text \<open>
  A run of generated code: it returns, shows an event, calls a function, invokes one with a
  landing pad, calls \<open>__rust_try\<close>, or raises.
\<close>

datatype ucode =
    UReturn nat
  | UEvent nat ucode
  | UCall ucode "nat \<Rightarrow> ucode"
  | UInvoke ucode "nat \<Rightarrow> ucode" "nat \<Rightarrow> ucode"
  | UTry ucode "nat \<Rightarrow> ucode" "nat \<Rightarrow> ucode"
  | URaise nat

text \<open>Run in the activation \<open>a\<close>; the activations of its callees are above it.\<close>

primrec run_code :: "ucode \<Rightarrow> nat \<Rightarrow> UnwindState \<Rightarrow> outcome" where
  "run_code (UReturn v) a st = Returned v st"
| "run_code (UEvent ev k) a st = run_code k a (st\<lparr>events := events st @ [ev]\<rparr>)"
| "run_code (UCall f k) a st = and_then (run_code f (a + 1) st) (\<lambda>v. run_code (k v) a)"
| "run_code (UInvoke f k h) a st = invoke_stmts a (run_code f (a + 1)) (\<lambda>v. run_code (k v) a) (\<lambda>e. run_code (h e) a) st"
| "run_code (UTry f h k) a st =
     and_then (rust_try (a + 1) (run_code f (a + 2)) (\<lambda>e. run_code (h e) (a + 2)) st) (\<lambda>v. run_code (k v) a)"
| "run_code (URaise e) a st = Unwind_RaiseException e st"

section \<open>Structured exceptions\<close>

datatype 'v result = Finished 'v | Thrown nat

text \<open>The reference: no chain, exceptions are values.\<close>

primrec meaning :: "ucode \<Rightarrow> nat list \<Rightarrow> nat result \<times> nat list" where
  "meaning (UReturn v) evs = (Finished v, evs)"
| "meaning (UEvent ev k) evs = meaning k (evs @ [ev])"
| "meaning (UCall f k) evs =
     (case meaning f evs of (Finished v, evs) \<Rightarrow> meaning (k v) evs | (Thrown e, evs) \<Rightarrow> (Thrown e, evs))"
| "meaning (UInvoke f k h) evs =
     (case meaning f evs of (Finished v, evs) \<Rightarrow> meaning (k v) evs | (Thrown e, evs) \<Rightarrow> meaning (h e) evs)"
| "meaning (UTry f h k) evs =
     (case meaning f evs of
        (Finished v, evs) \<Rightarrow> meaning (k 0) evs
      | (Thrown e, evs) \<Rightarrow>
          (case meaning (h e) evs of
             (Finished v, evs) \<Rightarrow> meaning (k 1) evs
           | (Thrown e, evs) \<Rightarrow> (Thrown e, evs)))"
| "meaning (URaise e) evs = (Thrown e, evs)"

text \<open>
  How an outcome shows a result, for a run in the activation \<open>a\<close> from the state \<open>st\<close>: it
  returns with the chain as it was, or jumps to the head of the chain with the exception in
  its context, or aborts when there is no head. The contexts of older activations are kept.
\<close>

definition exhibits :: "nat \<Rightarrow> UnwindState \<Rightarrow> nat result \<times> nat list \<Rightarrow> outcome \<Rightarrow> bool" where
  "exhibits a st r out =
     (case fst r of
        Finished v \<Rightarrow>
          (\<exists>st'. out = Returned v st' \<and> unwind_chain st' = unwind_chain st \<and> events st' = snd r \<and>
             (\<forall>b<a. ctx_at st' b = ctx_at st b))
      | Thrown e \<Rightarrow>
          (case unwind_chain st of
             None \<Rightarrow> (\<exists>st'. out = Aborted st' \<and> events st' = snd r)
           | Some t \<Rightarrow>
               (\<exists>st'. out = Jumped t st' \<and> events st' = snd r \<and>
                  ctx_at st' t = (ctx_at st t)\<lparr>exception_ptr := e\<rparr> \<and>
                  (\<forall>b<a. b \<noteq> t \<longrightarrow> ctx_at st' b = ctx_at st b))))"

definition older :: "nat \<Rightarrow> UnwindState \<Rightarrow> bool" where
  "older a st \<longleftrightarrow> (case unwind_chain st of Some t \<Rightarrow> t < a | None \<Rightarrow> True)"

lemma exhibits_finished:
  "exhibits a st (Finished v, evs) out \<longleftrightarrow>
     (\<exists>st'. out = Returned v st' \<and> unwind_chain st' = unwind_chain st \<and> events st' = evs \<and>
        (\<forall>b<a. ctx_at st' b = ctx_at st b))"
  by (simp add: exhibits_def)

text \<open>A step that keeps the chain and the older contexts, then the rest.\<close>

lemma exhibits_after:
  assumes "exhibits a st' r out" "unwind_chain st' = unwind_chain st" "older a st"
    and "\<forall>b<a. ctx_at st' b = ctx_at st b"
  shows "exhibits a st r out"
proof (cases "fst r")
  case Finished
  with assms show ?thesis by (auto simp: exhibits_def)
next
  case (Thrown e)
  show ?thesis
  proof (cases "unwind_chain st")
    case None
    with assms Thrown show ?thesis by (auto simp: exhibits_def)
  next
    case (Some t)
    then have "t < a" using assms(3) by (simp add: older_def)
    with assms Thrown Some show ?thesis by (auto simp: exhibits_def)
  qed
qed

lemma raise_exhibits: "exhibits a st (Thrown e, events st) (Unwind_RaiseException e st)"
  by (auto simp: exhibits_def Unwind_RaiseException_def set_exception_def split: option.splits)

lemma push_chain [simp]: "unwind_chain (push_ctx a st) = Some a" "events (push_ctx a st) = events st"
  "ctx_at (push_ctx a st) a = \<lparr>exception_ptr = 0, prev_ctx = unwind_chain st\<rparr>"
  "b \<noteq> a \<Longrightarrow> ctx_at (push_ctx a st) b = ctx_at st b"
  by (simp_all add: push_ctx_def)

lemma pop_chain [simp]: "unwind_chain (pop_ctx a st) = prev_ctx (ctx_at st a)"
  "events (pop_ctx a st) = events st" "ctx_at (pop_ctx a st) = ctx_at st"
  by (simp_all add: pop_ctx_def)

text \<open>A callee under a pushed context.\<close>

lemma callee_finished:
  assumes "exhibits m (push_ctx a st) (Finished v, evs) out" "a < m"
  obtains st' where "out = Returned v st'" "unwind_chain (pop_ctx a st') = unwind_chain st"
    "events st' = evs" "\<forall>b<a. ctx_at st' b = ctx_at st b"
  using assms by (fastforce simp: exhibits_finished)

lemma callee_thrown:
  assumes "exhibits m (push_ctx a st) (Thrown e, evs) out" "a < m"
  obtains st' where "out = Jumped a st'" "unwind_chain (pop_ctx a st') = unwind_chain st"
    "events st' = evs" "exception_ptr (ctx_at st' a) = e" "\<forall>b<a. ctx_at st' b = ctx_at st b"
  using assms by (fastforce simp: exhibits_def)

lemma exhibits_mono: "exhibits m st r out \<Longrightarrow> a \<le> m \<Longrightarrow> exhibits a st r out"
  by (auto simp: exhibits_def split: result.splits option.splits)

lemma and_then_thrown: "exhibits a st (Thrown e, evs) out \<Longrightarrow> exhibits a st (Thrown e, evs) (and_then out f)"
  by (auto simp: exhibits_def and_then_def split: option.splits)

lemma and_then_finished:
  assumes "exhibits a st (Finished v, evs) out" "older a st"
    and "\<And>st'. older a st' \<Longrightarrow> events st' = evs \<Longrightarrow> exhibits a st' r (f v st')"
  shows "exhibits a st r (and_then out f)"
proof -
  obtain st' where out: "out = Returned v st'" and st': "unwind_chain st' = unwind_chain st"
    "events st' = evs" "\<forall>b<a. ctx_at st' b = ctx_at st b"
    using assms(1) by (auto simp: exhibits_finished)
  then have "older a st'" using assms(2) by (simp add: older_def)
  from exhibits_after [OF assms(3) [OF this st'(2)] st'(1) assms(2) st'(3)]
  show ?thesis by (simp add: out and_then_def)
qed

lemma older_mono: "older a st \<Longrightarrow> a \<le> m \<Longrightarrow> older m st"
  by (auto simp: older_def split: option.splits)

lemma older_push: "a < m \<Longrightarrow> older m (push_ctx a st)"
  by (simp add: older_def)

lemma older_same: "unwind_chain st' = unwind_chain st \<Longrightarrow> older a st \<Longrightarrow> older a st'"
  by (simp add: older_def)

lemma invoke_exhibits:
  assumes callee: "exhibits (a + 1) (push_ctx a st) (meaning f (events st)) (callee (push_ctx a st))"
    and old: "older a st"
    and then_bb: "\<And>v st'. older a st' \<Longrightarrow> exhibits a st' (meaning (k v) (events st')) (then_bb v st')"
    and catch_bb: "\<And>e st'. older a st' \<Longrightarrow> exhibits a st' (meaning (h e) (events st')) (catch_bb e st')"
  shows "exhibits a st (meaning (UInvoke f k h) (events st)) (invoke_stmts a callee then_bb catch_bb st)"
proof (cases "meaning f (events st)")
  case (Pair r evs)
  show ?thesis
  proof (cases r)
    case (Finished v)
    obtain st' where st': "callee (push_ctx a st) = Returned v st'"
      "unwind_chain (pop_ctx a st') = unwind_chain st" "events st' = evs" "\<forall>b<a. ctx_at st' b = ctx_at st b"
      using callee_finished [OF callee [unfolded Pair Finished]] by auto
    have "exhibits a (pop_ctx a st') (meaning (k v) evs) (then_bb v (pop_ctx a st'))"
      using then_bb [OF older_same [OF st'(2) old]] st'(3) by simp
    from exhibits_after [OF this st'(2) old] st' show ?thesis
      by (simp add: Pair Finished invoke_stmts_def)
  next
    case (Thrown e)
    obtain st' where st': "callee (push_ctx a st) = Jumped a st'"
      "unwind_chain (pop_ctx a st') = unwind_chain st" "events st' = evs"
      "exception_ptr (ctx_at st' a) = e" "\<forall>b<a. ctx_at st' b = ctx_at st b"
      using callee_thrown [OF callee [unfolded Pair Thrown]] by auto
    have "exhibits a (pop_ctx a st') (meaning (h e) evs) (catch_bb e (pop_ctx a st'))"
      using catch_bb [OF older_same [OF st'(2) old]] st'(3) by simp
    from exhibits_after [OF this st'(2) old] st' show ?thesis
      by (simp add: Pair Thrown invoke_stmts_def)
  qed
qed

lemma rust_try_exhibits:
  assumes callee: "exhibits (a + 2) (push_ctx (a + 1) st) (meaning f (events st)) (try_fn (push_ctx (a + 1) st))"
    and old: "older a st"
    and catch_fn: "\<And>e st'. older (a + 2) st' \<Longrightarrow> exhibits (a + 2) st' (meaning (h e) (events st')) (catch_fn e st')"
  shows "exhibits a st (meaning (UTry f h UReturn) (events st)) (rust_try (a + 1) try_fn catch_fn st)"
proof (cases "meaning f (events st)")
  case (Pair r evs)
  have old1: "older (a + 1) st" using old by (rule older_mono) simp
  show ?thesis
  proof (cases r)
    case (Finished v)
    obtain st' where st': "try_fn (push_ctx (a + 1) st) = Returned v st'"
      "unwind_chain (pop_ctx (a + 1) st') = unwind_chain st" "events st' = evs"
      "\<forall>b<a + 1. ctx_at st' b = ctx_at st b"
      using callee_finished [OF callee [unfolded Pair Finished]] by auto
    then show ?thesis by (simp add: Pair Finished rust_try_def exhibits_finished)
  next
    case (Thrown e)
    obtain st' where st': "try_fn (push_ctx (a + 1) st) = Jumped (a + 1) st'"
      "unwind_chain (pop_ctx (a + 1) st') = unwind_chain st" "events st' = evs"
      "exception_ptr (ctx_at st' (a + 1)) = e" "\<forall>b<a + 1. ctx_at st' b = ctx_at st b"
      using callee_thrown [OF callee [unfolded Pair Thrown]] by auto
    let ?st = "pop_ctx (a + 1) st'"
    have old2: "older (a + 2) ?st" using older_same [OF st'(2) old1] by (rule older_mono) simp
    have h: "exhibits a ?st (meaning (h e) evs) (catch_fn e ?st)"
      using exhibits_mono [OF catch_fn [OF old2, of e], of a] st'(3) by simp
    have "exhibits a ?st (case meaning (h e) evs of (Finished v, evs) \<Rightarrow> meaning (UReturn 1) evs
        | (Thrown e, evs) \<Rightarrow> (Thrown e, evs)) (and_then (catch_fn e ?st) (\<lambda>_ st. Returned 1 st))"
    proof (cases "meaning (h e) evs")
      case p: (Pair r' evs')
      show ?thesis
      proof (cases r')
        case (Finished v)
        then show ?thesis using h by (auto simp: p exhibits_finished and_then_def)
      next
        case (Thrown e')
        then show ?thesis using h and_then_thrown by (simp add: p)
      qed
    qed
    from exhibits_after [OF this st'(2) old] st' show ?thesis
      by (simp add: Pair Thrown rust_try_def Let_def)
  qed
qed

lemma try_meaning:
  "meaning (UTry f h k) evs =
     (case meaning (UTry f h UReturn) evs of
        (Finished v, evs) \<Rightarrow> meaning (k v) evs | (Thrown e, evs) \<Rightarrow> (Thrown e, evs))"
  by (auto split: prod.splits result.splits)

theorem run_meaning: "older a st \<Longrightarrow> exhibits a st (meaning c (events st)) (run_code c a st)"
proof (induction c arbitrary: a st)
  case (UReturn v)
  then show ?case by (simp add: exhibits_finished)
next
  case (UEvent ev k)
  have "older a (st\<lparr>events := events st @ [ev]\<rparr>)" using UEvent.prems by (simp add: older_def)
  from exhibits_after [OF UEvent.IH [OF this] _ UEvent.prems] show ?case by simp
next
  case (UCall f k)
  have f: "exhibits a st (meaning f (events st)) (run_code f (a + 1) st)"
    using UCall.IH(1) [OF older_mono [OF UCall.prems, of "a + 1"]] by (auto intro: exhibits_mono)
  show ?case
  proof (cases "meaning f (events st)")
    case (Pair r evs)
    then show ?thesis
      using f UCall.prems UCall.IH(2)
      by (cases r) (auto intro!: and_then_thrown and_then_finished simp del: older_def)
  qed
next
  case (UInvoke f k h)
  show ?case
    using invoke_exhibits [where f = f and k = k and h = h and callee = "run_code f (a + 1)", OF _ UInvoke.prems
        UInvoke.IH(2) [OF rangeI] UInvoke.IH(3) [OF rangeI]]
      UInvoke.IH(1) [OF older_push, of a "a + 1" st] by simp
next
  case (UTry f h k)
  have t: "exhibits a st (meaning (UTry f h UReturn) (events st))
      (rust_try (a + 1) (run_code f (a + 2)) (\<lambda>e. run_code (h e) (a + 2)) st)"
    using rust_try_exhibits [where f = f and h = h and try_fn = "run_code f (a + 2)", OF _ UTry.prems
        UTry.IH(2) [OF rangeI]] UTry.IH(1) [OF older_push, of "a + 1" "a + 2" st] by simp
  show ?case
  proof (cases "meaning (UTry f h UReturn) (events st)")
    case (Pair r evs)
    have rest: "exhibits a st' (meaning (k v) evs) (run_code (k v) a st')"
      if "older a st'" "events st' = evs" for v st'
      using UTry.IH(3) [OF rangeI that(1), of v] that(2) by simp
    have "exhibits a st (case (r, evs) of (Finished v, evs) \<Rightarrow> meaning (k v) evs | (Thrown e, evs) \<Rightarrow> (Thrown e, evs))
        (run_code (UTry f h k) a st)"
    proof (cases r)
      case (Finished v)
      then show ?thesis
        using and_then_finished [OF t [unfolded Pair Finished] UTry.prems rest] by simp
    next
      case (Thrown e)
      then show ?thesis using and_then_thrown [OF t [unfolded Pair Thrown]] by simp
    qed
    then show ?thesis by (subst try_meaning) (simp only: Pair)
  qed
next
  case (URaise e)
  show ?case using raise_exhibits by simp
qed

end
