(* ===== verification/Spec2Isabelle.thy ===== *)
theory Spec2Isabelle
  imports SampleCalls BuilderSemOps SaturateSem ReverseSem WideMul FunctionsSound TypeOf Consts Emission Alignment Int128
    GlobalAsm DriverSound Writer Unwinding
begin

text \<open>
  A verification library for \<open>rustc_codegen_c\<close>, a backend of the Rust compiler that emits C.

  THE PROGRAM. The compiler walks its intermediate representation and drives the backend
  through a set of traits. The backend builds, for each codegen unit, a module: C types are
  interned in a type store, every value is an entry of an arena, functions are lists of labelled
  blocks of C statements. The builder translates one instruction at a time: it renders its
  operands, declares a temporary, and emits an assignment. At the end of the unit every open
  function is rendered, the module is printed after a fixed preamble of C helpers, written to a
  file and compiled by the system's C compiler. All sources below are under \<open>src/src/\<close>.

  DATA. Rust structs are records and enums are datatypes with the constructors of the source
  (a suffix or prefix marks a name HOL has already). References into a store are numbers in a
  constructor (\<open>TypeRef\<close>, \<open>ValueRef\<close>, \<open>BasicBlockId\<close>), kept at 32 bits by \<open>as_u32\<close> where the
  code counts them. Ordered maps are sorted association lists, hash sets are sets, hash maps
  are maps. Strings are lists of characters of code point below 256. The mutable cells of the
  context are explicit state: an operation takes the context and returns it updated. A result
  \<open>None\<close> is a Rust panic (a failed \<open>unwrap\<close>, an index out of range, a cell borrowed twice);
  reported errors are values of a sum. What belongs to the compiler (layouts, scalars, calling
  conventions, instances, attributes, evaluated allocations, the operand helpers of
  \<open>rustc_codegen_ssa\<close>, name mangling) is an argument: a record with the answers to the queries
  the code makes, or a function. So are the file system, the C compiler and the text of included
  C files. Rust's decimal text of a finite float is the parameter \<open>fmt_f64\<close>.

  THEORIES AND SOURCES, in the order of the dependencies.
    Prelude: the pieces of Rust's library that are used: decimal text, joining, line splitting,
      ordered maps, the option monad, loops over lists with state.
    CAst (\<open>c_ast.rs\<close>): \<open>CExpr\<close>, \<open>CStmt\<close>, their texts and the indenting printer.
    Types, Alignment (\<open>types.rs\<close>): \<open>CTypeKind\<close>, the interning \<open>TypeStore\<close>, text, declarations
      and natural alignment of a type.
    Values (\<open>values.rs\<close>): \<open>CValueKind\<close>, the arena \<open>ValueStore\<close>, rendering, constants read back.
    CModule (\<open>module.rs\<close>): \<open>BasicBlock\<close>, \<open>FunctionDef\<close>, \<open>CModule\<close>, \<open>to_c_source\<close>.
    Context (\<open>context.rs\<close>, \<open>types.rs\<close>): \<open>CodegenCx\<close> and the operations all others use.
    TypeOf (\<open>type_of.rs\<close>): layouts and calling conventions to C types.
    Consts, Statics, StaticsSound (\<open>consts.rs\<close>, parts of \<open>context.rs\<close>): constants, allocations
      with pointers, static definitions and declarations.
    Functions, FunctionsSound (\<open>context.rs\<close>): \<open>get_fn\<close>, callees, \<open>predefine_fn\<close>.
    BuilderCore, BuilderArith, BuilderMem, BuilderConv, BuilderAgg, BuilderCall (\<open>builder.rs\<close>):
      blocks, terminators and shared helpers; arithmetic; memory; conversions and comparisons;
      aggregates, landing pads and atomics; calls, invokes and parameters.
    IntrinsicInt, Intrinsics (\<open>intrinsic.rs\<close>): the numeric intrinsics; vectors, memory and the
      dispatch on the intrinsic's name.
    BitHelpers, PopCount, Overflow (\<open>c/preamble.c\<close>): bit counts, byte swaps and overflow
      helpers on machine words.
    Int128 (\<open>c/int128_division.c\<close>): division and remainder on 128-bit words.
    Unwinding (\<open>c/preamble.c\<close>, \<open>c/rust_try.c\<close>, \<open>c/unwind_raise_exception.c\<close>, \<open>invoke\<close>): the
      chain of contexts.
    Emission, Driver, DriverSound (\<open>lib.rs\<close>): the end of a unit, target features, the units,
      both kinds of link-time optimisation, the symbols added before linking.
    Shims (\<open>allocator.rs\<close>, \<open>builtins.rs\<close>), GlobalAsm (\<open>debuginfo.rs\<close>), Writer (\<open>write.rs\<close>).

  MEANING OF THE C CODE. CTypes gives the integer types and conversions of C as
  \<open>gcc -std=c11 -fwrapv\<close> has them, CSem the value of an expression (\<open>None\<close> is undefined
  behaviour: division by zero, a shift by the width or more), CGrammar which tree a printed
  text is read as, CBlock the execution of statements, loops included. Expressions the
  generator writes as raw text are given a tree, the text is proved to be the tree's text, and
  the tree's value is compared with a specification. An operand's value in the environment may
  have a wider type than the operand (literals are 64 bits wide).

  WHAT THE LEMMAS SHOW.
    Stores. Types shows that interning is hash consing (\<open>consing_store\<close>): equal kinds and only
      they have one reference, and nothing stored changes. The arena is a \<open>ref_store\<close>, the weaker
      interface. Both locales are interpreted on the code's stores.
    Context. \<open>cx_wf\<close> says that types refer to earlier types, values to earlier values of known
      types, maps are sorted and open functions are well formed. Every operation keeps it.
    Builder. BuilderInv, BuilderOps and BuilderRun show that each operation succeeds on valid
      operands and how it changes the context (\<open>reach\<close>, \<open>assigns\<close>, \<open>good\<close>); BuilderSound and
      BuilderMachine make instructions data and prove the invariant of all executions;
      IntrinsicRun does the same for intrinsics. BuilderSem and BuilderSemOps show
      that what is emitted computes the integer operations.
    Intrinsics. IntrinsicText, IntrinsicSem, IntrinsicShift and IntrinsicCode: bit counts, byte
      swaps, rotations and funnel shifts; BlockSem, SaturateSem, ReverseSem and WideMul: checked
      and saturating operations, bit reversal and the wide product, which are several statements.
    Compiler interface. FunctionsSound: what is declared, called and defined for one calling
      convention agrees. StaticsSound: the bytes and pointers of a static are its allocation's.
    Around the module. DriverSound, GlobalAsm, Writer, Shims, Unwinding: see their heads.
  Sample and SampleCalls hold concrete contexts and arguments on which the hypotheses hold. The
  properties of the program are in this theory, C1 to C40, each followed by an instance.

  BOUNDS AND FUEL. Rendering a type or a value follows references to earlier entries, so one
  unit more than the length of the store is enough (\<open>ts_wf\<close>, \<open>vs_wf\<close>), and that is the fuel the
  operations take. \<open>const_data_from_alloc\<close> has fuel for the nesting of allocations (\<open>nests\<close>);
  C35 shows it enough. It has no bound for allocations that point to each other in a circle,
  where the code recurses without end. The loop of the bit reversal makes one test more than
  the type has bits (C30). \<open>room n cx\<close> says that \<open>n\<close> more entries fit below \<open>2 ^ 32\<close>, where
  the code's counters would wrap. Widths are 8, 16, 32, 64 and 128 bits, pointers 32 or 64.

  NOT MODELLED. The compiler itself and what only forwards to it: \<open>codegen_crate\<close>, \<open>join_codegen\<close>,
  \<open>link_binary\<close>, timing and printing hooks, error reports that end the compilation. Trait methods
  with empty bodies or constant answers, as debug info and coverage. The values of floating
  point expressions and of memory: their statements are built and printed, and shown to be well
  formed, but not evaluated. The fallbacks for assembly in \<open>c/native_stubs.c\<close> and the allocation
  calls in \<open>c/aligned_alloc.c\<close>. Concurrency: atomics are printed calls of the C library. In
  Unwinding, \<open>longjmp\<close> keeps memory as it is at the jump, and the registers it restores are not
  part of the state.

  WHERE THE CODE FALLS SHORT. A funnel shift by zero is undefined in C (C27), signed wide
  products are exact on bit patterns only (WideMul), saturation is right except on signed types
  of 64 bits or more (SaturateSem), the 128-bit overflow helper divides its own overflow
  (Overflow), and statics with pointers lose their alignment (the last lemma here). The
  theorems are stated on the part where the code is right, and the rest is stated as it is.
\<close>

section \<open>The builder as a machine\<close>

text \<open>A good step keeps the values of the context and touches only the current function.\<close>

lemma good_keeps:
  assumes g: "good b cx cx'" and wf: "cx_wf cx"
  shows "\<forall>v \<in> {v. vval cx v}. render_value cx' v = render_value cx v \<and> type_of_value cx' v = type_of_value cx v"
    and "\<forall>n \<in> - {current_fn b}. bt_get (open_functions (cx_module cx')) n = bt_get (open_functions (cx_module cx)) n"
proof -
  obtain ds ss n where r: "reach b (appends b ds ss) n cx cx'" using g by (auto simp: good_def)
  show "\<forall>v \<in> {v. vval cx v}. render_value cx' v = render_value cx v \<and> type_of_value cx' v = type_of_value cx v"
    using text_total [OF wf] type_total [OF wf] reach_text [OF r] reach_type [OF r] by fastforce
  show "\<forall>n \<in> - {current_fn b}. bt_get (open_functions (cx_module cx')) n = bt_get (open_functions (cx_module cx)) n"
    using r by (auto simp: reach_def)
qed



text \<open>
  C2. Every builder instruction on valid operands succeeds: it returns values of the new
  context, keeps the context sound, keeps the type and text of every value that existed, and
  touches no function but the current one.
\<close>

theorem instruction_succeeds:
  assumes "machine_inv cx" "instr_ok cx i" "room (instr_room i) cx"
  shows "\<exists>vs cx'. exec_instr b i cx = Some (vs, cx') \<and> machine_inv cx' \<and> list_all (vval cx') vs \<and>
    (\<forall>v \<in> {v. vval cx v}. render_value cx' v = render_value cx v \<and>
       type_of_value cx' v = type_of_value cx v) \<and>
    (\<forall>n \<in> - {current_fn b}. bt_get (open_functions (cx_module cx')) n =
       bt_get (open_functions (cx_module cx)) n)"
proof -
  have wf: "cx_wf cx" using assms(1) by (simp add: machine_inv_def)
  from exec_instr_run [OF wf assms(3,2), of b] obtain vs cx' where e: "exec_instr b i cx = Some (vs, cx')"
    and g: "good b cx cx'" and v: "some_values vs cx'" by (auto simp: run_def)
  show ?thesis
    using e v good_keeps [OF g wf] good_machine_inv [OF g assms(1)]
    by (intro exI conjI) (auto simp: some_values_def list_all_iff)
qed

theorem instruction_succeeds_witness:
  "\<exists>vs cx'. exec_instr sample_b (IBin IAdd (ValueRef 0) (ValueRef 1)) sample_cx = Some (vs, cx') \<and>
     machine_inv cx'"
  using instruction_succeeds [OF sample_inv, of "IBin IAdd (ValueRef 0) (ValueRef 1)" sample_b] sample_room
  by (auto simp: instr_ok_def sample_values_list)



section \<open>The meaning of the integer operations\<close>

text \<open>
  C4. The C code of add, sub, mul, and, or and xor computes the operation modulo the width of
  its type: wherever the texts of the operands have C values whose low bits are the operands
  and whose common type is wide enough, the new temporary gets the wrapped result.
\<close>

theorem wrapping_ops_correct:
  assumes "cx_wf cx" "room 1 cx" "type_of_value cx lhs = Some ty" "kind_of cx ty = Some k"
    and "render_value cx lhs = Some l" "render_value cx rhs = Some r"
    and "kind_ctype (pointer_bits cx) k = Some (CIntT w s)" "0 < w"
    and op: "(i, op) \<in> {(IAdd, Add), (ISub, Sub), (IMul, Mul), (IAnd, BitAnd), (IOr, BitOr), (IXor, BitXor)}"
  shows "implements b cx (exec_bin i b lhs rhs cx)
    (\<lambda>env d. \<exists>x y t u. low_bits env l w x t \<and> low_bits env r w y u \<and>
       w \<le> ctype_bits (arith_type t u) \<and> d = (CIntT w s, wrap (CIntT w s) (wrap_op op x y)))"
proof -
  have "wrapping op" using op by (auto simp: wrapping_def)
  moreover have "exec_bin i b lhs rhs cx = binop b op lhs rhs cx"
    using op by (auto simp: bin_defs)
  ultimately show ?thesis using binop_implements [OF assms(1-8), of op b] by simp
qed

theorem wrapping_ops_correct_witness:
  "implements sample_b sample_cx (exec_bin ISub sample_b (ValueRef 0) (ValueRef 1) sample_cx)
    (\<lambda>env d. \<exists>x y t u. low_bits env ''_arg0'' 32 x t \<and> low_bits env ''_arg1'' 32 y u \<and>
       32 \<le> ctype_bits (arith_type t u) \<and>
       d = (CIntT 32 True, wrap (CIntT 32 True) (wrap_op Sub x y)))"
  by (rule wrapping_ops_correct [OF sample_wf sample_room, of _ "TypeRef 1" "TInt 32 True"])
    (simp_all add: sample_lookup sample_texts kind_ctype_def c_bits_def idx_def)

text \<open>
  C5. Unsigned division and remainder compute the quotient and remainder of the bit patterns
  for a signed type too, where the C operands are signed: the code casts both operands.
\<close>

theorem unsigned_division_correct:
  assumes "cx_wf cx" "room 2 cx" "type_of_value cx lhs = Some ty" "kind_of cx ty = Some k"
    and "render_value cx lhs = Some l" "render_value cx rhs = Some r"
    and "kind_ctype (pointer_bits cx) k = Some (CIntT w s)"
    and op: "(i, op) \<in> {(IUdiv, Div), (IExactudiv, Div), (IUrem, Rem)}"
  shows "implements b cx (exec_bin i b lhs rhs cx)
    (\<lambda>env d. \<exists>x y. unsigned_operand env l w s x \<and> unsigned_operand env r w s y \<and> y \<noteq> 0 \<and>
       d = (CIntT w s, wrap (CIntT w s) (unsigned_div op x y)))"
proof -
  have "op \<in> {Div, Rem}" using op by auto
  moreover have "exec_bin i b lhs rhs cx = unsigned_binop b op lhs rhs cx"
    using op by (auto simp: bin_defs)
  ultimately show ?thesis using unsigned_div_implements [OF assms(1-7), of op b] by simp
qed

theorem unsigned_division_correct_witness:
  "implements sample_b sample_cx (exec_bin IUdiv sample_b (ValueRef 0) (ValueRef 1) sample_cx)
    (\<lambda>env d. \<exists>x y. unsigned_operand env ''_arg0'' 32 True x \<and> unsigned_operand env ''_arg1'' 32 True y \<and>
       y \<noteq> 0 \<and> d = (CIntT 32 True, wrap (CIntT 32 True) (unsigned_div Div x y)))"
  by (rule unsigned_division_correct [OF sample_wf sample_room, of _ "TypeRef 1" "TInt 32 True"])
    (simp_all add: sample_lookup sample_texts kind_ctype_def c_bits_def idx_def)

text \<open>
  C6. Signed division and remainder compute the truncating quotient and remainder, for
  divisors other than zero and quotients in range, which Rust checks before.
\<close>

theorem signed_division_correct:
  assumes "cx_wf cx" "room 1 cx" "type_of_value cx lhs = Some ty" "kind_of cx ty = Some k"
    and "render_value cx lhs = Some l" "render_value cx rhs = Some r"
    and "kind_ctype (pointer_bits cx) k = Some (CIntT w True)"
    and op: "(i, op) \<in> {(ISdiv, Div), (IExactsdiv, Div), (ISrem, Rem)}"
  shows "implements b cx (exec_bin i b lhs rhs cx)
    (\<lambda>env d. \<exists>x y. signed_value env l w x \<and> signed_value env r w y \<and> y \<noteq> 0 \<and>
       (x \<noteq> - (2 ^ (w - 1)) \<or> y \<noteq> -1) \<and>
       d = (CIntT w True, wrap (CIntT w True) (signed_div op x y)))"
proof -
  have "op \<in> {Div, Rem}" using op by auto
  moreover have "exec_bin i b lhs rhs cx = binop b op lhs rhs cx"
    using op by (auto simp: bin_defs)
  ultimately show ?thesis using signed_div_implements [OF assms(1-7), of op b] by simp
qed

theorem signed_division_correct_witness:
  "implements sample_b sample_cx (exec_bin ISrem sample_b (ValueRef 0) (ValueRef 1) sample_cx)
    (\<lambda>env d. \<exists>x y. signed_value env ''_arg0'' 32 x \<and> signed_value env ''_arg1'' 32 y \<and> y \<noteq> 0 \<and>
       (x \<noteq> - (2 ^ (32 - 1)) \<or> y \<noteq> -1) \<and>
       d = (CIntT 32 True, wrap (CIntT 32 True) (signed_div Rem x y)))"
  by (rule signed_division_correct [OF sample_wf sample_room, of _ "TypeRef 1" "TInt 32 True"])
    (simp_all add: sample_lookup sample_texts kind_ctype_def c_bits_def idx_def)

text \<open>
  C7. The shift left computes the low bits of the shifted pattern, whatever the C types of the
  operands, for amounts below the width.
\<close>

theorem shift_left_correct:
  assumes "cx_wf cx" "room 1 cx" "type_of_value cx lhs = Some ty" "kind_of cx ty = Some k"
    and "render_value cx lhs = Some l" "render_value cx rhs = Some r"
    and "kind_ctype (pointer_bits cx) k = Some (CIntT w s)" "0 < w"
  shows "implements b cx (op_shl b lhs rhs cx)
    (\<lambda>env d. \<exists>x t n. low_bits env l w x t \<and> shift_amount env r w n \<and>
       d = (CIntT w s, wrap (CIntT w s) (push_bit n x)))"
  using assms by (rule shl_implements)

theorem shift_left_correct_witness:
  "implements sample_b sample_cx (op_shl sample_b (ValueRef 0) (ValueRef 3) sample_cx)
    (\<lambda>env d. \<exists>x t n. low_bits env ''_arg0'' 32 x t \<and> shift_amount env ''7ULL'' 32 n \<and>
       d = (CIntT 32 True, wrap (CIntT 32 True) (push_bit n x)))"
  by (rule shift_left_correct [OF sample_wf sample_room, of _ "TypeRef 1" "TInt 32 True"])
    (simp_all add: sample_lookup sample_texts kind_ctype_def c_bits_def idx_def)

text \<open>
  C8. The logical shift right shifts zeros into the pattern, for signed types too.
\<close>

theorem logical_shift_correct:
  assumes "cx_wf cx" "room 2 cx" "type_of_value cx lhs = Some ty" "kind_of cx ty = Some k"
    and "render_value cx lhs = Some l" "render_value cx rhs = Some r"
    and "kind_ctype (pointer_bits cx) k = Some (CIntT w s)" "0 < w"
  shows "implements b cx (op_lshr b lhs rhs cx)
    (\<lambda>env d. \<exists>x t n. low_bits env l w x t \<and> shift_amount env r w n \<and>
       d = (CIntT w s, wrap (CIntT w s) (drop_bit n x)))"
  using assms by (rule lshr_implements)

theorem logical_shift_correct_witness:
  "implements sample_b sample_cx (op_lshr sample_b (ValueRef 0) (ValueRef 3) sample_cx)
    (\<lambda>env d. \<exists>x t n. low_bits env ''_arg0'' 32 x t \<and> shift_amount env ''7ULL'' 32 n \<and>
       d = (CIntT 32 True, wrap (CIntT 32 True) (drop_bit n x)))"
  by (rule logical_shift_correct [OF sample_wf sample_room, of _ "TypeRef 1" "TInt 32 True"])
    (simp_all add: sample_lookup sample_texts kind_ctype_def c_bits_def idx_def)

text \<open>
  C9. The arithmetic shift right of a signed type shifts copies of the sign bit into the
  pattern. (For an unsigned type the same code shifts zeros: the conversion in the conclusion
  is then the unsigned one.)
\<close>

theorem arithmetic_shift_correct:
  assumes "cx_wf cx" "room 1 cx" "type_of_value cx lhs = Some ty" "kind_of cx ty = Some k"
    and "render_value cx lhs = Some l" "render_value cx rhs = Some r"
    and "kind_ctype (pointer_bits cx) k = Some (CIntT w s)" "0 < w"
  shows "implements b cx (op_ashr b lhs rhs cx)
    (\<lambda>env d. \<exists>x t n. low_bits env l w x t \<and> shift_amount env r w n \<and>
       d = (CIntT w s, wrap (CIntT w s) (drop_bit n (wrap (CIntT w s) x))))"
  using assms by (rule ashr_implements)

theorem arithmetic_shift_correct_witness:
  "implements sample_b sample_cx (op_ashr sample_b (ValueRef 0) (ValueRef 3) sample_cx)
    (\<lambda>env d. \<exists>x t n. low_bits env ''_arg0'' 32 x t \<and> shift_amount env ''7ULL'' 32 n \<and>
       d = (CIntT 32 True, wrap (CIntT 32 True) (drop_bit n (wrap (CIntT 32 True) x))))"
  by (rule arithmetic_shift_correct [OF sample_wf sample_room, of _ "TypeRef 1" "TInt 32 True"])
    (simp_all add: sample_lookup sample_texts kind_ctype_def c_bits_def idx_def)

text \<open>
  C10. An integer comparison yields the predicate on the patterns, read as unsigned or as
  two's complement as the predicate says, whatever the signedness of the C types.
\<close>

theorem comparison_correct:
  assumes "cx_wf cx" "room 3 cx" "type_of_value cx x = Some tx" "type_of_value cx y = Some ty"
    and "kind_of cx tx = Some k" "kind_of cx ty = Some k"
    and "render_value cx x = Some l" "render_value cx y = Some r"
    and "kind_ctype (pointer_bits cx) k = Some (CIntT w sg)" "0 < w"
    and "icmp_cast_kind p k k = Some ck"
  shows "implements b cx (op_icmp b p x y cx)
    (\<lambda>env d. \<exists>m n t u. low_bits env l w m t \<and> low_bits env r w n u \<and>
       d = (CBoolT, of_bool (icmp_holds p w m n)))"
  using assms by (rule icmp_implements)

theorem comparison_correct_witness:
  "implements sample_b sample_cx (op_icmp sample_b IntULT (ValueRef 0) (ValueRef 1) sample_cx)
    (\<lambda>env d. \<exists>m n t u. low_bits env ''_arg0'' 32 m t \<and> low_bits env ''_arg1'' 32 n u \<and>
       d = (CBoolT, of_bool (icmp_holds IntULT 32 m n)))"
  by (rule comparison_correct [OF sample_wf sample_room, of _ "TypeRef 1" _ "TypeRef 1" "TInt 32 True"])
    (simp_all add: sample_lookup sample_texts kind_ctype_def c_bits_def idx_def icmp_cast_kind_def
      pred_unsigned_def)

text \<open>
  C11. A switch jumps to the block of the first case whose constant is the bit pattern of the
  value, to the default block when there is none; the constants fit the type and 64 bits.
\<close>

theorem switch_correct:
  assumes "render_value cx v = Some l" "type_of_value cx v = Some ty" "kind_of cx ty = Some k"
    and "switch_kind (pointer_bits cx) k w s"
    and "\<forall>(n, bb) \<in> set cases. n < 2 ^ w \<and> n \<le> u64_MAX"
  shows "\<exists>st. switch b v d cases cx = Some (set_terminated b (emit b st cx)) \<and>
    (\<forall>env x. (if s then \<exists>t. low_bits env l w x t else env l = Some (CIntT w False, x)) \<longrightarrow>
       jump_target (pointer_bits cx) env st = Some (block_label b cx (switch_dest x cases d)))"
  using assms by (rule switch_jumps)

theorem switch_correct_witness:
  "\<exists>st. switch sample_b (ValueRef 0) (BasicBlockId 0) [(3, BasicBlockId 1)] sample_cx =
      Some (set_terminated sample_b (emit sample_b st sample_cx)) \<and>
    jump_target 64 [''_arg0'' \<mapsto> (CIntT 32 True, 3)] st = Some ''bb1''"
proof -
  have "low_bits [''_arg0'' \<mapsto> (CIntT 32 True, 3)] ''_arg0'' 32 3 (CIntT 32 True)"
    by (simp add: low_bits_def take_bit_eq_mod)
  then show ?thesis
    using switch_correct [of sample_cx "ValueRef 0" "''_arg0''" "TypeRef 1" "TInt 32 True" 32 True
        "[(3, BasicBlockId 1)]" sample_b "BasicBlockId 0"]
    by (force simp: sample_lookup sample_texts idx_def switch_kind_def u64_MAX_def block_label_def
        lookup_current_fn_def bt_get_def sample_fn_eq nat_str.simps digit_def)
qed

text \<open>
  C12. The zero extension, and the unsigned integer cast, convert the unsigned reading of the
  pattern to the destination type.
\<close>

theorem zero_extension_correct:
  assumes "cx_wf cx" "room 2 cx" "type_of_value cx x = Some ty" "kind_of cx ty = Some k"
    and "render_value cx x = Some l" "kind_of cx dty = Some dk" "tval cx dty"
    and "kind_ctype (pointer_bits cx) k = Some (CIntT w s)" "kind_ctype (pointer_bits cx) dk = Some c"
  shows "implements b cx (op_intcast b x dty False cx)
    (\<lambda>env d. \<exists>v. unsigned_operand env l w s v \<and> d = (c, wrap c v))"
  using zext_implements [OF assms] by (simp add: op_intcast_def)

theorem zero_extension_correct_witness:
  "implements sample_b sample_cx (op_intcast sample_b (ValueRef 0) (TypeRef 2) False sample_cx)
    (\<lambda>env d. \<exists>v. unsigned_operand env ''_arg0'' 32 True v \<and> d = (CIntT 64 True, wrap (CIntT 64 True) v))"
  by (rule zero_extension_correct [OF sample_wf sample_room, where ty = "TypeRef 1" and k = "TInt 32 True"
        and dk = "TInt 64 True"])
    (simp_all add: sample_lookup sample_texts kind_ctype_def c_bits_def idx_def sample_types_list)

text \<open>
  C13. The negation and the complement are those of the pattern, modulo the width; on a
  boolean the complement is the logical one.
\<close>

theorem unary_correct:
  assumes "cx_wf cx" "room 1 cx" "type_of_value cx x = Some ty" "kind_of cx ty = Some k"
    and "render_value cx x = Some l"
  shows "(\<forall>w s. kind_ctype (pointer_bits cx) k = Some (CIntT w s) \<and> 0 < w \<longrightarrow>
      implements b cx (op_neg b x cx)
        (\<lambda>env d. \<exists>v t. low_bits env l w v t \<and> w \<le> ctype_bits (promote t) \<and>
           d = (CIntT w s, wrap (CIntT w s) (- v))) \<and>
      implements b cx (op_not b x cx)
        (\<lambda>env d. \<exists>v t. low_bits env l w v t \<and> w \<le> ctype_bits (promote t) \<and>
           d = (CIntT w s, wrap (CIntT w s) (not v)))) \<and>
    (kind_ctype (pointer_bits cx) k = Some CBoolT \<longrightarrow>
      implements b cx (op_not b x cx)
        (\<lambda>env d. \<exists>p t. env l = Some (t, of_bool p) \<and> d = (CBoolT, of_bool (\<not> p))))"
  using neg_implements [OF assms] not_int_implements [OF assms] not_bool_implements [OF assms]
  by blast

theorem unary_correct_witness:
  "implements sample_b sample_cx (op_not sample_b (ValueRef 2) sample_cx)
    (\<lambda>env d. \<exists>p t. env ''1'' = Some (t, of_bool p) \<and> d = (CBoolT, of_bool (\<not> p)))"
  using unary_correct [OF sample_wf sample_room, of "ValueRef 2" "TypeRef 5" TBool "''1''" sample_b]
  by (simp add: sample_lookup sample_texts kind_ctype_def idx_def)

section \<open>Types, values and constants\<close>

text \<open>
  C14. Interning is hash-consing: two kinds get the same reference exactly when they are equal,
  each reference stands for its kind, and the store stays well formed.
\<close>

theorem interned_references:
  assumes "ts_wf ts" "ts_admits k ts" "intern k ts = (r, ts1)"
    and "ts_admits k' ts1" "intern k' ts1 = (r', ts2)"
  shows "(r = r') = (k = k') \<and> ts_get ts2 r = Some k \<and> ts_get ts2 r' = Some k' \<and> ts_wf ts2"
proof -
  have wf: "ts_wf ts1" using assms(1-3) by (rule types.add_inv)
  show ?thesis
    using types.add_eq_iff [OF assms] types.add_stable [OF assms(5) types.add_get [OF assms(1-3)]]
      types.add_get [OF wf assms(4,5)] types.add_inv [OF wf assms(4,5)] by simp
qed

theorem interned_references_witness:
  "\<exists>r ts1 r' ts2. intern (TInt 8 True) TypeStore_new = (r, ts1) \<and>
     intern (TInt 8 False) ts1 = (r', ts2) \<and> r \<noteq> r' \<and> ts_wf ts2"
proof -
  obtain r ts1 where i: "intern (TInt 8 True) TypeStore_new = (r, ts1)" by fastforce
  obtain r' ts2 where i': "intern (TInt 8 False) ts1 = (r', ts2)" by fastforce
  have a: "ts_admits (TInt 8 True) TypeStore_new" by (simp add: ts_admits_def TypeStore_new_def)
  have "ts_admits (TInt 8 False) ts1"
    using i by (auto simp: ts_admits_def intern_def TypeStore_new_def Let_def)
  from interned_references [OF ts_wf_new a i this i'] show ?thesis using i i' by auto
qed

text \<open>
  C15. The C text of a valid type exists and never changes: whatever is interned later, the
  type and every declaration of it are printed the same.
\<close>

theorem type_text_stable:
  assumes "ts_wf ts" "ts_valid ts ty" "intern k ts = (r, ts')"
  shows "\<exists>s. render ts ty = Some s \<and> render ts' ty = Some s \<and>
    (\<exists>d. render_decl ts ty n = Some d \<and> render_decl ts' ty n = Some d)"
  using render_total [OF assms(1,2)] render_decl_total [OF assms(1,2), of n]
    render_le [OF intern_le [OF assms(3)]] render_decl_le [OF intern_le [OF assms(3)]] by blast

theorem type_text_stable_witness:
  "\<exists>s. render sample_types (TypeRef 3) = Some s \<and>
     render (snd (intern (TArray (TypeRef 3) 2) sample_types)) (TypeRef 3) = Some s"
  using type_text_stable [OF sample_types_wf, of "TypeRef 3" "TArray (TypeRef 3) 2" _ _ "''x''",
      OF _ surjective_pairing]
  by (auto simp: sample_types_list)

text \<open>
  C16. A new temporary has a C name of its own: no temporary that existed is printed the same.
\<close>

theorem temporaries_distinct:
  assumes "cx_wf cx" "room 1 cx" "tval cx ty" "new_temp ty cx = (v, cx')"
    and "vs_get (cx_values cx) u = Some \<lparr>v_kind = Temp j, v_ty = uty\<rparr>"
  shows "\<exists>s. render_value cx' v = Some s \<and> render_value cx' u \<noteq> Some s"
proof -
  from new_temp_reach [OF assms(1-4)] obtain i where r: "reach b id 1 cx cx'"
    and i: "fresh_temp cx i" "render_value cx' v = Some (temp_name i)" for b by blast
  have "render_value cx' u = Some (temp_name j)"
    by (rule temp_text [OF reach_get [OF r assms(5)]])
  moreover have "i \<noteq> j" using i(1) assms(5) by (force simp: fresh_temp_def)
  ultimately show ?thesis using i(2) by (auto simp: temp_name_def)
qed

theorem temporaries_distinct_witness:
  "\<exists>v cx1 w cx2 s. new_temp (TypeRef 1) sample_cx = (v, cx1) \<and> new_temp (TypeRef 1) cx1 = (w, cx2) \<and>
     render_value cx2 w = Some s \<and> render_value cx2 v \<noteq> Some s"
proof -
  obtain v cx1 where n: "new_temp (TypeRef 1) sample_cx = (v, cx1)" by fastforce
  obtain w cx2 where n': "new_temp (TypeRef 1) cx1 = (w, cx2)" by fastforce
  have t: "tval sample_cx (TypeRef 1)" by (simp add: sample_types_list)
  have r2: "room (1 + 1) sample_cx" by (simp add: sample_room)
  from new_temp_reach [OF sample_wf sample_room t n] obtain i where
    r: "reach sample_b id 1 sample_cx cx1"
    and g: "vs_get (cx_values cx1) v = Some \<lparr>v_kind = Temp i, v_ty = TypeRef 1\<rparr>" by force
  from temporaries_distinct [OF reach_wf [OF r] reach_room [OF r r2] reach_tval [OF r t] n' g]
  show ?thesis using n n' by blast
qed

text \<open>
  C17. An unsigned constant round trips: when it fits 64 bits its text is a C literal of its value, and the code generator reads the same value back.
\<close>

theorem uint_constant_roundtrip:
  assumes "cx_wf cx" "room 1 cx" "u \<le> u64_MAX" "intern_value (UintConst u) ty cx = (v, cx')"
  shows "(\<exists>s. render_value cx' v = Some s \<and> literal s = Some (CIntT 64 False, int u)) \<and>
    const_to_opt_uint cx' v = Some (Some u)"
proof -
  have "vs_get (cx_values cx') v = Some \<lparr>v_kind = UintConst u, v_ty = ty\<rparr>"
    using assms alloc_get [of "cx_values cx" "UintConst u" ty]
    by (auto simp: intern_value_def room_def split: prod.splits)
  then show ?thesis
    using assms(3) literal_ull [OF assms(3)]
    by (simp add: render_value_def vrender_def uint_const_text_def const_to_opt_uint_def as_u64_opt_def)
qed

theorem uint_constant_roundtrip_witness:
  "\<exists>v cx'. intern_value (UintConst 300) (TypeRef 3) sample_cx = (v, cx') \<and>
     const_to_opt_uint cx' v = Some (Some 300)"
proof -
  obtain v cx' where "intern_value (UintConst 300) (TypeRef 3) sample_cx = (v, cx')" by fastforce
  with uint_constant_roundtrip [OF sample_wf sample_room _ this] show ?thesis
    by (auto simp: u64_MAX_def)
qed

text \<open>
  C18. An integer constant of a type keeps its bit pattern: \<open>const_uint_big\<close> stores a signed
  type's constant sign-extended, and reading it back gives the low bits of what was stored.
\<close>

theorem integer_constant_bits:
  assumes "cx_wf cx" "room 1 cx" "kind_of cx t = Some (TInt n s)" "0 < n" "n \<le> 128" "u < 2 ^ 128"
    and "const_uint_big t u cx = Some (v, cx')"
  shows "\<exists>x. const_to_opt_u128 cx' v True = Some (Some x) \<and> x < 2 ^ 128 \<and>
    take_bit n (int x) = take_bit n (int u)"
proof -
  let ?k = "if s then IntConst (sign_extend_to_i128 u n) else UintConst u"
  have "intern_value ?k t cx = (v, cx')"
    using assms by (simp add: const_uint_big_def signed_bits_def split: if_splits bool.splits)
  then have g: "vs_get (cx_values cx') v = Some \<lparr>v_kind = ?k, v_ty = t\<rparr>"
    using assms alloc_get [of "cx_values cx" ?k t]
    by (auto simp: intern_value_def room_def split: prod.splits)
  show ?thesis
  proof (cases s)
    case True
    let ?y = "take_bit 128 (sign_extend_to_i128 u n)"
    have y: "0 \<le> ?y" "?y < 2 ^ 128" using take_bit_int_less_exp [of 128] by auto
    have "take_bit n ?y = take_bit n (int u)"
      using assms(4,5) by (simp add: sign_extend_to_i128_signed take_bit_take_bit min_def take_bit_signed_take_bit)
    then have "nat ?y < 2 ^ 128 \<and> take_bit n (int (nat ?y)) = take_bit n (int u)"
      using y by simp
    then show ?thesis
      using g True by (simp add: const_to_opt_u128_def as_u128_opt_def take_bit_eq_mod)
  next
    case False
    then show ?thesis using g assms(6) by (simp add: const_to_opt_u128_def as_u128_opt_def)
  qed
qed

theorem integer_constant_bits_witness:
  "\<exists>v cx' x. const_uint_big (TypeRef 1) (2 ^ 32 - 1) sample_cx = Some (v, cx') \<and>
     const_to_opt_u128 cx' v True = Some (Some x) \<and> take_bit 32 (int x) = 2 ^ 32 - 1"
proof -
  have k: "kind_of sample_cx (TypeRef 1) = Some (TInt 32 True)" by (simp add: sample_lookup idx_def)
  then obtain v cx' where "const_uint_big (TypeRef 1) (2 ^ 32 - 1) sample_cx = Some (v, cx')"
    by (fastforce simp: const_uint_big_def)
  with integer_constant_bits [OF sample_wf sample_room k _ _ _ this]
  show ?thesis by (auto simp: take_bit_eq_mod)
qed

text \<open>
  C19. The natural alignment of a type is a power of two, unless it is the zero of an oversized
  vector, and the alignment of an unpacked struct is a multiple of its fields'.
\<close>

theorem natural_alignment:
  assumes "ts_wf ts" "power_of_two p" "natural_align_bytes ts ty p = Some a" "a \<noteq> 0"
  shows "power_of_two a \<and>
    (\<forall>fs nm f b. ts_get ts ty = Some (TStruct fs False nm) \<and> f \<in> set fs \<and>
       natural_align_bytes ts f p = Some b \<and> b \<noteq> 0 \<longrightarrow> b dvd a)"
  using natural_align_power [OF assms] natural_align_field [OF assms(1,2) _ _ assms(3)] by blast

theorem natural_alignment_witness:
  "\<exists>a. natural_align_bytes sample_types (TypeRef 2) 8 = Some a \<and> a = 8 \<and> power_of_two a"
proof -
  have a: "natural_align_bytes sample_types (TypeRef 2) 8 = Some 8"
    by (simp add: natural_align_bytes_def sample_types_list ts_get_def idx_def c_bits_def)
  from natural_alignment [OF sample_types_wf _ this] show ?thesis using a by simp
qed

section \<open>Output\<close>


text \<open>
  C21. Printing an expression never unbalances brackets: when the names, types and literals at
  its leaves are balanced, so is its text, so precedence is decided by the printed brackets.
\<close>

theorem printed_expressions_balanced:
  assumes "\<And>s. s \<in> expr_atoms e \<Longrightarrow> balanced s"
  shows "balanced (CExpr_fmt e)"
  using assms by (rule balanced_expr)

theorem printed_expressions_balanced_witness:
  "balanced (CExpr_fmt (Call (Var ''f'') [BinOp (Var ''x'') Add (Lit ''1''), Index (Var ''a'') (Lit ''0'')]))"
  by (rule printed_expressions_balanced) (auto intro!: balanced_all_plain simp: plain_char_def)



section \<open>Intrinsics\<close>



text \<open>
  C24. The bit counts: the leading zeros, the trailing zeros and the ones of the operand's
  pattern at its width are what the emitted text computes, at every width from 8 to 128.
\<close>

theorem bit_counts_correct:
  assumes "cx_wf cx" "room 2 cx" "immediate_arg args 0 = Some x" "render_value cx x = Some v"
    and "type_of_value cx x = Some ty" "int_width cx ty = Some w" "w \<in> {8, 16, 32, 64, 128}"
  shows "stores_result b cx dest (codegen_ctlz b args dest cx)
      (\<lambda>env d. \<exists>n. operand_pattern env v w n \<and> d = (CIntT 32 True, int (leading_zeros w n))) \<and>
    stores_result b cx dest (codegen_cttz b args dest cx)
      (\<lambda>env d. \<exists>n. operand_pattern env v w n \<and> d = (CIntT 32 True, int (trailing_zeros w n))) \<and>
    stores_result b cx dest (codegen_ctpop b args dest cx)
      (\<lambda>env d. \<exists>n. operand_pattern env v w n \<and> d = (CIntT 32 True, int (count_ones n)))"
  using bit_counts_store [OF assms] by blast

theorem bit_counts_correct_witness:
  "stores_result sample_b sample_cx sample_place (codegen_ctpop sample_b sample_args sample_place sample_cx)
     (\<lambda>env d. \<exists>n. operand_pattern env ''_arg0'' 32 n \<and> d = (CIntT 32 True, int (count_ones n)))"
  using bit_counts_correct [of sample_cx sample_args "ValueRef 0" "''_arg0''" "TypeRef 1" 32 sample_b sample_place]
  by (simp add: sample_wf sample_room sample_texts sample_lookup sample_width idx_def)

text \<open>
  C25. The byte swap of the operand's pattern reverses its bytes, and the result has the
  operand's type, signed or not.
\<close>

theorem byte_swap_correct:
  assumes "cx_wf cx" "room 1 cx" "immediate_arg args 0 = Some x" "render_value cx x = Some v"
    and "type_of_value cx x = Some ty" "int_width cx ty = Some w" "kind_of cx ty = Some k"
    and "kind_ctype (pointer_bits cx) k = Some (CIntT w s)" "w \<in> {8, 16, 32, 64, 128}"
  shows "stores_result b cx dest (codegen_bswap b args dest cx)
    (\<lambda>env d. \<exists>n. operand_pattern env v w n \<and>
       d = (CIntT w s, wrap (CIntT w s) (int (swap_bytes (w div 8) n))))"
  using assms by (rule bswap_store)

theorem byte_swap_correct_witness:
  "stores_result sample_b sample_cx sample_place (codegen_bswap sample_b sample_args sample_place sample_cx)
    (\<lambda>env d. \<exists>n. operand_pattern env ''_arg0'' 32 n \<and>
       d = (CIntT 32 True, wrap (CIntT 32 True) (int (swap_bytes 4 n))))"
  using byte_swap_correct [of sample_cx sample_args "ValueRef 0" "''_arg0''" "TypeRef 1" 32 "TInt 32 True" True
      sample_b sample_place]
  by (simp add: sample_wf sample_room sample_texts sample_lookup sample_width sample_ctype idx_def)

text \<open>
  C26. The rotations turn the operand's pattern by the amount modulo the width, and the
  funnel shifts by an amount strictly between zero and the width give the bits their emitted
  order of operands gives: the left one the high bits of the first operand followed by the
  second, the right one the low bits of the second operand in front.
\<close>

theorem rotations_correct:
  assumes "cx_wf cx" "room 2 cx" "immediate_arg args 0 = Some x" "render_value cx x = Some va"
    and "type_of_value cx x = Some ty" "int_width cx ty = Some w" "kind_of cx ty = Some k"
    and "immediate_arg args 1 = Some y" "render_value cx y = Some vb"
    and "immediate_arg args 2 = Some z" "render_value cx z = Some vc"
    and "kind_ctype (pointer_bits cx) k = Some (CIntT w s)" "w \<in> {8, 16, 32, 64, 128}"
  shows "stores_result b cx dest (codegen_rotate b name args dest cx)
      (\<lambda>env d. \<exists>n a. operand_pattern env va w n \<and> amount_operand env vb a \<and>
         d = (CIntT w s, wrap (CIntT w s) (int (rotated (name = ''rotate_left'') w a n)))) \<and>
    stores_result b cx dest (codegen_funnel_shift b name args dest cx)
      (\<lambda>env d. \<exists>m n a. operand_pattern env va w m \<and> operand_pattern env vb w n \<and>
         amount_operand env vc a \<and> 0 < a \<and> a < w \<and>
         d = (CIntT w s, wrap (CIntT w s) (int
           (if name = ''unchecked_funnel_shl'' then funnel_left w a m n else funnel_right w a n m))))"
  using rotate_store [OF assms(1-9,12,13)] funnel_store [OF assms] by blast

theorem rotations_correct_witness:
  "stores_result sample_b sample_cx sample_place
      (codegen_rotate sample_b ''rotate_left'' sample_args sample_place sample_cx)
    (\<lambda>env d. \<exists>n a. operand_pattern env ''_arg0'' 32 n \<and> amount_operand env ''_arg1'' a \<and>
       d = (CIntT 32 True, wrap (CIntT 32 True) (int (rotated True 32 a n))))"
  using rotations_correct [of sample_cx sample_args "ValueRef 0" "''_arg0''" "TypeRef 1" 32 "TInt 32 True"
      "ValueRef 1" "''_arg1''" "ValueRef 3" "''7ULL''" True sample_b sample_place "''rotate_left''"]
  by (simp add: sample_wf sample_texts sample_lookup sample_width sample_ctype idx_def)

text \<open>
  C27. A funnel shift by zero of a 32, 64 or 128-bit operand is undefined in the emitted C: it
  shifts one operand by the whole width, where the intrinsic allows every amount below it.
\<close>

theorem funnel_by_zero_undefined:
  assumes "amount_operand env s 0" "w \<in> {32, 64, 128}" "type_name pb ut = Some (CIntT w False)"
  shows "tree_text (funnel_tree left w t ut va vb s) = funnel_text left w t ut va vb s \<and>
    eval pb env (funnel_tree left w t ut va vb s) = None"
  using funnel_zero_undefined [OF assms] shift_tree_texts by blast

theorem funnel_by_zero_undefined_witness:
  "eval 64 [''_arg2'' \<mapsto> (CIntT 32 False, 0)]
     (funnel_tree True 32 ''uint32_t'' ''uint32_t'' ''_arg0'' ''_arg1'' ''_arg2'') = None"
  using funnel_by_zero_undefined [of "[''_arg2'' \<mapsto> (CIntT 32 False, 0)]" "''_arg2''" 32 64 "''uint32_t''"]
  by (simp add: amount_operand_def)

text \<open>
  C28. The checked additions, subtractions and multiplications leave the wrapped result and
  whether the exact one does not fit in two new temporaries, and change no other variable, for
  every width and signedness where the helper of the preamble is defined.
\<close>

theorem checked_ops_correct:
  assumes "cx_wf cx" "room 4 cx" "type_of_value cx lhs = Some ty" "kind_of cx ty = Some k"
    and "render_value cx lhs = Some l" "render_value cx rhs = Some r"
    and "kind_ctype (pointer_bits cx) k = Some (CIntT w s)" "w \<in> {8, 16, 32, 64, 128}"
  shows "\<exists>u v cx' i j. checked_binop b oop lhs rhs cx = Some ((u, v), cx') \<and>
    render_value cx' u = Some (temp_name i) \<and> render_value cx' v = Some (temp_name j) \<and>
    runs_block b cx cx' (\<lambda>env m. \<forall>x y. value_operand env l (CIntT w s) x \<and> value_operand env r (CIntT w s) y \<and>
      helper_defined oop (CIntT w s) x y \<longrightarrow>
      (\<exists>env'. m = Some (env', []) \<and> keeps_vars cx env env' \<and>
         env' (temp_name i) = Some (CIntT w s, wrap (CIntT w s) (op_fun oop x y)) \<and>
         env' (temp_name j) = Some (CBoolT, of_bool (overflows oop (CIntT w s) x y))))"
  using assms by (rule checked_binop_block)

theorem checked_ops_correct_witness:
  "\<exists>u v cx' i j. checked_binop sample_b OvMul (ValueRef 0) (ValueRef 1) sample_cx = Some ((u, v), cx') \<and>
     render_value cx' u = Some (temp_name i) \<and> render_value cx' v = Some (temp_name j)"
  using checked_ops_correct [of sample_cx "ValueRef 0" "TypeRef 1" "TInt 32 True" "''_arg0''" "ValueRef 1"
      "''_arg1''" 32 True sample_b OvMul]
  by (simp add: sample_wf sample_texts sample_lookup sample_ctype idx_def) blast




text \<open>
  C30. The bit reversal ends after one round per bit, with the bits of the operand's pattern in
  the opposite order, at every width.
\<close>

theorem bit_reversal_correct:
  assumes "cx_wf cx" "room 4 cx" "immediate_arg args 0 = Some x" "render_value cx x = Some v" "settled cx v"
    and "type_of_value cx x = Some ty" "int_width cx ty = Some w" "kind_of cx ty = Some k"
    and "kind_ctype (pointer_bits cx) k = Some (CIntT w s)" "w \<in> {8, 16, 32, 64, 128}"
  shows "\<exists>u cx' i. codegen_bitreverse b args dest cx = store_result b u dest cx' \<and>
    render_value cx' u = Some (temp_name i) \<and>
    runs_block b cx cx' (\<lambda>env m. \<forall>n. operand_pattern env v w n \<longrightarrow>
      (\<exists>env'. m = Some (env', []) \<and> keeps_vars cx env env' \<and>
         env' (temp_name i) = Some (CIntT w s, wrap (CIntT w s) (int (bits_reversed w n)))))"
  using assms by (rule bitreverse_block)

lemma settled_arg0: "settled sample_cx ''_arg0''"
  by (auto simp: settled_def temp_name_def)

theorem bit_reversal_correct_witness:
  "\<exists>u cx' i. codegen_bitreverse sample_b sample_args sample_place sample_cx = store_result sample_b u sample_place cx' \<and>
     render_value cx' u = Some (temp_name i)"
  using bit_reversal_correct [of sample_cx sample_args "ValueRef 0" "''_arg0''" "TypeRef 1" 32 "TInt 32 True" True
      sample_b sample_place]
  by (simp add: sample_wf sample_texts sample_lookup sample_width sample_ctype idx_def settled_arg0) blast

text \<open>
  C31. The widening multiply-add of 128-bit operands stores the low and the high half of
  \<open>a * b + c + d\<close> on the patterns of its operands, computed by 64-bit words.
\<close>

theorem wide_product_correct:
  assumes "cx_wf cx" "room 1 cx" "arg_text args 0 cx = Some a" "arg_text args 1 cx = Some b"
    and "arg_text args 2 cx = Some c" "arg_text args 3 cx = Some d" "render_value cx (pl_llval dest) = Some dst"
    and "{a, b, c, d} \<inter> set wide_locals = {}"
  shows "\<exists>cx'. codegen_carrying_mul_add bl 16 sg args dest cx = Some cx' \<and>
    runs_scope bl cx cx' (\<lambda>env m. \<forall>i j k l. operand_pattern env a 128 i \<and> operand_pattern env b 128 j \<and>
        operand_pattern env c 128 k \<and> operand_pattern env d 128 l \<longrightarrow>
      (\<exists>env'. m = Some (env',
        [(dst, 0, (CIntT 128 sg, wrap (CIntT 128 sg) (int ((i * j + k + l) mod 2 ^ 128)))),
         (dst, 16, (CIntT 128 sg, wrap (CIntT 128 sg) (int ((i * j + k + l) div 2 ^ 128))))])))"
  using assms by (rule carrying_mul_add_scope)

theorem wide_product_correct_witness:
  "\<exists>cx'. codegen_carrying_mul_add sample_b 16 False sample_args sample_place sample_cx = Some cx'"
  using wide_product_correct [of sample_cx sample_args "''_arg0''" "''_arg1''" "''7ULL''" "''_arg1''" sample_place
      "''0''" sample_b False]
  by (simp add: sample_wf arg_text_def sample_texts sample_place_def wide_locals_def) blast

section \<open>Functions and statics\<close>

text \<open>
  C32. Predefining a function enters it once: a value of its C function type, an open function
  whose return type, parameters and attributes are those of that type, and, unless the name is
  already declared, the declaration that prints the same type with its linkage. A later
  reference to the function yields that value.
\<close>

theorem predefined_function_typed:
  assumes "cx_wf cx" "abi_ok (fn_abi_of_instance tcx i)" "room (abi_types (fn_abi_of_instance tcx i) + 2) cx"
  shows "\<exists>v cx' f p rt tss d fd. predefine_fn tcx i lk symbol cx = Some cx' \<and> cx_wf cx' \<and>
    vs_get (cx_values cx') v = Some \<lparr>v_kind = FunctionVal (sanitize_name symbol) f, v_ty = p\<rparr> \<and>
    convention (fn_abi_of_instance tcx i) cx' f rt tss \<and> prototype cx' symbol f = Some d \<and>
    definition_of (fn_abi_of_instance tcx i) lk (sanitize_name symbol) rt (concat tss) fd \<and>
    cx_module cx' = (add_function_decl (sanitize_name symbol) (linkage_text lk @ d) (cx_module cx))
      \<lparr>open_functions := bt_insert (sanitize_name symbol) fd (open_functions (cx_module cx))\<rparr> \<and>
    get_fn tcx i cx' = Some (v, cx')"
proof -
  from predefine_fn_ok [OF assms, of lk symbol] obtain v cx1 cx' f rt tss p d fd where
    e: "predefine_fn tcx i lk symbol cx = Some cx'"
    and r: "\<forall>b. reach b id (abi_types (fn_abi_of_instance tcx i) + 2) cx cx1"
    and cx': "cx' = open_function (sanitize_name symbol) fd (declare_fn (sanitize_name symbol) (linkage_text lk @ d)
            (cx1\<lparr>cx_instances := (cx_instances cx)(i \<mapsto> v)\<rparr>))"
    and rest: "cx_wf cx'" "convention (fn_abi_of_instance tcx i) cx' f rt tss" "prototype cx' symbol f = Some d"
      "definition_of (fn_abi_of_instance tcx i) lk (sanitize_name symbol) rt (concat tss) fd"
      "vs_get (cx_values cx') v = Some \<lparr>v_kind = FunctionVal (sanitize_name symbol) f, v_ty = p\<rparr>"
    by blast
  have "cx_module cx1 = cx_module cx" using r by (simp add: reach_def)
  then have m: "cx_module cx' = (add_function_decl (sanitize_name symbol) (linkage_text lk @ d) (cx_module cx))
      \<lparr>open_functions := bt_insert (sanitize_name symbol) fd (open_functions (cx_module cx))\<rparr>"
    by (simp add: cx' open_function_def declare_fn_def add_function_decl_def Let_def)
  have "cx_instances cx' i = Some v" by (simp add: cx' open_function_def declare_fn_def Let_def)
  from get_fn_cached [OF this] e rest m show ?thesis by blast
qed

theorem predefined_function_typed_witness:
  "\<exists>v cx'. predefine_fn sample_tcx 0 LInternal ''callee'' sample_cx = Some cx' \<and>
     get_fn sample_tcx 0 cx' = Some (v, cx')"
  using predefined_function_typed [of sample_cx sample_tcx 0 LInternal "''callee''"] sample_abi_ok
    sample_room [OF sample_abi_ok(2)] by (simp add: sample_wf) blast

text \<open>
  C33. The first reference to a function of another unit declares it, once, with the
  parameters of its C function type, which is also the type of its value; every later
  reference yields the same value and changes nothing.
\<close>

theorem callee_declared:
  assumes "cx_wf cx" "abi_ok (fn_abi_of_instance tcx i)" "room (abi_types (fn_abi_of_instance tcx i) + 2) cx"
    and "cx_instances cx i = None"
  shows "\<exists>v cx' f p rt tss d. get_fn tcx i cx = Some (v, cx') \<and>
    vs_get (cx_values cx') v = Some \<lparr>v_kind = FunctionVal (sanitize_name (symbol_name tcx i)) f, v_ty = p\<rparr> \<and>
    convention (fn_abi_of_instance tcx i) cx' f rt tss \<and> prototype cx' (symbol_name tcx i) f = Some d \<and>
    cx_module cx' = add_function_decl (sanitize_name (symbol_name tcx i)) d (cx_module cx) \<and>
    get_fn tcx i cx' = Some (v, cx')"
proof -
  let ?s = "symbol_name tcx i"
  from get_fn_ok [OF assms] obtain v cx1 cx' f rt tss p d where
    e: "get_fn tcx i cx = Some (v, cx')" "\<forall>b. reach b id (abi_types (fn_abi_of_instance tcx i) + 2) cx cx1"
    and cx': "cx' = declare_fn (sanitize_name ?s) d (cx1\<lparr>cx_instances := (cx_instances cx)(i \<mapsto> v)\<rparr>)"
    and rest: "convention (fn_abi_of_instance tcx i) cx' f rt tss" "prototype cx' ?s f = Some d"
      "vs_get (cx_values cx') v = Some \<lparr>v_kind = FunctionVal (sanitize_name ?s) f, v_ty = p\<rparr>"
    by blast
  have "cx_module cx1 = cx_module cx" using e(2) by (simp add: reach_def)
  then have m: "cx_module cx' = add_function_decl (sanitize_name ?s) d (cx_module cx)"
    by (simp add: cx' declare_fn_def)
  have "cx_instances cx' i = Some v" by (simp add: cx' declare_fn_def)
  from get_fn_cached [OF this] e(1) rest m show ?thesis by blast
qed

theorem callee_declared_witness:
  "\<exists>v cx' d. get_fn sample_tcx 0 sample_cx = Some (v, cx') \<and>
     cx_module cx' = add_function_decl ''callee'' d (cx_module sample_cx)"
proof -
  have "sanitize_name ''callee'' = ''callee''" "cx_instances sample_cx 0 = None"
    by (simp_all add: sanitize_name_def is_ascii_alphanumeric_def sample_cx_def CodegenCx_new_def)
  then show ?thesis
    using callee_declared [of sample_cx sample_tcx 0] sample_abi_ok sample_room [OF sample_abi_ok(2)]
    by (simp add: sample_wf) blast
qed



text \<open>
  C35. Translating the data of an allocation ends: fuel for the depth of its pointers is
  enough, more fuel gives the same value and the same context, and the context stays sound.
\<close>

theorem const_data_terminates:
  assumes "cx_wf cx" "pointer_bytes cx \<in> {4, 8}" "nests n (pointer_bytes cx) tcx a" "room (data_cost n tcx a) cx"
  shows "\<exists>v cx'. const_data_from_alloc n tcx a cx = Some (v, cx') \<and>
    const_data_from_alloc (n + k) tcx a cx = Some (v, cx') \<and> cx_wf cx' \<and> vval cx' v \<and>
    open_functions (cx_module cx') = open_functions (cx_module cx)"
proof -
  obtain v cx' where e: "const_data_from_alloc n tcx a cx = Some (v, cx')" and g: "grows (data_cost n tcx a) cx cx'"
    and v: "vval cx' v"
    using const_data_ok [OF assms(2), of n tcx] assms(1,3,4) unfolding translates_def by blast
  have "const_data_from_alloc (n + k) tcx a cx = Some (v, cx')" by (rule const_data_more_fuel [OF e]) simp
  then show ?thesis using e v grows_wf [OF g] g by (auto simp: grows_def)
qed

theorem const_data_terminates_witness:
  "\<exists>v cx'. const_data_from_alloc (2 + 5) sample_tcx sample_alloc sample_cx = Some (v, cx')"
  using const_data_terminates [of sample_cx 2 sample_tcx sample_alloc 5] sample_nests sample_wf
    sample_room [OF sample_nests(2)] sample_pointer_bytes
  by (simp add: numeral_2_eq_2 del: nests.simps data_cost.simps const_data_from_alloc.simps) blast

section \<open>The native helpers\<close>

text \<open>
  C36. The 128-bit division routines compute, for every divisor but zero, the quotient and the
  remainder of the patterns, and the signed ones those that truncate towards zero; the one
  quotient out of range wraps.
\<close>

theorem int128_division_correct:
  assumes "d \<noteq> 0"
  shows "udivti3 n d = Some (n div d) \<and> umodti3 n d = Some (n mod d) \<and>
    divti3 n d = Some (word_of_int (sint n sdiv sint d)) \<and>
    modti3 n d = Some (word_of_int (sint n smod sint d))"
  using assms by (simp add: udivti3_quotient umodti3_remainder divti3_quotient modti3_remainder)

theorem int128_division_correct_witness:
  "udivti3 (2 ^ 100) 3 = Some (2 ^ 100 div 3) \<and> divti3 (- 7) 2 = Some (- 3)"
  using int128_division_correct [of 3 "2 ^ 100"] int128_division_correct [of 2 "- 7"]
  by (simp add: signed_divide_int_def)

text \<open>
  C37. Unwinding through the chain of \<open>setjmp\<close> contexts is structured exception handling. Code
  that finishes returns with the chain as it found it. Code that throws jumps to the context at
  the head of the chain, which then holds the exception, or aborts when no context is active;
  either way exactly the events of the structured reading have happened, and the contexts of
  older activations are untouched.
\<close>

theorem unwinding_structured:
  assumes "older a st"
  shows "exhibits a st (meaning c (events st)) (run_code c a st)"
  using assms by (rule run_meaning)

theorem unwinding_structured_witness:
  "exhibits 0 \<lparr>unwind_chain = None, ctx_at = (\<lambda>_. \<lparr>exception_ptr = 0, prev_ctx = None\<rparr>), events = []\<rparr>
     (Finished 1, [5, 9])
     (run_code (UTry (UInvoke (URaise 5) UReturn (\<lambda>e. UEvent e (URaise 9))) (\<lambda>e. UEvent e (UReturn 0)) UReturn) 0
       \<lparr>unwind_chain = None, ctx_at = (\<lambda>_. \<lparr>exception_ptr = 0, prev_ctx = None\<rparr>), events = []\<rparr>)"
  using unwinding_structured [of 0 "\<lparr>unwind_chain = None, ctx_at = (\<lambda>_. \<lparr>exception_ptr = 0, prev_ctx = None\<rparr>), events = []\<rparr>"
      "UTry (UInvoke (URaise 5) UReturn (\<lambda>e. UEvent e (URaise 9))) (\<lambda>e. UEvent e (UReturn 0)) UReturn"]
  by (simp add: older_def del: run_code.simps)

section \<open>The backend's entry points\<close>

text \<open>
  C38. Thin link-time optimisation is a round trip: each module is prepared, passed through and
  rebuilt under its name, in order, and prints the source it printed before.
\<close>

theorem thin_lto_roundtrip:
  assumes "\<forall>m\<in>set ms. prints_utf8 preamble m \<and> plain_name (mc_name m)"
  shows "\<exists>bufs thins. opt_map (prepare_thin preamble) ms = Some bufs \<and>
    run_thin_lto bufs cached = Some (thins, map snd cached) \<and>
    list_all2 (\<lambda>thin m. \<exists>m'. optimize_thin thin = Some m' \<and> mc_name m' = mc_name m \<and>
       to_c_source preamble (mc_module m') = to_c_source preamble (mc_module m)) thins ms"
  by (rule thin_lto_sources [OF assms, of cached]) blast

theorem thin_lto_roundtrip_witness:
  "\<exists>bufs thins. opt_map (prepare_thin ''/* p */'') [\<lparr>mc_name = ''a'', mc_module = CModule_new ''a'', mc_kind = ModRegular\<rparr>]
       = Some bufs \<and> run_thin_lto bufs [((), 3 :: nat)] = Some (thins, [3]) \<and> length thins = 1"
proof -
  let ?m = "\<lparr>mc_name = ''a'', mc_module = CModule_new ''a'', mc_kind = ModRegular\<rparr>"
  have "\<forall>m\<in>set [?m]. prints_utf8 ''/* p */'' m \<and> plain_name (mc_name m)"
    by (simp add: prints_utf8_def plain_name_def to_c_source_def CModule_new_def render_struct_defs_def
        TypeStore_new_def text_lines_def blank_after_def into_bytes_def Let_def)
  from thin_lto_roundtrip [OF this, of "[((), 3 :: nat)]"] show ?thesis
    by (auto dest: list_all2_lengthD)
qed

text \<open>
  C39. Global assembly survives its way through C: a compiler that reads the string literals
  of the emitted block gets every line of the assembly text with the symbols put in, a comment
  of two slashes turned into one of a hash, between the syntax switches where the target
  needs them.
\<close>

theorem global_asm_roundtrip:
  assumes "opt_map (piece_text (map (operand_str tcx) operands)) template = Some texts"
    and "trim (concat texts) \<noteq> []" "CHR 0x0D \<notin> set (concat texts)" "last (str_lines (concat texts)) \<noteq> []"
  shows "\<exists>block. codegen_global_asm tcx target template operands cx =
      (cx\<lparr>cx_module := (cx_module cx)\<lparr>function_defs :=
         function_defs (cx_module cx) @ [asm_def target block]\<rparr>\<rparr>, None) \<and>
    read_asm_block block = Some (line_texts (assembled target (concat texts)))"
  by (rule global_asm_block [OF assms, of target cx]) blast

theorem global_asm_roundtrip_witness:
  "\<exists>block. snd (codegen_global_asm sample_tcx \<lparr>at_arch = ''x86_64'', at_att_syntax = False\<rparr>
      [AsmString ''call '', AsmPlaceholder 0, AsmString '' // go''] [AsmSymFn 0] sample_cx) = None \<and>
    read_asm_block block = Some (line_texts [''.intel_syntax noprefix'', ''call callee # go'', ''.att_syntax''])"
proof -
  let ?ops = "map (operand_str sample_tcx) [AsmSymFn 0]"
  let ?t = "[AsmString ''call '', AsmPlaceholder 0, AsmString '' // go'']"
  let ?target = "\<lparr>at_arch = ''x86_64'', at_att_syntax = False\<rparr>"
  have t: "opt_map (piece_text ?ops) ?t = Some [''call '', ''callee'', '' // go'']"
    by (simp add: operand_str_def idx_def)
  have lines: "str_lines ''call callee // go'' = [''call callee // go'']"
    by (simp add: str_lines_def strip_line_def)
  then have "assembled ?target ''call callee // go'' = [''.intel_syntax noprefix'', ''call callee # go'', ''.att_syntax'']"
    by (simp add: assembled_def uses_intel_def hash_comment_def)
  then show ?thesis
    using global_asm_roundtrip [OF t, of ?target sample_cx] lines
    by (auto simp: trim_def is_whitespace_def)
qed



section \<open>What the findings rest on\<close>

text \<open>
  The declaration of a static with pointers does not depend on the alignment its allocation
  asks for.
\<close>

lemma static_alignment_dropped:
  "al_ptrs init \<noteq> [] \<Longrightarrow> al_bytes init \<noteq> [] \<Longrightarrow>
   static_init_decl n tcx i (init\<lparr>al_align := a\<rparr>) cx = static_init_decl n tcx i init cx"
  by (simp add: static_init_decl_def Let_def)

end
